(* ===== verification/Prelude.thy ===== *)
theory Prelude
  imports Main "HOL-Library.AList"
begin

text \<open>
  Shared vocabulary of the development: results of fallible Python code as values of a sum
  type, the two loop shapes that recur in the sources (a \<open>for\<close> loop over candidates that
  continues, returns or raises), decimal printing and parsing of integers, and the few
  string operations the sources use (\<open>str.split\<close>, \<open>str.strip\<close>, \<open>str.lower\<close>, \dots).
  Python strings are modelled as \<^typ>\<open>string\<close> (lists of 8-bit characters), dictionaries as
  association lists in insertion order.
\<close>

named_theorems result_iff \<open>when a result is \<open>Inr\<close>: inversion rules for fallible code\<close>

section \<open>Results\<close>

definition rbind :: "'e + 'a \<Rightarrow> ('a \<Rightarrow> 'e + 'b) \<Rightarrow> 'e + 'b" where
  "rbind m f = (case m of Inl e \<Rightarrow> Inl e | Inr x \<Rightarrow> f x)"

lemma rbind_simps [simp]:
  "rbind (Inl e) f = Inl e"
  "rbind (Inr x) f = f x"
  by (simp_all add: rbind_def)

lemma rbind_assoc: "rbind (rbind m f) g = rbind m (\<lambda>x. rbind (f x) g)"
  by (cases m) simp_all

lemma rbind_Inr_iff [result_iff]:
  "rbind m f = Inr y \<longleftrightarrow> (\<exists>x. m = Inr x \<and> f x = Inr y)"
  by (cases m) simp_all

lemma rbind_Inl_iff [result_iff]:
  "rbind m f = Inl e \<longleftrightarrow> m = Inl e \<or> (\<exists>x. m = Inr x \<and> f x = Inl e)"
  by (cases m) simp_all

text \<open>\<open>if c: raise e\<close>\<close>

definition raise_if :: "bool \<Rightarrow> 'e \<Rightarrow> 'e + unit" where
  "raise_if c e = (if c then Inl e else Inr ())"

lemma raise_if_simps [simp]:
  "raise_if True e = Inl e"
  "raise_if False e = Inr ()"
  by (simp_all add: raise_if_def)

lemma raise_if_Inr_iff [result_iff]: "raise_if c e = Inr u \<longleftrightarrow> \<not> c"
  by (simp add: raise_if_def)

lemma raise_if_Inl_iff [result_iff]: "raise_if c e = Inl e' \<longleftrightarrow> c \<and> e' = e"
  by (auto simp: raise_if_def)

lemma if_raise_Inr_iff [result_iff]:
  "(if c then Inl e else m) = Inr x \<longleftrightarrow> \<not> c \<and> m = Inr x"
  by simp

definition succeeds :: "'e + 'a \<Rightarrow> bool" where
  "succeeds m \<longleftrightarrow> (case m of Inl _ \<Rightarrow> False | Inr _ \<Rightarrow> True)"

lemma succeeds_iff: "succeeds m \<longleftrightarrow> (\<exists>x. m = Inr x)"
  by (cases m) (simp_all add: succeeds_def)

lemma succeeds_simps [simp]:
  "succeeds (Inr x)"
  "\<not> succeeds (Inl e)"
  by (simp_all add: succeeds_def)

section \<open>Search loops\<close>

text \<open>
  A \<open>for candidate in candidates\<close> loop whose body either raises (\<open>Inl\<close>), continues with
  the next candidate (\<open>Inr None\<close>) or returns (\<open>Inr (Some v)\<close>).
\<close>

fun scan_list :: "('a \<Rightarrow> 'e + 'b option) \<Rightarrow> 'a list \<Rightarrow> 'e + 'b option" where
  "scan_list f [] = Inr None"
| "scan_list f (x # xs) =
     (case f x of Inl e \<Rightarrow> Inl e | Inr (Some v) \<Rightarrow> Inr (Some v) | Inr None \<Rightarrow> scan_list f xs)"

text \<open>The same loop over \<open>range(lo, hi + 1)\<close>, evaluated lazily as Python's \<open>range\<close> is.\<close>

function scan_range :: "(int \<Rightarrow> 'e + 'b option) \<Rightarrow> int \<Rightarrow> int \<Rightarrow> 'e + 'b option" where
  "scan_range f lo hi =
     (if hi < lo then Inr None
      else case f lo of
        Inl e \<Rightarrow> Inl e
      | Inr (Some v) \<Rightarrow> Inr (Some v)
      | Inr None \<Rightarrow> scan_range f (lo + 1) hi)"
  by pat_completeness auto
termination
  by (relation "measure (\<lambda>(f, lo, hi). nat (hi + 1 - lo))") auto

declare scan_range.simps [simp del]

lemma scan_range_eq_scan_list: "scan_range f lo hi = scan_list f [lo..hi]"
proof (induction f lo hi rule: scan_range.induct)
  case (1 f lo hi)
  show ?case
  proof (cases "hi < lo")
    case True
    then show ?thesis by (simp add: scan_range.simps)
  next
    case False
    then have "[lo..hi] = lo # [lo + 1..hi]"
      by (simp add: upto_rec1)
    with False "1.IH" show ?thesis
      by (simp add: scan_range.simps [of f lo hi] split: sum.split option.split)
  qed
qed

lemma scan_list_Some_D:
  "scan_list f xs = Inr (Some v) \<Longrightarrow> \<exists>x\<in>set xs. f x = Inr (Some v)"
  by (induction xs) (auto split: sum.splits option.splits)

lemma scan_list_Some_split:
  "scan_list f xs = Inr (Some v) \<Longrightarrow>
     \<exists>ys x zs. xs = ys @ x # zs \<and> f x = Inr (Some v) \<and> (\<forall>y\<in>set ys. f y = Inr None)"
proof (induction xs)
  case Nil
  then show ?case by simp
next
  case (Cons a xs)
  show ?case
  proof (cases "f a = Inr (Some v)")
    case True
    then show ?thesis by (intro exI [of _ "[]"] exI [of _ a] exI [of _ xs]) simp
  next
    case False
    with Cons.prems have a: "f a = Inr None" and "scan_list f xs = Inr (Some v)"
      by (auto split: sum.splits option.splits)
    then obtain ys x zs where "xs = ys @ x # zs" "f x = Inr (Some v)" "\<forall>y\<in>set ys. f y = Inr None"
      using Cons.IH by blast
    with a show ?thesis by (intro exI [of _ "a # ys"]) auto
  qed
qed

lemma scan_list_None_iff:
  "scan_list f xs = Inr None \<longleftrightarrow> (\<forall>x\<in>set xs. f x = Inr None)"
  by (induction xs) (auto split: sum.splits option.splits)

lemma scan_list_Inl_D:
  "scan_list f xs = Inl e \<Longrightarrow> \<exists>x\<in>set xs. f x = Inl e"
  by (induction xs) (auto split: sum.splits option.splits)

lemma scan_range_Some_D:
  "scan_range f lo hi = Inr (Some v) \<Longrightarrow> \<exists>x. lo \<le> x \<and> x \<le> hi \<and> f x = Inr (Some v)"
  unfolding scan_range_eq_scan_list by (drule scan_list_Some_D) auto

lemma scan_range_None_iff:
  "scan_range f lo hi = Inr None \<longleftrightarrow> (\<forall>x. lo \<le> x \<and> x \<le> hi \<longrightarrow> f x = Inr None)"
  unfolding scan_range_eq_scan_list by (auto simp: scan_list_None_iff)

lemma scan_range_Inl_D:
  "scan_range f lo hi = Inl e \<Longrightarrow> \<exists>x. lo \<le> x \<and> x \<le> hi \<and> f x = Inl e"
  unfolding scan_range_eq_scan_list by (drule scan_list_Inl_D) auto

lemma scan_range_Some_least:
  assumes "scan_range f lo hi = Inr (Some v)"
  shows "\<exists>x. lo \<le> x \<and> x \<le> hi \<and> f x = Inr (Some v) \<and> (\<forall>y. lo \<le> y \<and> y < x \<longrightarrow> f y = Inr None)"
proof -
  obtain ys x zs where split: "[lo..hi] = ys @ x # zs" and x: "f x = Inr (Some v)"
      and before: "\<forall>y\<in>set ys. f y = Inr None"
    using scan_list_Some_split [OF assms [unfolded scan_range_eq_scan_list]] by blast
  have mem: "set [lo..hi] = set ys \<union> {x} \<union> set zs" by (simp only: split) auto
  have bounds: "lo \<le> x" "x \<le> hi" using mem by auto
  have "sorted_wrt (<) (ys @ x # zs)"
    using sorted_wrt_upto [of lo hi] by (simp only: split)
  then have above: "\<forall>z\<in>set zs. x < z" by (simp add: sorted_wrt_append)
  have "f y = Inr None" if "lo \<le> y" "y < x" for y
  proof -
    have "y \<in> set [lo..hi]" using that bounds by simp
    then have "y \<in> set ys \<union> {x} \<union> set zs" by (simp only: mem)
    then have "y \<in> set ys" using above that by auto
    with before show ?thesis by blast
  qed
  with bounds x show ?thesis by blast
qed

lemma find_upto_least:
  "find P [lo..hi] = Some i \<longleftrightarrow> lo \<le> i \<and> i \<le> hi \<and> P i \<and> (\<forall>j. lo \<le> j \<and> j < i \<longrightarrow> \<not> P j)"
proof -
  have nth: "[lo..hi] ! k = lo + int k" if "k < length [lo..hi]" for k
    using that by (intro nth_upto) (simp add: length_upto)
  show ?thesis
  proof
    assume "find P [lo..hi] = Some i"
    then obtain k where k: "k < length [lo..hi]" "P ([lo..hi] ! k)" "i = [lo..hi] ! k"
      "\<forall>j<k. \<not> P ([lo..hi] ! j)" by (auto simp: find_Some_iff)
    have "\<not> P j" if "lo \<le> j" "j < i" for j
    proof -
      have *: "nat (j - lo) < k" using k(1,3) that nth by auto
      then have "\<not> P ([lo..hi] ! nat (j - lo))" using k(4) by blast
      then show ?thesis using nth [of "nat (j - lo)"] * k(1) that by simp
    qed
    with k nth show "lo \<le> i \<and> i \<le> hi \<and> P i \<and> (\<forall>j. lo \<le> j \<and> j < i \<longrightarrow> \<not> P j)" by auto
  next
    assume i: "lo \<le> i \<and> i \<le> hi \<and> P i \<and> (\<forall>j. lo \<le> j \<and> j < i \<longrightarrow> \<not> P j)"
    then show "find P [lo..hi] = Some i"
      unfolding find_Some_iff using nth by (intro exI [of _ "nat (i - lo)"]) auto
  qed
qed

lemma scan_range_available:
  assumes "\<And>i. lo \<le> i \<Longrightarrow> i \<le> hi \<Longrightarrow> f i = (if ok i then Inr (Some (g i)) else Inr None)"
  shows "scan_range f lo hi = Inr (map_option g (find ok [lo..hi]))"
proof -
  have "scan_list f xs = Inr (map_option g (find ok xs))" if "set xs \<subseteq> {lo..hi}" for xs
    using that by (induction xs) (auto simp: assms)
  then show ?thesis by (simp add: scan_range_eq_scan_list)
qed

section \<open>Association lists as insertion-ordered dictionaries\<close>

text \<open>
  \<^const>\<open>AList.update\<close> overwrites in place or appends at the end, as \<open>d[k] = v\<close> does;
  \<^const>\<open>AList.delete\<close> is \<open>d.pop(k, None)\<close>. Their characteristic equations as functions.
\<close>

lemmas dict_simps [simp] = update_conv' delete_conv'

abbreviation keys_distinct :: "('k \<times> 'v) list \<Rightarrow> bool" where
  "keys_distinct d \<equiv> distinct (map fst d)"

lemma keys_distinct_update [simp]: "keys_distinct d \<Longrightarrow> keys_distinct (AList.update k v d)"
  by (rule distinct_update)

lemma keys_distinct_delete [simp]: "keys_distinct d \<Longrightarrow> keys_distinct (AList.delete k d)"
  by (rule distinct_delete)

lemma map_of_values: "keys_distinct d \<Longrightarrow> v \<in> snd ` set d \<longleftrightarrow> (\<exists>k. map_of d k = Some v)"
  by (force simp: map_of_eq_Some_iff image_iff)

section \<open>Decimal numbers\<close>

definition digit_char :: "nat \<Rightarrow> char" where
  "digit_char d = char_of (48 + d)"

definition is_digit :: "char \<Rightarrow> bool" where
  "is_digit c \<longleftrightarrow> 48 \<le> (of_char c :: nat) \<and> (of_char c :: nat) \<le> 57"

definition digit_val :: "char \<Rightarrow> nat" where
  "digit_val c = of_char c - 48"

text \<open>\<open>str(n)\<close> for a non-negative integer.\<close>

fun string_of_nat :: "nat \<Rightarrow> string" where
  "string_of_nat n =
     (if n < 10 then [digit_char n] else string_of_nat (n div 10) @ [digit_char (n mod 10)])"

declare string_of_nat.simps [simp del]

definition string_of_int :: "int \<Rightarrow> string" where
  "string_of_int i = (if i < 0 then ''-'' @ string_of_nat (nat (- i)) else string_of_nat (nat i))"

text \<open>\<open>int(s)\<close> for a non-empty string of ASCII digits.\<close>

definition nat_of_string :: "string \<Rightarrow> nat" where
  "nat_of_string s = foldl (\<lambda>n c. n * 10 + digit_val c) 0 s"

lemma digit_char_digit [simp]: "d < 10 \<Longrightarrow> is_digit (digit_char d)"
  by (simp add: digit_char_def is_digit_def)

lemma digit_char_zero [simp]: "digit_char 0 = CHR ''0''"
  by (simp add: digit_char_def) code_simp

lemma digit_val_digit_char [simp]: "d < 10 \<Longrightarrow> digit_val (digit_char d) = d"
  by (simp add: digit_char_def digit_val_def)

lemma digit_char_digit_val [simp]: "is_digit c \<Longrightarrow> digit_char (digit_val c) = c"
  by (simp add: is_digit_def digit_char_def digit_val_def)

lemma digit_val_less [simp]: "is_digit c \<Longrightarrow> digit_val c < 10"
  by (auto simp: is_digit_def digit_val_def)

lemma string_of_nat_digits: "c \<in> set (string_of_nat n) \<Longrightarrow> is_digit c"
proof (induction n rule: string_of_nat.induct)
  case (1 n)
  then show ?case
    by (cases "n < 10") (auto simp: string_of_nat.simps [of n])
qed

lemma string_of_nat_neq_Nil [simp]: "string_of_nat n \<noteq> []"
  by (subst string_of_nat.simps) simp

lemma nat_of_string_snoc: "nat_of_string (s @ [c]) = nat_of_string s * 10 + digit_val c"
  by (simp add: nat_of_string_def)

lemma nat_of_string_of_nat [simp]: "nat_of_string (string_of_nat n) = n"
proof (induction n rule: string_of_nat.induct)
  case (1 n)
  show ?case
  proof (cases "n < 10")
    case True
    then show ?thesis by (simp add: string_of_nat.simps [of n] nat_of_string_def)
  next
    case False
    with "1.IH" show ?thesis
      by (simp add: string_of_nat.simps [of n] nat_of_string_snoc)
  qed
qed

lemma string_of_nat_inject [simp]: "string_of_nat m = string_of_nat n \<longleftrightarrow> m = n"
  by (metis nat_of_string_of_nat)

section \<open>Strings\<close>

text \<open>\<open>s.split(c)\<close> for a one-character separator: never empty.\<close>

fun split_on :: "char \<Rightarrow> string \<Rightarrow> string list" where
  "split_on c [] = [[]]"
| "split_on c (x # xs) =
     (if x = c then [] # split_on c xs
      else case split_on c xs of [] \<Rightarrow> [[x]] | y # ys \<Rightarrow> (x # y) # ys)"

text \<open>\<open>sep.join(parts)\<close>\<close>

fun join_on :: "string \<Rightarrow> string list \<Rightarrow> string" where
  "join_on sep [] = []"
| "join_on sep [x] = x"
| "join_on sep (x # y # ys) = x @ sep @ join_on sep (y # ys)"

lemma split_on_neq_Nil [simp]: "split_on c s \<noteq> []"
  by (induction s) (auto split: list.splits)

lemma split_on_no_sep: "c \<notin> set s \<Longrightarrow> split_on c s = [s]"
  by (induction s) auto

lemma split_on_append_sep: "c \<notin> set s \<Longrightarrow> split_on c (s @ c # t) = s # split_on c t"
  by (induction s) auto

lemma join_on_Cons: "ys \<noteq> [] \<Longrightarrow> join_on sep (x # ys) = x @ sep @ join_on sep ys"
  by (cases ys) auto

lemma join_on_prepend:
  "join_on sep ((x # y) # ys) = x # join_on sep (y # ys)"
  by (cases ys) auto

lemma join_split_on: "join_on [c] (split_on c s) = s"
proof (induction s)
  case Nil
  then show ?case by simp
next
  case (Cons x s)
  obtain y ys where ys: "split_on c s = y # ys"
    using split_on_neq_Nil by (meson neq_Nil_conv)
  with Cons.IH show ?case
    by (simp add: join_on_Cons join_on_prepend)
qed

lemma split_on_parts_no_sep: "p \<in> set (split_on c s) \<Longrightarrow> c \<notin> set p"
  by (induction s arbitrary: p) (auto split: list.splits if_splits)

text \<open>\<open>str.isspace\<close>, \<open>str.strip\<close>, \<open>str.rstrip(chars)\<close>, and the case mappings on ASCII letters.\<close>

definition is_space :: "char \<Rightarrow> bool" where
  "is_space c \<longleftrightarrow> (of_char c :: nat) \<in> {9, 10, 11, 12, 13, 28, 29, 30, 31, 32, 133, 160}"

definition lstrip :: "string \<Rightarrow> string" where
  "lstrip s = dropWhile is_space s"

definition rstrip_chars :: "(char \<Rightarrow> bool) \<Rightarrow> string \<Rightarrow> string" where
  "rstrip_chars p s = rev (dropWhile p (rev s))"

definition strip :: "string \<Rightarrow> string" where
  "strip s = rstrip_chars is_space (lstrip s)"

definition lower_char :: "char \<Rightarrow> char" where
  "lower_char c =
     (if 65 \<le> (of_char c :: nat) \<and> (of_char c :: nat) \<le> 90 then char_of ((of_char c :: nat) + 32) else c)"

definition upper_char :: "char \<Rightarrow> char" where
  "upper_char c =
     (if 97 \<le> (of_char c :: nat) \<and> (of_char c :: nat) \<le> 122 then char_of ((of_char c :: nat) - 32) else c)"

definition lower :: "string \<Rightarrow> string" where
  "lower s = map lower_char s"

definition upper :: "string \<Rightarrow> string" where
  "upper s = map upper_char s"

definition starts_with :: "string \<Rightarrow> string \<Rightarrow> bool" where
  "starts_with p s \<longleftrightarrow> take (length p) s = p"

definition ends_with :: "string \<Rightarrow> string \<Rightarrow> bool" where
  "ends_with p s \<longleftrightarrow> starts_with (rev p) (rev s)"

lemma rstrip_chars_decomp: "\<exists>t. s = rstrip_chars p s @ t \<and> (\<forall>c\<in>set t. p c)"
proof -
  let ?t = "rev (takeWhile p (rev s))"
  have "rstrip_chars p s @ ?t = s" by (simp add: rstrip_chars_def flip: rev_append)
  moreover have "\<forall>c\<in>set ?t. p c" by (auto dest: set_takeWhileD)
  ultimately show ?thesis by metis
qed

lemma set_rstrip_chars: "set (rstrip_chars p s) \<subseteq> set s"
  by (auto simp: rstrip_chars_def dest: set_dropWhileD)

lemma rstrip_chars_last: "rstrip_chars p s \<noteq> [] \<Longrightarrow> \<not> p (last (rstrip_chars p s))"
proof -
  assume "rstrip_chars p s \<noteq> []"
  then have "dropWhile p (rev s) \<noteq> []" by (simp add: rstrip_chars_def)
  then show ?thesis by (simp add: rstrip_chars_def last_rev hd_dropWhile)
qed

lemma set_strip: "set (strip s) \<subseteq> set s"
  using set_rstrip_chars [of is_space "lstrip s"]
  by (auto simp: strip_def lstrip_def dest!: set_dropWhileD)

lemma pred_option_code [code]: "pred_option P None \<longleftrightarrow> True" "pred_option P (Some x) \<longleftrightarrow> P x"
  by simp_all

end
