(* ===== verification/Ip_Pool.thy ===== *)
theory Ip_Pool
  imports Prelude
begin

unbundle bit_operations_syntax

text \<open>
  The address pool of \<open>storage/_base.py\<close>: guest addresses in \<open>172.16.0.0/16\<close> are derived
  from a pool index, and an address is accepted only in its canonical spelling. The theory
  shows that the two conversions are inverse to each other on the whole pool, in both
  directions, so that a lease tracked by its text is a lease of exactly one index.
\<close>

section \<open>Pool bounds\<close>

definition IP_POOL_START :: int where "IP_POOL_START = 2"
definition IP_POOL_END :: int where "IP_POOL_END = 65534"
definition SSH_PORT_START :: int where "SSH_PORT_START = 2200"
definition SSH_PORT_END :: int where "SSH_PORT_END = 65535"
definition VSOCK_CID_START :: int where "VSOCK_CID_START = 3"
definition VSOCK_CID_END :: int where "VSOCK_CID_END = 1000000"

lemmas pool_bounds =
  IP_POOL_START_def IP_POOL_END_def SSH_PORT_START_def SSH_PORT_END_def
  VSOCK_CID_START_def VSOCK_CID_END_def

datatype ip_error =
    IndexOutOfRange int
  | InvalidIPv4 string
  | OutsidePool string

section \<open>Index to address\<close>

definition pool_index_to_ip :: "int \<Rightarrow> ip_error + string" where
  "pool_index_to_ip index =
     (if index < 0 \<or> index > 65535 then Inl (IndexOutOfRange index)
      else Inr (''172.16.'' @ string_of_int (drop_bit 8 index) @ ''.'' @ string_of_int (index AND 255)))"

section \<open>Address to index\<close>

text \<open>The regular expression \<open>(?:0|[1-9][0-9]{0,2})\Z\<close> matched at the start of the part.\<close>

definition canonical_octet :: "string \<Rightarrow> bool" where
  "canonical_octet s \<longleftrightarrow>
     s = ''0'' \<or>
     (case s of [] \<Rightarrow> False
      | c # cs \<Rightarrow> is_digit c \<and> c \<noteq> CHR ''0'' \<and> length cs \<le> 2 \<and> list_all is_digit cs)"

definition ip_to_pool_index :: "string \<Rightarrow> ip_error + int" where
  "ip_to_pool_index ip =
     (let parts = split_on (CHR ''.'') ip in
      if length parts \<noteq> 4 \<or> \<not> list_all canonical_octet parts then Inl (InvalidIPv4 ip)
      else
        let octets = map (\<lambda>p. int (nat_of_string p)) parts;
            first = octets ! 0; second = octets ! 1; third = octets ! 2; fourth = octets ! 3
        in
        if \<not> list_all (\<lambda>octet. 0 \<le> octet \<and> octet \<le> 255) octets then Inl (InvalidIPv4 ip)
        else if (first, second) \<noteq> (172, 16) then Inl (OutsidePool ip)
        else Inr (push_bit 8 third OR fourth))"

section \<open>Canonical octets are the decimal spellings\<close>

lemma digit_dot: "is_digit c \<Longrightarrow> c \<noteq> CHR ''.''"
  by (auto simp: is_digit_def)

lemma string_of_nat_no_dot: "CHR ''.'' \<notin> set (string_of_nat n)"
  using string_of_nat_digits digit_dot by blast

lemma nat_of_string_lower:
  assumes "is_digit c" "c \<noteq> CHR ''0''"
  shows "10 ^ length cs \<le> nat_of_string (c # cs)"
proof (induction cs rule: rev_induct)
  case Nil
  have "digit_val c \<noteq> 0"
  proof
    assume "digit_val c = 0"
    with assms(1) have "c = digit_char 0" using digit_char_digit_val by metis
    then show False using assms(2) by simp
  qed
  then show ?case by (simp add: nat_of_string_def)
next
  case (snoc d cs)
  then show ?case using nat_of_string_snoc [of "c # cs" d] by simp
qed

lemma string_of_nat_of_canonical:
  assumes "is_digit c" "c \<noteq> CHR ''0''" "list_all is_digit cs"
  shows "string_of_nat (nat_of_string (c # cs)) = c # cs"
  using assms(3)
proof (induction cs rule: rev_induct)
  case Nil
  then show ?case using assms(1)
    by (subst string_of_nat.simps) (simp add: nat_of_string_def)
next
  case (snoc d cs)
  let ?n = "nat_of_string (c # cs)"
  have d: "is_digit d" and IH: "string_of_nat ?n = c # cs" using snoc by simp_all
  have "1 \<le> ?n" using nat_of_string_lower [OF assms(1,2), of cs]
    by (meson one_le_power order_trans one_le_numeral)
  then have "\<not> ?n * 10 + digit_val d < 10" by simp
  moreover have "(?n * 10 + digit_val d) div 10 = ?n" "(?n * 10 + digit_val d) mod 10 = digit_val d"
    using digit_val_less [OF d] by simp_all
  ultimately have "string_of_nat (?n * 10 + digit_val d) = string_of_nat ?n @ [digit_char (digit_val d)]"
    by (subst string_of_nat.simps) simp
  then show ?case using IH d nat_of_string_snoc [of "c # cs" d] by simp
qed

lemma string_of_nat_canonical_octet:
  assumes "canonical_octet s"
  shows "string_of_nat (nat_of_string s) = s"
proof (cases "s = ''0''")
  case True
  have "nat_of_string ''0'' = 0" by (simp add: nat_of_string_def digit_val_def)
  with True show ?thesis by (subst string_of_nat.simps) simp
next
  case False
  with assms obtain c cs where "s = c # cs" "is_digit c" "c \<noteq> CHR ''0''" "list_all is_digit cs"
    by (auto simp: canonical_octet_def split: list.splits)
  then show ?thesis using string_of_nat_of_canonical by simp
qed

lemma hd_string_of_nat: "n > 0 \<Longrightarrow> hd (string_of_nat n) \<noteq> CHR ''0''"
proof (induction n rule: string_of_nat.induct)
  case (1 n)
  show ?case
  proof (cases "n < 10")
    case True
    have "digit_char n \<noteq> digit_char 0"
      using True 1 digit_val_digit_char by (metis neq0_conv zero_less_numeral)
    with True show ?thesis by (simp add: string_of_nat.simps [of n])
  next
    case False
    with "1.IH" show ?thesis by (simp add: string_of_nat.simps [of n])
  qed
qed

lemma length_string_of_nat: "n < 1000 \<Longrightarrow> length (string_of_nat n) \<le> 3"
  by (subst string_of_nat.simps, subst string_of_nat.simps, subst string_of_nat.simps) auto

lemma canonical_octet_string_of_nat:
  assumes "n < 1000"
  shows "canonical_octet (string_of_nat n)"
proof (cases "n = 0")
  case True
  then show ?thesis by (subst string_of_nat.simps) (simp add: canonical_octet_def)
next
  case False
  obtain c cs where s: "string_of_nat n = c # cs" by (meson string_of_nat_neq_Nil neq_Nil_conv)
  have "is_digit c" "list_all is_digit cs"
    using string_of_nat_digits [of _ n] s by (auto simp: list_all_iff)
  moreover have "c \<noteq> CHR ''0''" using hd_string_of_nat [of n] False s by simp
  moreover have "length cs \<le> 2" using length_string_of_nat [OF assms] s by simp
  ultimately show ?thesis by (simp add: canonical_octet_def s)
qed

section \<open>Octets and indices\<close>

lemma octets_of_index:
  fixes i :: int
  shows "drop_bit 8 i = i div 256" "i AND 255 = i mod 256"
proof -
  have "i AND 255 = take_bit 8 i" by (simp add: take_bit_eq_mask mask_eq_exp_minus_1)
  then show "i AND 255 = i mod 256" by (simp add: take_bit_eq_mod)
qed (simp add: drop_bit_eq_div)

lemma index_of_octets:
  fixes a b :: int
  assumes "0 \<le> b" "b \<le> 255"
  shows "push_bit 8 a OR b = a * 256 + b"
proof -
  have b: "take_bit 8 b = b" using assms by (simp add: take_bit_eq_mod)
  have "push_bit 8 a OR b = concat_bit 8 b a" by (simp add: concat_bit_def b or.commute)
  also have "\<dots> = a * 256 + b" by (simp add: concat_bit_eq b push_bit_eq_mult)
  finally show ?thesis .
qed

section \<open>The two conversions are inverse\<close>

definition dotted :: "string \<Rightarrow> string \<Rightarrow> string \<Rightarrow> string \<Rightarrow> string" where
  "dotted a b c d = a @ ''.'' @ b @ ''.'' @ c @ ''.'' @ d"

lemma split_dotted:
  assumes "CHR ''.'' \<notin> set a" "CHR ''.'' \<notin> set b" "CHR ''.'' \<notin> set c" "CHR ''.'' \<notin> set d"
  shows "split_on (CHR ''.'') (dotted a b c d) = [a, b, c, d]"
  using assms by (simp add: dotted_def split_on_append_sep split_on_no_sep)

lemma string_of_172_16: "string_of_nat 172 = ''172''" "string_of_nat 16 = ''16''"
  by code_simp+

lemma pool_index_to_ip_dotted:
  assumes "0 \<le> i" "i \<le> 65535"
  shows "pool_index_to_ip i =
    Inr (dotted (string_of_nat 172) (string_of_nat 16)
           (string_of_nat (nat (i div 256))) (string_of_nat (nat (i mod 256))))"
  using assms
  by (simp add: pool_index_to_ip_def octets_of_index string_of_int_def dotted_def string_of_172_16
      pos_imp_zdiv_neg_iff)

lemma ip_to_pool_index_dotted:
  assumes "a < 1000" "b < 1000" "c < 1000" "d < 1000"
  shows "ip_to_pool_index (dotted (string_of_nat a) (string_of_nat b) (string_of_nat c) (string_of_nat d)) =
    (let ip = dotted (string_of_nat a) (string_of_nat b) (string_of_nat c) (string_of_nat d) in
     if a > 255 \<or> b > 255 \<or> c > 255 \<or> d > 255 then Inl (InvalidIPv4 ip)
     else if (a, b) \<noteq> (172, 16) then Inl (OutsidePool ip)
     else Inr (int c * 256 + int d))"
  using assms
  by (auto simp: ip_to_pool_index_def Let_def split_dotted string_of_nat_no_dot
      canonical_octet_string_of_nat index_of_octets)

lemma ip_to_pool_index_Inr_D:
  assumes "ip_to_pool_index ip = Inr i"
  obtains c d where "c \<le> 255" "d \<le> 255" "i = int c * 256 + int d"
    "ip = dotted (string_of_nat 172) (string_of_nat 16) (string_of_nat c) (string_of_nat d)"
proof -
  let ?ps = "split_on (CHR ''.'') ip"
  have ps4: "length ?ps = 4" and canon: "list_all canonical_octet ?ps"
    using assms by (auto simp: ip_to_pool_index_def Let_def split: if_splits)
  then obtain pa pb pc pd where ps: "?ps = [pa, pb, pc, pd]"
    by (auto simp: numeral_eq_Suc length_Suc_conv)
  have vals: "nat_of_string pa = 172" "nat_of_string pb = 16" "nat_of_string pc \<le> 255"
      "nat_of_string pd \<le> 255" "i = int (nat_of_string pc) * 256 + int (nat_of_string pd)"
    using assms ps
    by (auto simp: ip_to_pool_index_def Let_def index_of_octets split: if_splits)
  have strs: "string_of_nat (nat_of_string p) = p" if "p \<in> set [pa, pb, pc, pd]" for p
    using that canon ps string_of_nat_canonical_octet by auto
  have "ip = join_on ''.'' [pa, pb, pc, pd]"
    using join_split_on [of "CHR ''.''" ip] ps by simp
  then have "ip = dotted pa pb pc pd" by (simp add: dotted_def)
  then have "ip = dotted (string_of_nat 172) (string_of_nat 16)
      (string_of_nat (nat_of_string pc)) (string_of_nat (nat_of_string pd))"
    using strs [of pa] strs [of pb] strs [of pc] strs [of pd] vals by simp
  with vals show ?thesis using that by blast
qed

lemma pool_index_to_ip_Inr_bounds:
  "pool_index_to_ip i = Inr ip \<Longrightarrow> 0 \<le> i \<and> i \<le> 65535"
  by (auto simp: pool_index_to_ip_def split: if_splits)

lemma pool_index_to_ip_back:
  assumes "pool_index_to_ip i = Inr ip"
  shows "ip_to_pool_index ip = Inr i"
proof -
  have i: "0 \<le> i" "i \<le> 65535" using pool_index_to_ip_Inr_bounds [OF assms] by simp_all
  let ?c = "nat (i div 256)" and ?d = "nat (i mod 256)"
  have "i div 256 \<le> 255" using i by simp
  then have c: "?c \<le> 255" and cnn: "0 \<le> i div 256" using i by auto
  have d: "?d \<le> 255" by (simp add: nat_le_iff)
  have "int ?c * 256 + int ?d = i" using cnn by simp
  then show ?thesis
    using assms c d ip_to_pool_index_dotted [of 172 16 ?c ?d]
    by (simp add: pool_index_to_ip_dotted [OF i] Let_def)
qed

lemma ip_to_pool_index_back:
  assumes "ip_to_pool_index ip = Inr i"
  shows "pool_index_to_ip i = Inr ip"
proof -
  obtain c d where cd: "c \<le> 255" "d \<le> 255" and i: "i = int c * 256 + int d"
    and ip: "ip = dotted (string_of_nat 172) (string_of_nat 16) (string_of_nat c) (string_of_nat d)"
    using ip_to_pool_index_Inr_D [OF assms] by blast
  have bounds: "0 \<le> i" "i \<le> 65535" using cd i by linarith+
  have "i div 256 = int c" "i mod 256 = int d" using cd i by auto
  then show ?thesis by (simp add: pool_index_to_ip_dotted [OF bounds] ip)
qed

text \<open>
  The two conversions of \<open>storage/_base.py\<close> are inverse to each other: an address text is
  accepted with index \<open>i\<close> exactly when it is the text \<open>pool_index_to_ip\<close> prints for \<open>i\<close>.
  In particular no two spellings of an address share an index, which is why
  the code insists on canonical octets.
\<close>

theorem pool_index_ip_bijection:
  "ip_to_pool_index ip = Inr i \<longleftrightarrow> pool_index_to_ip i = Inr ip"
  using pool_index_to_ip_back ip_to_pool_index_back by blast

lemma pool_index_to_ip_inject:
  "pool_index_to_ip i = Inr ip \<Longrightarrow> pool_index_to_ip j = Inr ip \<Longrightarrow> i = j"
  by (drule pool_index_to_ip_back, drule pool_index_to_ip_back) simp

lemma pool_index_to_ip_succeeds: "0 \<le> i \<Longrightarrow> i \<le> 65535 \<Longrightarrow> \<exists>ip. pool_index_to_ip i = Inr ip"
  by (simp add: pool_index_to_ip_def)

end
