(* ===== verification/Allocator.thy ===== *)
theory Allocator
  imports Prelude
begin

text \<open>
  The contract that both state managers offer for every pooled resource (guest addresses, SSH
  host ports, vsock context identifiers, TAP names): \<open>reserve\<close> is idempotent per computer,
  hands out only values nobody holds, refuses a request that contradicts an existing
  reservation, and neither operation touches another computer's reservation. \<open>asked\<close> says which
  requested values count as a request (the SQLite manager reads an empty address as no
  request). What clients
  need, that no sequence of calls ever gives one value to two computers, is proved here
  once, from the contract.
\<close>

section \<open>Exclusive ownership\<close>

definition exclusive :: "(string \<Rightarrow> 'v option) \<Rightarrow> bool" where
  "exclusive held \<longleftrightarrow> (\<forall>a b v. held a = Some v \<longrightarrow> held b = Some v \<longrightarrow> a = b)"

lemma exclusiveD: "exclusive held \<Longrightarrow> held a = Some v \<Longrightarrow> held b = Some v \<Longrightarrow> a = b"
  by (auto simp: exclusive_def)

lemma exclusive_empty [simp]: "exclusive (\<lambda>_. None)"
  by (simp add: exclusive_def)

lemma exclusive_release [simp]: "exclusive held \<Longrightarrow> exclusive (held(vm := None))"
  by (auto simp: exclusive_def)

lemma exclusive_grant:
  "exclusive held \<Longrightarrow> v \<notin> ran (held(vm := None)) \<Longrightarrow> exclusive (held(vm \<mapsto> v))"
  by (auto simp: exclusive_def ran_def split: if_splits)

section \<open>Sequences of calls\<close>

datatype 'v alloc_op = ReserveOp string "'v option" | ReleaseOp string

text \<open>A call that raises leaves the state as it was.\<close>

fun run_alloc ::
  "('s \<Rightarrow> string \<Rightarrow> 'v option \<Rightarrow> 'e + 'v \<times> 's) \<Rightarrow> ('s \<Rightarrow> string \<Rightarrow> 'e + 's) \<Rightarrow>
   's \<Rightarrow> 'v alloc_op list \<Rightarrow> 's" where
  "run_alloc reserve release s [] = s"
| "run_alloc reserve release s (ReserveOp vm req # ops) =
     run_alloc reserve release (case reserve s vm req of Inl _ \<Rightarrow> s | Inr (_, s') \<Rightarrow> s') ops"
| "run_alloc reserve release s (ReleaseOp vm # ops) =
     run_alloc reserve release (case release s vm of Inl _ \<Rightarrow> s | Inr s' \<Rightarrow> s') ops"

section \<open>The contract\<close>

locale allocator =
  fixes held :: "'s \<Rightarrow> string \<Rightarrow> 'v option"
    and reserve :: "'s \<Rightarrow> string \<Rightarrow> 'v option \<Rightarrow> 'e + 'v \<times> 's"
    and release :: "'s \<Rightarrow> string \<Rightarrow> 'e + 's"
    and asked :: "'v \<Rightarrow> bool"
  assumes reserve_held: "reserve s vm req = Inr (v, s') \<Longrightarrow> held s' = (held s)(vm \<mapsto> v)"
    and reserve_existing: "held s vm = Some v \<Longrightarrow> reserve s vm req = Inr (w, s') \<Longrightarrow> w = v"
    and reserve_fresh: "held s vm = None \<Longrightarrow> reserve s vm req = Inr (v, s') \<Longrightarrow> v \<notin> ran (held s)"
    and reserve_requested: "asked r \<Longrightarrow> reserve s vm (Some r) = Inr (v, s') \<Longrightarrow> v = r"
    and release_held: "release s vm = Inr s' \<Longrightarrow> held s' = (held s)(vm := None)"
begin

lemma reserve_other:
  "reserve s vm req = Inr (v, s') \<Longrightarrow> vm' \<noteq> vm \<Longrightarrow> held s' vm' = held s vm'"
  by (simp add: reserve_held)

lemma reserve_self: "reserve s vm req = Inr (v, s') \<Longrightarrow> held s' vm = Some v"
  by (simp add: reserve_held)

lemma reserve_conflict:
  "held s vm = Some v \<Longrightarrow> asked r \<Longrightarrow> r \<noteq> v \<Longrightarrow> \<exists>e. reserve s vm (Some r) = Inl e"
  by (cases "reserve s vm (Some r)") (auto dest: reserve_existing reserve_requested)

lemma reserve_taken:
  assumes "held s other = Some r" "vm \<noteq> other" "held s vm = None" "asked r"
  shows "\<exists>e. reserve s vm (Some r) = Inl e"
proof (cases "reserve s vm (Some r)")
  case (Inr p)
  then obtain v s' where p: "reserve s vm (Some r) = Inr (v, s')" by (cases p) auto
  then have "v = r" "v \<notin> ran (held s)"
    using reserve_requested reserve_fresh assms(3,4) by blast+
  with assms(1) show ?thesis by (auto simp: ran_def)
qed blast

lemma reserve_exclusive:
  assumes "exclusive (held s)" "reserve s vm req = Inr (v, s')"
  shows "exclusive (held s')"
proof (cases "held s vm")
  case None
  then have "v \<notin> ran (held s)" using assms(2) by (rule reserve_fresh)
  then have "v \<notin> ran ((held s)(vm := None))" by (auto simp: ran_def split: if_splits)
  then show ?thesis using assms by (simp add: reserve_held exclusive_grant)
next
  case (Some w)
  then have "w = v" using assms(2) reserve_existing by blast
  then have "held s' = held s" using Some assms(2) by (auto simp: reserve_held)
  then show ?thesis using assms(1) by simp
qed

lemma release_exclusive:
  "exclusive (held s) \<Longrightarrow> release s vm = Inr s' \<Longrightarrow> exclusive (held s')"
  by (simp add: release_held)

lemma run_exclusive:
  "exclusive (held s) \<Longrightarrow> exclusive (held (run_alloc reserve release s ops))"
proof (induction ops arbitrary: s)
  case Nil
  then show ?case by simp
next
  case (Cons opn ops)
  show ?case
  proof (cases opn)
    case (ReserveOp vm req)
    then show ?thesis
      using Cons by (auto split: sum.split intro: reserve_exclusive)
  next
    case (ReleaseOp vm)
    then show ?thesis
      using Cons by (auto split: sum.split intro: release_exclusive)
  qed
qed

lemma run_other:
  assumes "\<And>x req. ReserveOp x req \<in> set ops \<Longrightarrow> x \<noteq> vm" "\<And>x. ReleaseOp x \<in> set ops \<Longrightarrow> x \<noteq> vm"
  shows "held (run_alloc reserve release s ops) vm = held s vm"
  using assms
proof (induction ops arbitrary: s)
  case Nil
  then show ?case by simp
next
  case (Cons opn ops)
  have IH: "held (run_alloc reserve release t ops) vm = held t vm" for t
    by (rule Cons.IH) (use Cons.prems in auto)
  show ?case
  proof (cases opn)
    case (ReserveOp x req)
    then have "x \<noteq> vm" using Cons.prems(1) [of x req] by simp
    then show ?thesis
      using IH ReserveOp by (cases "reserve s x req") (auto simp: reserve_other)
  next
    case (ReleaseOp x)
    then have "x \<noteq> vm" using Cons.prems(2) [of x] by simp
    then show ?thesis
      using IH ReleaseOp by (cases "release s x") (auto simp: release_held)
  qed
qed

end

end
