(* ===== verification/Model_Types.thy ===== *)
theory Model_Types
  imports Prelude
begin

text \<open>
  The data model of \<open>types.py\<close> and \<open>exceptions.py\<close>: enumerations as datatypes, pydantic
  models as records with one field per source field (prefixed by the model's initials, since
  several models share field names), exceptions as a datatype with one constructor per class.
  An exception's message is abbreviated to a tag that names the \<open>raise\<close>; identifiers that
  the code passes as an argument are kept. File system paths and ISO 8601 timestamps are the
  strings the code prints for them; integers are unbounded, as in Python.
\<close>

section \<open>Exceptions\<close>

datatype celesto_error =
    CelestoError string
  | ValidationError string
  | VMAlreadyExistsError string
  | VMNotFoundError string
  | SnapshotAlreadyExistsError string
  | SnapshotNotFoundError string
  | BrowserSessionAlreadyExistsError string
  | BrowserSessionNotFoundError string
  | NetworkError string
  | BridgeTapOwnershipError string
  | PublicEgressSessionError string
  | VsockNotSupportedError string
  | OperationTimeoutError string
  | ValueError string
  | OSError string
  | IntegrityError string
  | AssertionError string
  | ProxyRequestError nat string
  | KeyboardInterrupt

text \<open>The subclass tests that the code's \<open>except\<close> clauses make.\<close>

fun is_network_error :: "celesto_error \<Rightarrow> bool" where
  "is_network_error (NetworkError _) = True"
| "is_network_error (BridgeTapOwnershipError _) = True"
| "is_network_error (PublicEgressSessionError _) = True"
| "is_network_error _ = False"

fun is_celesto_error :: "celesto_error \<Rightarrow> bool" where
  "is_celesto_error (ValueError _) = False"
| "is_celesto_error (OSError _) = False"
| "is_celesto_error (IntegrityError _) = False"
| "is_celesto_error (AssertionError _) = False"
| "is_celesto_error (ProxyRequestError _ _) = False"
| "is_celesto_error KeyboardInterrupt = False"
| "is_celesto_error _ = True"

text \<open>\<open>except Exception\<close> catches everything but \<open>KeyboardInterrupt\<close>.\<close>

definition is_exception :: "celesto_error \<Rightarrow> bool" where
  "is_exception e \<longleftrightarrow> e \<noteq> KeyboardInterrupt"

lemma network_error_is_celesto: "is_network_error e \<Longrightarrow> is_celesto_error e"
  by (cases e) simp_all

lemma celesto_error_is_exception: "is_celesto_error e \<Longrightarrow> is_exception e"
  by (cases e) (simp_all add: is_exception_def)

type_synonym 'a result = "celesto_error + 'a"

section \<open>Enumerations\<close>

datatype vm_state = VM_CREATED | VM_RUNNING | VM_PAUSED | VM_STOPPED | VM_ERROR

fun vm_state_value :: "vm_state \<Rightarrow> string" where
  "vm_state_value VM_CREATED = ''created''"
| "vm_state_value VM_RUNNING = ''running''"
| "vm_state_value VM_PAUSED = ''paused''"
| "vm_state_value VM_STOPPED = ''stopped''"
| "vm_state_value VM_ERROR = ''error''"

text \<open>\<open>VMState(raw)\<close>: looking an enumeration member up by its value.\<close>

definition VMState :: "string \<Rightarrow> vm_state result" where
  "VMState raw =
     (if raw = ''created'' then Inr VM_CREATED
      else if raw = ''running'' then Inr VM_RUNNING
      else if raw = ''paused'' then Inr VM_PAUSED
      else if raw = ''stopped'' then Inr VM_STOPPED
      else if raw = ''error'' then Inr VM_ERROR
      else Inl (ValueError ''not a valid VMState''))"

lemma VMState_value [simp]: "VMState (vm_state_value s) = Inr s"
  by (cases s) (simp_all add: VMState_def)

lemma vm_state_value_inject [simp]: "vm_state_value s = vm_state_value t \<longleftrightarrow> s = t"
  by (cases s; cases t) simp_all

datatype browser_session_state =
  BS_CREATED | BS_STARTING | BS_READY | BS_STOPPING | BS_ERROR | BS_DELETED

fun browser_session_state_value :: "browser_session_state \<Rightarrow> string" where
  "browser_session_state_value BS_CREATED = ''created''"
| "browser_session_state_value BS_STARTING = ''starting''"
| "browser_session_state_value BS_READY = ''ready''"
| "browser_session_state_value BS_STOPPING = ''stopping''"
| "browser_session_state_value BS_ERROR = ''error''"
| "browser_session_state_value BS_DELETED = ''deleted''"

definition BrowserSessionState :: "string \<Rightarrow> browser_session_state result" where
  "BrowserSessionState raw =
     (if raw = ''created'' then Inr BS_CREATED
      else if raw = ''starting'' then Inr BS_STARTING
      else if raw = ''ready'' then Inr BS_READY
      else if raw = ''stopping'' then Inr BS_STOPPING
      else if raw = ''error'' then Inr BS_ERROR
      else if raw = ''deleted'' then Inr BS_DELETED
      else Inl (ValueError ''not a valid BrowserSessionState''))"

lemma BrowserSessionState_value [simp]:
  "BrowserSessionState (browser_session_state_value s) = Inr s"
  by (cases s) (simp_all add: BrowserSessionState_def)

lemma browser_session_state_value_inject [simp]:
  "browser_session_state_value s = browser_session_state_value t \<longleftrightarrow> s = t"
  by (cases s; cases t) simp_all

datatype guest_os = ALPINE | UBUNTU | WINDOWS | MACOS

datatype snapshot_type = SNAP_FULL | SNAP_DIFF | SNAP_DISK

fun snapshot_type_value :: "snapshot_type \<Rightarrow> string" where
  "snapshot_type_value SNAP_FULL = ''full''"
| "snapshot_type_value SNAP_DIFF = ''diff''"
| "snapshot_type_value SNAP_DISK = ''disk''"

definition SnapshotType :: "string \<Rightarrow> snapshot_type result" where
  "SnapshotType raw =
     (if raw = ''full'' then Inr SNAP_FULL
      else if raw = ''diff'' then Inr SNAP_DIFF
      else if raw = ''disk'' then Inr SNAP_DISK
      else Inl (ValueError ''not a valid SnapshotType''))"

lemma SnapshotType_value [simp]: "SnapshotType (snapshot_type_value t) = Inr t"
  by (cases t) (simp_all add: SnapshotType_def)

lemma snapshot_type_value_neq_Nil [simp]: "snapshot_type_value t \<noteq> []"
  by (cases t) simp_all

text \<open>The \<open>Literal\<close> types of the models.\<close>

datatype boot_mode = DIRECT_KERNEL | FIRMWARE | PLATFORM
datatype rootfs_format = RAW_EXT4 | QCOW2
datatype qemu_disk_format = QDF_RAW | QDF_QCOW2
datatype qemu_network = QN_SLIRP | QN_TAP
datatype qemu_machine = QM_AUTO | QM_Q35 | QM_MICROVM
datatype disk_mode = DISK_ISOLATED | DISK_SHARED
datatype comm_kind = COMM_SSH | COMM_VSOCK
datatype internet_mode = NET_OPEN | NET_OFF | NET_RESTRICTED | NET_PUBLIC
datatype attach_mode = MODE_NAT | MODE_BRIDGE
datatype artifact_kind = ART_FULL | ART_INCREMENTAL

section \<open>Identifiers\<close>

text \<open>\<open>^[a-z0-9][a-z0-9_-]{0,62}[a-z0-9]$|^[a-z0-9]$\<close>\<close>

definition id_edge_char :: "char \<Rightarrow> bool" where
  "id_edge_char c \<longleftrightarrow> is_digit c \<or> (97 \<le> (of_char c :: nat) \<and> (of_char c :: nat) \<le> 122)"

definition id_inner_char :: "char \<Rightarrow> bool" where
  "id_inner_char c \<longleftrightarrow> id_edge_char c \<or> c = CHR ''_'' \<or> c = CHR ''-''"

definition IDENTIFIER_PATTERN :: "string \<Rightarrow> bool" where
  "IDENTIFIER_PATTERN s \<longleftrightarrow>
     s \<noteq> [] \<and> length s \<le> 64 \<and> id_edge_char (hd s) \<and> id_edge_char (last s) \<and>
     list_all id_inner_char s"

section \<open>Models\<close>

record port_forward_config =
  pf_host_port :: int
  pf_guest_port :: int
  pf_host_address :: string

record vsock_config =
  vs_guest_cid :: int
  vs_uds_path :: "string option"

record workspace_mount =
  wm_host_path :: string
  wm_guest_path :: string
  wm_mount_tag :: "string option"
  wm_writable :: bool

record macos_machine_config =
  mm_base_image :: string
  mm_manifest_path :: string
  mm_bundle_path :: string
  mm_guest_version :: string
  mm_guest_build :: "string option"
  mm_disk_size_mib :: int
  mm_display_width :: int
  mm_display_height :: int
  mm_ssh_user :: string
  mm_clipboard :: bool

record desktop_endpoint =
  de_host :: string
  de_port :: int
  de_width :: "int option"
  de_height :: "int option"

record internet_settings =
  is_mode :: "internet_mode option"
  is_allowed_cidrs :: "string list"
  is_allowed_domains :: "string list"
  is_allowed_http_methods :: "string list"

record network_attachment_config =
  na_mode :: attach_mode
  na_bridge :: "string option"

record vm_config =
  vc_vm_id :: string
  vc_preset :: "string option"
  vc_vcpu_count :: int
  vc_memory :: int
  vc_guest_os :: guest_os
  vc_boot_mode :: boot_mode
  vc_kernel_path :: "string option"
  vc_initrd_path :: "string option"
  vc_rootfs_path :: "string option"
  vc_rootfs_format :: "rootfs_format option"
  vc_macos_machine :: "macos_machine_config option"
  vc_extra_drives :: "string list"
  vc_boot_args :: string
  vc_ssh_capable :: bool
  vc_backend :: "string option"
  vc_qemu_network :: qemu_network
  vc_qemu_machine :: qemu_machine
  vc_disk_mode :: disk_mode
  vc_disk_size_mib :: "int option"
  vc_grow_filesystem :: bool
  vc_retain_disk_on_delete :: bool
  vc_env_vars :: "(string \<times> string) list"
  vc_network_rate_limit_mbps :: "int option"
  vc_port_forwards :: "port_forward_config list"
  vc_vsock :: "vsock_config option"
  vc_comm_channel :: "comm_kind option"
  vc_internet_settings :: "internet_settings option"
  vc_workspace_mounts :: "workspace_mount list"
  vc_ssh_public_key :: "string option"
  vc_guest_managed_networking :: bool
  vc_network_attachment :: network_attachment_config

record network_config =
  nc_guest_ip :: "string option"
  nc_gateway_ip :: "string option"
  nc_netmask :: "string option"
  nc_tap_device :: string
  nc_guest_mac :: string
  nc_ssh_host_port :: "int option"
  nc_egress_proxy_host_port :: "int option"
  nc_mode :: attach_mode
  nc_bridge :: "string option"

record vm_info =
  vi_vm_id :: string
  vi_status :: vm_state
  vi_config :: vm_config
  vi_network :: "network_config option"
  vi_pid :: "int option"
  vi_control_socket_path :: "string option"
  vi_vsock_uds_path :: "string option"
  vi_display :: "desktop_endpoint option"

record snapshot_artifacts =
  sa_state_path :: "string option"
  sa_memory_path :: "string option"
  sa_disk_path :: string

record snapshot_info =
  si_snapshot_id :: string
  si_vm_id :: string
  si_backend :: string
  si_artifacts :: snapshot_artifacts
  si_vm_config :: vm_config
  si_network_config :: network_config
  si_created_at :: string
  si_snapshot_type :: snapshot_type
  si_artifact_kind :: "artifact_kind option"
  si_virtual_size_bytes :: "int option"
  si_changed_bytes :: "int option"
  si_bitmap_granularity_bytes :: "int option"
  si_bitmap_name :: "string option"
  si_restored :: bool
  si_restored_vm_id :: "string option"

record browser_viewport =
  bv_width :: int
  bv_height :: int

datatype browser_mode = BM_HEADLESS | BM_LIVE | BM_DESKTOP | BM_COMPUTER
datatype profile_mode = PM_EPHEMERAL | PM_PERSISTENT

record browser_session_config =
  bc_session_id :: "string option"
  bc_backend :: string
  bc_mode :: browser_mode
  bc_profile_mode :: profile_mode
  bc_profile_id :: "string option"
  bc_timeout_minutes :: int
  bc_viewport_width :: int
  bc_viewport_height :: int
  bc_viewport :: "browser_viewport option"
  bc_record_video :: bool
  bc_allow_downloads :: bool
  bc_internet_settings :: "internet_settings option"
  bc_network_policy_id :: "string option"
  bc_env_vars :: "(string \<times> string) list"
  bc_workspace_mounts :: "workspace_mount list"
  bc_mem_size_mib :: int
  bc_disk_size_mib :: int

record browser_session_info =
  bi_session_id :: string
  bi_vm_id :: string
  bi_status :: browser_session_state
  bi_cdp_url :: "string option"
  bi_live_url :: "string option"
  bi_vnc_url :: "string option"
  bi_debug_port :: "int option"
  bi_vnc_port :: "int option"
  bi_profile_id :: "string option"
  bi_expires_at :: "string option"
  bi_artifacts_dir :: "string option"

text \<open>\<open>VMInfo(vm_id=config.vm_id, status=VMState.CREATED, config=config)\<close>\<close>

definition created_vm_info :: "vm_config \<Rightarrow> vm_info" where
  "created_vm_info config =
     \<lparr>vi_vm_id = vc_vm_id config, vi_status = VM_CREATED, vi_config = config, vi_network = None,
      vi_pid = None, vi_control_socket_path = None, vi_vsock_uds_path = None, vi_display = None\<rparr>"

text \<open>A VM whose status promises a live process.\<close>

definition is_live_status :: "vm_state \<Rightarrow> bool" where
  "is_live_status s \<longleftrightarrow> s = VM_RUNNING \<or> s = VM_PAUSED"

text \<open>
  The keyword arguments of \<open>update_vm\<close>: an absent argument is \<open>None\<close>, and each clearable
  column has a flag that applies only when no new value is given.
\<close>

record vm_update =
  up_status :: "vm_state option"
  up_config :: "vm_config option"
  up_network :: "network_config option"
  up_pid :: "int option"
  up_control_socket_path :: "string option"
  up_display :: "desktop_endpoint option"
  up_clear_pid :: bool
  up_clear_socket_path :: bool
  up_clear_display :: bool

definition no_update :: vm_update where
  "no_update =
     \<lparr>up_status = None, up_config = None, up_network = None, up_pid = None,
      up_control_socket_path = None, up_display = None, up_clear_pid = False,
      up_clear_socket_path = False, up_clear_display = False\<rparr>"

text \<open>\<open>if new is not None: field = new\<close> and its variant with a clear flag.\<close>

definition overwrite :: "'a option \<Rightarrow> 'a \<Rightarrow> 'a" where
  "overwrite new old = (case new of Some v \<Rightarrow> v | None \<Rightarrow> old)"

definition overwrite_opt :: "'a option \<Rightarrow> 'a option \<Rightarrow> 'a option" where
  "overwrite_opt new old = (case new of Some v \<Rightarrow> Some v | None \<Rightarrow> old)"

definition overwrite_or_clear :: "'a option \<Rightarrow> bool \<Rightarrow> 'a option \<Rightarrow> 'a option" where
  "overwrite_or_clear new clear old =
     (case new of Some v \<Rightarrow> Some v | None \<Rightarrow> if clear then None else old)"

lemma overwrite_simps [simp]:
  "overwrite None old = old" "overwrite (Some v) old = v"
  "overwrite_opt None old_opt = old_opt" "overwrite_opt (Some w) old_opt = Some w"
  "overwrite_or_clear (Some u) clear old_clr = Some u"
  "overwrite_or_clear None True old_clr = None"
  "overwrite_or_clear None False old_clr = old_clr"
  by (simp_all add: overwrite_def overwrite_opt_def overwrite_or_clear_def)

lemmas overwrite_defs = overwrite_def overwrite_opt_def overwrite_or_clear_def

text \<open>The keyword arguments of \<open>update_browser_session\<close>.\<close>

record browser_update =
  bu_status :: "browser_session_state option"
  bu_clear_endpoints :: bool
  bu_cdp_url :: "string option"
  bu_live_url :: "string option"
  bu_vnc_url :: "string option"
  bu_debug_port :: "int option"
  bu_vnc_port :: "int option"
  bu_profile_id :: "string option"
  bu_expires_at :: "string option"
  bu_artifacts_dir :: "string option"
  bu_config :: "browser_session_config option"

text \<open>The outcome of \<open>os.kill(pid, 0)\<close>.\<close>

datatype kill_probe = ProbeAlive | ProbeNoProcess | ProbePermission

end
