(* ===== verification/Vm_Registry.thy ===== *)
theory Vm_Registry
  imports Model_Types
begin

text \<open>
  What \<open>storage/_protocol.py\<close> promises about the rows of computers: a finite map from
  identifiers to descriptions, with \<open>create_vm\<close>, \<open>update_vm\<close> and \<open>delete_vm\<close> as its only
  writers. A state manager implements the protocol when each of its operations refines the
  operation on the map. The consequences clients rely on are proved once, from the contract.
\<close>

section \<open>Operations that may raise\<close>

text \<open>An operation that changes nothing when it raises, as an outcome and the state left behind.\<close>

definition commit :: "'s \<Rightarrow> ('a \<times> 's) result \<Rightarrow> 'a result \<times> 's" where
  "commit s r = (case r of Inl e \<Rightarrow> (Inl e, s) | Inr (x, s') \<Rightarrow> (Inr x, s'))"

definition commit_unit :: "'s \<Rightarrow> 's result \<Rightarrow> unit result \<times> 's" where
  "commit_unit s r = (case r of Inl e \<Rightarrow> (Inl e, s) | Inr s' \<Rightarrow> (Inr (), s'))"

lemma commit_simps [simp]:
  "commit s (Inl e) = (Inl e, s)" "commit s (Inr (x, s')) = (Inr x, s')"
  "commit_unit s (Inl e) = (Inl e, s)" "commit_unit s (Inr s') = (Inr (), s')"
  by (simp_all add: commit_def commit_unit_def)

section \<open>The abstract registry\<close>

type_synonym registry = "string \<Rightarrow> vm_info option"

text \<open>The effect of \<open>update_vm\<close> on a description.\<close>

definition apply_vm_update :: "vm_update \<Rightarrow> vm_info \<Rightarrow> vm_info" where
  "apply_vm_update u current =
     current\<lparr>vi_status := overwrite (up_status u) (vi_status current),
       vi_config := overwrite (up_config u) (vi_config current),
       vi_network := overwrite_opt (up_network u) (vi_network current),
       vi_pid := overwrite_or_clear (up_pid u) (up_clear_pid u) (vi_pid current),
       vi_control_socket_path :=
         overwrite_or_clear (up_control_socket_path u) (up_clear_socket_path u)
           (vi_control_socket_path current),
       vi_display := overwrite_or_clear (up_display u) (up_clear_display u) (vi_display current)\<rparr>"

definition reg_get :: "registry \<Rightarrow> string \<Rightarrow> vm_info result" where
  "reg_get m vm = (case m vm of None \<Rightarrow> Inl (VMNotFoundError vm) | Some info \<Rightarrow> Inr info)"

definition reg_create :: "registry \<Rightarrow> vm_config \<Rightarrow> vm_info result \<times> registry" where
  "reg_create m config =
     (if m (vc_vm_id config) \<noteq> None then (Inl (VMAlreadyExistsError (vc_vm_id config)), m)
      else (Inr (created_vm_info config), m(vc_vm_id config \<mapsto> created_vm_info config)))"

definition reg_update :: "registry \<Rightarrow> string \<Rightarrow> vm_update \<Rightarrow> vm_info result \<times> registry" where
  "reg_update m vm u =
     (case m vm of None \<Rightarrow> (Inl (VMNotFoundError vm), m)
      | Some info \<Rightarrow> (Inr (apply_vm_update u info), m(vm \<mapsto> apply_vm_update u info)))"

definition reg_delete :: "registry \<Rightarrow> string \<Rightarrow> unit result \<times> registry" where
  "reg_delete m vm =
     (if m vm = None then (Inl (VMNotFoundError vm), m) else (Inr (), m(vm := None)))"

lemma apply_vm_update_id [simp]: "vi_vm_id (apply_vm_update u info) = vi_vm_id info"
  by (simp add: apply_vm_update_def)

lemma apply_no_update [simp]: "apply_vm_update no_update info = info"
  by (simp add: apply_vm_update_def no_update_def)

section \<open>Sequences of calls\<close>

datatype reg_call = CreateCall vm_config | UpdateCall string vm_update | DeleteCall string

datatype reg_reply = InfoReply "vm_info result" | DoneReply "unit result"

fun run_calls ::
  "('s \<Rightarrow> vm_config \<Rightarrow> vm_info result \<times> 's) \<Rightarrow> ('s \<Rightarrow> string \<Rightarrow> vm_update \<Rightarrow> vm_info result \<times> 's) \<Rightarrow>
   ('s \<Rightarrow> string \<Rightarrow> unit result \<times> 's) \<Rightarrow> 's \<Rightarrow> reg_call list \<Rightarrow> reg_reply list \<times> 's" where
  "run_calls create update delete s [] = ([], s)"
| "run_calls create update delete s (CreateCall config # calls) =
     (let (r, s1) = create s config; (rs, s2) = run_calls create update delete s1 calls
      in (InfoReply r # rs, s2))"
| "run_calls create update delete s (UpdateCall vm u # calls) =
     (let (r, s1) = update s vm u; (rs, s2) = run_calls create update delete s1 calls
      in (InfoReply r # rs, s2))"
| "run_calls create update delete s (DeleteCall vm # calls) =
     (let (r, s1) = delete s vm; (rs, s2) = run_calls create update delete s1 calls
      in (DoneReply r # rs, s2))"

definition call_ok :: "(vm_config \<Rightarrow> bool) \<Rightarrow> (vm_update \<Rightarrow> bool) \<Rightarrow> (string \<Rightarrow> bool) \<Rightarrow> reg_call \<Rightarrow> bool" where
  "call_ok storable patchable named c = (case c of CreateCall config \<Rightarrow> storable config
     | UpdateCall vm u \<Rightarrow> named vm \<and> patchable u | DeleteCall vm \<Rightarrow> named vm)"

section \<open>The contract\<close>

locale vm_registry =
  fixes invar :: "'s \<Rightarrow> bool"
    and lookup :: "'s \<Rightarrow> registry"
    and create :: "'s \<Rightarrow> vm_config \<Rightarrow> vm_info result \<times> 's"
    and update :: "'s \<Rightarrow> string \<Rightarrow> vm_update \<Rightarrow> vm_info result \<times> 's"
    and delete :: "'s \<Rightarrow> string \<Rightarrow> unit result \<times> 's"
    and storable :: "vm_config \<Rightarrow> bool"
    and patchable :: "vm_update \<Rightarrow> bool"
    and named :: "string \<Rightarrow> bool"
  assumes create_refines: "invar s \<Longrightarrow> storable config \<Longrightarrow> create s config = (r, s') \<Longrightarrow>
      invar s' \<and> (r, lookup s') = reg_create (lookup s) config"
    and update_refines: "invar s \<Longrightarrow> named vm \<Longrightarrow> patchable u \<Longrightarrow> update s vm u = (r, s') \<Longrightarrow>
      invar s' \<and> (r, lookup s') = reg_update (lookup s) vm u"
    and delete_refines: "invar s \<Longrightarrow> named vm \<Longrightarrow> delete s vm = (q, s') \<Longrightarrow>
      invar s' \<and> (q, lookup s') = reg_delete (lookup s) vm"
begin

lemma run_refines:
  assumes "invar s" "\<forall>c\<in>set calls. call_ok storable patchable named c" "run_calls create update delete s calls = (rs, s')"
  shows "invar s' \<and> (rs, lookup s') = run_calls reg_create reg_update reg_delete (lookup s) calls"
  using assms
proof (induction calls arbitrary: s rs s')
  case Nil
  then show ?case by simp
next
  case (Cons c calls)
  show ?case
  proof (cases c)
    case (CreateCall config)
    obtain r s1 where step: "create s config = (r, s1)" by fastforce
    obtain rs1 s2 where rest: "run_calls create update delete s1 calls = (rs1, s2)" by fastforce
    have "invar s1 \<and> (r, lookup s1) = reg_create (lookup s) config"
      using create_refines [OF Cons.prems(1) _ step] Cons.prems(2) CreateCall by (simp add: call_ok_def)
    then show ?thesis
      using Cons.IH [OF _ _ rest] Cons.prems(2,3) CreateCall step rest
      by (auto simp: step rest split: prod.splits)
  next
    case (UpdateCall vm u)
    obtain r s1 where step: "update s vm u = (r, s1)" by fastforce
    obtain rs1 s2 where rest: "run_calls create update delete s1 calls = (rs1, s2)" by fastforce
    have "invar s1 \<and> (r, lookup s1) = reg_update (lookup s) vm u"
      using update_refines [OF Cons.prems(1) _ _ step] Cons.prems(2) UpdateCall by (simp add: call_ok_def)
    then show ?thesis
      using Cons.IH [OF _ _ rest] Cons.prems(2,3) UpdateCall step rest
      by (auto simp: step rest split: prod.splits)
  next
    case (DeleteCall vm)
    obtain r s1 where step: "delete s vm = (r, s1)" by fastforce
    obtain rs1 s2 where rest: "run_calls create update delete s1 calls = (rs1, s2)" by fastforce
    have "invar s1 \<and> (r, lookup s1) = reg_delete (lookup s) vm"
      using delete_refines [OF Cons.prems(1) _ step] Cons.prems(2) DeleteCall by (simp add: call_ok_def)
    then show ?thesis
      using Cons.IH [OF _ _ rest] Cons.prems(2,3) DeleteCall step rest
      by (auto simp: step rest split: prod.splits)
  qed
qed

end

end
