(* ===== verification/Memory_Store.thy ===== *)
theory Memory_Store
  imports Ip_Pool Allocator Vm_Registry
begin

text \<open>
  The process-local state manager of \<open>storage/_memory.py\<close>. Its dictionaries are association
  lists in insertion order; an operation returns the exception it raises or its result with
  the new state (an operation that raises changes nothing). The host is a parameter: whether
  \<open>fcntl\<close> can be imported, what \<open>flock\<close> says about a lock file no claim of this manager
  holds, the host's interface names, the random TAP suffixes and the outcome of
  \<open>os.kill(pid, 0)\<close>.
\<close>

section \<open>State and host\<close>

datatype lock_outcome = LockFree | LockHeld | LockFault

record host_env =
  he_has_fcntl :: bool
  he_flock :: "string \<Rightarrow> lock_outcome"
  he_if_nameindex :: "string list option"
  he_token_hex :: "nat \<Rightarrow> string"
  he_kill :: "int \<Rightarrow> kill_probe"

record memory_state =
  ms_claims :: "((string \<times> string) \<times> string) list"
  ms_vms :: "(string \<times> vm_info) list"
  ms_ip_leases :: "(string \<times> string \<times> string) list"
  ms_ssh_ports :: "(string \<times> int) list"
  ms_vsock_cids :: "(string \<times> int) list"
  ms_tap_allocations :: "(string \<times> string \<times> string \<times> string option) list"
  ms_snapshots :: "(string \<times> snapshot_info) list"
  ms_browser_sessions :: "(string \<times> browser_session_info) list"
  ms_browser_configs :: "(string \<times> browser_session_config) list"

definition mem_init :: memory_state where
  "mem_init =
     \<lparr>ms_claims = [], ms_vms = [], ms_ip_leases = [], ms_ssh_ports = [], ms_vsock_cids = [],
      ms_tap_allocations = [], ms_snapshots = [], ms_browser_sessions = [], ms_browser_configs = []\<rparr>"

section \<open>Advisory resource locks\<close>

definition lock_file :: "string \<Rightarrow> string \<Rightarrow> string" where
  "lock_file kind val = kind @ ''-'' @ val @ ''.lock''"

text \<open>
  \<open>flock\<close> locks belong to an open file: a lock file this manager already holds through
  another claim blocks as well.
\<close>

definition try_claim ::
  "host_env \<Rightarrow> memory_state \<Rightarrow> string \<Rightarrow> string \<Rightarrow> string \<Rightarrow> (bool \<times> memory_state) result" where
  "try_claim env st kind vm_id val =
     (if map_of (ms_claims st) (kind, vm_id) \<noteq> None then Inr (True, st)
      else if \<not> he_has_fcntl env then Inr (True, st)
      else if lock_file kind val \<in> snd ` set (ms_claims st) then Inr (False, st)
      else case he_flock env (lock_file kind val) of
          LockFault \<Rightarrow> Inl (OSError ''resource lock'')
        | LockHeld \<Rightarrow> Inr (False, st)
        | LockFree \<Rightarrow>
            Inr (True, st\<lparr>ms_claims := AList.update (kind, vm_id) (lock_file kind val) (ms_claims st)\<rparr>))"

definition release_claim :: "memory_state \<Rightarrow> string \<Rightarrow> string \<Rightarrow> memory_state" where
  "release_claim st kind vm_id = st\<lparr>ms_claims := AList.delete (kind, vm_id) (ms_claims st)\<rparr>"

section \<open>Computers\<close>

definition mem_create_vm :: "memory_state \<Rightarrow> vm_config \<Rightarrow> (vm_info \<times> memory_state) result" where
  "mem_create_vm st config =
     (if map_of (ms_vms st) (vc_vm_id config) \<noteq> None
      then Inl (VMAlreadyExistsError (vc_vm_id config))
      else let info = created_vm_info config in
        Inr (info, st\<lparr>ms_vms := AList.update (vc_vm_id config) info (ms_vms st)\<rparr>))"

definition mem_get_vm :: "memory_state \<Rightarrow> string \<Rightarrow> vm_info result" where
  "mem_get_vm st vm_id =
     (case map_of (ms_vms st) vm_id of Some info \<Rightarrow> Inr info | None \<Rightarrow> Inl (VMNotFoundError vm_id))"

definition mem_update_vm ::
  "memory_state \<Rightarrow> string \<Rightarrow> vm_update \<Rightarrow> (vm_info \<times> memory_state) result" where
  "mem_update_vm st vm_id u =
     rbind (mem_get_vm st vm_id) (\<lambda>current.
       let updated = apply_vm_update u current in
       Inr (updated, st\<lparr>ms_vms := AList.update vm_id updated (ms_vms st)\<rparr>))"

definition mem_delete_vm :: "memory_state \<Rightarrow> string \<Rightarrow> memory_state result" where
  "mem_delete_vm st vm_id =
     (if map_of (ms_vms st) vm_id = None then Inl (VMNotFoundError vm_id)
      else
        let st1 = st\<lparr>ms_vms := AList.delete vm_id (ms_vms st),
                     ms_ip_leases := AList.delete vm_id (ms_ip_leases st),
                     ms_ssh_ports := AList.delete vm_id (ms_ssh_ports st),
                     ms_vsock_cids := AList.delete vm_id (ms_vsock_cids st),
                     ms_tap_allocations := AList.delete vm_id (ms_tap_allocations st)\<rparr>
        in Inr (foldl (\<lambda>s kind. release_claim s kind vm_id) st1 [''ip'', ''ssh'', ''vsock'', ''tap'']))"

definition mem_list_vms :: "memory_state \<Rightarrow> vm_state option \<Rightarrow> vm_info list" where
  "mem_list_vms st status =
     (let values = map snd (ms_vms st) in
      case status of None \<Rightarrow> values | Some s \<Rightarrow> filter (\<lambda>item. vi_status item = s) values)"

definition host_interface_names :: "host_env \<Rightarrow> string list" where
  "host_interface_names env = (case he_if_nameindex env of Some names \<Rightarrow> names | None \<Rightarrow> [])"

section \<open>Guest addresses\<close>

definition mem_try_ip ::
  "host_env \<Rightarrow> memory_state \<Rightarrow> string \<Rightarrow> string \<Rightarrow> string \<Rightarrow> (string \<times> memory_state) option result" where
  "mem_try_ip env st vm_id tap_device candidate =
     (if candidate \<in> (fst \<circ> snd) ` set (ms_ip_leases st) then Inr None
      else case ip_to_pool_index candidate of
          Inl _ \<Rightarrow> Inr None
        | Inr index \<Rightarrow>
            if ''tap'' @ string_of_int index \<in> set (host_interface_names env) then Inr None
            else rbind (try_claim env st ''ip'' vm_id candidate) (\<lambda>(claimed, st').
              if \<not> claimed then Inr None
              else Inr (Some (candidate,
                st'\<lparr>ms_ip_leases :=
                  AList.update vm_id (candidate, tap_device) (ms_ip_leases st')\<rparr>))))"

definition mem_allocate_ip ::
  "host_env \<Rightarrow> memory_state \<Rightarrow> string \<Rightarrow> string \<Rightarrow> string option \<Rightarrow> (string \<times> memory_state) result" where
  "mem_allocate_ip env st vm_id tap_device requested_ip =
     (case map_of (ms_ip_leases st) vm_id of
        Some (ip, _) \<Rightarrow>
          if requested_ip \<noteq> None \<and> requested_ip \<noteq> Some ip
          then Inl (NetworkError ''already has IP'') else Inr (ip, st)
      | None \<Rightarrow>
          rbind
            (case requested_ip of
               Some r \<Rightarrow> scan_list (mem_try_ip env st vm_id tap_device) [r]
             | None \<Rightarrow>
                 scan_range
                   (\<lambda>i. case pool_index_to_ip i of
                       Inl _ \<Rightarrow> Inl (ValueError ''pool index out of range'')
                     | Inr ip \<Rightarrow> mem_try_ip env st vm_id tap_device ip)
                   IP_POOL_START IP_POOL_END)
            (\<lambda>found. case found of
               Some r \<Rightarrow> Inr r
             | None \<Rightarrow>
                 if requested_ip \<noteq> None then Inl (NetworkError ''requested IP not available'')
                 else Inl (NetworkError ''no IP addresses available'')))"

definition mem_release_ip :: "memory_state \<Rightarrow> string \<Rightarrow> memory_state" where
  "mem_release_ip st vm_id =
     release_claim (st\<lparr>ms_ip_leases := AList.delete vm_id (ms_ip_leases st)\<rparr>) ''ip'' vm_id"

definition mem_get_ip_lease :: "memory_state \<Rightarrow> string \<Rightarrow> (string \<times> string) option" where
  "mem_get_ip_lease st vm_id = map_of (ms_ip_leases st) vm_id"

definition mem_update_ip_lease_tap :: "memory_state \<Rightarrow> string \<Rightarrow> string \<Rightarrow> memory_state" where
  "mem_update_ip_lease_tap st vm_id tap_device =
     (case map_of (ms_ip_leases st) vm_id of
        None \<Rightarrow> st
      | Some (ip, _) \<Rightarrow> st\<lparr>ms_ip_leases := AList.update vm_id (ip, tap_device) (ms_ip_leases st)\<rparr>)"

section \<open>SSH host ports\<close>

definition mem_try_ssh_port ::
  "host_env \<Rightarrow> memory_state \<Rightarrow> string \<Rightarrow> int list \<Rightarrow> int \<Rightarrow> (int \<times> memory_state) option result" where
  "mem_try_ssh_port env st vm_id excluded candidate =
     (if candidate \<in> snd ` set (ms_ssh_ports st) \<union> set excluded then Inr None
      else rbind (try_claim env st ''ssh'' vm_id (string_of_int candidate)) (\<lambda>(claimed, st').
        if \<not> claimed then Inr None
        else Inr (Some (candidate,
          st'\<lparr>ms_ssh_ports := AList.update vm_id candidate (ms_ssh_ports st')\<rparr>))))"

definition mem_reserve_ssh_port ::
  "host_env \<Rightarrow> memory_state \<Rightarrow> string \<Rightarrow> int option \<Rightarrow> int list \<Rightarrow> (int \<times> memory_state) result" where
  "mem_reserve_ssh_port env st vm_id host_port excluded_host_ports =
     (if (case host_port of None \<Rightarrow> False | Some p \<Rightarrow> p < 1 \<or> p > 65535)
      then Inl (ValueError ''host_port must be 1-65535'')
      else case map_of (ms_ssh_ports st) vm_id of
        Some existing \<Rightarrow>
          if host_port \<noteq> None \<and> host_port \<noteq> Some existing
          then Inl (NetworkError ''already has SSH host port'') else Inr (existing, st)
      | None \<Rightarrow>
          rbind
            (case host_port of
               Some p \<Rightarrow> scan_list (mem_try_ssh_port env st vm_id excluded_host_ports) [p]
             | None \<Rightarrow>
                 scan_range (mem_try_ssh_port env st vm_id excluded_host_ports)
                   SSH_PORT_START SSH_PORT_END)
            (\<lambda>found. case found of
               Some r \<Rightarrow> Inr r
             | None \<Rightarrow>
                 if host_port \<noteq> None then Inl (NetworkError ''requested SSH port not available'')
                 else Inl (NetworkError ''no SSH host ports available'')))"

definition mem_get_ssh_port :: "memory_state \<Rightarrow> string \<Rightarrow> int option" where
  "mem_get_ssh_port st vm_id = map_of (ms_ssh_ports st) vm_id"

definition mem_release_ssh_port :: "memory_state \<Rightarrow> string \<Rightarrow> memory_state" where
  "mem_release_ssh_port st vm_id =
     release_claim (st\<lparr>ms_ssh_ports := AList.delete vm_id (ms_ssh_ports st)\<rparr>) ''ssh'' vm_id"

section \<open>vsock context identifiers\<close>

definition mem_try_vsock_cid ::
  "host_env \<Rightarrow> memory_state \<Rightarrow> string \<Rightarrow> int \<Rightarrow> (int \<times> memory_state) option result" where
  "mem_try_vsock_cid env st vm_id candidate =
     (if candidate \<in> snd ` set (ms_vsock_cids st) then Inr None
      else rbind (try_claim env st ''vsock'' vm_id (string_of_int candidate)) (\<lambda>(claimed, st').
        if \<not> claimed then Inr None
        else Inr (Some (candidate,
          st'\<lparr>ms_vsock_cids := AList.update vm_id candidate (ms_vsock_cids st')\<rparr>))))"

definition mem_reserve_vsock_cid ::
  "host_env \<Rightarrow> memory_state \<Rightarrow> string \<Rightarrow> int option \<Rightarrow> (int \<times> memory_state) result" where
  "mem_reserve_vsock_cid env st vm_id guest_cid =
     (case map_of (ms_vsock_cids st) vm_id of
        Some existing \<Rightarrow>
          if guest_cid \<noteq> None \<and> guest_cid \<noteq> Some existing
          then Inl (NetworkError ''already has vsock CID'') else Inr (existing, st)
      | None \<Rightarrow>
          rbind
            (case guest_cid of
               Some c \<Rightarrow> scan_list (mem_try_vsock_cid env st vm_id) [c]
             | None \<Rightarrow> scan_range (mem_try_vsock_cid env st vm_id) VSOCK_CID_START VSOCK_CID_END)
            (\<lambda>found. case found of
               Some r \<Rightarrow> Inr r
             | None \<Rightarrow>
                 if guest_cid \<noteq> None then Inl (NetworkError ''requested vsock CID not available'')
                 else Inl (NetworkError ''no vsock CIDs available'')))"

definition mem_get_vsock_cid :: "memory_state \<Rightarrow> string \<Rightarrow> int option" where
  "mem_get_vsock_cid st vm_id = map_of (ms_vsock_cids st) vm_id"

definition mem_release_vsock_cid :: "memory_state \<Rightarrow> string \<Rightarrow> memory_state" where
  "mem_release_vsock_cid st vm_id =
     release_claim (st\<lparr>ms_vsock_cids := AList.delete vm_id (ms_vsock_cids st)\<rparr>) ''vsock'' vm_id"

section \<open>TAP names\<close>

text \<open>\<open>for _ in range(100): tap = f"svmb{secrets.token_hex(4)}"; if tap not in used: break\<close>\<close>

definition random_tap :: "(nat \<Rightarrow> string) \<Rightarrow> string list \<Rightarrow> string option" where
  "random_tap token_hex used =
     find (\<lambda>tap. tap \<notin> set used) (map (\<lambda>k. ''svmb'' @ token_hex k) [0..<100])"

definition mem_reserve_tap_name ::
  "host_env \<Rightarrow> memory_state \<Rightarrow> string \<Rightarrow> string \<Rightarrow> string option \<Rightarrow> string option \<Rightarrow>
   (string \<times> memory_state) result" where
  "mem_reserve_tap_name env st vm_id mode bridge_name requested_tap =
     (case map_of (ms_tap_allocations st) vm_id of
        Some (tap, existing_mode, existing_bridge) \<Rightarrow>
          if existing_mode \<noteq> mode \<or> existing_bridge \<noteq> bridge_name \<or>
             (requested_tap \<noteq> None \<and> requested_tap \<noteq> Some tap)
          then Inl (NetworkError ''already reserves TAP'') else Inr (tap, st)
      | None \<Rightarrow>
          let used = map (fst \<circ> snd) (ms_tap_allocations st) @ host_interface_names env in
          rbind
            (case requested_tap of
               Some r \<Rightarrow>
                 if r \<in> set used then Inl (NetworkError ''TAP name already reserved'') else Inr r
             | None \<Rightarrow>
                 (case random_tap (he_token_hex env) used of
                    Some tap \<Rightarrow> Inr tap
                  | None \<Rightarrow> Inl (NetworkError ''could not find a free TAP name'')))
            (\<lambda>tap. rbind (try_claim env st ''tap'' vm_id tap) (\<lambda>(claimed, st').
               if \<not> claimed then Inl (NetworkError ''TAP name already reserved'')
               else Inr (tap,
                 st'\<lparr>ms_tap_allocations :=
                   AList.update vm_id (tap, mode, bridge_name) (ms_tap_allocations st')\<rparr>))))"

definition mem_get_tap_allocation ::
  "memory_state \<Rightarrow> string \<Rightarrow> (string \<times> string \<times> string option) option" where
  "mem_get_tap_allocation st vm_id = map_of (ms_tap_allocations st) vm_id"

definition mem_release_tap_name :: "memory_state \<Rightarrow> string \<Rightarrow> memory_state" where
  "mem_release_tap_name st vm_id =
     release_claim (st\<lparr>ms_tap_allocations := AList.delete vm_id (ms_tap_allocations st)\<rparr>) ''tap'' vm_id"

section \<open>Snapshots\<close>

definition mem_create_snapshot ::
  "memory_state \<Rightarrow> snapshot_info \<Rightarrow> (snapshot_info \<times> memory_state) result" where
  "mem_create_snapshot st info =
     (if map_of (ms_snapshots st) (si_snapshot_id info) \<noteq> None
      then Inl (SnapshotAlreadyExistsError (si_snapshot_id info))
      else Inr (info, st\<lparr>ms_snapshots := AList.update (si_snapshot_id info) info (ms_snapshots st)\<rparr>))"

definition mem_get_snapshot :: "memory_state \<Rightarrow> string \<Rightarrow> snapshot_info result" where
  "mem_get_snapshot st snapshot_id =
     (case map_of (ms_snapshots st) snapshot_id of
        Some info \<Rightarrow> Inr info | None \<Rightarrow> Inl (SnapshotNotFoundError snapshot_id))"

definition mem_list_snapshots :: "memory_state \<Rightarrow> string option \<Rightarrow> snapshot_info list" where
  "mem_list_snapshots st vm_id =
     (let values = map snd (ms_snapshots st) in
      case vm_id of None \<Rightarrow> values | Some v \<Rightarrow> filter (\<lambda>item. si_vm_id item = v) values)"

definition mem_mark_snapshot_restored ::
  "memory_state \<Rightarrow> string \<Rightarrow> string \<Rightarrow> (snapshot_info \<times> memory_state) result" where
  "mem_mark_snapshot_restored st snapshot_id restored_vm_id =
     rbind (mem_get_snapshot st snapshot_id) (\<lambda>current.
       let info = current\<lparr>si_restored := True, si_restored_vm_id := Some restored_vm_id\<rparr> in
       Inr (info, st\<lparr>ms_snapshots := AList.update snapshot_id info (ms_snapshots st)\<rparr>))"

definition mem_delete_snapshot :: "memory_state \<Rightarrow> string \<Rightarrow> memory_state result" where
  "mem_delete_snapshot st snapshot_id =
     (if map_of (ms_snapshots st) snapshot_id = None then Inl (SnapshotNotFoundError snapshot_id)
      else Inr (st\<lparr>ms_snapshots := AList.delete snapshot_id (ms_snapshots st)\<rparr>))"

section \<open>Browser sessions\<close>

definition mem_create_browser_session ::
  "memory_state \<Rightarrow> browser_session_info \<Rightarrow> browser_session_config \<Rightarrow>
   (browser_session_info \<times> memory_state) result" where
  "mem_create_browser_session st info config =
     (if map_of (ms_browser_sessions st) (bi_session_id info) \<noteq> None
      then Inl (BrowserSessionAlreadyExistsError (bi_session_id info))
      else Inr (info,
        st\<lparr>ms_browser_sessions := AList.update (bi_session_id info) info (ms_browser_sessions st),
           ms_browser_configs := AList.update (bi_session_id info) config (ms_browser_configs st)\<rparr>))"

definition mem_get_browser_session :: "memory_state \<Rightarrow> string \<Rightarrow> browser_session_info result" where
  "mem_get_browser_session st session_id =
     (case map_of (ms_browser_sessions st) session_id of
        Some info \<Rightarrow> Inr info | None \<Rightarrow> Inl (BrowserSessionNotFoundError session_id))"

definition mem_get_browser_session_config ::
  "memory_state \<Rightarrow> string \<Rightarrow> browser_session_config result" where
  "mem_get_browser_session_config st session_id =
     (case map_of (ms_browser_configs st) session_id of
        Some config \<Rightarrow> Inr config | None \<Rightarrow> Inl (BrowserSessionNotFoundError session_id))"

definition apply_browser_update :: "browser_update \<Rightarrow> browser_session_info \<Rightarrow> browser_session_info" where
  "apply_browser_update u current =
     (let clear = bu_clear_endpoints u in
      current\<lparr>bi_status := overwrite (bu_status u) (bi_status current),
        bi_cdp_url := overwrite_or_clear (bu_cdp_url u) clear (bi_cdp_url current),
        bi_live_url := overwrite_or_clear (bu_live_url u) clear (bi_live_url current),
        bi_vnc_url := overwrite_or_clear (bu_vnc_url u) clear (bi_vnc_url current),
        bi_debug_port := overwrite_or_clear (bu_debug_port u) clear (bi_debug_port current),
        bi_vnc_port := overwrite_or_clear (bu_vnc_port u) clear (bi_vnc_port current),
        bi_profile_id := overwrite_opt (bu_profile_id u) (bi_profile_id current),
        bi_expires_at := overwrite_opt (bu_expires_at u) (bi_expires_at current),
        bi_artifacts_dir := overwrite_opt (bu_artifacts_dir u) (bi_artifacts_dir current)\<rparr>)"

definition mem_update_browser_session ::
  "memory_state \<Rightarrow> string \<Rightarrow> browser_update \<Rightarrow> (browser_session_info \<times> memory_state) result" where
  "mem_update_browser_session st session_id u =
     rbind (mem_get_browser_session st session_id) (\<lambda>current.
       let updated = apply_browser_update u current in
       Inr (updated,
         st\<lparr>ms_browser_sessions := AList.update session_id updated (ms_browser_sessions st),
            ms_browser_configs :=
              (case bu_config u of None \<Rightarrow> ms_browser_configs st
               | Some config \<Rightarrow> AList.update session_id config (ms_browser_configs st))\<rparr>))"

definition mem_delete_browser_session :: "memory_state \<Rightarrow> string \<Rightarrow> memory_state result" where
  "mem_delete_browser_session st session_id =
     (if map_of (ms_browser_sessions st) session_id = None
      then Inl (BrowserSessionNotFoundError session_id)
      else Inr (st\<lparr>ms_browser_sessions := AList.delete session_id (ms_browser_sessions st),
                   ms_browser_configs := AList.delete session_id (ms_browser_configs st)\<rparr>))"

definition mem_list_browser_sessions ::
  "memory_state \<Rightarrow> browser_session_state option \<Rightarrow> browser_session_info list" where
  "mem_list_browser_sessions st status =
     (let values = map snd (ms_browser_sessions st) in
      case status of None \<Rightarrow> values | Some s \<Rightarrow> filter (\<lambda>item. bi_status item = s) values)"

section \<open>Reconciliation\<close>

definition pid_is_stale :: "(int \<Rightarrow> kill_probe) \<Rightarrow> int option \<Rightarrow> bool" where
  "pid_is_stale kill pid =
     (case pid of None \<Rightarrow> True
      | Some p \<Rightarrow> if p \<le> 0 then True else kill p = ProbeNoProcess)"

definition mem_stale_vms :: "host_env \<Rightarrow> memory_state \<Rightarrow> string list" where
  "mem_stale_vms env st =
     map fst (filter (\<lambda>(vm_id, info).
       is_live_status (vi_status info) \<and> pid_is_stale (he_kill env) (vi_pid info)) (ms_vms st))"

definition mark_stale :: "memory_state \<Rightarrow> string \<Rightarrow> memory_state" where
  "mark_stale st vm_id =
     (case map_of (ms_vms st) vm_id of None \<Rightarrow> st
      | Some info \<Rightarrow>
          st\<lparr>ms_vms := AList.update vm_id (info\<lparr>vi_status := VM_ERROR, vi_pid := None\<rparr>) (ms_vms st)\<rparr>)"

definition mem_reconcile :: "host_env \<Rightarrow> memory_state \<Rightarrow> string list \<times> memory_state" where
  "mem_reconcile env st = (let stale = mem_stale_vms env st in (stale, foldl mark_stale st stale))"

section \<open>What a granted reservation does\<close>

definition claim_table ::
  "host_env \<Rightarrow> memory_state \<Rightarrow> string \<Rightarrow> string \<Rightarrow> string \<Rightarrow> ((string \<times> string) \<times> string) list" where
  "claim_table env st kind vm_id val =
     (if map_of (ms_claims st) (kind, vm_id) = None \<and> he_has_fcntl env
      then AList.update (kind, vm_id) (lock_file kind val) (ms_claims st) else ms_claims st)"

lemma try_claim_True:
  "try_claim env st kind vm_id val = Inr (True, st') \<Longrightarrow>
     st' = st\<lparr>ms_claims := claim_table env st kind vm_id val\<rparr>"
  by (auto simp: try_claim_def claim_table_def split: if_splits lock_outcome.splits)

lemma mem_try_ip_Some:
  assumes "mem_try_ip env st vm tap c = Inr (Some (v, st'))"
  shows "v = c \<and> c \<notin> (fst \<circ> snd) ` set (ms_ip_leases st) \<and> succeeds (ip_to_pool_index c) \<and>
    st' = st\<lparr>ms_claims := claim_table env st ''ip'' vm c,
             ms_ip_leases := AList.update vm (c, tap) (ms_ip_leases st)\<rparr>"
  using assms
  by (auto simp: mem_try_ip_def result_iff dest!: try_claim_True split: if_splits sum.splits)

lemma mem_allocate_ip_Inr:
  assumes "mem_allocate_ip env st vm tap req = Inr (v, st')"
  obtains (Existing) tap' where "map_of (ms_ip_leases st) vm = Some (v, tap')"
      "req = None \<or> req = Some v" "st' = st"
  | (Granted) "map_of (ms_ip_leases st) vm = None" "v \<notin> (fst \<circ> snd) ` set (ms_ip_leases st)"
      "succeeds (ip_to_pool_index v)" "req = None \<or> req = Some v"
      "st' = st\<lparr>ms_claims := claim_table env st ''ip'' vm v,
             ms_ip_leases := AList.update vm (v, tap) (ms_ip_leases st)\<rparr>"
proof (cases "map_of (ms_ip_leases st) vm")
  case None
  with assms have "\<exists>c. mem_try_ip env st vm tap c = Inr (Some (v, st')) \<and> (req = None \<or> req = Some c)"
    by (auto simp: mem_allocate_ip_def result_iff split: option.splits if_splits sum.splits
        dest!: scan_list_Some_D scan_range_Some_D) blast
  with None show ?thesis using Granted by (blast dest: mem_try_ip_Some)
next
  case (Some p)
  with assms show ?thesis using Existing
    by (cases p) (auto simp: mem_allocate_ip_def split: if_splits)
qed

lemma mem_reserve_ssh_port_Inr:
  assumes "mem_reserve_ssh_port env st vm req excl = Inr (v, st')"
  obtains (Existing) "map_of (ms_ssh_ports st) vm = Some v" "req = None \<or> req = Some v" "st' = st"
  | (Granted) "map_of (ms_ssh_ports st) vm = None" "v \<notin> snd ` set (ms_ssh_ports st)"
      "v \<notin> set excl" "1 \<le> v" "v \<le> 65535" "req = None \<or> req = Some v"
      "st' = st\<lparr>ms_claims := claim_table env st ''ssh'' vm (string_of_int v),
             ms_ssh_ports := AList.update vm v (ms_ssh_ports st)\<rparr>"
proof (cases "map_of (ms_ssh_ports st) vm")
  case None
  with assms have "\<exists>c. mem_try_ssh_port env st vm excl c = Inr (Some (v, st')) \<and>
      (req = None \<and> SSH_PORT_START \<le> c \<and> c \<le> SSH_PORT_END \<or> req = Some c \<and> 1 \<le> c \<and> c \<le> 65535)"
    by (auto simp: mem_reserve_ssh_port_def result_iff split: option.splits if_splits sum.splits
        dest!: scan_list_Some_D scan_range_Some_D)
  then show ?thesis
    using Granted [OF None]
    by (auto simp: mem_try_ssh_port_def pool_bounds result_iff dest!: try_claim_True split: if_splits)
next
  case (Some p)
  with assms show ?thesis using Existing
    by (auto simp: mem_reserve_ssh_port_def split: if_splits)
qed

lemma mem_reserve_vsock_cid_Inr:
  assumes "mem_reserve_vsock_cid env st vm req = Inr (v, st')"
  obtains (Existing) "map_of (ms_vsock_cids st) vm = Some v" "req = None \<or> req = Some v" "st' = st"
  | (Granted) "map_of (ms_vsock_cids st) vm = None" "v \<notin> snd ` set (ms_vsock_cids st)"
      "req = None \<and> VSOCK_CID_START \<le> v \<and> v \<le> VSOCK_CID_END \<or> req = Some v"
      "st' = st\<lparr>ms_claims := claim_table env st ''vsock'' vm (string_of_int v),
             ms_vsock_cids := AList.update vm v (ms_vsock_cids st)\<rparr>"
proof (cases "map_of (ms_vsock_cids st) vm")
  case None
  with assms have "\<exists>c. mem_try_vsock_cid env st vm c = Inr (Some (v, st')) \<and>
      (req = None \<and> VSOCK_CID_START \<le> c \<and> c \<le> VSOCK_CID_END \<or> req = Some c)"
    by (auto simp: mem_reserve_vsock_cid_def result_iff split: option.splits if_splits sum.splits
        dest!: scan_list_Some_D scan_range_Some_D)
  then show ?thesis
    using Granted [OF None]
    by (auto simp: mem_try_vsock_cid_def result_iff dest!: try_claim_True split: if_splits)
next
  case (Some p)
  with assms show ?thesis using Existing
    by (auto simp: mem_reserve_vsock_cid_def split: if_splits)
qed

lemma random_tap_Some: "random_tap tok used = Some tap \<Longrightarrow> tap \<notin> set used"
  by (auto simp: random_tap_def find_Some_iff)

lemma mem_reserve_tap_name_Inr:
  assumes "mem_reserve_tap_name env st vm mode br req = Inr (v, st')"
  obtains (Existing) "map_of (ms_tap_allocations st) vm = Some (v, mode, br)"
      "req = None \<or> req = Some v" "st' = st"
  | (Granted) "map_of (ms_tap_allocations st) vm = None"
      "v \<notin> (fst \<circ> snd) ` set (ms_tap_allocations st)" "v \<notin> set (host_interface_names env)"
      "req = None \<or> req = Some v"
      "st' = st\<lparr>ms_claims := claim_table env st ''tap'' vm v,
             ms_tap_allocations := AList.update vm (v, mode, br) (ms_tap_allocations st)\<rparr>"
proof (cases "map_of (ms_tap_allocations st) vm")
  case None
  let ?used = "map (fst \<circ> snd) (ms_tap_allocations st) @ host_interface_names env"
  from None assms obtain st1 where free: "v \<notin> set ?used" "req = None \<or> req = Some v"
    and "try_claim env st ''tap'' vm v = Inr (True, st1)"
    and "st' = st1\<lparr>ms_tap_allocations := AList.update vm (v, mode, br) (ms_tap_allocations st1)\<rparr>"
    by (auto simp: mem_reserve_tap_name_def Let_def result_iff simp del: set_append
        split: option.splits if_splits dest!: random_tap_Some)
  then show ?thesis using Granted [OF None] by (auto dest!: try_claim_True)
next
  case (Some p)
  with assms show ?thesis using Existing
    by (cases p) (auto simp: mem_reserve_tap_name_def split: if_splits)
qed

section \<open>Every pool keeps the allocation contract\<close>

definition mem_held_ip :: "memory_state \<Rightarrow> string \<Rightarrow> string option" where
  "mem_held_ip st vm = map_option fst (map_of (ms_ip_leases st) vm)"

definition mem_held_tap :: "memory_state \<Rightarrow> string \<Rightarrow> string option" where
  "mem_held_tap st vm = map_option fst (map_of (ms_tap_allocations st) vm)"

lemma ran_held_values:
  "ran (mem_held_ip st) \<subseteq> (fst \<circ> snd) ` set (ms_ip_leases st)"
  "ran (mem_held_tap st) \<subseteq> (fst \<circ> snd) ` set (ms_tap_allocations st)"
  by (force simp: ran_def mem_held_ip_def mem_held_tap_def dest: map_of_SomeD)+

lemma ran_map_of_values: "ran (map_of d) \<subseteq> snd ` set d"
  by (force simp: ran_def dest: map_of_SomeD)

interpretation mem_ip: allocator mem_held_ip "\<lambda>st vm req. mem_allocate_ip env st vm tap req"
    "\<lambda>st vm. Inr (mem_release_ip st vm)" "\<lambda>_. True" for env tap
proof unfold_locales
  fix st vm req v st'
  assume r: "mem_allocate_ip env st vm tap req = Inr (v, st')"
  show "mem_held_ip st' = (mem_held_ip st)(vm \<mapsto> v)"
    using r by (cases rule: mem_allocate_ip_Inr) (auto simp: mem_held_ip_def)
  show "v \<notin> ran (mem_held_ip st)" if "mem_held_ip st vm = None"
    using r that ran_held_values(1) [of st]
    by (cases rule: mem_allocate_ip_Inr) (auto simp: mem_held_ip_def)
next
  fix st vm v req w st'
  assume "mem_held_ip st vm = Some v" "mem_allocate_ip env st vm tap req = Inr (w, st')"
  then show "w = v" by (auto simp: mem_held_ip_def elim: mem_allocate_ip_Inr)
qed (auto simp: mem_held_ip_def mem_release_ip_def release_claim_def elim: mem_allocate_ip_Inr)

interpretation mem_ssh: allocator "\<lambda>st. map_of (ms_ssh_ports st)"
    "\<lambda>st vm req. mem_reserve_ssh_port env st vm req excl"
    "\<lambda>st vm. Inr (mem_release_ssh_port st vm)" "\<lambda>_. True" for env excl
proof unfold_locales
  fix st vm req v st'
  assume r: "mem_reserve_ssh_port env st vm req excl = Inr (v, st')"
  show "map_of (ms_ssh_ports st') = (map_of (ms_ssh_ports st))(vm \<mapsto> v)"
    using r by (cases rule: mem_reserve_ssh_port_Inr) auto
  show "v \<notin> ran (map_of (ms_ssh_ports st))" if "map_of (ms_ssh_ports st) vm = None"
    using r that ran_map_of_values [of "ms_ssh_ports st"]
    by (cases rule: mem_reserve_ssh_port_Inr) auto
qed (auto simp: mem_release_ssh_port_def release_claim_def elim: mem_reserve_ssh_port_Inr)

interpretation mem_vsock: allocator "\<lambda>st. map_of (ms_vsock_cids st)"
    "\<lambda>st vm req. mem_reserve_vsock_cid env st vm req"
    "\<lambda>st vm. Inr (mem_release_vsock_cid st vm)" "\<lambda>_. True" for env
proof unfold_locales
  fix st vm req v st'
  assume r: "mem_reserve_vsock_cid env st vm req = Inr (v, st')"
  show "map_of (ms_vsock_cids st') = (map_of (ms_vsock_cids st))(vm \<mapsto> v)"
    using r by (cases rule: mem_reserve_vsock_cid_Inr) auto
  show "v \<notin> ran (map_of (ms_vsock_cids st))" if "map_of (ms_vsock_cids st) vm = None"
    using r that ran_map_of_values [of "ms_vsock_cids st"]
    by (cases rule: mem_reserve_vsock_cid_Inr) auto
qed (auto simp: mem_release_vsock_cid_def release_claim_def elim: mem_reserve_vsock_cid_Inr)

interpretation mem_tap: allocator mem_held_tap
    "\<lambda>st vm req. mem_reserve_tap_name env st vm mode br req"
    "\<lambda>st vm. Inr (mem_release_tap_name st vm)" "\<lambda>_. True" for env mode br
proof unfold_locales
  fix st vm req v st'
  assume r: "mem_reserve_tap_name env st vm mode br req = Inr (v, st')"
  show "mem_held_tap st' = (mem_held_tap st)(vm \<mapsto> v)"
    using r by (cases rule: mem_reserve_tap_name_Inr) (auto simp: mem_held_tap_def)
  show "v \<notin> ran (mem_held_tap st)" if "mem_held_tap st vm = None"
    using r that ran_held_values(2) [of st]
    by (cases rule: mem_reserve_tap_name_Inr) (auto simp: mem_held_tap_def)
next
  fix st vm v req w st'
  assume "mem_held_tap st vm = Some v" "mem_reserve_tap_name env st vm mode br req = Inr (w, st')"
  then show "w = v" by (auto simp: mem_held_tap_def elim: mem_reserve_tap_name_Inr)
qed (auto simp: mem_held_tap_def mem_release_tap_name_def release_claim_def elim: mem_reserve_tap_name_Inr)

section \<open>The rows implement the registry\<close>

interpretation mem_reg: vm_registry "\<lambda>_. True" "\<lambda>st. map_of (ms_vms st)"
    "\<lambda>st config. commit st (mem_create_vm st config)"
    "\<lambda>st vm u. commit st (mem_update_vm st vm u)"
    "\<lambda>st vm. commit_unit st (mem_delete_vm st vm)" "\<lambda>_. True" "\<lambda>_. True" "\<lambda>_. True"
proof unfold_locales
  fix st vm u r st'
  assume "commit st (mem_update_vm st vm u) = (r, st')"
  then show "True \<and> (r, map_of (ms_vms st')) = reg_update (map_of (ms_vms st)) vm u"
    by (cases "map_of (ms_vms st) vm") (auto simp: mem_update_vm_def mem_get_vm_def reg_update_def Let_def)
qed (auto simp: mem_create_vm_def reg_create_def mem_delete_vm_def reg_delete_def release_claim_def
      Let_def split: if_splits)

end
