(* ===== verification/Memory_Props.thy ===== *)
theory Memory_Props
  imports Memory_Store
begin

text \<open>
  The in-memory state manager as a state machine: a step is any state-changing call, made
  under any host (interfaces, locks held by other processes, live processes may differ from
  call to call). In every reachable state the dictionaries are consistent, no two
  computers share an address, a port, a context identifier or a TAP name, and the advisory
  lock files this process holds are exactly those of its reservations.
\<close>

section \<open>The invariant\<close>

definition mem_tables_wf :: "memory_state \<Rightarrow> bool" where
  "mem_tables_wf st \<longleftrightarrow>
     keys_distinct (ms_vms st) \<and> keys_distinct (ms_snapshots st) \<and>
     keys_distinct (ms_browser_sessions st) \<and> keys_distinct (ms_browser_configs st) \<and>
     (\<forall>vm info. map_of (ms_vms st) vm = Some info \<longrightarrow> vi_vm_id info = vm) \<and>
     (\<forall>i info. map_of (ms_snapshots st) i = Some info \<longrightarrow> si_snapshot_id info = i) \<and>
     (\<forall>i info. map_of (ms_browser_sessions st) i = Some info \<longrightarrow> bi_session_id info = i) \<and>
     (\<forall>i. map_of (ms_browser_configs st) i = None \<longleftrightarrow> map_of (ms_browser_sessions st) i = None)"

definition mem_pools_wf :: "memory_state \<Rightarrow> bool" where
  "mem_pools_wf st \<longleftrightarrow>
     exclusive (mem_held_ip st) \<and> exclusive (map_of (ms_ssh_ports st)) \<and>
     exclusive (map_of (ms_vsock_cids st)) \<and> exclusive (mem_held_tap st) \<and>
     (\<forall>vm ip. mem_held_ip st vm = Some ip \<longrightarrow> succeeds (ip_to_pool_index ip)) \<and>
     (\<forall>vm p. map_of (ms_ssh_ports st) vm = Some p \<longrightarrow> 1 \<le> p \<and> p \<le> 65535)"

text \<open>The text a reservation of each kind is locked under.\<close>

definition mem_resource :: "memory_state \<Rightarrow> string \<Rightarrow> string \<Rightarrow> string option" where
  "mem_resource st kind vm =
     (if kind = ''ip'' then mem_held_ip st vm
      else if kind = ''ssh'' then map_option string_of_int (map_of (ms_ssh_ports st) vm)
      else if kind = ''vsock'' then map_option string_of_int (map_of (ms_vsock_cids st) vm)
      else if kind = ''tap'' then mem_held_tap st vm
      else None)"

definition claims_agree :: "bool \<Rightarrow> memory_state \<Rightarrow> bool" where
  "claims_agree locks st \<longleftrightarrow>
     (\<forall>kind vm. map_of (ms_claims st) (kind, vm) =
        (if locks then map_option (lock_file kind) (mem_resource st kind vm) else None))"

definition mem_wf :: "bool \<Rightarrow> memory_state \<Rightarrow> bool" where
  "mem_wf locks st \<longleftrightarrow> mem_tables_wf st \<and> mem_pools_wf st \<and> claims_agree locks st"

section \<open>Steps\<close>

inductive mem_step :: "bool \<Rightarrow> memory_state \<Rightarrow> memory_state \<Rightarrow> bool" for locks :: bool where
  step_create_vm: "mem_create_vm st config = Inr (info, st') \<Longrightarrow> mem_step locks st st'"
| step_update_vm: "mem_update_vm st vm u = Inr (info, st') \<Longrightarrow> mem_step locks st st'"
| step_delete_vm: "mem_delete_vm st vm = Inr st' \<Longrightarrow> mem_step locks st st'"
| step_allocate_ip:
    "he_has_fcntl env = locks \<Longrightarrow> mem_allocate_ip env st vm tap req = Inr (ip, st') \<Longrightarrow> mem_step locks st st'"
| step_release_ip: "mem_step locks st (mem_release_ip st vm)"
| step_update_ip_lease_tap: "mem_step locks st (mem_update_ip_lease_tap st vm tap)"
| step_reserve_ssh_port:
    "he_has_fcntl env = locks \<Longrightarrow> mem_reserve_ssh_port env st vm reqp excl = Inr (p, st') \<Longrightarrow>
     mem_step locks st st'"
| step_release_ssh_port: "mem_step locks st (mem_release_ssh_port st vm)"
| step_reserve_vsock_cid:
    "he_has_fcntl env = locks \<Longrightarrow> mem_reserve_vsock_cid env st vm reqp = Inr (p, st') \<Longrightarrow>
     mem_step locks st st'"
| step_release_vsock_cid: "mem_step locks st (mem_release_vsock_cid st vm)"
| step_reserve_tap_name:
    "he_has_fcntl env = locks \<Longrightarrow> mem_reserve_tap_name env st vm mode br req = Inr (tap, st') \<Longrightarrow>
     mem_step locks st st'"
| step_release_tap_name: "mem_step locks st (mem_release_tap_name st vm)"
| step_create_snapshot: "mem_create_snapshot st snap = Inr (snap', st') \<Longrightarrow> mem_step locks st st'"
| step_mark_snapshot_restored:
    "mem_mark_snapshot_restored st snap_id vm = Inr (snap', st') \<Longrightarrow> mem_step locks st st'"
| step_delete_snapshot: "mem_delete_snapshot st snap_id = Inr st' \<Longrightarrow> mem_step locks st st'"
| step_create_browser_session:
    "mem_create_browser_session st binfo bconfig = Inr (binfo', st') \<Longrightarrow> mem_step locks st st'"
| step_update_browser_session:
    "mem_update_browser_session st sid bu = Inr (binfo', st') \<Longrightarrow> mem_step locks st st'"
| step_delete_browser_session: "mem_delete_browser_session st sid = Inr st' \<Longrightarrow> mem_step locks st st'"
| step_reconcile: "mem_reconcile env st = (stale, st') \<Longrightarrow> mem_step locks st st'"

inductive mem_reachable :: "bool \<Rightarrow> memory_state \<Rightarrow> bool" for locks :: bool where
  reach_init: "mem_reachable locks mem_init"
| reach_step: "mem_reachable locks st \<Longrightarrow> mem_step locks st st' \<Longrightarrow> mem_reachable locks st'"

section \<open>Updates as maps\<close>

lemmas mem_vm_defs = mem_create_vm_def mem_get_vm_def mem_update_vm_def apply_vm_update_def

lemmas mem_snapshot_defs =
  mem_create_snapshot_def mem_get_snapshot_def mem_mark_snapshot_restored_def mem_delete_snapshot_def

lemmas mem_browser_defs =
  mem_create_browser_session_def mem_get_browser_session_def mem_update_browser_session_def
  apply_browser_update_def mem_delete_browser_session_def

lemmas mem_release_defs =
  mem_release_ip_def mem_release_ssh_port_def mem_release_vsock_cid_def mem_release_tap_name_def
  release_claim_def

lemma mem_delete_vm_Inr:
  assumes "mem_delete_vm st vm = Inr st'"
  shows "map_of (ms_vms st) vm \<noteq> None \<and>
    st' = st\<lparr>ms_claims := AList.delete (''tap'', vm) (AList.delete (''vsock'', vm)
                 (AList.delete (''ssh'', vm) (AList.delete (''ip'', vm) (ms_claims st)))),
             ms_vms := AList.delete vm (ms_vms st),
             ms_ip_leases := AList.delete vm (ms_ip_leases st),
             ms_ssh_ports := AList.delete vm (ms_ssh_ports st),
             ms_vsock_cids := AList.delete vm (ms_vsock_cids st),
             ms_tap_allocations := AList.delete vm (ms_tap_allocations st)\<rparr>"
  using assms by (auto simp: mem_delete_vm_def Let_def release_claim_def split: if_splits)

definition stale_info :: "vm_info \<Rightarrow> vm_info" where
  "stale_info info = info\<lparr>vi_status := VM_ERROR, vi_pid := None\<rparr>"

lemma stale_info_simps [simp]:
  "stale_info (stale_info info) = stale_info info"
  "vi_vm_id (stale_info info) = vi_vm_id info"
  "vi_status (stale_info info) = VM_ERROR"
  "vi_pid (stale_info info) = None"
  by (simp_all add: stale_info_def)

lemma mark_stale_state:
  obtains vms where "mark_stale st vm = st\<lparr>ms_vms := vms\<rparr>"
    "keys_distinct (ms_vms st) \<longrightarrow> keys_distinct vms"
    "map_of vms = (\<lambda>v. if v = vm then map_option stale_info (map_of (ms_vms st) v) else map_of (ms_vms st) v)"
proof (cases "map_of (ms_vms st) vm")
  case None
  then show ?thesis by (intro that [of "ms_vms st"]) (auto simp: mark_stale_def)
next
  case (Some info)
  then show ?thesis
    by (intro that [of "AList.update vm (stale_info info) (ms_vms st)"])
       (auto simp: mark_stale_def stale_info_def fun_eq_iff)
qed

lemma foldl_mark_stale:
  "\<exists>vms. foldl mark_stale st ids = st\<lparr>ms_vms := vms\<rparr> \<and>
     (keys_distinct (ms_vms st) \<longrightarrow> keys_distinct vms) \<and>
     map_of vms = (\<lambda>v. if v \<in> set ids then map_option stale_info (map_of (ms_vms st) v)
                       else map_of (ms_vms st) v)"
proof (induction ids arbitrary: st)
  case Nil
  then show ?case by (intro exI [of _ "ms_vms st"]) simp
next
  case (Cons vm ids)
  obtain vms1 where vms1: "mark_stale st vm = st\<lparr>ms_vms := vms1\<rparr>"
    "keys_distinct (ms_vms st) \<longrightarrow> keys_distinct vms1"
    "map_of vms1 = (\<lambda>v. if v = vm then map_option stale_info (map_of (ms_vms st) v) else map_of (ms_vms st) v)"
    by (rule mark_stale_state)
  obtain vms where vms: "foldl mark_stale (st\<lparr>ms_vms := vms1\<rparr>) ids = st\<lparr>ms_vms := vms\<rparr>"
    "keys_distinct vms1 \<longrightarrow> keys_distinct vms"
    "map_of vms = (\<lambda>v. if v \<in> set ids then map_option stale_info (map_of vms1 v) else map_of vms1 v)"
    using Cons.IH [of "st\<lparr>ms_vms := vms1\<rparr>"] by (auto cong: if_cong)
  have "map_of vms v = (if v \<in> set (vm # ids) then map_option stale_info (map_of (ms_vms st) v)
      else map_of (ms_vms st) v)" for v
    using vms(3) vms1(3) by (cases "map_of (ms_vms st) v") auto
  then show ?case using vms(1,2) vms1(1,2) by (intro exI [of _ vms]) (simp add: fun_eq_iff)
qed

lemma mem_reconcile_state:
  assumes "mem_reconcile env st = (stale, st')"
  obtains vms where "st' = st\<lparr>ms_vms := vms\<rparr>" "keys_distinct (ms_vms st) \<Longrightarrow> keys_distinct vms"
    "map_of vms = (\<lambda>vm. if vm \<in> set stale then map_option stale_info (map_of (ms_vms st) vm)
                        else map_of (ms_vms st) vm)"
  using assms foldl_mark_stale [of st stale] by (auto simp: mem_reconcile_def Let_def)

section \<open>Preservation\<close>

lemma mem_init_wf [simp]: "mem_wf locks mem_init"
  by (simp add: mem_wf_def mem_tables_wf_def mem_pools_wf_def claims_agree_def mem_resource_def
      mem_init_def mem_held_ip_def mem_held_tap_def exclusive_def)

lemma mem_pools_claims_cong:
  assumes "ms_claims st' = ms_claims st" "ms_ip_leases st' = ms_ip_leases st"
    "ms_ssh_ports st' = ms_ssh_ports st" "ms_vsock_cids st' = ms_vsock_cids st"
    "ms_tap_allocations st' = ms_tap_allocations st"
  shows "mem_pools_wf st' = mem_pools_wf st" "claims_agree locks st' = claims_agree locks st"
proof -
  have held: "mem_held_ip st' = mem_held_ip st" "mem_held_tap st' = mem_held_tap st"
    using assms by (auto simp: mem_held_ip_def mem_held_tap_def fun_eq_iff)
  then have res: "mem_resource st' = mem_resource st"
    using assms by (auto simp: mem_resource_def fun_eq_iff)
  show "mem_pools_wf st' = mem_pools_wf st" by (simp add: mem_pools_wf_def held assms)
  show "claims_agree locks st' = claims_agree locks st" by (simp add: claims_agree_def res assms)
qed

lemma mem_step_tables:
  assumes "mem_step locks st st'" "mem_tables_wf st"
  shows "mem_tables_wf st'"
  using assms
proof (cases rule: mem_step.cases)
  case (step_delete_vm vm)
  then show ?thesis
    using assms(2) by (auto simp: mem_tables_wf_def dest!: mem_delete_vm_Inr split: if_splits)
next
  case (step_allocate_ip env vm tap req ip)
  from step_allocate_ip(2) show ?thesis using assms(2)
    by (cases rule: mem_allocate_ip_Inr) (simp_all add: mem_tables_wf_def)
next
  case (step_reserve_ssh_port env vm reqp excl p)
  from step_reserve_ssh_port(2) show ?thesis using assms(2)
    by (cases rule: mem_reserve_ssh_port_Inr) (simp_all add: mem_tables_wf_def)
next
  case (step_reserve_vsock_cid env vm reqp p)
  from step_reserve_vsock_cid(2) show ?thesis using assms(2)
    by (cases rule: mem_reserve_vsock_cid_Inr) (simp_all add: mem_tables_wf_def)
next
  case (step_reserve_tap_name env vm mode br req tap)
  from step_reserve_tap_name(2) show ?thesis using assms(2)
    by (cases rule: mem_reserve_tap_name_Inr) (simp_all add: mem_tables_wf_def)
next
  case (step_reconcile env stale)
  then show ?thesis using assms(2)
    by (elim mem_reconcile_state) (auto simp: mem_tables_wf_def split: if_splits)
qed (auto simp: mem_tables_wf_def mem_vm_defs mem_snapshot_defs mem_browser_defs mem_release_defs
      mem_update_ip_lease_tap_def created_vm_info_def Let_def result_iff
      split: if_splits option.splits)

text \<open>Locks: a grant adds the lock of the new reservation, a release drops it.\<close>

lemma claims_agree_grant:
  assumes "claims_agree (he_has_fcntl env) st" "mem_resource st kind vm = None"
    "ms_claims st' = claim_table env st kind vm val"
    "\<And>k v. mem_resource st' k v = (if k = kind \<and> v = vm then Some val else mem_resource st k v)"
  shows "claims_agree (he_has_fcntl env) st'"
  using assms by (auto simp: claims_agree_def claim_table_def)

lemma claims_agree_release:
  assumes "claims_agree locks st" "ms_claims st' = AList.delete (kind, vm) (ms_claims st)"
    "\<And>k v. mem_resource st' k v = (if k = kind \<and> v = vm then None else mem_resource st k v)"
  shows "claims_agree locks st'"
  using assms by (auto simp: claims_agree_def)

lemmas mem_view_defs = mem_resource_def mem_held_ip_def mem_held_tap_def

lemma mem_allocate_ip_claims:
  assumes "mem_allocate_ip env st vm tap req = Inr (ip, st')" "claims_agree (he_has_fcntl env) st"
  shows "claims_agree (he_has_fcntl env) st'"
  using assms(1)
proof (cases rule: mem_allocate_ip_Inr)
  case Granted
  then show ?thesis
    by (intro claims_agree_grant [OF assms(2), of "''ip''" vm _ ip]) (auto simp: mem_view_defs)
qed (use assms(2) in simp)

lemma mem_reserve_ssh_port_claims:
  assumes "mem_reserve_ssh_port env st vm req excl = Inr (p, st')" "claims_agree (he_has_fcntl env) st"
  shows "claims_agree (he_has_fcntl env) st'"
  using assms(1)
proof (cases rule: mem_reserve_ssh_port_Inr)
  case Granted
  then show ?thesis
    by (intro claims_agree_grant [OF assms(2), of "''ssh''" vm _ "string_of_int p"])
       (auto simp: mem_view_defs)
qed (use assms(2) in simp)

lemma mem_reserve_vsock_cid_claims:
  assumes "mem_reserve_vsock_cid env st vm req = Inr (p, st')" "claims_agree (he_has_fcntl env) st"
  shows "claims_agree (he_has_fcntl env) st'"
  using assms(1)
proof (cases rule: mem_reserve_vsock_cid_Inr)
  case Granted
  then show ?thesis
    by (intro claims_agree_grant [OF assms(2), of "''vsock''" vm _ "string_of_int p"])
       (auto simp: mem_view_defs)
qed (use assms(2) in simp)

lemma mem_reserve_tap_name_claims:
  assumes "mem_reserve_tap_name env st vm mode br req = Inr (tap, st')"
    "claims_agree (he_has_fcntl env) st"
  shows "claims_agree (he_has_fcntl env) st'"
  using assms(1)
proof (cases rule: mem_reserve_tap_name_Inr)
  case Granted
  then show ?thesis
    by (intro claims_agree_grant [OF assms(2), of "''tap''" vm _ tap]) (auto simp: mem_view_defs)
qed (use assms(2) in simp)

lemma mem_release_claims:
  assumes "claims_agree locks st"
  shows "claims_agree locks (mem_release_ip st vm)" "claims_agree locks (mem_release_ssh_port st vm)"
    "claims_agree locks (mem_release_vsock_cid st vm)" "claims_agree locks (mem_release_tap_name st vm)"
proof -
  note release = claims_agree_release [OF assms, where vm = vm]
  show "claims_agree locks (mem_release_ip st vm)"
    by (rule release [of _ "''ip''"]) (simp_all add: mem_release_defs mem_view_defs)
  show "claims_agree locks (mem_release_ssh_port st vm)"
    by (rule release [of _ "''ssh''"]) (simp_all add: mem_release_defs mem_view_defs)
  show "claims_agree locks (mem_release_vsock_cid st vm)"
    by (rule release [of _ "''vsock''"]) (simp_all add: mem_release_defs mem_view_defs)
  show "claims_agree locks (mem_release_tap_name st vm)"
    by (rule release [of _ "''tap''"]) (simp_all add: mem_release_defs mem_view_defs)
qed

lemma mem_delete_vm_claims:
  assumes "mem_delete_vm st vm = Inr st'" "claims_agree locks st"
  shows "claims_agree locks st'"
proof -
  have kinds: "mem_resource st k v = None" if "k \<notin> {''ip'', ''ssh'', ''vsock'', ''tap''}" for k v
    using that by (simp add: mem_resource_def)
  have "mem_resource st' k v = (if v = vm then None else mem_resource st k v)" for k v
    using mem_delete_vm_Inr [OF assms(1)] by (auto simp: mem_view_defs)
  then show ?thesis
    using mem_delete_vm_Inr [OF assms(1)] assms(2) kinds by (auto simp: claims_agree_def)
qed

lemma mem_update_ip_lease_tap_held:
  "mem_held_ip (mem_update_ip_lease_tap st vm tap) = mem_held_ip st"
  by (auto simp: mem_update_ip_lease_tap_def mem_held_ip_def fun_eq_iff split: option.splits)

lemma mem_update_ip_lease_tap_claims:
  "claims_agree locks st \<Longrightarrow> claims_agree locks (mem_update_ip_lease_tap st vm tap)"
proof -
  have "mem_resource (mem_update_ip_lease_tap st vm tap) = mem_resource st"
    using mem_update_ip_lease_tap_held [of st vm tap]
    by (auto simp: mem_resource_def mem_held_tap_def mem_update_ip_lease_tap_def fun_eq_iff
        split: option.splits)
  moreover have "ms_claims (mem_update_ip_lease_tap st vm tap) = ms_claims st"
    by (simp add: mem_update_ip_lease_tap_def split: option.split)
  ultimately show "claims_agree locks st \<Longrightarrow> ?thesis" by (simp add: claims_agree_def)
qed

text \<open>The operations on rows leave the reservations and the locks alone.\<close>

lemma mem_step_row_ops:
  assumes "mem_create_vm st config = Inr (info, st') \<or> mem_update_vm st vm u = Inr (info, st') \<or>
    mem_create_snapshot st snap = Inr (snap', st') \<or>
    mem_mark_snapshot_restored st sid vm = Inr (snap', st') \<or> mem_delete_snapshot st sid = Inr st' \<or>
    mem_create_browser_session st binfo bconfig = Inr (binfo', st') \<or>
    mem_update_browser_session st sid bu = Inr (binfo', st') \<or>
    mem_delete_browser_session st sid = Inr st' \<or> mem_reconcile env st = (stale, st')"
  shows "ms_claims st' = ms_claims st \<and> ms_ip_leases st' = ms_ip_leases st \<and>
    ms_ssh_ports st' = ms_ssh_ports st \<and> ms_vsock_cids st' = ms_vsock_cids st \<and>
    ms_tap_allocations st' = ms_tap_allocations st"
  using assms
  by (auto simp: mem_create_vm_def mem_update_vm_def mem_snapshot_defs mem_create_browser_session_def
      mem_update_browser_session_def mem_delete_browser_session_def Let_def result_iff
      elim!: mem_reconcile_state split: if_splits option.splits)

text \<open>Pools: each reservation goes through the contract, the other pools stay as they are.\<close>

lemma mem_allocate_ip_pools:
  assumes r: "mem_allocate_ip env st vm tap req = Inr (ip, st')" and wf: "mem_pools_wf st"
  shows "mem_pools_wf st'"
proof -
  have "exclusive (mem_held_ip st')"
    using wf mem_ip.reserve_exclusive [OF _ r] by (simp add: mem_pools_wf_def)
  moreover have "ms_ssh_ports st' = ms_ssh_ports st" "ms_vsock_cids st' = ms_vsock_cids st"
      "mem_held_tap st' = mem_held_tap st"
    using r by (cases rule: mem_allocate_ip_Inr; simp add: mem_held_tap_def fun_eq_iff)+
  moreover have "succeeds (ip_to_pool_index x)" if "mem_held_ip st' v = Some x" for v x
    using r wf that
    by (cases rule: mem_allocate_ip_Inr) (auto simp: mem_pools_wf_def mem_held_ip_def split: if_splits)
  ultimately show ?thesis using wf by (simp add: mem_pools_wf_def)
qed

lemma mem_reserve_ssh_port_pools:
  assumes r: "mem_reserve_ssh_port env st vm req excl = Inr (p, st')" and wf: "mem_pools_wf st"
  shows "mem_pools_wf st'"
proof -
  have "exclusive (map_of (ms_ssh_ports st'))"
    using wf mem_ssh.reserve_exclusive [OF _ r] by (simp add: mem_pools_wf_def)
  moreover have "mem_held_ip st' = mem_held_ip st" "ms_vsock_cids st' = ms_vsock_cids st"
      "mem_held_tap st' = mem_held_tap st"
    using r by (cases rule: mem_reserve_ssh_port_Inr; simp add: mem_view_defs fun_eq_iff)+
  moreover have "1 \<le> x \<and> x \<le> 65535" if "map_of (ms_ssh_ports st') v = Some x" for v x
    using r wf that
    by (cases rule: mem_reserve_ssh_port_Inr) (auto simp: mem_pools_wf_def split: if_splits)
  ultimately show ?thesis using wf by (simp add: mem_pools_wf_def)
qed

lemma mem_reserve_vsock_cid_pools:
  assumes r: "mem_reserve_vsock_cid env st vm req = Inr (p, st')" and wf: "mem_pools_wf st"
  shows "mem_pools_wf st'"
proof -
  have "exclusive (map_of (ms_vsock_cids st'))"
    using wf mem_vsock.reserve_exclusive [OF _ r] by (simp add: mem_pools_wf_def)
  moreover have "mem_held_ip st' = mem_held_ip st" "ms_ssh_ports st' = ms_ssh_ports st"
      "mem_held_tap st' = mem_held_tap st"
    using r by (cases rule: mem_reserve_vsock_cid_Inr; simp add: mem_view_defs fun_eq_iff)+
  ultimately show ?thesis using wf by (simp add: mem_pools_wf_def)
qed

lemma mem_reserve_tap_name_pools:
  assumes r: "mem_reserve_tap_name env st vm mode br req = Inr (tap, st')" and wf: "mem_pools_wf st"
  shows "mem_pools_wf st'"
proof -
  have "exclusive (mem_held_tap st')"
    using wf mem_tap.reserve_exclusive [OF _ r] by (simp add: mem_pools_wf_def)
  moreover have "mem_held_ip st' = mem_held_ip st" "ms_ssh_ports st' = ms_ssh_ports st"
      "ms_vsock_cids st' = ms_vsock_cids st"
    using r by (cases rule: mem_reserve_tap_name_Inr; simp add: mem_view_defs fun_eq_iff)+
  ultimately show ?thesis using wf by (simp add: mem_pools_wf_def)
qed

lemma exclusive_subset:
  "exclusive held \<Longrightarrow> (\<And>v x. held' v = Some x \<Longrightarrow> held v = Some x) \<Longrightarrow> exclusive held'"
  unfolding exclusive_def by blast

text \<open>A step that only forgets reservations keeps the pools well formed.\<close>

lemma mem_pools_shrink:
  assumes "mem_pools_wf st" "\<And>v x. mem_held_ip st' v = Some x \<Longrightarrow> mem_held_ip st v = Some x"
    "\<And>v x. map_of (ms_ssh_ports st') v = Some x \<Longrightarrow> map_of (ms_ssh_ports st) v = Some x"
    "\<And>v x. map_of (ms_vsock_cids st') v = Some x \<Longrightarrow> map_of (ms_vsock_cids st) v = Some x"
    "\<And>v x. mem_held_tap st' v = Some x \<Longrightarrow> mem_held_tap st v = Some x"
  shows "mem_pools_wf st'"
  unfolding mem_pools_wf_def
proof (intro conjI)
  show "exclusive (mem_held_ip st')" "exclusive (map_of (ms_ssh_ports st'))"
    "exclusive (map_of (ms_vsock_cids st'))" "exclusive (mem_held_tap st')"
    using assms(1) unfolding mem_pools_wf_def by (blast intro: exclusive_subset assms(2-5))+
qed (use assms in \<open>unfold mem_pools_wf_def, blast\<close>)+

lemma mem_release_pools:
  assumes "mem_pools_wf st"
  shows "mem_pools_wf (mem_release_ip st vm)" "mem_pools_wf (mem_release_ssh_port st vm)"
    "mem_pools_wf (mem_release_vsock_cid st vm)" "mem_pools_wf (mem_release_tap_name st vm)"
  by (rule mem_pools_shrink [OF assms]; simp add: mem_release_defs mem_view_defs split: if_splits)+

lemma mem_delete_vm_pools:
  assumes "mem_delete_vm st vm = Inr st'" "mem_pools_wf st"
  shows "mem_pools_wf st'"
  using mem_delete_vm_Inr [OF assms(1)]
  by (intro mem_pools_shrink [OF assms(2)]) (auto simp: mem_view_defs split: if_splits)

lemma mem_update_ip_lease_tap_pools:
  assumes "mem_pools_wf st"
  shows "mem_pools_wf (mem_update_ip_lease_tap st vm tap)"
  by (rule mem_pools_shrink [OF assms])
     (auto simp: mem_held_ip_def mem_held_tap_def mem_update_ip_lease_tap_def
       split: option.splits if_splits)

lemma mem_step_pools_claims:
  assumes "mem_step locks st st'" "mem_pools_wf st" "claims_agree locks st"
  shows "mem_pools_wf st' \<and> claims_agree locks st'"
  using assms(1)
proof (cases rule: mem_step.cases)
  case (step_delete_vm vm)
  then show ?thesis using assms(2,3) mem_delete_vm_pools mem_delete_vm_claims by blast
next
  case (step_allocate_ip env vm tap req ip)
  then show ?thesis using assms(2,3) mem_allocate_ip_pools mem_allocate_ip_claims by blast
next
  case (step_reserve_ssh_port env vm reqp excl p)
  then show ?thesis using assms(2,3) mem_reserve_ssh_port_pools mem_reserve_ssh_port_claims by blast
next
  case (step_reserve_vsock_cid env vm reqp p)
  then show ?thesis using assms(2,3) mem_reserve_vsock_cid_pools mem_reserve_vsock_cid_claims by blast
next
  case (step_reserve_tap_name env vm mode br req tap)
  then show ?thesis using assms(2,3) mem_reserve_tap_name_pools mem_reserve_tap_name_claims by blast
qed (use assms(2,3) mem_release_pools mem_release_claims mem_update_ip_lease_tap_pools
      mem_update_ip_lease_tap_claims in \<open>simp; fail | metis mem_step_row_ops mem_pools_claims_cong\<close>)+

lemma mem_step_wf:
  assumes "mem_step locks st st'" "mem_wf locks st"
  shows "mem_wf locks st'"
  using mem_step_tables [OF assms(1)] mem_step_pools_claims [OF assms(1)] assms(2)
  by (simp add: mem_wf_def)

lemma mem_reachable_wf: "mem_reachable locks st \<Longrightarrow> mem_wf locks st"
  by (induction rule: mem_reachable.induct) (auto intro: mem_step_wf)

section \<open>Lowest free address\<close>

text \<open>Whether pool index \<open>i\<close> can be handed out now.\<close>

definition ip_available :: "host_env \<Rightarrow> memory_state \<Rightarrow> int \<Rightarrow> bool" where
  "ip_available env st i =
     (case pool_index_to_ip i of Inl _ \<Rightarrow> False
      | Inr ip \<Rightarrow> ip \<notin> (fst \<circ> snd) ` set (ms_ip_leases st) \<and>
          ''tap'' @ string_of_int i \<notin> set (host_interface_names env) \<and>
          (he_has_fcntl env \<longrightarrow>
             lock_file ''ip'' ip \<notin> snd ` set (ms_claims st) \<and> he_flock env (lock_file ''ip'' ip) = LockFree))"

lemma mem_try_ip_available:
  assumes "pool_index_to_ip i = Inr ip" "map_of (ms_claims st) (''ip'', vm) = None"
    "\<forall>f. he_flock env f \<noteq> LockFault"
  shows "mem_try_ip env st vm tap ip =
    (if ip_available env st i
     then Inr (Some (ip, st\<lparr>ms_claims := claim_table env st ''ip'' vm ip,
                           ms_ip_leases := AList.update vm (ip, tap) (ms_ip_leases st)\<rparr>))
     else Inr None)"
proof -
  have flock: "he_flock env f = LockFree \<or> he_flock env f = LockHeld" for f
    using assms(3) by (cases "he_flock env f") auto
  have "ip_to_pool_index ip = Inr i" using assms(1) by (rule pool_index_to_ip_back)
  then show ?thesis
    using assms(1,2) flock [of "lock_file ''ip'' ip"]
    by (auto simp: mem_try_ip_def ip_available_def try_claim_def claim_table_def)
qed

lemma mem_allocate_ip_finds:
  assumes "map_of (ms_ip_leases st) vm = None" "map_of (ms_claims st) (''ip'', vm) = None"
    "\<forall>f. he_flock env f \<noteq> LockFault"
  shows "map_sum id fst (mem_allocate_ip env st vm tap None) =
    (case find (ip_available env st) [IP_POOL_START..IP_POOL_END] of
       None \<Rightarrow> Inl (NetworkError ''no IP addresses available'')
     | Some i \<Rightarrow> Inr (projr (pool_index_to_ip i)))"
proof -
  let ?f = "\<lambda>i. case pool_index_to_ip i of
      Inl _ \<Rightarrow> Inl (ValueError ''pool index out of range'') | Inr ip \<Rightarrow> mem_try_ip env st vm tap ip"
  let ?g = "\<lambda>i. let ip = projr (pool_index_to_ip i) in
      (ip, st\<lparr>ms_claims := claim_table env st ''ip'' vm ip,
              ms_ip_leases := AList.update vm (ip, tap) (ms_ip_leases st)\<rparr>)"
  have "?f i = (if ip_available env st i then Inr (Some (?g i)) else Inr None)"
    if "IP_POOL_START \<le> i" "i \<le> IP_POOL_END" for i
  proof -
    from that obtain ip where ip: "pool_index_to_ip i = Inr ip"
      using pool_index_to_ip_succeeds [of i] by (auto simp: pool_bounds)
    show ?thesis using mem_try_ip_available [OF ip assms(2,3)] ip by simp
  qed
  then have "scan_range ?f IP_POOL_START IP_POOL_END =
      Inr (map_option ?g (find (ip_available env st) [IP_POOL_START..IP_POOL_END]))"
    by (rule scan_range_available)
  then show ?thesis using assms(1)
    by (simp add: mem_allocate_ip_def Let_def split: option.split)
qed

section \<open>Properties\<close>

lemma mem_get_held:
  "mem_get_ip_lease st a = Some (ip, ta) \<Longrightarrow> mem_held_ip st a = Some ip"
  "mem_get_tap_allocation st a = Some (t, m, b) \<Longrightarrow> mem_held_tap st a = Some t"
  by (simp_all add: mem_get_ip_lease_def mem_held_ip_def mem_get_tap_allocation_def mem_held_tap_def)

text \<open>
  \<^bold>\<open>C1\<close>. Whatever calls were made on the in-memory state manager, under whatever behaviour of
  the host, two different computers never hold the same guest address, SSH host port, vsock
  context identifier or TAP name, every leased address lies in the pool in canonical
  spelling, and every reserved SSH port is a valid TCP port.
\<close>

theorem mem_reachable_exclusive:
  assumes "mem_reachable locks st"
  shows "(mem_get_ip_lease st a = Some (ip, ta) \<and> mem_get_ip_lease st b = Some (ip, tb) \<longrightarrow> a = b) \<and>
    (mem_get_ssh_port st a = Some p \<and> mem_get_ssh_port st b = Some p \<longrightarrow> a = b) \<and>
    (mem_get_vsock_cid st a = Some c \<and> mem_get_vsock_cid st b = Some c \<longrightarrow> a = b) \<and>
    (mem_get_tap_allocation st a = Some (t, ma, ba) \<and>
       mem_get_tap_allocation st b = Some (t, mb, bb) \<longrightarrow> a = b) \<and>
    (mem_get_ip_lease st a = Some (ip, ta) \<longrightarrow> (\<exists>i. pool_index_to_ip i = Inr ip)) \<and>
    (mem_get_ssh_port st a = Some p \<longrightarrow> 1 \<le> p \<and> p \<le> 65535)"
proof -
  have wf: "mem_pools_wf st" using mem_reachable_wf [OF assms] by (simp add: mem_wf_def)
  have "\<exists>i. pool_index_to_ip i = Inr ip" if "mem_get_ip_lease st a = Some (ip, ta)"
  proof -
    have "succeeds (ip_to_pool_index ip)" using wf mem_get_held(1) [OF that] by (simp add: mem_pools_wf_def)
    then show ?thesis using ip_to_pool_index_back by (auto simp: succeeds_iff)
  qed
  with wf show ?thesis
    unfolding mem_pools_wf_def mem_get_ssh_port_def mem_get_vsock_cid_def
    by (blast dest: mem_get_held exclusiveD)
qed

text \<open>A host with no lock support, one interface and fixed random suffixes.\<close>

definition plain_host :: host_env where
  "plain_host =
     \<lparr>he_has_fcntl = False, he_flock = (\<lambda>_. LockFree), he_if_nameindex = Some [''eth0''],
      he_token_hex = (\<lambda>_. ''00000000''), he_kill = (\<lambda>_. ProbeNoProcess)\<rparr>"

definition two_ports :: memory_state where
  "two_ports = mem_init\<lparr>ms_ssh_ports := [(''a'', 2200), (''b'', 2201)]\<rparr>"

lemma two_ports_reachable: "mem_reachable False two_ports"
proof -
  have "mem_reserve_ssh_port plain_host mem_init ''a'' None [] =
      Inr (2200, mem_init\<lparr>ms_ssh_ports := [(''a'', 2200)]\<rparr>)"
    "mem_reserve_ssh_port plain_host (mem_init\<lparr>ms_ssh_ports := [(''a'', 2200)]\<rparr>) ''b'' None [] =
      Inr (2201, two_ports)"
    by (simp_all add: mem_reserve_ssh_port_def mem_try_ssh_port_def try_claim_def plain_host_def
        mem_init_def two_ports_def pool_bounds scan_range.simps [of _ 2200] scan_range.simps [of _ 2201])
  note calls = this
  have "he_has_fcntl plain_host = False" by (simp add: plain_host_def)
  from reach_step [OF reach_step [OF reach_init step_reserve_ssh_port [OF this calls(1)]]
      step_reserve_ssh_port [OF this calls(2)]]
  show ?thesis .
qed

theorem mem_reachable_exclusive_witness:
  "mem_get_ssh_port two_ports ''b'' = Some 2201 \<and> mem_get_ssh_port two_ports ''a'' \<noteq> Some 2201 \<and>
   1 \<le> (2201::int) \<and> (2201::int) \<le> 65535"
proof -
  have "mem_get_ssh_port two_ports ''b'' = Some 2201" by (simp add: mem_get_ssh_port_def two_ports_def)
  with mem_reachable_exclusive [OF two_ports_reachable, where a = "''a''" and b = "''b''" and p = 2201]
  show ?thesis by auto
qed

text \<open>
  \<^bold>\<open>C4\<close>. The advisory locks never drift from the reservations: on a host with \<open>fcntl\<close>, after any
  calls, the process holds the lock file of a kind for a computer exactly when the computer
  has a reservation of that kind, and it is the lock file of the reserved value. So a lock
  is never leaked and a reservation is never left unprotected.
\<close>

theorem mem_reachable_locks:
  assumes "mem_reachable True st"
  shows "map_of (ms_claims st) (''ip'', vm) =
           map_option (\<lambda>(ip, _). lock_file ''ip'' ip) (mem_get_ip_lease st vm) \<and>
         map_of (ms_claims st) (''ssh'', vm) =
           map_option (\<lambda>p. lock_file ''ssh'' (string_of_int p)) (mem_get_ssh_port st vm) \<and>
         map_of (ms_claims st) (''vsock'', vm) =
           map_option (\<lambda>c. lock_file ''vsock'' (string_of_int c)) (mem_get_vsock_cid st vm) \<and>
         map_of (ms_claims st) (''tap'', vm) =
           map_option (\<lambda>(tap, _). lock_file ''tap'' tap) (mem_get_tap_allocation st vm)"
  using mem_reachable_wf [OF assms]
  by (auto simp: mem_wf_def claims_agree_def mem_view_defs mem_get_ip_lease_def mem_get_ssh_port_def
      mem_get_vsock_cid_def mem_get_tap_allocation_def option.map_comp o_def case_prod_unfold)

definition locking_host :: host_env where
  "locking_host = plain_host\<lparr>he_has_fcntl := True\<rparr>"

definition one_lock :: memory_state where
  "one_lock = mem_init\<lparr>ms_claims := [((''ssh'', ''a''), ''ssh-2200.lock'')],
                       ms_ssh_ports := [(''a'', 2200)]\<rparr>"

lemma lock_file_2200: "lock_file ''ssh'' (string_of_int 2200) = ''ssh-2200.lock''"
  by code_simp

lemma one_lock_reachable: "mem_reachable True one_lock"
proof -
  have "mem_reserve_ssh_port locking_host mem_init ''a'' None [] = Inr (2200, one_lock)"
    by (simp add: mem_reserve_ssh_port_def mem_try_ssh_port_def try_claim_def plain_host_def
        locking_host_def mem_init_def one_lock_def pool_bounds scan_range.simps [of _ 2200] lock_file_2200)
  note call = this
  have "he_has_fcntl locking_host = True" by (simp add: locking_host_def)
  from reach_step [OF reach_init step_reserve_ssh_port [OF this call]] show ?thesis .
qed

theorem mem_reachable_locks_witness:
  "map_of (ms_claims one_lock) (''ssh'', ''a'') = Some (lock_file ''ssh'' (string_of_int 2200))"
  using mem_reachable_locks [OF one_lock_reachable, of "''a''"]
  by (simp add: mem_get_ssh_port_def one_lock_def)

text \<open>
  \<^bold>\<open>C23\<close>. Without a requested address, \<open>allocate_ip\<close> hands out the lowest pool index that is not
  leased, has no \<open>tap<index>\<close> interface on the host and whose lock is free, and it reports
  an exhausted pool exactly when there is no such index.
\<close>

theorem mem_allocate_ip_lowest:
  assumes "mem_reachable locks st" "mem_get_ip_lease st vm = None"
    "\<forall>f. he_flock env f \<noteq> LockFault"
  shows "((\<exists>st'. mem_allocate_ip env st vm tap None = Inr (ip, st')) \<longleftrightarrow>
      (\<exists>i. IP_POOL_START \<le> i \<and> i \<le> IP_POOL_END \<and> ip_available env st i \<and>
           pool_index_to_ip i = Inr ip \<and>
           (\<forall>j. IP_POOL_START \<le> j \<and> j < i \<longrightarrow> \<not> ip_available env st j))) \<and>
    (mem_allocate_ip env st vm tap None = Inl (NetworkError ''no IP addresses available'') \<longleftrightarrow>
      (\<forall>i. IP_POOL_START \<le> i \<and> i \<le> IP_POOL_END \<longrightarrow> \<not> ip_available env st i))"
proof -
  let ?r = "mem_allocate_ip env st vm tap None"
  let ?find = "find (ip_available env st) [IP_POOL_START..IP_POOL_END]"
  have "map_of (ms_claims st) (''ip'', vm) = None"
    using mem_reachable_wf [OF assms(1)] assms(2)
    by (simp add: mem_wf_def claims_agree_def mem_view_defs mem_get_ip_lease_def)
  then have r: "map_sum id fst ?r = (case ?find of
       None \<Rightarrow> Inl (NetworkError ''no IP addresses available'')
     | Some i \<Rightarrow> Inr (projr (pool_index_to_ip i)))"
    using assms by (intro mem_allocate_ip_finds) (simp_all add: mem_get_ip_lease_def)
  have avail: "\<exists>x. pool_index_to_ip i = Inr x" if "?find = Some i" for i
    using that by (auto simp: find_upto_least ip_available_def split: sum.splits)
  have "(\<exists>st'. ?r = Inr (ip, st')) \<longleftrightarrow> map_sum id fst ?r = Inr ip" by (cases ?r) auto
  also have "\<dots> \<longleftrightarrow> (\<exists>i. ?find = Some i \<and> pool_index_to_ip i = Inr ip)"
    unfolding r using avail by (cases ?find) auto
  finally have granted: "(\<exists>st'. ?r = Inr (ip, st')) \<longleftrightarrow>
      (\<exists>i. ?find = Some i \<and> pool_index_to_ip i = Inr ip)" .
  have "?r = Inl (NetworkError ''no IP addresses available'') \<longleftrightarrow>
      map_sum id fst ?r = Inl (NetworkError ''no IP addresses available'')" by (cases ?r) auto
  also have "\<dots> \<longleftrightarrow> ?find = None" unfolding r by (auto split: option.splits)
  finally show ?thesis using granted by (auto simp: find_upto_least find_None_iff)
qed

theorem mem_allocate_ip_lowest_witness:
  "\<exists>st'. mem_allocate_ip plain_host two_ports ''a'' ''tap0'' None = Inr (''172.16.0.2'', st')"
proof -
  have "ip_available plain_host two_ports 2" "pool_index_to_ip 2 = Inr ''172.16.0.2''"
    by code_simp+
  then show ?thesis
    using mem_allocate_ip_lowest [OF two_ports_reachable, of "''a''" plain_host "''tap0''" "''172.16.0.2''"]
    by (auto simp: mem_get_ip_lease_def two_ports_def mem_init_def plain_host_def pool_bounds)
qed

text \<open>
  \<^bold>\<open>C24\<close>. Deleting a computer removes its row and gives back everything it reserved, locks
  included, and leaves every other computer's row, reservations and locks as they were.
\<close>

theorem mem_delete_vm_releases:
  assumes "mem_reachable locks st" "mem_delete_vm st vm = Inr st'"
  shows "mem_get_vm st' vm = Inl (VMNotFoundError vm) \<and> mem_get_ip_lease st' vm = None \<and>
    mem_get_ssh_port st' vm = None \<and> mem_get_vsock_cid st' vm = None \<and>
    mem_get_tap_allocation st' vm = None \<and> map_of (ms_claims st') (kind, vm) = None \<and>
    (v \<noteq> vm \<longrightarrow>
       mem_get_vm st' v = mem_get_vm st v \<and> mem_get_ip_lease st' v = mem_get_ip_lease st v \<and>
       mem_get_ssh_port st' v = mem_get_ssh_port st v \<and> mem_get_vsock_cid st' v = mem_get_vsock_cid st v \<and>
       mem_get_tap_allocation st' v = mem_get_tap_allocation st v \<and>
       map_of (ms_claims st') (kind, v) = map_of (ms_claims st) (kind, v))"
proof -
  have "claims_agree locks st"
    using mem_reachable_wf [OF assms(1)] by (simp add: mem_wf_def)
  then have "map_of (ms_claims st) (kind, vm) = None"
    if "kind \<notin> {''ip'', ''ssh'', ''vsock'', ''tap''}"
    using that by (simp add: claims_agree_def mem_resource_def)
  then show ?thesis
    using mem_delete_vm_Inr [OF assms(2)]
    by (auto simp: mem_get_vm_def mem_get_ip_lease_def mem_get_ssh_port_def mem_get_vsock_cid_def
        mem_get_tap_allocation_def)
qed

text \<open>A minimal computer, for concrete runs.\<close>

definition demo_config :: "string \<Rightarrow> vm_config" where
  "demo_config vm_id =
     \<lparr>vc_vm_id = vm_id, vc_preset = None, vc_vcpu_count = 1, vc_memory = 512, vc_guest_os = ALPINE,
      vc_boot_mode = DIRECT_KERNEL, vc_kernel_path = Some ''vmlinux'', vc_initrd_path = None,
      vc_rootfs_path = Some ''rootfs.ext4'', vc_rootfs_format = None, vc_macos_machine = None,
      vc_extra_drives = [], vc_boot_args = ''console=ttyS0'', vc_ssh_capable = True, vc_backend = None,
      vc_qemu_network = QN_SLIRP, vc_qemu_machine = QM_AUTO, vc_disk_mode = DISK_ISOLATED,
      vc_disk_size_mib = None, vc_grow_filesystem = False, vc_retain_disk_on_delete = False,
      vc_env_vars = [], vc_network_rate_limit_mbps = None, vc_port_forwards = [], vc_vsock = None,
      vc_comm_channel = None, vc_internet_settings = None, vc_workspace_mounts = [],
      vc_ssh_public_key = None, vc_guest_managed_networking = False,
      vc_network_attachment = \<lparr>na_mode = MODE_NAT, na_bridge = None\<rparr>\<rparr>"

lemma demo_config_id [simp]: "vc_vm_id (demo_config vm) = vm"
  by (simp add: demo_config_def)

definition one_vm :: memory_state where
  "one_vm = mem_init\<lparr>ms_vms := [(''a'', created_vm_info (demo_config ''a''))]\<rparr>"

lemma one_vm_reachable: "mem_reachable locks one_vm"
proof -
  have "mem_create_vm mem_init (demo_config ''a'') = Inr (created_vm_info (demo_config ''a''), one_vm)"
    by (simp add: mem_create_vm_def mem_init_def one_vm_def Let_def)
  from reach_step [OF reach_init step_create_vm [OF this]] show ?thesis .
qed

theorem mem_delete_vm_releases_witness:
  "\<exists>st'. mem_delete_vm one_vm ''a'' = Inr st' \<and> mem_get_vm st' ''a'' = Inl (VMNotFoundError ''a'')"
proof -
  obtain st' where "mem_delete_vm one_vm ''a'' = Inr st'"
    by (simp add: mem_delete_vm_def one_vm_def Let_def)
  with mem_delete_vm_releases [OF one_vm_reachable this] show ?thesis by blast
qed



text \<open>
  An explicitly requested address is checked against the whole pool, not against the bounds
  used when the manager picks one: the network address itself is handed out on request.
\<close>

lemma mem_requested_network_address:
  "map_sum id fst (mem_allocate_ip plain_host mem_init ''a'' ''tap0'' (Some ''172.16.0.0'')) =
     Inr ''172.16.0.0''"
proof -
  have "pool_index_to_ip 0 = Inr ''172.16.0.0''" "ip_available plain_host mem_init 0" by code_simp+
  then show ?thesis
    using mem_try_ip_available [of 0 "''172.16.0.0''" mem_init "''a''" plain_host "''tap0''"]
    by (simp add: mem_allocate_ip_def mem_init_def plain_host_def)
qed

text \<open>Likewise a requested context identifier is not compared with the reserved range.\<close>

lemma mem_requested_host_cid:
  "mem_reserve_vsock_cid plain_host mem_init ''a'' (Some 2) =
     Inr (2, mem_init\<lparr>ms_vsock_cids := [(''a'', 2)]\<rparr>)"
  by (simp add: mem_reserve_vsock_cid_def mem_try_vsock_cid_def try_claim_def plain_host_def mem_init_def)

end
