(* ===== verification/Sqlite_Store.thy ===== *)
theory Sqlite_Store
  imports Ip_Pool Allocator Vm_Registry "HOL-Library.List_Lexorder" "HOL-Library.Char_ord"
begin

text \<open>
  The SQLite state manager of \<open>cli/_sqlite.py\<close>. A table is the list of its rows in rowid
  order, a row a record with one field per column. \<open>INSERT\<close> enforces the primary keys, unique columns
  and foreign keys of the schema, \<open>DELETE FROM vms\<close> cascades. A transaction that raises is rolled back. A
  writer that reads the row back after its commit can still raise then, with the write
  kept: such operations return the outcome and the database separately. The pydantic
  serialisers are a parameter, the clock (\<open>now_iso\<close>) an argument.
\<close>

section \<open>Schema\<close>

record vm_row =
  vr_id :: string
  vr_status :: string
  vr_config :: string
  vr_network :: "string option"
  vr_pid :: "int option"
  vr_socket_path :: "string option"
  vr_display :: "string option"
  vr_created_at :: string
  vr_updated_at :: string

record ip_row =
  lr_ip :: string
  lr_vm_id :: string
  lr_tap_device :: string
  lr_created_at :: string

record ssh_row =
  fr_vm_id :: string
  fr_host_port :: int
  fr_guest_port :: int
  fr_created_at :: string

record cid_row =
  cr_vm_id :: string
  cr_guest_cid :: int
  cr_created_at :: string

record tap_row =
  tr_vm_id :: string
  tr_tap_device :: string
  tr_mode :: string
  tr_bridge_name :: "string option"
  tr_created_at :: string

record browser_row =
  br_session_id :: string
  br_vm_id :: string
  br_config :: string
  br_status :: string
  br_cdp_url :: "string option"
  br_live_url :: "string option"
  br_vnc_url :: "string option"
  br_debug_port :: "int option"
  br_vnc_port :: "int option"
  br_profile_id :: "string option"
  br_expires_at :: "string option"
  br_artifacts_dir :: "string option"
  br_created_at :: string
  br_updated_at :: string

record snapshot_row =
  sr_snapshot_id :: string
  sr_vm_id :: string
  sr_snapshot_path :: string
  sr_mem_file_path :: string
  sr_disk_path :: string
  sr_backend :: "string option"
  sr_artifacts :: "string option"
  sr_vm_config :: string
  sr_network_config :: string
  sr_created_at :: string
  sr_snapshot_type :: "string option"
  sr_artifact_kind :: "string option"
  sr_virtual_size_bytes :: "int option"
  sr_changed_bytes :: "int option"
  sr_bitmap_granularity_bytes :: "int option"
  sr_bitmap_name :: "string option"
  sr_restored :: int
  sr_restored_vm_id :: "string option"

record sqlite_db =
  db_vms :: "vm_row list"
  db_ip_leases :: "ip_row list"
  db_ssh_forwards :: "ssh_row list"
  db_vsock_cids :: "cid_row list"
  db_tap_allocations :: "tap_row list"
  db_browser_sessions :: "browser_row list"
  db_snapshots :: "snapshot_row list"

definition init_schema :: sqlite_db where
  "init_schema = \<lparr>db_vms = [], db_ip_leases = [], db_ssh_forwards = [], db_vsock_cids = [],
     db_tap_allocations = [], db_browser_sessions = [], db_snapshots = []\<rparr>"

section \<open>Serialisation\<close>

text \<open>
  \<open>model_dump_json\<close> and \<open>model_validate_json\<close> of the five models kept as JSON. A timestamp is
  modelled by the text \<open>isoformat\<close> prints for it, a path by its text.
\<close>

record codec =
  cd_vm_dump :: "vm_config \<Rightarrow> string"
  cd_vm_load :: "string \<Rightarrow> vm_config result"
  cd_net_dump :: "network_config \<Rightarrow> string"
  cd_net_load :: "string \<Rightarrow> network_config result"
  cd_display_dump :: "desktop_endpoint \<Rightarrow> string"
  cd_display_load :: "string \<Rightarrow> desktop_endpoint result"
  cd_artifacts_dump :: "snapshot_artifacts \<Rightarrow> string"
  cd_artifacts_load :: "string \<Rightarrow> snapshot_artifacts result"
  cd_browser_dump :: "browser_session_config \<Rightarrow> string"
  cd_browser_load :: "string \<Rightarrow> browser_session_config result"

text \<open>\<open>f(raw) if raw else None\<close>\<close>

definition load_column :: "(string \<Rightarrow> 'a result) \<Rightarrow> string option \<Rightarrow> 'a option result" where
  "load_column load raw =
     (case raw of None \<Rightarrow> Inr None
      | Some s \<Rightarrow> if s = '''' then Inr None else rbind (load s) (\<lambda>v. Inr (Some v)))"

definition nonempty_column :: "string option \<Rightarrow> string option" where
  "nonempty_column raw = (case raw of Some s \<Rightarrow> if s = '''' then None else Some s | None \<Rightarrow> None)"

definition vm_info_from_row :: "codec \<Rightarrow> vm_row \<Rightarrow> vm_info result" where
  "vm_info_from_row cd row =
     rbind (cd_vm_load cd (vr_config row)) (\<lambda>config.
     rbind (load_column (cd_net_load cd) (vr_network row)) (\<lambda>network.
     let control_socket_path = nonempty_column (vr_socket_path row) in
     rbind (load_column (cd_display_load cd) (vr_display row)) (\<lambda>display.
     rbind (VMState (vr_status row)) (\<lambda>status.
     Inr \<lparr>vi_vm_id = vr_id row, vi_status = status, vi_config = config, vi_network = network,
          vi_pid = vr_pid row, vi_control_socket_path = control_socket_path,
          vi_vsock_uds_path = None, vi_display = display\<rparr>))))"

definition artifact_kind_value :: "artifact_kind \<Rightarrow> string" where
  "artifact_kind_value k = (case k of ART_FULL \<Rightarrow> ''full'' | ART_INCREMENTAL \<Rightarrow> ''incremental'')"

definition artifact_kind_from :: "string option \<Rightarrow> artifact_kind option" where
  "artifact_kind_from raw =
     (if raw = Some ''full'' then Some ART_FULL
      else if raw = Some ''incremental'' then Some ART_INCREMENTAL else None)"

definition optional_int :: "bool \<Rightarrow> int option \<Rightarrow> int option" where
  "optional_int positive value =
     (case value of None \<Rightarrow> None
      | Some normalized \<Rightarrow> if normalized < (if positive then 1 else 0) then None else Some normalized)"

definition snapshot_type_from :: "string option \<Rightarrow> snapshot_type" where
  "snapshot_type_from raw =
     (case nonempty_column raw of None \<Rightarrow> SNAP_FULL
      | Some s \<Rightarrow> (case SnapshotType s of Inr t \<Rightarrow> t | Inl _ \<Rightarrow> SNAP_FULL))"

definition snapshot_info_from_row :: "codec \<Rightarrow> snapshot_row \<Rightarrow> snapshot_info result" where
  "snapshot_info_from_row cd row =
     (let backend = (case nonempty_column (sr_backend row) of Some b \<Rightarrow> b | None \<Rightarrow> ''firecracker'') in
      rbind
        (case nonempty_column (sr_artifacts row) of
           Some raw \<Rightarrow> cd_artifacts_load cd raw
         | None \<Rightarrow>
             Inr \<lparr>sa_state_path = nonempty_column (Some (sr_snapshot_path row)),
                  sa_memory_path = nonempty_column (Some (sr_mem_file_path row)),
                  sa_disk_path = sr_disk_path row\<rparr>) (\<lambda>artifacts.
      rbind (cd_vm_load cd (sr_vm_config row)) (\<lambda>vm_config.
      rbind (cd_net_load cd (sr_network_config row)) (\<lambda>network_config.
      rbind (raise_if (\<not> IDENTIFIER_PATTERN (sr_snapshot_id row) \<or> \<not> IDENTIFIER_PATTERN (sr_vm_id row) \<or>
                       backend \<notin> {''firecracker'', ''qemu'', ''libkrun''})
               (ValidationError ''SnapshotInfo'')) (\<lambda>_.
      Inr \<lparr>si_snapshot_id = sr_snapshot_id row, si_vm_id = sr_vm_id row, si_backend = backend,
           si_artifacts = artifacts, si_vm_config = vm_config, si_network_config = network_config,
           si_created_at = sr_created_at row,
           si_snapshot_type = snapshot_type_from (sr_snapshot_type row),
           si_artifact_kind = artifact_kind_from (sr_artifact_kind row),
           si_virtual_size_bytes = optional_int True (sr_virtual_size_bytes row),
           si_changed_bytes = optional_int False (sr_changed_bytes row),
           si_bitmap_granularity_bytes = optional_int True (sr_bitmap_granularity_bytes row),
           si_bitmap_name = sr_bitmap_name row,
           si_restored = (sr_restored row \<noteq> 0),
           si_restored_vm_id = sr_restored_vm_id row\<rparr>)))))"

definition browser_session_info_from_row :: "browser_row \<Rightarrow> browser_session_info result" where
  "browser_session_info_from_row row =
     rbind (BrowserSessionState (br_status row)) (\<lambda>status.
     Inr \<lparr>bi_session_id = br_session_id row, bi_vm_id = br_vm_id row, bi_status = status,
          bi_cdp_url = br_cdp_url row, bi_live_url = br_live_url row, bi_vnc_url = br_vnc_url row,
          bi_debug_port = br_debug_port row, bi_vnc_port = br_vnc_port row,
          bi_profile_id = br_profile_id row, bi_expires_at = nonempty_column (br_expires_at row),
          bi_artifacts_dir = nonempty_column (br_artifacts_dir row)\<rparr>)"

text \<open>A comprehension over rows: the first row that fails to decode raises.\<close>

fun map_result :: "('a \<Rightarrow> 'b result) \<Rightarrow> 'a list \<Rightarrow> 'b list result" where
  "map_result f [] = Inr []"
| "map_result f (x # xs) = rbind (f x) (\<lambda>y. rbind (map_result f xs) (\<lambda>ys. Inr (y # ys)))"

section \<open>Statements\<close>

text \<open>\<open>SELECT \<dots> WHERE key = ?\<close> with \<open>fetchone\<close>.\<close>

definition select_one :: "('r \<Rightarrow> string) \<Rightarrow> string \<Rightarrow> 'r list \<Rightarrow> 'r option" where
  "select_one key k rows = find (\<lambda>r. key r = k) rows"

definition vm_exists :: "sqlite_db \<Rightarrow> string \<Rightarrow> bool" where
  "vm_exists db vm_id \<longleftrightarrow> vm_id \<in> vr_id ` set (db_vms db)"

definition insert_vm :: "sqlite_db \<Rightarrow> vm_row \<Rightarrow> sqlite_db result" where
  "insert_vm db row =
     (if vm_exists db (vr_id row) then Inl (IntegrityError ''vms.id'')
      else Inr (db\<lparr>db_vms := db_vms db @ [row]\<rparr>))"

definition insert_ip_lease :: "sqlite_db \<Rightarrow> ip_row \<Rightarrow> sqlite_db result" where
  "insert_ip_lease db row =
     (if lr_ip row \<in> lr_ip ` set (db_ip_leases db) then Inl (IntegrityError ''ip_leases.ip'')
      else if lr_vm_id row \<in> lr_vm_id ` set (db_ip_leases db) then Inl (IntegrityError ''ip_leases.vm_id'')
      else if \<not> vm_exists db (lr_vm_id row) then Inl (IntegrityError ''FOREIGN KEY'')
      else Inr (db\<lparr>db_ip_leases := db_ip_leases db @ [row]\<rparr>))"

definition insert_ssh_forward :: "sqlite_db \<Rightarrow> ssh_row \<Rightarrow> sqlite_db result" where
  "insert_ssh_forward db row =
     (if fr_vm_id row \<in> fr_vm_id ` set (db_ssh_forwards db) then Inl (IntegrityError ''ssh_forwards.vm_id'')
      else if fr_host_port row \<in> fr_host_port ` set (db_ssh_forwards db)
      then Inl (IntegrityError ''ssh_forwards.host_port'')
      else if \<not> vm_exists db (fr_vm_id row) then Inl (IntegrityError ''FOREIGN KEY'')
      else Inr (db\<lparr>db_ssh_forwards := db_ssh_forwards db @ [row]\<rparr>))"

definition insert_vsock_cid :: "sqlite_db \<Rightarrow> cid_row \<Rightarrow> sqlite_db result" where
  "insert_vsock_cid db row =
     (if cr_vm_id row \<in> cr_vm_id ` set (db_vsock_cids db) then Inl (IntegrityError ''vsock_cids.vm_id'')
      else if cr_guest_cid row \<in> cr_guest_cid ` set (db_vsock_cids db)
      then Inl (IntegrityError ''vsock_cids.guest_cid'')
      else if \<not> vm_exists db (cr_vm_id row) then Inl (IntegrityError ''FOREIGN KEY'')
      else Inr (db\<lparr>db_vsock_cids := db_vsock_cids db @ [row]\<rparr>))"

definition insert_tap_allocation :: "sqlite_db \<Rightarrow> tap_row \<Rightarrow> sqlite_db result" where
  "insert_tap_allocation db row =
     (if tr_vm_id row \<in> tr_vm_id ` set (db_tap_allocations db)
      then Inl (IntegrityError ''tap_allocations.vm_id'')
      else if tr_tap_device row \<in> tr_tap_device ` set (db_tap_allocations db)
      then Inl (IntegrityError ''tap_allocations.tap_device'')
      else if \<not> vm_exists db (tr_vm_id row) then Inl (IntegrityError ''FOREIGN KEY'')
      else Inr (db\<lparr>db_tap_allocations := db_tap_allocations db @ [row]\<rparr>))"

definition insert_browser_session :: "sqlite_db \<Rightarrow> browser_row \<Rightarrow> sqlite_db result" where
  "insert_browser_session db row =
     (if br_session_id row \<in> br_session_id ` set (db_browser_sessions db)
      then Inl (IntegrityError ''browser_sessions.session_id'')
      else if br_vm_id row \<in> br_vm_id ` set (db_browser_sessions db)
      then Inl (IntegrityError ''browser_sessions.vm_id'')
      else Inr (db\<lparr>db_browser_sessions := db_browser_sessions db @ [row]\<rparr>))"

definition insert_snapshot :: "sqlite_db \<Rightarrow> snapshot_row \<Rightarrow> sqlite_db result" where
  "insert_snapshot db row =
     (if sr_snapshot_id row \<in> sr_snapshot_id ` set (db_snapshots db)
      then Inl (IntegrityError ''snapshots.snapshot_id'')
      else Inr (db\<lparr>db_snapshots := db_snapshots db @ [row]\<rparr>))"

text \<open>\<open>DELETE FROM vms WHERE id = ?\<close> with its cascades.\<close>

definition delete_vm_rows :: "sqlite_db \<Rightarrow> string \<Rightarrow> sqlite_db" where
  "delete_vm_rows db vm_id =
     db\<lparr>db_vms := filter (\<lambda>r. vr_id r \<noteq> vm_id) (db_vms db),
        db_ip_leases := filter (\<lambda>r. lr_vm_id r \<noteq> vm_id) (db_ip_leases db),
        db_ssh_forwards := filter (\<lambda>r. fr_vm_id r \<noteq> vm_id) (db_ssh_forwards db),
        db_vsock_cids := filter (\<lambda>r. cr_vm_id r \<noteq> vm_id) (db_vsock_cids db),
        db_tap_allocations := filter (\<lambda>r. tr_vm_id r \<noteq> vm_id) (db_tap_allocations db)\<rparr>"

section \<open>Computers\<close>

definition sq_create_vm ::
  "codec \<Rightarrow> string \<Rightarrow> sqlite_db \<Rightarrow> vm_config \<Rightarrow> (vm_info \<times> sqlite_db) result" where
  "sq_create_vm cd now db config =
     (if select_one vr_id (vc_vm_id config) (db_vms db) \<noteq> None
      then Inl (VMAlreadyExistsError (vc_vm_id config))
      else rbind (insert_vm db
             \<lparr>vr_id = vc_vm_id config, vr_status = vm_state_value VM_CREATED,
              vr_config = cd_vm_dump cd config, vr_network = None, vr_pid = None,
              vr_socket_path = None, vr_display = None, vr_created_at = now, vr_updated_at = now\<rparr>)
           (\<lambda>db'. Inr (created_vm_info config, db')))"

definition sq_get_vm :: "codec \<Rightarrow> sqlite_db \<Rightarrow> string \<Rightarrow> vm_info result" where
  "sq_get_vm cd db vm_id =
     (if vm_id = '''' then Inl (ValueError ''vm_id cannot be empty'')
      else case select_one vr_id vm_id (db_vms db) of
          None \<Rightarrow> Inl (VMNotFoundError vm_id)
        | Some row \<Rightarrow> vm_info_from_row cd row)"

definition update_vm_row :: "codec \<Rightarrow> string \<Rightarrow> vm_update \<Rightarrow> vm_row \<Rightarrow> vm_row" where
  "update_vm_row cd now u row =
     row\<lparr>vr_updated_at := now,
       vr_status := overwrite (map_option vm_state_value (up_status u)) (vr_status row),
       vr_config := overwrite (map_option (cd_vm_dump cd) (up_config u)) (vr_config row),
       vr_network := overwrite_opt (map_option (cd_net_dump cd) (up_network u)) (vr_network row),
       vr_pid := overwrite_or_clear (up_pid u) (up_clear_pid u) (vr_pid row),
       vr_socket_path :=
         overwrite_or_clear (up_control_socket_path u) (up_clear_socket_path u) (vr_socket_path row),
       vr_display :=
         overwrite_or_clear (map_option (cd_display_dump cd) (up_display u)) (up_clear_display u)
           (vr_display row)\<rparr>"

definition sq_update_vm ::
  "codec \<Rightarrow> string \<Rightarrow> sqlite_db \<Rightarrow> string \<Rightarrow> vm_update \<Rightarrow> vm_info result \<times> sqlite_db" where
  "sq_update_vm cd now db vm_id u =
     (if vm_id = '''' then (Inl (ValueError ''vm_id cannot be empty''), db)
      else if select_one vr_id vm_id (db_vms db) = None then (Inl (VMNotFoundError vm_id), db)
      else
        let db' = db\<lparr>db_vms :=
              map (\<lambda>r. if vr_id r = vm_id then update_vm_row cd now u r else r) (db_vms db)\<rparr>
        in (sq_get_vm cd db' vm_id, db'))"

definition sq_delete_vm :: "sqlite_db \<Rightarrow> string \<Rightarrow> sqlite_db result" where
  "sq_delete_vm db vm_id =
     (if vm_id = '''' then Inl (ValueError ''vm_id cannot be empty'')
      else if select_one vr_id vm_id (db_vms db) = None then Inl (VMNotFoundError vm_id)
      else Inr (delete_vm_rows db vm_id))"

text \<open>\<open>ORDER BY created_at\<close>: text columns compare bytewise; rows of equal time in rowid order.\<close>

definition sq_list_vms :: "codec \<Rightarrow> sqlite_db \<Rightarrow> vm_state option \<Rightarrow> vm_info list result" where
  "sq_list_vms cd db status =
     map_result (vm_info_from_row cd)
       (sort_key vr_created_at
         (case status of None \<Rightarrow> db_vms db
          | Some s \<Rightarrow> filter (\<lambda>r. vr_status r = vm_state_value s) (db_vms db)))"

section \<open>Guest addresses\<close>

definition sq_try_ip ::
  "string \<Rightarrow> sqlite_db \<Rightarrow> string \<Rightarrow> string \<Rightarrow> string \<Rightarrow> (string \<times> sqlite_db) option result" where
  "sq_try_ip now db vm_id tap_device ip =
     (if ip \<in> lr_ip ` set (db_ip_leases db) then Inr None
      else rbind (insert_ip_lease db
             \<lparr>lr_ip = ip, lr_vm_id = vm_id, lr_tap_device = tap_device, lr_created_at = now\<rparr>)
           (\<lambda>db'. Inr (Some (ip, db'))))"

definition sq_allocate_ip ::
  "string \<Rightarrow> sqlite_db \<Rightarrow> string \<Rightarrow> string \<Rightarrow> string option \<Rightarrow> (string \<times> sqlite_db) result" where
  "sq_allocate_ip now db vm_id tap_device requested_ip =
     (if vm_id = '''' then Inl (ValueError ''vm_id cannot be empty'')
      else if tap_device = '''' then Inl (ValueError ''tap_device cannot be empty'')
      else
        let requested = nonempty_column requested_ip in
        case select_one lr_vm_id vm_id (db_ip_leases db) of
          Some existing \<Rightarrow>
            if requested \<noteq> None \<and> requested \<noteq> Some (lr_ip existing)
            then Inl (NetworkError ''already has IP'') else Inr (lr_ip existing, db)
        | None \<Rightarrow>
            rbind
              (case requested of
                 Some r \<Rightarrow> scan_list (sq_try_ip now db vm_id tap_device) [r]
               | None \<Rightarrow>
                   scan_range
                     (\<lambda>i. case pool_index_to_ip i of
                         Inl _ \<Rightarrow> Inl (ValueError ''pool index out of range'')
                       | Inr ip \<Rightarrow> sq_try_ip now db vm_id tap_device ip)
                     IP_POOL_START IP_POOL_END)
              (\<lambda>found. case found of
                 Some r \<Rightarrow> Inr r
               | None \<Rightarrow>
                   if requested \<noteq> None then Inl (NetworkError ''requested IP not available'')
                   else Inl (NetworkError ''no IP addresses available'')))"

definition sq_release_ip :: "sqlite_db \<Rightarrow> string \<Rightarrow> sqlite_db result" where
  "sq_release_ip db vm_id =
     (if vm_id = '''' then Inl (ValueError ''vm_id cannot be empty'')
      else Inr (db\<lparr>db_ip_leases := filter (\<lambda>r. lr_vm_id r \<noteq> vm_id) (db_ip_leases db)\<rparr>))"

definition sq_get_ip_lease :: "sqlite_db \<Rightarrow> string \<Rightarrow> (string \<times> string) option result" where
  "sq_get_ip_lease db vm_id =
     (if vm_id = '''' then Inl (ValueError ''vm_id cannot be empty'')
      else Inr (map_option (\<lambda>r. (lr_ip r, lr_tap_device r)) (select_one lr_vm_id vm_id (db_ip_leases db))))"

definition sq_update_ip_lease_tap :: "sqlite_db \<Rightarrow> string \<Rightarrow> string \<Rightarrow> sqlite_db result" where
  "sq_update_ip_lease_tap db vm_id tap_device =
     (if vm_id = '''' then Inl (ValueError ''vm_id cannot be empty'')
      else if tap_device = '''' then Inl (ValueError ''tap_device cannot be empty'')
      else Inr (db\<lparr>db_ip_leases :=
        map (\<lambda>r. if lr_vm_id r = vm_id then r\<lparr>lr_tap_device := tap_device\<rparr> else r) (db_ip_leases db)\<rparr>))"

section \<open>SSH host ports\<close>

definition sq_try_ssh_port ::
  "string \<Rightarrow> sqlite_db \<Rightarrow> string \<Rightarrow> int \<Rightarrow> int list \<Rightarrow> int \<Rightarrow> (int \<times> sqlite_db) option result" where
  "sq_try_ssh_port now db vm_id guest_port excluded p =
     (if p \<in> fr_host_port ` set (db_ssh_forwards db) \<or> p \<in> set excluded then Inr None
      else rbind (insert_ssh_forward db
             \<lparr>fr_vm_id = vm_id, fr_host_port = p, fr_guest_port = guest_port, fr_created_at = now\<rparr>)
           (\<lambda>db'. Inr (Some (p, db'))))"

definition sq_reserve_ssh_port ::
  "string \<Rightarrow> sqlite_db \<Rightarrow> string \<Rightarrow> int \<Rightarrow> int option \<Rightarrow> int list \<Rightarrow> (int \<times> sqlite_db) result" where
  "sq_reserve_ssh_port now db vm_id guest_port host_port excluded_host_ports =
     (if vm_id = '''' then Inl (ValueError ''vm_id cannot be empty'')
      else if guest_port < 1 \<or> guest_port > 65535 then Inl (ValueError ''guest_port must be 1-65535'')
      else if (case host_port of None \<Rightarrow> False | Some p \<Rightarrow> p < 1 \<or> p > 65535)
      then Inl (ValueError ''host_port must be 1-65535'')
      else
        case select_one fr_vm_id vm_id (db_ssh_forwards db) of
          Some existing \<Rightarrow>
            if host_port \<noteq> None \<and> host_port \<noteq> Some (fr_host_port existing)
            then Inl (NetworkError ''already has SSH host port'') else Inr (fr_host_port existing, db)
        | None \<Rightarrow>
            rbind
              (case host_port of
                 Some p \<Rightarrow> scan_list (sq_try_ssh_port now db vm_id guest_port excluded_host_ports) [p]
               | None \<Rightarrow>
                   scan_range (sq_try_ssh_port now db vm_id guest_port excluded_host_ports)
                     SSH_PORT_START SSH_PORT_END)
              (\<lambda>found. case found of
                 Some r \<Rightarrow> Inr r
               | None \<Rightarrow>
                   if host_port \<noteq> None then Inl (NetworkError ''requested SSH port not available'')
                   else Inl (NetworkError ''no SSH host ports available'')))"

definition sq_get_ssh_port :: "sqlite_db \<Rightarrow> string \<Rightarrow> int option result" where
  "sq_get_ssh_port db vm_id =
     (if vm_id = '''' then Inl (ValueError ''vm_id cannot be empty'')
      else Inr (map_option fr_host_port (select_one fr_vm_id vm_id (db_ssh_forwards db))))"

definition sq_release_ssh_port :: "sqlite_db \<Rightarrow> string \<Rightarrow> sqlite_db result" where
  "sq_release_ssh_port db vm_id =
     (if vm_id = '''' then Inl (ValueError ''vm_id cannot be empty'')
      else Inr (db\<lparr>db_ssh_forwards := filter (\<lambda>r. fr_vm_id r \<noteq> vm_id) (db_ssh_forwards db)\<rparr>))"

section \<open>vsock context identifiers\<close>

definition sq_try_vsock_cid ::
  "string \<Rightarrow> sqlite_db \<Rightarrow> string \<Rightarrow> int \<Rightarrow> (int \<times> sqlite_db) option result" where
  "sq_try_vsock_cid now db vm_id c =
     (if c \<in> cr_guest_cid ` set (db_vsock_cids db) then Inr None
      else rbind (insert_vsock_cid db \<lparr>cr_vm_id = vm_id, cr_guest_cid = c, cr_created_at = now\<rparr>)
           (\<lambda>db'. Inr (Some (c, db'))))"

definition sq_reserve_vsock_cid ::
  "string \<Rightarrow> sqlite_db \<Rightarrow> string \<Rightarrow> int option \<Rightarrow> (int \<times> sqlite_db) result" where
  "sq_reserve_vsock_cid now db vm_id guest_cid =
     (if vm_id = '''' then Inl (ValueError ''vm_id cannot be empty'')
      else if (case guest_cid of None \<Rightarrow> False
               | Some c \<Rightarrow> \<not> (VSOCK_CID_START \<le> c \<and> c \<le> VSOCK_CID_END))
      then Inl (ValueError ''guest_cid out of range'')
      else
        case select_one cr_vm_id vm_id (db_vsock_cids db) of
          Some existing \<Rightarrow>
            if guest_cid \<noteq> None \<and> guest_cid \<noteq> Some (cr_guest_cid existing)
            then Inl (NetworkError ''already has vsock CID'') else Inr (cr_guest_cid existing, db)
        | None \<Rightarrow>
            rbind
              (case guest_cid of
                 Some c \<Rightarrow> scan_list (sq_try_vsock_cid now db vm_id) [c]
               | None \<Rightarrow> scan_range (sq_try_vsock_cid now db vm_id) VSOCK_CID_START VSOCK_CID_END)
              (\<lambda>found. case found of
                 Some r \<Rightarrow> Inr r
               | None \<Rightarrow>
                   if guest_cid \<noteq> None then Inl (NetworkError ''requested vsock CID not available'')
                   else Inl (NetworkError ''no vsock CIDs available'')))"

definition sq_get_vsock_cid :: "sqlite_db \<Rightarrow> string \<Rightarrow> int option result" where
  "sq_get_vsock_cid db vm_id =
     (if vm_id = '''' then Inl (ValueError ''vm_id cannot be empty'')
      else Inr (map_option cr_guest_cid (select_one cr_vm_id vm_id (db_vsock_cids db))))"

definition sq_release_vsock_cid :: "sqlite_db \<Rightarrow> string \<Rightarrow> sqlite_db result" where
  "sq_release_vsock_cid db vm_id =
     (if vm_id = '''' then Inl (ValueError ''vm_id cannot be empty'')
      else Inr (db\<lparr>db_vsock_cids := filter (\<lambda>r. cr_vm_id r \<noteq> vm_id) (db_vsock_cids db)\<rparr>))"

section \<open>TAP names\<close>

definition sq_choose_tap :: "(nat \<Rightarrow> string) \<Rightarrow> sqlite_db \<Rightarrow> string option \<Rightarrow> string result" where
  "sq_choose_tap token_hex db requested_tap =
     (let clash = (\<lambda>tap. tap \<in> tr_tap_device ` set (db_tap_allocations db)) in
      case nonempty_column requested_tap of
        Some r \<Rightarrow> if clash r then Inl (NetworkError ''TAP name already reserved'') else Inr r
      | None \<Rightarrow>
          (case find (\<lambda>tap. \<not> clash tap) (map (\<lambda>k. ''svmb'' @ token_hex k) [0..<100]) of
             Some tap \<Rightarrow> Inr tap
           | None \<Rightarrow> Inl (NetworkError ''could not find a free TAP name'')))"

definition sq_reserve_tap_name ::
  "(nat \<Rightarrow> string) \<Rightarrow> string \<Rightarrow> sqlite_db \<Rightarrow> string \<Rightarrow> string \<Rightarrow> string option \<Rightarrow> string option \<Rightarrow>
   (string \<times> sqlite_db) result" where
  "sq_reserve_tap_name token_hex now db vm_id mode bridge_name requested_tap =
     (if vm_id = '''' then Inl (ValueError ''vm_id cannot be empty'')
      else if mode \<notin> {''nat'', ''bridge''} then Inl (ValueError ''mode must be nat or bridge'')
      else
        case select_one tr_vm_id vm_id (db_tap_allocations db) of
          Some existing \<Rightarrow>
            if tr_mode existing \<noteq> mode \<or> tr_bridge_name existing \<noteq> bridge_name \<or>
               (requested_tap \<noteq> None \<and> requested_tap \<noteq> Some (tr_tap_device existing))
            then Inl (NetworkError ''already reserves TAP'') else Inr (tr_tap_device existing, db)
        | None \<Rightarrow>
            rbind (sq_choose_tap token_hex db requested_tap) (\<lambda>tap_name.
            rbind (insert_tap_allocation db
                 \<lparr>tr_vm_id = vm_id, tr_tap_device = tap_name, tr_mode = mode,
                  tr_bridge_name = bridge_name, tr_created_at = now\<rparr>) (\<lambda>db'.
            Inr (tap_name, db'))))"

definition sq_get_tap_allocation ::
  "sqlite_db \<Rightarrow> string \<Rightarrow> (string \<times> string \<times> string option) option result" where
  "sq_get_tap_allocation db vm_id =
     (if vm_id = '''' then Inl (ValueError ''vm_id cannot be empty'')
      else Inr (map_option (\<lambda>r. (tr_tap_device r, tr_mode r, tr_bridge_name r))
        (select_one tr_vm_id vm_id (db_tap_allocations db))))"

definition sq_release_tap_name :: "sqlite_db \<Rightarrow> string \<Rightarrow> sqlite_db result" where
  "sq_release_tap_name db vm_id =
     (if vm_id = '''' then Inl (ValueError ''vm_id cannot be empty'')
      else Inr (db\<lparr>db_tap_allocations := filter (\<lambda>r. tr_vm_id r \<noteq> vm_id) (db_tap_allocations db)\<rparr>))"

section \<open>Snapshots\<close>

text \<open>\<open>str(path) if path else ""\<close>; a path is never falsy.\<close>

definition path_or_empty :: "string option \<Rightarrow> string" where
  "path_or_empty p = (case p of Some s \<Rightarrow> s | None \<Rightarrow> '''')"

definition snapshot_row_of :: "codec \<Rightarrow> snapshot_info \<Rightarrow> snapshot_row" where
  "snapshot_row_of cd info =
     \<lparr>sr_snapshot_id = si_snapshot_id info, sr_vm_id = si_vm_id info,
      sr_snapshot_path = path_or_empty (sa_state_path (si_artifacts info)),
      sr_mem_file_path = path_or_empty (sa_memory_path (si_artifacts info)),
      sr_disk_path = sa_disk_path (si_artifacts info), sr_backend = Some (si_backend info),
      sr_artifacts = Some (cd_artifacts_dump cd (si_artifacts info)),
      sr_vm_config = cd_vm_dump cd (si_vm_config info),
      sr_network_config = cd_net_dump cd (si_network_config info),
      sr_created_at = si_created_at info,
      sr_snapshot_type = Some (snapshot_type_value (si_snapshot_type info)),
      sr_artifact_kind = map_option artifact_kind_value (si_artifact_kind info),
      sr_virtual_size_bytes = si_virtual_size_bytes info, sr_changed_bytes = si_changed_bytes info,
      sr_bitmap_granularity_bytes = si_bitmap_granularity_bytes info,
      sr_bitmap_name = si_bitmap_name info,
      sr_restored = (if si_restored info then 1 else 0), sr_restored_vm_id = si_restored_vm_id info\<rparr>"

definition sq_create_snapshot ::
  "codec \<Rightarrow> sqlite_db \<Rightarrow> snapshot_info \<Rightarrow> (snapshot_info \<times> sqlite_db) result" where
  "sq_create_snapshot cd db info =
     (if select_one sr_snapshot_id (si_snapshot_id info) (db_snapshots db) \<noteq> None
      then Inl (SnapshotAlreadyExistsError (si_snapshot_id info))
      else rbind (insert_snapshot db (snapshot_row_of cd info)) (\<lambda>db'. Inr (info, db')))"

definition sq_get_snapshot :: "codec \<Rightarrow> sqlite_db \<Rightarrow> string \<Rightarrow> snapshot_info result" where
  "sq_get_snapshot cd db snapshot_id =
     (if snapshot_id = '''' then Inl (ValueError ''snapshot_id cannot be empty'')
      else case select_one sr_snapshot_id snapshot_id (db_snapshots db) of
          None \<Rightarrow> Inl (SnapshotNotFoundError snapshot_id)
        | Some row \<Rightarrow> snapshot_info_from_row cd row)"

definition sq_list_snapshots :: "codec \<Rightarrow> sqlite_db \<Rightarrow> string option \<Rightarrow> snapshot_info list result" where
  "sq_list_snapshots cd db vm_id =
     map_result (snapshot_info_from_row cd)
       (sort_key sr_created_at
         (case nonempty_column vm_id of None \<Rightarrow> db_snapshots db
          | Some v \<Rightarrow> filter (\<lambda>r. sr_vm_id r = v) (db_snapshots db)))"

definition sq_mark_snapshot_restored ::
  "codec \<Rightarrow> sqlite_db \<Rightarrow> string \<Rightarrow> string \<Rightarrow> snapshot_info result \<times> sqlite_db" where
  "sq_mark_snapshot_restored cd db snapshot_id restored_vm_id =
     (if snapshot_id = '''' then (Inl (ValueError ''snapshot_id cannot be empty''), db)
      else if restored_vm_id = '''' then (Inl (ValueError ''restored_vm_id cannot be empty''), db)
      else if snapshot_id \<notin> sr_snapshot_id ` set (db_snapshots db)
      then (Inl (SnapshotNotFoundError snapshot_id), db)
      else
        let db' = db\<lparr>db_snapshots :=
              map (\<lambda>r. if sr_snapshot_id r = snapshot_id
                       then r\<lparr>sr_restored := 1, sr_restored_vm_id := Some restored_vm_id\<rparr> else r)
                (db_snapshots db)\<rparr>
        in (sq_get_snapshot cd db' snapshot_id, db'))"

definition sq_delete_snapshot :: "sqlite_db \<Rightarrow> string \<Rightarrow> sqlite_db result" where
  "sq_delete_snapshot db snapshot_id =
     (if snapshot_id = '''' then Inl (ValueError ''snapshot_id cannot be empty'')
      else if snapshot_id \<notin> sr_snapshot_id ` set (db_snapshots db)
      then Inl (SnapshotNotFoundError snapshot_id)
      else Inr (db\<lparr>db_snapshots := filter (\<lambda>r. sr_snapshot_id r \<noteq> snapshot_id) (db_snapshots db)\<rparr>))"

section \<open>Browser sessions\<close>

definition browser_row_of ::
  "codec \<Rightarrow> string \<Rightarrow> browser_session_info \<Rightarrow> browser_session_config \<Rightarrow> browser_row" where
  "browser_row_of cd now info config =
     \<lparr>br_session_id = bi_session_id info, br_vm_id = bi_vm_id info, br_config = cd_browser_dump cd config,
      br_status = browser_session_state_value (bi_status info), br_cdp_url = bi_cdp_url info,
      br_live_url = bi_live_url info, br_vnc_url = bi_vnc_url info, br_debug_port = bi_debug_port info,
      br_vnc_port = bi_vnc_port info, br_profile_id = bi_profile_id info,
      br_expires_at = bi_expires_at info, br_artifacts_dir = bi_artifacts_dir info,
      br_created_at = now, br_updated_at = now\<rparr>"

definition sq_create_browser_session ::
  "codec \<Rightarrow> string \<Rightarrow> sqlite_db \<Rightarrow> browser_session_info \<Rightarrow> browser_session_config \<Rightarrow>
   (browser_session_info \<times> sqlite_db) result" where
  "sq_create_browser_session cd now db info config =
     (if select_one br_session_id (bi_session_id info) (db_browser_sessions db) \<noteq> None
      then Inl (BrowserSessionAlreadyExistsError (bi_session_id info))
      else rbind (insert_browser_session db (browser_row_of cd now info config)) (\<lambda>db'. Inr (info, db')))"

definition sq_get_browser_session :: "sqlite_db \<Rightarrow> string \<Rightarrow> browser_session_info result" where
  "sq_get_browser_session db session_id =
     (if session_id = '''' then Inl (ValueError ''session_id cannot be empty'')
      else case select_one br_session_id session_id (db_browser_sessions db) of
          None \<Rightarrow> Inl (BrowserSessionNotFoundError session_id)
        | Some row \<Rightarrow> browser_session_info_from_row row)"

definition sq_get_browser_session_config ::
  "codec \<Rightarrow> sqlite_db \<Rightarrow> string \<Rightarrow> browser_session_config result" where
  "sq_get_browser_session_config cd db session_id =
     (if session_id = '''' then Inl (ValueError ''session_id cannot be empty'')
      else case select_one br_session_id session_id (db_browser_sessions db) of
          None \<Rightarrow> Inl (BrowserSessionNotFoundError session_id)
        | Some row \<Rightarrow> cd_browser_load cd (br_config row))"

text \<open>A column assigned twice in one \<open>UPDATE\<close> takes the last value: a new endpoint wins over the clearing.\<close>

definition update_browser_row :: "codec \<Rightarrow> string \<Rightarrow> browser_update \<Rightarrow> browser_row \<Rightarrow> browser_row" where
  "update_browser_row cd now u row =
     (let clear = bu_clear_endpoints u in
      row\<lparr>br_updated_at := now,
        br_status := overwrite (map_option browser_session_state_value (bu_status u)) (br_status row),
        br_cdp_url := overwrite_or_clear (bu_cdp_url u) clear (br_cdp_url row),
        br_live_url := overwrite_or_clear (bu_live_url u) clear (br_live_url row),
        br_vnc_url := overwrite_or_clear (bu_vnc_url u) clear (br_vnc_url row),
        br_debug_port := overwrite_or_clear (bu_debug_port u) clear (br_debug_port row),
        br_vnc_port := overwrite_or_clear (bu_vnc_port u) clear (br_vnc_port row),
        br_profile_id := overwrite_opt (bu_profile_id u) (br_profile_id row),
        br_expires_at := overwrite_opt (bu_expires_at u) (br_expires_at row),
        br_artifacts_dir := overwrite_opt (bu_artifacts_dir u) (br_artifacts_dir row),
        br_config := overwrite (map_option (cd_browser_dump cd) (bu_config u)) (br_config row)\<rparr>)"

definition sq_update_browser_session ::
  "codec \<Rightarrow> string \<Rightarrow> sqlite_db \<Rightarrow> string \<Rightarrow> browser_update \<Rightarrow> browser_session_info result \<times> sqlite_db" where
  "sq_update_browser_session cd now db session_id u =
     (if session_id = '''' then (Inl (ValueError ''session_id cannot be empty''), db)
      else if select_one br_session_id session_id (db_browser_sessions db) = None
      then (Inl (BrowserSessionNotFoundError session_id), db)
      else
        let db' = db\<lparr>db_browser_sessions :=
              map (\<lambda>r. if br_session_id r = session_id then update_browser_row cd now u r else r)
                (db_browser_sessions db)\<rparr>
        in (sq_get_browser_session db' session_id, db'))"

definition sq_delete_browser_session :: "sqlite_db \<Rightarrow> string \<Rightarrow> sqlite_db result" where
  "sq_delete_browser_session db session_id =
     (if session_id = '''' then Inl (ValueError ''session_id cannot be empty'')
      else if session_id \<notin> br_session_id ` set (db_browser_sessions db)
      then Inl (BrowserSessionNotFoundError session_id)
      else Inr (db\<lparr>db_browser_sessions :=
        filter (\<lambda>r. br_session_id r \<noteq> session_id) (db_browser_sessions db)\<rparr>))"

definition sq_list_browser_sessions ::
  "sqlite_db \<Rightarrow> browser_session_state option \<Rightarrow> browser_session_info list result" where
  "sq_list_browser_sessions db status =
     map_result browser_session_info_from_row
       (sort_key br_created_at
         (case status of None \<Rightarrow> db_browser_sessions db
          | Some s \<Rightarrow>
              filter (\<lambda>r. br_status r = browser_session_state_value s) (db_browser_sessions db)))"

section \<open>Reconciliation\<close>

definition sq_stale_vms :: "(int \<Rightarrow> kill_probe) \<Rightarrow> sqlite_db \<Rightarrow> string list" where
  "sq_stale_vms kill db =
     map vr_id
       (filter (\<lambda>r. case vr_pid r of None \<Rightarrow> True
                    | Some pid \<Rightarrow> if pid \<le> 0 then True else kill pid = ProbeNoProcess)
         (filter (\<lambda>r. vr_status r \<in> {vm_state_value VM_RUNNING, vm_state_value VM_PAUSED}) (db_vms db)))"

definition mark_row_stale :: "string \<Rightarrow> sqlite_db \<Rightarrow> string \<Rightarrow> sqlite_db" where
  "mark_row_stale now db vm_id =
     db\<lparr>db_vms := map (\<lambda>r. if vr_id r = vm_id
          then r\<lparr>vr_status := vm_state_value VM_ERROR, vr_pid := None, vr_updated_at := now\<rparr> else r)
        (db_vms db)\<rparr>"

definition sq_reconcile :: "(int \<Rightarrow> kill_probe) \<Rightarrow> string \<Rightarrow> sqlite_db \<Rightarrow> string list \<times> sqlite_db" where
  "sq_reconcile kill now db =
     (let stale = sq_stale_vms kill db in (stale, foldl (mark_row_stale now) db stale))"

end
