(* ===== verification/Sqlite_Props.thy ===== *)
theory Sqlite_Props
  imports Sqlite_Store Memory_Props
begin

text \<open>
  What the SQLite state manager guarantees: it keeps the same allocation contract and the same
  registry contract as the in-memory manager, so that the two cannot be told apart by the calls
  both support; its constraints never fire except for a missing computer; what
  is written is read back.
\<close>

section \<open>Rows\<close>

lemma select_one_SomeD: "select_one key k rows = Some r \<Longrightarrow> r \<in> set rows \<and> key r = k"
  by (auto simp: select_one_def find_Some_iff)

lemma select_one_None_iff: "select_one key k rows = None \<longleftrightarrow> k \<notin> key ` set rows"
  by (auto simp: select_one_def find_None_iff)

lemma select_one_append:
  "key r \<notin> key ` set rows \<Longrightarrow>
     select_one key k (rows @ [r]) = (if k = key r then Some r else select_one key k rows)"
  by (induction rows) (auto simp: select_one_def)

lemma select_one_filter:
  "select_one key k (filter (\<lambda>r. key r \<noteq> k') rows) = (if k = k' then None else select_one key k rows)"
  by (induction rows) (auto simp: select_one_def)

lemma select_one_map:
  assumes "\<And>r. key (f r) = key r"
  shows "select_one key k (map f rows) = map_option f (select_one key k rows)"
  by (induction rows) (auto simp: select_one_def assms)

lemma select_one_mem:
  assumes "distinct (map key rows)" "r \<in> set rows"
  shows "select_one key (key r) rows = Some r"
  using assms by (induction rows) (auto simp: select_one_def)

section \<open>The pools\<close>

definition sq_held_ip :: "sqlite_db \<Rightarrow> string \<Rightarrow> string option" where
  "sq_held_ip db vm = map_option lr_ip (select_one lr_vm_id vm (db_ip_leases db))"

definition sq_held_ssh :: "sqlite_db \<Rightarrow> string \<Rightarrow> int option" where
  "sq_held_ssh db vm = map_option fr_host_port (select_one fr_vm_id vm (db_ssh_forwards db))"

definition sq_held_cid :: "sqlite_db \<Rightarrow> string \<Rightarrow> int option" where
  "sq_held_cid db vm = map_option cr_guest_cid (select_one cr_vm_id vm (db_vsock_cids db))"

definition sq_held_tap :: "sqlite_db \<Rightarrow> string \<Rightarrow> string option" where
  "sq_held_tap db vm = map_option tr_tap_device (select_one tr_vm_id vm (db_tap_allocations db))"

lemmas sq_held_defs = sq_held_ip_def sq_held_ssh_def sq_held_cid_def sq_held_tap_def

lemma sq_held_values:
  "v \<in> ran (sq_held_ip db) \<Longrightarrow> v \<in> lr_ip ` set (db_ip_leases db)"
  "p \<in> ran (sq_held_ssh db) \<Longrightarrow> p \<in> fr_host_port ` set (db_ssh_forwards db)"
  "c \<in> ran (sq_held_cid db) \<Longrightarrow> c \<in> cr_guest_cid ` set (db_vsock_cids db)"
  "t \<in> ran (sq_held_tap db) \<Longrightarrow> t \<in> tr_tap_device ` set (db_tap_allocations db)"
  by (auto simp: ran_def sq_held_defs dest!: select_one_SomeD)

text \<open>A successful insertion appends the row.\<close>

lemma insert_Inr:
  "insert_ip_lease db lr = Inr db' \<Longrightarrow>
     db' = db\<lparr>db_ip_leases := db_ip_leases db @ [lr]\<rparr> \<and> vm_exists db (lr_vm_id lr) \<and>
     lr_ip lr \<notin> lr_ip ` set (db_ip_leases db) \<and> lr_vm_id lr \<notin> lr_vm_id ` set (db_ip_leases db)"
  "insert_ssh_forward db fr = Inr db' \<Longrightarrow>
     db' = db\<lparr>db_ssh_forwards := db_ssh_forwards db @ [fr]\<rparr> \<and> vm_exists db (fr_vm_id fr) \<and>
     fr_host_port fr \<notin> fr_host_port ` set (db_ssh_forwards db) \<and>
     fr_vm_id fr \<notin> fr_vm_id ` set (db_ssh_forwards db)"
  "insert_vsock_cid db cr = Inr db' \<Longrightarrow>
     db' = db\<lparr>db_vsock_cids := db_vsock_cids db @ [cr]\<rparr> \<and> vm_exists db (cr_vm_id cr) \<and>
     cr_guest_cid cr \<notin> cr_guest_cid ` set (db_vsock_cids db) \<and>
     cr_vm_id cr \<notin> cr_vm_id ` set (db_vsock_cids db)"
  "insert_tap_allocation db tr = Inr db' \<Longrightarrow>
     db' = db\<lparr>db_tap_allocations := db_tap_allocations db @ [tr]\<rparr> \<and> vm_exists db (tr_vm_id tr) \<and>
     tr_tap_device tr \<notin> tr_tap_device ` set (db_tap_allocations db) \<and>
     tr_vm_id tr \<notin> tr_vm_id ` set (db_tap_allocations db)"
  by (auto simp: insert_ip_lease_def insert_ssh_forward_def insert_vsock_cid_def
      insert_tap_allocation_def split: if_splits)

lemma sq_allocate_ip_Inr:
  assumes "sq_allocate_ip now db vm tap req = Inr (v, db')"
  obtains (Existing) "sq_held_ip db vm = Some v" "req = None \<or> req = Some '''' \<or> req = Some v" "db' = db"
  | (Granted) "sq_held_ip db vm = None" "req = None \<or> req = Some '''' \<or> req = Some v"
      "insert_ip_lease db \<lparr>lr_ip = v, lr_vm_id = vm, lr_tap_device = tap, lr_created_at = now\<rparr> = Inr db'"
proof (cases "select_one lr_vm_id vm (db_ip_leases db)")
  case None
  with assms have "\<exists>c. sq_try_ip now db vm tap c = Inr (Some (v, db')) \<and>
      (req = None \<or> req = Some '''' \<or> req = Some c)"
    by (auto simp: sq_allocate_ip_def Let_def nonempty_column_def result_iff
        split: option.splits if_splits sum.splits dest!: scan_list_Some_D scan_range_Some_D)
  with None show ?thesis using Granted
    by (auto simp: sq_try_ip_def sq_held_ip_def result_iff split: if_splits)
next
  case (Some r)
  with assms show ?thesis using Existing
    by (auto simp: sq_allocate_ip_def Let_def nonempty_column_def sq_held_ip_def
        split: option.splits if_splits)
qed

lemma sq_reserve_ssh_port_Inr:
  assumes "sq_reserve_ssh_port now db vm gp req excl = Inr (v, db')"
  obtains (Existing) "sq_held_ssh db vm = Some v" "req = None \<or> req = Some v" "db' = db"
  | (Granted) "sq_held_ssh db vm = None" "req = None \<or> req = Some v" "v \<notin> set excl" "1 \<le> v" "v \<le> 65535"
      "insert_ssh_forward db
         \<lparr>fr_vm_id = vm, fr_host_port = v, fr_guest_port = gp, fr_created_at = now\<rparr> = Inr db'"
proof (cases "select_one fr_vm_id vm (db_ssh_forwards db)")
  case None
  with assms have "\<exists>c. sq_try_ssh_port now db vm gp excl c = Inr (Some (v, db')) \<and>
      (req = None \<and> SSH_PORT_START \<le> c \<and> c \<le> SSH_PORT_END \<or> req = Some c \<and> 1 \<le> c \<and> c \<le> 65535)"
    by (auto simp: sq_reserve_ssh_port_def result_iff
        split: option.splits if_splits sum.splits dest!: scan_list_Some_D scan_range_Some_D)
  with None show ?thesis using Granted
    by (auto simp: sq_try_ssh_port_def sq_held_ssh_def pool_bounds result_iff split: if_splits)
next
  case (Some r)
  with assms show ?thesis using Existing
    by (auto simp: sq_reserve_ssh_port_def sq_held_ssh_def split: if_splits)
qed

lemma sq_reserve_vsock_cid_Inr:
  assumes "sq_reserve_vsock_cid now db vm req = Inr (v, db')"
  obtains (Existing) "sq_held_cid db vm = Some v" "req = None \<or> req = Some v" "db' = db"
  | (Granted) "sq_held_cid db vm = None" "req = None \<or> req = Some v"
      "VSOCK_CID_START \<le> v" "v \<le> VSOCK_CID_END"
      "insert_vsock_cid db \<lparr>cr_vm_id = vm, cr_guest_cid = v, cr_created_at = now\<rparr> = Inr db'"
proof (cases "select_one cr_vm_id vm (db_vsock_cids db)")
  case None
  with assms have "\<exists>c. sq_try_vsock_cid now db vm c = Inr (Some (v, db')) \<and>
      (req = None \<or> req = Some c) \<and> VSOCK_CID_START \<le> c \<and> c \<le> VSOCK_CID_END"
    by (auto simp: sq_reserve_vsock_cid_def result_iff
        split: option.splits if_splits sum.splits dest!: scan_list_Some_D scan_range_Some_D)
  with None show ?thesis using Granted
    by (auto simp: sq_try_vsock_cid_def sq_held_cid_def result_iff split: if_splits)
next
  case (Some r)
  with assms show ?thesis using Existing
    by (auto simp: sq_reserve_vsock_cid_def sq_held_cid_def split: if_splits)
qed

lemma sq_choose_tap_Inr:
  "sq_choose_tap tok db req = Inr v \<Longrightarrow>
     v \<notin> tr_tap_device ` set (db_tap_allocations db) \<and> (req = None \<or> req = Some '''' \<or> req = Some v)"
  by (auto simp: sq_choose_tap_def Let_def nonempty_column_def find_Some_iff
      split: option.splits if_splits)

lemma sq_reserve_tap_name_Inr:
  assumes "sq_reserve_tap_name tok now db vm mode br req = Inr (v, db')"
  obtains (Existing) "sq_held_tap db vm = Some v" "req = None \<or> req = Some v" "db' = db"
  | (Granted) "sq_held_tap db vm = None" "req = None \<or> req = Some '''' \<or> req = Some v"
      "insert_tap_allocation db \<lparr>tr_vm_id = vm, tr_tap_device = v, tr_mode = mode,
         tr_bridge_name = br, tr_created_at = now\<rparr> = Inr db'"
proof (cases "select_one tr_vm_id vm (db_tap_allocations db)")
  case None
  with assms show ?thesis using Granted
    by (auto simp: sq_reserve_tap_name_def sq_held_tap_def result_iff
        dest!: sq_choose_tap_Inr split: if_splits)
next
  case (Some r)
  with assms show ?thesis using Existing
    by (auto simp: sq_reserve_tap_name_def sq_held_tap_def split: if_splits)
qed

text \<open>What a successful insertion does to the reservations.\<close>

lemma insert_held:
  "insert_ip_lease db lr = Inr db' \<Longrightarrow> sq_held_ip db' = (sq_held_ip db)(lr_vm_id lr \<mapsto> lr_ip lr)"
  "insert_ssh_forward db fr = Inr db' \<Longrightarrow> sq_held_ssh db' = (sq_held_ssh db)(fr_vm_id fr \<mapsto> fr_host_port fr)"
  "insert_vsock_cid db cr = Inr db' \<Longrightarrow> sq_held_cid db' = (sq_held_cid db)(cr_vm_id cr \<mapsto> cr_guest_cid cr)"
  "insert_tap_allocation db tr = Inr db' \<Longrightarrow>
     sq_held_tap db' = (sq_held_tap db)(tr_vm_id tr \<mapsto> tr_tap_device tr)"
  by (auto simp: sq_held_defs fun_eq_iff select_one_append dest!: insert_Inr)

lemma insert_fresh:
  "insert_ip_lease db lr = Inr db' \<Longrightarrow> lr_ip lr \<notin> ran (sq_held_ip db)"
  "insert_ssh_forward db fr = Inr db' \<Longrightarrow> fr_host_port fr \<notin> ran (sq_held_ssh db)"
  "insert_vsock_cid db cr = Inr db' \<Longrightarrow> cr_guest_cid cr \<notin> ran (sq_held_cid db)"
  "insert_tap_allocation db tr = Inr db' \<Longrightarrow> tr_tap_device tr \<notin> ran (sq_held_tap db)"
  by (blast dest: insert_Inr sq_held_values)+

text \<open>What a release does.\<close>

lemma sq_release_held:
  "sq_release_ip db vm = Inr db' \<Longrightarrow> sq_held_ip db' = (sq_held_ip db)(vm := None)"
  "sq_release_ssh_port db vm = Inr db' \<Longrightarrow> sq_held_ssh db' = (sq_held_ssh db)(vm := None)"
  "sq_release_vsock_cid db vm = Inr db' \<Longrightarrow> sq_held_cid db' = (sq_held_cid db)(vm := None)"
  "sq_release_tap_name db vm = Inr db' \<Longrightarrow> sq_held_tap db' = (sq_held_tap db)(vm := None)"
  by (auto simp: sq_held_defs fun_eq_iff select_one_filter sq_release_ip_def sq_release_ssh_port_def
      sq_release_vsock_cid_def sq_release_tap_name_def split: if_splits)

interpretation sq_ip: allocator sq_held_ip "\<lambda>db vm req. sq_allocate_ip now db vm tap req"
    sq_release_ip "\<lambda>r. r \<noteq> ''''" for now tap
  by unfold_locales (auto elim!: sq_allocate_ip_Inr simp: insert_held sq_release_held
      dest: insert_fresh)

interpretation sq_ssh: allocator sq_held_ssh "\<lambda>db vm req. sq_reserve_ssh_port now db vm gp req excl"
    sq_release_ssh_port "\<lambda>_. True" for now gp excl
  by unfold_locales (auto elim!: sq_reserve_ssh_port_Inr simp: insert_held sq_release_held
      dest: insert_fresh)

interpretation sq_vsock: allocator sq_held_cid "\<lambda>db vm req. sq_reserve_vsock_cid now db vm req"
    sq_release_vsock_cid "\<lambda>_. True" for now
  by unfold_locales (auto elim!: sq_reserve_vsock_cid_Inr simp: insert_held sq_release_held
      dest: insert_fresh)

interpretation sq_tap: allocator sq_held_tap "\<lambda>db vm req. sq_reserve_tap_name tok now db vm mode br req"
    sq_release_tap_name "\<lambda>r. r \<noteq> ''''" for tok now mode br
  by unfold_locales (auto elim!: sq_reserve_tap_name_Inr simp: insert_held sq_release_held
      dest: insert_fresh)

section \<open>The rows implement the registry\<close>

definition sq_lookup :: "codec \<Rightarrow> sqlite_db \<Rightarrow> registry" where
  "sq_lookup cd db vm =
     (case select_one vr_id vm (db_vms db) of None \<Rightarrow> None
      | Some row \<Rightarrow> (case vm_info_from_row cd row of Inr info \<Rightarrow> Some info | Inl _ \<Rightarrow> None))"

definition rows_decode :: "codec \<Rightarrow> sqlite_db \<Rightarrow> bool" where
  "rows_decode cd db \<longleftrightarrow> (\<forall>row\<in>set (db_vms db). succeeds (vm_info_from_row cd row))"

text \<open>Values the serialiser reads back as it wrote them.\<close>

definition storable :: "codec \<Rightarrow> vm_config \<Rightarrow> bool" where
  "storable cd config \<longleftrightarrow> cd_vm_load cd (cd_vm_dump cd config) = Inr config"

definition opt_all :: "('a \<Rightarrow> bool) \<Rightarrow> 'a option \<Rightarrow> bool" where
  "opt_all P x = (case x of None \<Rightarrow> True | Some v \<Rightarrow> P v)"

definition patchable :: "codec \<Rightarrow> vm_update \<Rightarrow> bool" where
  "patchable cd u \<longleftrightarrow> opt_all (storable cd) (up_config u) \<and>
     opt_all (\<lambda>n. cd_net_load cd (cd_net_dump cd n) = Inr n \<and> cd_net_dump cd n \<noteq> '''') (up_network u) \<and>
     opt_all (\<lambda>d. cd_display_load cd (cd_display_dump cd d) = Inr d \<and> cd_display_dump cd d \<noteq> '''')
       (up_display u) \<and>
     opt_all (\<lambda>p. p \<noteq> '''') (up_control_socket_path u)"

lemma load_column_overwrite_opt:
  assumes "load_column load old = Inr v" "opt_all (\<lambda>n. load (dump n) = Inr n \<and> dump n \<noteq> '''') new"
  shows "load_column load (overwrite_opt (map_option dump new) old) = Inr (overwrite_opt new v)"
  using assms by (cases new) (simp_all add: load_column_def opt_all_def)

lemma load_column_overwrite_or_clear:
  assumes "load_column load old = Inr v" "opt_all (\<lambda>n. load (dump n) = Inr n \<and> dump n \<noteq> '''') new"
  shows "load_column load (overwrite_or_clear (map_option dump new) clear old) =
    Inr (overwrite_or_clear new clear v)"
  using assms by (cases new; cases clear) (simp_all add: load_column_def opt_all_def)

lemma nonempty_column_overwrite:
  "opt_all (\<lambda>p. p \<noteq> '''') new \<Longrightarrow>
     nonempty_column (overwrite_or_clear new clear old) = overwrite_or_clear new clear (nonempty_column old)"
  by (cases new; cases clear) (simp_all add: nonempty_column_def opt_all_def)

lemma load_config_overwrite:
  "cd_vm_load cd old = Inr c \<Longrightarrow> opt_all (storable cd) new \<Longrightarrow>
     cd_vm_load cd (overwrite (map_option (cd_vm_dump cd) new) old) = Inr (overwrite new c)"
  by (cases new) (simp_all add: opt_all_def storable_def)

lemma load_status_overwrite:
  "VMState old = Inr s \<Longrightarrow> VMState (overwrite (map_option vm_state_value new) old) = Inr (overwrite new s)"
  by (cases new) simp_all

lemma vm_info_from_updated_row:
  assumes "vm_info_from_row cd row = Inr info" "patchable cd u"
  shows "vm_info_from_row cd (update_vm_row cd now u row) = Inr (apply_vm_update u info)"
proof -
  obtain config network display status where
    dec: "cd_vm_load cd (vr_config row) = Inr config"
      "load_column (cd_net_load cd) (vr_network row) = Inr network"
      "load_column (cd_display_load cd) (vr_display row) = Inr display"
      "VMState (vr_status row) = Inr status"
    and info: "info = \<lparr>vi_vm_id = vr_id row, vi_status = status, vi_config = config, vi_network = network,
          vi_pid = vr_pid row, vi_control_socket_path = nonempty_column (vr_socket_path row),
          vi_vsock_uds_path = None, vi_display = display\<rparr>"
    using assms(1) by (auto simp: vm_info_from_row_def Let_def result_iff)
  show ?thesis
    using assms(2)
    by (simp add: vm_info_from_row_def update_vm_row_def patchable_def info apply_vm_update_def Let_def
        load_config_overwrite [OF dec(1)] load_column_overwrite_opt [OF dec(2)]
        load_column_overwrite_or_clear [OF dec(3)] load_status_overwrite [OF dec(4)]
        nonempty_column_overwrite)
qed

lemma update_vm_row_id [simp]: "vr_id (update_vm_row cd now u row) = vr_id row"
  by (simp add: update_vm_row_def)

lemma sq_get_lookup:
  assumes "rows_decode cd db" "vm \<noteq> ''''"
  shows "sq_get_vm cd db vm = reg_get (sq_lookup cd db) vm"
proof (cases "select_one vr_id vm (db_vms db)")
  case None
  then show ?thesis using assms(2) by (simp add: sq_get_vm_def sq_lookup_def reg_get_def)
next
  case (Some row)
  then have "row \<in> set (db_vms db)" by (rule select_one_SomeD [THEN conjunct1])
  then obtain info where "vm_info_from_row cd row = Inr info"
    using assms(1) by (auto simp: rows_decode_def succeeds_iff)
  with Some assms(2) show ?thesis by (simp add: sq_get_vm_def sq_lookup_def reg_get_def)
qed

lemma vm_info_from_created_row:
  "storable cd config \<Longrightarrow>
   vm_info_from_row cd \<lparr>vr_id = vc_vm_id config, vr_status = vm_state_value VM_CREATED,
      vr_config = cd_vm_dump cd config, vr_network = None, vr_pid = None, vr_socket_path = None,
      vr_display = None, vr_created_at = now, vr_updated_at = now\<rparr> = Inr (created_vm_info config)"
  using VMState_value [of VM_CREATED]
  by (simp add: vm_info_from_row_def storable_def load_column_def nonempty_column_def created_vm_info_def)

lemma sq_create_refines:
  assumes "rows_decode cd db" "storable cd config" "commit db (sq_create_vm cd now db config) = (r, db')"
  shows "rows_decode cd db' \<and> (r, sq_lookup cd db') = reg_create (sq_lookup cd db) config"
proof (cases "vc_vm_id config \<in> vr_id ` set (db_vms db)")
  case True
  then have "sq_lookup cd db (vc_vm_id config) \<noteq> None"
    using assms(1) select_one_None_iff [of vr_id "vc_vm_id config" "db_vms db"]
    by (auto simp: sq_lookup_def rows_decode_def succeeds_iff dest!: select_one_SomeD
        split: option.split sum.split)
  moreover have "db' = db" "r = Inl (VMAlreadyExistsError (vc_vm_id config))"
    using True assms(3) by (simp_all add: sq_create_vm_def select_one_None_iff)
  ultimately show ?thesis using assms(1) by (simp add: reg_create_def)
next
  case False
  let ?row = "\<lparr>vr_id = vc_vm_id config, vr_status = vm_state_value VM_CREATED,
      vr_config = cd_vm_dump cd config, vr_network = None, vr_pid = None, vr_socket_path = None,
      vr_display = None, vr_created_at = now, vr_updated_at = now\<rparr>"
  have res: "r = Inr (created_vm_info config)" "db' = db\<lparr>db_vms := db_vms db @ [?row]\<rparr>"
    using False assms(3) by (simp_all add: sq_create_vm_def insert_vm_def vm_exists_def select_one_None_iff)
  note row = vm_info_from_created_row [OF assms(2), of now]
  have "sq_lookup cd db' = (sq_lookup cd db)(vc_vm_id config \<mapsto> created_vm_info config)"
    using False row by (auto simp: res sq_lookup_def fun_eq_iff select_one_append)
  moreover have "sq_lookup cd db (vc_vm_id config) = None"
    using False by (simp add: sq_lookup_def select_one_None_iff [THEN iffD2])
  moreover have "rows_decode cd db'"
    using assms(1) row by (simp add: rows_decode_def res)
  ultimately show ?thesis by (simp add: res reg_create_def)
qed

lemma sq_lookup_row:
  assumes "rows_decode cd db" "select_one vr_id vm (db_vms db) = Some row"
  obtains info where "vm_info_from_row cd row = Inr info" "sq_lookup cd db vm = Some info"
  using assms select_one_SomeD [OF assms(2)]
  by (auto simp: rows_decode_def succeeds_iff sq_lookup_def)

lemma sq_update_refines:
  assumes dec: "rows_decode cd db" and "vm \<noteq> ''''" and u: "patchable cd u"
    and r: "sq_update_vm cd now db vm u = (r, db')"
  shows "rows_decode cd db' \<and> (r, sq_lookup cd db') = reg_update (sq_lookup cd db) vm u"
proof (cases "select_one vr_id vm (db_vms db)")
  case None
  then have "sq_lookup cd db vm = None" by (simp add: sq_lookup_def)
  with None r assms(2) dec show ?thesis by (auto simp: sq_update_vm_def reg_update_def)
next
  case (Some row)
  let ?f = "\<lambda>r. if vr_id r = vm then update_vm_row cd now u r else r"
  have db': "db' = db\<lparr>db_vms := map ?f (db_vms db)\<rparr>" and r': "r = sq_get_vm cd db' vm"
    using r Some assms(2) by (auto simp: sq_update_vm_def Let_def)
  obtain info where info: "vm_info_from_row cd row = Inr info" "sq_lookup cd db vm = Some info"
    using dec Some by (rule sq_lookup_row)
  have sel: "select_one vr_id v (db_vms db') = map_option ?f (select_one vr_id v (db_vms db))" for v
    by (simp add: db' select_one_map)
  have "rows_decode cd db'"
    using dec u by (auto simp: rows_decode_def db' succeeds_iff vm_info_from_updated_row)
  moreover have "sq_lookup cd db' v = ((sq_lookup cd db)(vm \<mapsto> apply_vm_update u info)) v" for v
  proof (cases "v = vm")
    case True
    then show ?thesis
      using Some info vm_info_from_updated_row [OF info(1) u] select_one_SomeD [OF Some]
      by (simp add: sq_lookup_def sel)
  next
    case False
    then show ?thesis
      by (cases "select_one vr_id v (db_vms db)") (auto simp: sq_lookup_def sel dest: select_one_SomeD)
  qed
  ultimately show ?thesis
    using info assms(2) by (simp add: r' sq_get_lookup reg_get_def reg_update_def fun_eq_iff)
qed

lemma sq_delete_refines:
  assumes "rows_decode cd db" "vm \<noteq> ''''" "commit_unit db (sq_delete_vm db vm) = (r, db')"
  shows "rows_decode cd db' \<and> (r, sq_lookup cd db') = reg_delete (sq_lookup cd db) vm"
proof (cases "select_one vr_id vm (db_vms db)")
  case None
  then have "sq_lookup cd db vm = None" by (simp add: sq_lookup_def)
  with None assms show ?thesis by (auto simp: sq_delete_vm_def reg_delete_def)
next
  case (Some row)
  then have db': "db' = delete_vm_rows db vm" "r = Inr ()"
    using assms(2,3) by (auto simp: sq_delete_vm_def)
  obtain info where "sq_lookup cd db vm = Some info" using assms(1) Some by (rule sq_lookup_row)
  moreover have "sq_lookup cd db' = (sq_lookup cd db)(vm := None)"
    by (auto simp: db' delete_vm_rows_def sq_lookup_def fun_eq_iff select_one_filter)
  moreover have "rows_decode cd db'"
    using assms(1) by (simp add: rows_decode_def db' delete_vm_rows_def)
  ultimately show ?thesis by (simp add: reg_delete_def db')
qed

interpretation sq_reg: vm_registry "rows_decode cd" "sq_lookup cd"
    "\<lambda>db config. commit db (sq_create_vm cd now db config)" "sq_update_vm cd now"
    "\<lambda>db vm. commit_unit db (sq_delete_vm db vm)" "storable cd" "patchable cd" "\<lambda>vm. vm \<noteq> ''''"
  for cd now
  using sq_create_refines sq_update_refines sq_delete_refines by unfold_locales

text \<open>
  \<^bold>\<open>C2\<close>. The two state managers implement one protocol: run any sequence of \<open>create_vm\<close>,
  \<open>update_vm\<close> and \<open>delete_vm\<close> on an empty in-memory manager and on an empty database, with
  configurations the serialiser reads back as written and non-empty identifiers, and every call
  returns or raises the same thing in both, and afterwards both return the same for every
  \<open>get_vm\<close>.
\<close>

theorem stores_agree:
  assumes "\<forall>c\<in>set calls. call_ok (storable cd) (patchable cd) (\<lambda>vm. vm \<noteq> '''') c"
    "run_calls (\<lambda>st config. commit st (mem_create_vm st config))
       (\<lambda>st vm u. commit st (mem_update_vm st vm u)) (\<lambda>st vm. commit_unit st (mem_delete_vm st vm))
       mem_init calls = (rs, st)"
    "run_calls (\<lambda>db config. commit db (sq_create_vm cd now db config)) (sq_update_vm cd now)
       (\<lambda>db vm. commit_unit db (sq_delete_vm db vm)) init_schema calls = (rs', db)"
  shows "rs' = rs \<and> (vm \<noteq> '''' \<longrightarrow> sq_get_vm cd db vm = mem_get_vm st vm)"
proof -
  let ?abstract = "run_calls reg_create reg_update reg_delete (\<lambda>_. None) calls"
  have init: "map_of (ms_vms mem_init) = (\<lambda>_. None)" "sq_lookup cd init_schema = (\<lambda>_. None)"
      "rows_decode cd init_schema"
    by (simp_all add: mem_init_def sq_lookup_def init_schema_def select_one_def rows_decode_def fun_eq_iff)
  have mem_ok: "\<forall>c\<in>set calls. call_ok (\<lambda>_. True) (\<lambda>_. True) (\<lambda>_. True) c"
    by (auto simp: call_ok_def split: reg_call.split)
  have "(rs, map_of (ms_vms st)) = ?abstract"
    using mem_reg.run_refines [OF TrueI mem_ok assms(2)] by (simp add: init)
  moreover have "rows_decode cd db \<and> (rs', sq_lookup cd db) = ?abstract"
    using sq_reg.run_refines [OF init(3) assms(1,3)] by (simp add: init)
  ultimately have same: "rs' = rs" "sq_lookup cd db = map_of (ms_vms st)" "rows_decode cd db"
    by (metis prod.inject)+
  then show ?thesis by (auto simp: sq_get_lookup reg_get_def mem_get_vm_def)
qed

text \<open>A serialiser that knows one configuration, for concrete runs.\<close>

definition demo_codec :: codec where
  "demo_codec =
     \<lparr>cd_vm_dump = (\<lambda>_. ''{}''), cd_vm_load = (\<lambda>_. Inr (demo_config ''a'')),
      cd_net_dump = (\<lambda>_. ''{}''), cd_net_load = (\<lambda>_. Inl (ValidationError ''network'')),
      cd_display_dump = (\<lambda>_. ''{}''), cd_display_load = (\<lambda>_. Inl (ValidationError ''display'')),
      cd_artifacts_dump = (\<lambda>_. ''{}''), cd_artifacts_load = (\<lambda>_. Inl (ValidationError ''artifacts'')),
      cd_browser_dump = (\<lambda>_. ''{}''), cd_browser_load = (\<lambda>_. Inl (ValidationError ''browser''))\<rparr>"

lemma demo_storable [simp]: "storable demo_codec (demo_config ''a'')"
  by (simp add: storable_def demo_codec_def)

theorem stores_agree_witness:
  "\<exists>rs st db. run_calls (\<lambda>st config. commit st (mem_create_vm st config))
       (\<lambda>st vm u. commit st (mem_update_vm st vm u)) (\<lambda>st vm. commit_unit st (mem_delete_vm st vm))
       mem_init [CreateCall (demo_config ''a''), UpdateCall ''a'' (no_update\<lparr>up_pid := Some 7\<rparr>)] = (rs, st) \<and>
     sq_get_vm demo_codec db ''a'' = mem_get_vm st ''a''"
proof -
  let ?calls = "[CreateCall (demo_config ''a''), UpdateCall ''a'' (no_update\<lparr>up_pid := Some 7\<rparr>)]"
  have ok: "\<forall>c\<in>set ?calls. call_ok (storable demo_codec) (patchable demo_codec) (\<lambda>vm. vm \<noteq> '''') c"
    by (simp add: call_ok_def patchable_def opt_all_def no_update_def)
  obtain rs st where mem: "run_calls (\<lambda>st config. commit st (mem_create_vm st config))
       (\<lambda>st vm u. commit st (mem_update_vm st vm u)) (\<lambda>st vm. commit_unit st (mem_delete_vm st vm))
       mem_init ?calls = (rs, st)" by fastforce
  obtain rs' db where sq: "run_calls (\<lambda>db config. commit db (sq_create_vm demo_codec ''now'' db config))
       (sq_update_vm demo_codec ''now'') (\<lambda>db vm. commit_unit db (sq_delete_vm db vm))
       init_schema ?calls = (rs', db)" by fastforce
  show ?thesis using stores_agree [OF ok mem sq, of "''a''"] mem by auto
qed

section \<open>The database as a state machine\<close>

definition schema_ok :: "sqlite_db \<Rightarrow> bool" where
  "schema_ok db \<longleftrightarrow>
     distinct (map vr_id (db_vms db)) \<and>
     distinct (map lr_ip (db_ip_leases db)) \<and> distinct (map lr_vm_id (db_ip_leases db)) \<and>
     distinct (map fr_vm_id (db_ssh_forwards db)) \<and> distinct (map fr_host_port (db_ssh_forwards db)) \<and>
     distinct (map cr_vm_id (db_vsock_cids db)) \<and> distinct (map cr_guest_cid (db_vsock_cids db)) \<and>
     distinct (map tr_vm_id (db_tap_allocations db)) \<and>
     distinct (map tr_tap_device (db_tap_allocations db)) \<and>
     distinct (map br_session_id (db_browser_sessions db)) \<and>
     distinct (map br_vm_id (db_browser_sessions db)) \<and> distinct (map sr_snapshot_id (db_snapshots db)) \<and>
     lr_vm_id ` set (db_ip_leases db) \<subseteq> vr_id ` set (db_vms db) \<and>
     fr_vm_id ` set (db_ssh_forwards db) \<subseteq> vr_id ` set (db_vms db) \<and>
     cr_vm_id ` set (db_vsock_cids db) \<subseteq> vr_id ` set (db_vms db) \<and>
     tr_vm_id ` set (db_tap_allocations db) \<subseteq> vr_id ` set (db_vms db)"

inductive sq_step :: "codec \<Rightarrow> sqlite_db \<Rightarrow> sqlite_db \<Rightarrow> bool" for cd :: codec where
  sq_create_vm_step: "sq_create_vm cd now db config = Inr (info, db') \<Longrightarrow> sq_step cd db db'"
| sq_update_vm_step: "sq_update_vm cd now db vm u = (res, db') \<Longrightarrow> sq_step cd db db'"
| sq_delete_vm_step: "sq_delete_vm db vm = Inr db' \<Longrightarrow> sq_step cd db db'"
| sq_allocate_ip_step: "sq_allocate_ip now db vm tap req = Inr (ip, db') \<Longrightarrow> sq_step cd db db'"
| sq_release_ip_step: "sq_release_ip db vm = Inr db' \<Longrightarrow> sq_step cd db db'"
| sq_update_ip_lease_tap_step: "sq_update_ip_lease_tap db vm tap = Inr db' \<Longrightarrow> sq_step cd db db'"
| sq_reserve_ssh_port_step:
    "sq_reserve_ssh_port now db vm gp reqp excl = Inr (p, db') \<Longrightarrow> sq_step cd db db'"
| sq_release_ssh_port_step: "sq_release_ssh_port db vm = Inr db' \<Longrightarrow> sq_step cd db db'"
| sq_reserve_vsock_cid_step: "sq_reserve_vsock_cid now db vm reqp = Inr (p, db') \<Longrightarrow> sq_step cd db db'"
| sq_release_vsock_cid_step: "sq_release_vsock_cid db vm = Inr db' \<Longrightarrow> sq_step cd db db'"
| sq_reserve_tap_name_step:
    "sq_reserve_tap_name tok now db vm mode br req = Inr (tap, db') \<Longrightarrow> sq_step cd db db'"
| sq_release_tap_name_step: "sq_release_tap_name db vm = Inr db' \<Longrightarrow> sq_step cd db db'"
| sq_create_snapshot_step: "sq_create_snapshot cd db snap = Inr (snap', db') \<Longrightarrow> sq_step cd db db'"
| sq_mark_snapshot_restored_step:
    "sq_mark_snapshot_restored cd db sid vm = (sres, db') \<Longrightarrow> sq_step cd db db'"
| sq_delete_snapshot_step: "sq_delete_snapshot db sid = Inr db' \<Longrightarrow> sq_step cd db db'"
| sq_create_browser_session_step:
    "sq_create_browser_session cd now db binfo bconfig = Inr (binfo', db') \<Longrightarrow> sq_step cd db db'"
| sq_update_browser_session_step:
    "sq_update_browser_session cd now db sid bu = (bres, db') \<Longrightarrow> sq_step cd db db'"
| sq_delete_browser_session_step: "sq_delete_browser_session db sid = Inr db' \<Longrightarrow> sq_step cd db db'"
| sq_reconcile_step: "sq_reconcile kill now db = (stale, db') \<Longrightarrow> sq_step cd db db'"

inductive sq_reachable :: "codec \<Rightarrow> sqlite_db \<Rightarrow> bool" for cd :: codec where
  sq_reach_init: "sq_reachable cd init_schema"
| sq_reach_step: "sq_reachable cd db \<Longrightarrow> sq_step cd db db' \<Longrightarrow> sq_reachable cd db'"

lemma schema_init [simp]: "schema_ok init_schema"
  by (simp add: schema_ok_def init_schema_def)

lemma update_browser_row_ids [simp]:
  "br_session_id (update_browser_row cd now u row) = br_session_id row"
  "br_vm_id (update_browser_row cd now u row) = br_vm_id row"
  by (simp_all add: update_browser_row_def Let_def)

text \<open>Rewriting rows in place keeps every column that the rewriting keeps.\<close>

lemma map_if_key [simp]:
  "(\<And>r. key (f r) = key r) \<Longrightarrow> map (\<lambda>r. key (if P r then f r else r)) rows = map key rows"
  "(\<And>r. key (f r) = key r) \<Longrightarrow> map (key \<circ> (\<lambda>r. if P r then f r else r)) rows = map key rows"
  by simp_all

lemma schema_rewrite:
  assumes "schema_ok db"
  shows "map vr_id vs = map vr_id (db_vms db) \<Longrightarrow> schema_ok (db\<lparr>db_vms := vs\<rparr>)"
    "map lr_ip ls = map lr_ip (db_ip_leases db) \<Longrightarrow> map lr_vm_id ls = map lr_vm_id (db_ip_leases db) \<Longrightarrow>
       schema_ok (db\<lparr>db_ip_leases := ls\<rparr>)"
    "map sr_snapshot_id ss = map sr_snapshot_id (db_snapshots db) \<Longrightarrow> schema_ok (db\<lparr>db_snapshots := ss\<rparr>)"
    "map br_session_id bs = map br_session_id (db_browser_sessions db) \<Longrightarrow>
       map br_vm_id bs = map br_vm_id (db_browser_sessions db) \<Longrightarrow> schema_ok (db\<lparr>db_browser_sessions := bs\<rparr>)"
proof -
  show "schema_ok (db\<lparr>db_vms := vs\<rparr>)" if "map vr_id vs = map vr_id (db_vms db)"
  proof -
    have "vr_id ` set vs = vr_id ` set (db_vms db)" using that by (metis list.set_map)
    with assms that show ?thesis by (simp add: schema_ok_def)
  qed
  show "schema_ok (db\<lparr>db_ip_leases := ls\<rparr>)"
    if "map lr_ip ls = map lr_ip (db_ip_leases db)" "map lr_vm_id ls = map lr_vm_id (db_ip_leases db)"
  proof -
    have "lr_vm_id ` set ls = lr_vm_id ` set (db_ip_leases db)" using that(2) by (metis list.set_map)
    with assms that show ?thesis by (simp add: schema_ok_def)
  qed
qed (use assms in \<open>simp_all add: schema_ok_def\<close>)

lemma foldl_mark_row_stale:
  "\<exists>rows. foldl (mark_row_stale now) db ids = db\<lparr>db_vms := rows\<rparr> \<and> map vr_id rows = map vr_id (db_vms db)"
proof (induction ids arbitrary: db)
  case Nil
  then show ?case by (intro exI [of _ "db_vms db"]) simp
next
  case (Cons vm ids)
  obtain rows where rows: "foldl (mark_row_stale now) (mark_row_stale now db vm) ids =
      (mark_row_stale now db vm)\<lparr>db_vms := rows\<rparr>" "map vr_id rows = map vr_id (db_vms (mark_row_stale now db vm))"
    using Cons.IH by blast
  then show ?case by (intro exI [of _ rows]) (simp add: mark_row_stale_def [of now db vm])
qed

lemma schema_insert:
  assumes "schema_ok db"
  shows "insert_vm db vr = Inr db' \<Longrightarrow> schema_ok db'"
    "insert_ip_lease db lr = Inr db' \<Longrightarrow> schema_ok db'"
    "insert_ssh_forward db fr = Inr db' \<Longrightarrow> schema_ok db'"
    "insert_vsock_cid db cr = Inr db' \<Longrightarrow> schema_ok db'"
    "insert_tap_allocation db tr = Inr db' \<Longrightarrow> schema_ok db'"
    "insert_browser_session db br = Inr db' \<Longrightarrow> schema_ok db'"
    "insert_snapshot db sr = Inr db' \<Longrightarrow> schema_ok db'"
proof -
  show "insert_vm db vr = Inr db' \<Longrightarrow> schema_ok db'"
    using assms
    by (clarsimp simp: insert_vm_def vm_exists_def schema_ok_def subset_insertI2 split: if_splits)
  show "insert_ip_lease db lr = Inr db' \<Longrightarrow> schema_ok db'"
    using assms by (clarsimp simp: insert_ip_lease_def vm_exists_def schema_ok_def split: if_splits)
  show "insert_ssh_forward db fr = Inr db' \<Longrightarrow> schema_ok db'"
    using assms by (clarsimp simp: insert_ssh_forward_def vm_exists_def schema_ok_def split: if_splits)
  show "insert_vsock_cid db cr = Inr db' \<Longrightarrow> schema_ok db'"
    using assms by (clarsimp simp: insert_vsock_cid_def vm_exists_def schema_ok_def split: if_splits)
  show "insert_tap_allocation db tr = Inr db' \<Longrightarrow> schema_ok db'"
    using assms by (clarsimp simp: insert_tap_allocation_def vm_exists_def schema_ok_def split: if_splits)
  show "insert_browser_session db br = Inr db' \<Longrightarrow> schema_ok db'"
    using assms by (clarsimp simp: insert_browser_session_def vm_exists_def schema_ok_def split: if_splits)
  show "insert_snapshot db sr = Inr db' \<Longrightarrow> schema_ok db'"
    using assms by (clarsimp simp: insert_snapshot_def vm_exists_def schema_ok_def split: if_splits)
qed

text \<open>Deleting rows keeps the constraints, as long as rows that are referred to go last.\<close>

lemma fk_filter: "key ` set rows \<subseteq> ids \<Longrightarrow> key ` set (filter P rows) \<subseteq> ids"
  by auto

lemma fk_cascade:
  "key ` set rows \<subseteq> pk ` set parents \<Longrightarrow>
     key ` set (filter (\<lambda>r. key r \<noteq> k) rows) \<subseteq> pk ` set (filter (\<lambda>r. pk r \<noteq> k) parents)"
  by force

lemma schema_delete:
  assumes "schema_ok db"
  shows "schema_ok (delete_vm_rows db vm)"
    "schema_ok (db\<lparr>db_ip_leases := filter P1 (db_ip_leases db)\<rparr>)"
    "schema_ok (db\<lparr>db_ssh_forwards := filter P2 (db_ssh_forwards db)\<rparr>)"
    "schema_ok (db\<lparr>db_vsock_cids := filter P3 (db_vsock_cids db)\<rparr>)"
    "schema_ok (db\<lparr>db_tap_allocations := filter P4 (db_tap_allocations db)\<rparr>)"
    "schema_ok (db\<lparr>db_browser_sessions := filter P5 (db_browser_sessions db)\<rparr>)"
    "schema_ok (db\<lparr>db_snapshots := filter P6 (db_snapshots db)\<rparr>)"
  using assms unfolding schema_ok_def delete_vm_rows_def
  by (simp_all add: distinct_map_filter fk_filter fk_cascade del: set_filter)

lemma sq_step_schema:
  assumes "sq_step cd db db'" "schema_ok db"
  shows "schema_ok db'"
  using assms(1)
proof (cases rule: sq_step.cases)
  case (sq_update_vm_step now vm u res)
  then show ?thesis using assms(2)
    by (auto simp: sq_update_vm_def Let_def intro!: schema_rewrite split: if_splits)
next
  case (sq_allocate_ip_step now vm tap req ip)
  then show ?thesis using assms(2) by (auto elim!: sq_allocate_ip_Inr dest: schema_insert)
next
  case (sq_reserve_ssh_port_step now vm gp reqp excl p)
  then show ?thesis using assms(2) by (auto elim!: sq_reserve_ssh_port_Inr dest: schema_insert)
next
  case (sq_reserve_vsock_cid_step now vm reqp p)
  then show ?thesis using assms(2) by (auto elim!: sq_reserve_vsock_cid_Inr dest: schema_insert)
next
  case (sq_reserve_tap_name_step tok now vm mode br req tap)
  then show ?thesis using assms(2) by (auto elim!: sq_reserve_tap_name_Inr dest: schema_insert)
next
  case (sq_reconcile_step kill now stale)
  then show ?thesis
    using assms(2) foldl_mark_row_stale [of now db "sq_stale_vms kill db"]
    by (auto simp: sq_reconcile_def Let_def intro: schema_rewrite)
next
  case (sq_update_ip_lease_tap_step vm tap)
  then show ?thesis using assms(2)
    by (auto simp: sq_update_ip_lease_tap_def intro!: schema_rewrite split: if_splits)
next
  case (sq_mark_snapshot_restored_step sid vm sres)
  then show ?thesis using assms(2)
    by (auto simp: sq_mark_snapshot_restored_def Let_def intro!: schema_rewrite split: if_splits)
next
  case (sq_update_browser_session_step now sid bu bres)
  then show ?thesis using assms(2)
    by (auto simp: sq_update_browser_session_def Let_def intro!: schema_rewrite split: if_splits)
qed (use assms(2) in \<open>auto simp: sq_create_vm_def sq_create_snapshot_def sq_create_browser_session_def
      sq_delete_vm_def sq_release_ip_def sq_release_ssh_port_def sq_release_vsock_cid_def
      sq_release_tap_name_def sq_delete_snapshot_def sq_delete_browser_session_def result_iff
      schema_delete dest: schema_insert split: if_splits\<close>)

lemma sq_reachable_schema: "sq_reachable cd db \<Longrightarrow> schema_ok db"
  by (induction rule: sq_reachable.induct) (auto intro: sq_step_schema)

section \<open>Properties\<close>

lemma unique_column:
  assumes "distinct (map val rows)" "r \<in> set rows" "r' \<in> set rows" "val r = val r'"
  shows "r = r'"
  using assms by (meson distinct_map inj_onD)

lemma select_one_exclusive:
  assumes "distinct (map val rows)" "select_one key a rows = Some r" "select_one key b rows = Some r'"
    "val r = val r'"
  shows "a = b"
  using unique_column [OF assms(1), of r r'] assms(2-4) by (auto dest!: select_one_SomeD)

lemma select_one_foreign:
  "key ` set rows \<subseteq> ids \<Longrightarrow> select_one key a rows = Some r \<Longrightarrow> a \<in> ids"
  by (auto dest!: select_one_SomeD)

lemmas sq_getter_defs =
  sq_get_ip_lease_def sq_get_ssh_port_def sq_get_vsock_cid_def sq_get_tap_allocation_def

text \<open>
  \<^bold>\<open>C3\<close>. Whatever calls were made on the database, two different computers never hold the same
  address, SSH host port, vsock context identifier or TAP name, and every reservation belongs to
  a computer that exists: deleting a computer leaves no reservation behind.
\<close>

theorem sq_reachable_consistent:
  assumes "sq_reachable cd db"
  shows "(sq_get_ip_lease db a = Inr (Some (ip, ta)) \<and> sq_get_ip_lease db b = Inr (Some (ip, tb)) \<longrightarrow> a = b) \<and>
    (sq_get_ssh_port db a = Inr (Some p) \<and> sq_get_ssh_port db b = Inr (Some p) \<longrightarrow> a = b) \<and>
    (sq_get_vsock_cid db a = Inr (Some c) \<and> sq_get_vsock_cid db b = Inr (Some c) \<longrightarrow> a = b) \<and>
    (sq_get_tap_allocation db a = Inr (Some (t, ma, ba)) \<and>
       sq_get_tap_allocation db b = Inr (Some (t, mb, bb)) \<longrightarrow> a = b) \<and>
    (sq_get_ip_lease db a = Inr (Some (ip, ta)) \<or> sq_get_ssh_port db a = Inr (Some p) \<or>
     sq_get_vsock_cid db a = Inr (Some c) \<or> sq_get_tap_allocation db a = Inr (Some (t, ma, ba)) \<longrightarrow>
       vm_exists db a)"
proof -
  note ok = sq_reachable_schema [OF assms, unfolded schema_ok_def]
  have ip: "a = b" if "sq_get_ip_lease db a = Inr (Some (ip, ta))" "sq_get_ip_lease db b = Inr (Some (ip, tb))"
    using that select_one_exclusive [of lr_ip "db_ip_leases db" lr_vm_id a _ b] ok
    by (fastforce simp: sq_getter_defs split: if_splits)
  have ssh: "a = b" if "sq_get_ssh_port db a = Inr (Some p)" "sq_get_ssh_port db b = Inr (Some p)"
    using that select_one_exclusive [of fr_host_port "db_ssh_forwards db" fr_vm_id a _ b] ok
    by (fastforce simp: sq_getter_defs split: if_splits)
  have cid: "a = b" if "sq_get_vsock_cid db a = Inr (Some c)" "sq_get_vsock_cid db b = Inr (Some c)"
    using that select_one_exclusive [of cr_guest_cid "db_vsock_cids db" cr_vm_id a _ b] ok
    by (fastforce simp: sq_getter_defs split: if_splits)
  have tap: "a = b" if "sq_get_tap_allocation db a = Inr (Some (t, ma, ba))"
      "sq_get_tap_allocation db b = Inr (Some (t, mb, bb))"
    using that select_one_exclusive [of tr_tap_device "db_tap_allocations db" tr_vm_id a _ b] ok
    by (fastforce simp: sq_getter_defs split: if_splits)
  have "vm_exists db a" if "sq_get_ip_lease db a = Inr (Some (ip, ta)) \<or> sq_get_ssh_port db a = Inr (Some p) \<or>
     sq_get_vsock_cid db a = Inr (Some c) \<or> sq_get_tap_allocation db a = Inr (Some (t, ma, ba))"
    using that ok by (auto simp: sq_getter_defs vm_exists_def split: if_splits dest: select_one_foreign)
  with ip ssh cid tap show ?thesis by blast
qed

definition demo_db :: sqlite_db where
  "demo_db = init_schema\<lparr>db_vms := [\<lparr>vr_id = ''a'', vr_status = ''created'', vr_config = ''{}'',
     vr_network = None, vr_pid = None, vr_socket_path = None, vr_display = None,
     vr_created_at = ''t'', vr_updated_at = ''t''\<rparr>]\<rparr>"

definition demo_db_port :: sqlite_db where
  "demo_db_port = demo_db\<lparr>db_ssh_forwards :=
     [\<lparr>fr_vm_id = ''a'', fr_host_port = 2200, fr_guest_port = 22, fr_created_at = ''t''\<rparr>]\<rparr>"

lemma demo_db_reachable: "sq_reachable demo_codec demo_db"
proof -
  have "sq_create_vm demo_codec ''t'' init_schema (demo_config ''a'') =
      Inr (created_vm_info (demo_config ''a''), demo_db)"
    by (simp add: sq_create_vm_def init_schema_def select_one_def insert_vm_def vm_exists_def demo_db_def
        demo_codec_def)
  from sq_reach_step [OF sq_reach_init sq_create_vm_step [OF this]] show ?thesis .
qed

lemma demo_db_port_reachable: "sq_reachable demo_codec demo_db_port"
proof -
  have "sq_reserve_ssh_port ''t'' demo_db ''a'' 22 None [] = Inr (2200, demo_db_port)"
    by (simp add: sq_reserve_ssh_port_def sq_try_ssh_port_def insert_ssh_forward_def vm_exists_def
        demo_db_def demo_db_port_def init_schema_def select_one_def pool_bounds scan_range.simps [of _ 2200])
  from sq_reach_step [OF demo_db_reachable sq_reserve_ssh_port_step [OF this]] show ?thesis .
qed

theorem sq_reachable_consistent_witness:
  "sq_get_ssh_port demo_db_port ''a'' = Inr (Some 2200) \<and> vm_exists demo_db_port ''a''"
proof -
  have "sq_get_ssh_port demo_db_port ''a'' = Inr (Some 2200)"
    by (simp add: sq_get_ssh_port_def demo_db_port_def demo_db_def select_one_def)
  with sq_reachable_consistent [OF demo_db_port_reachable, where a = "''a''" and p = 2200]
  show ?thesis by blast
qed

lemma sq_choose_tap_error: "sq_choose_tap tok db req \<noteq> Inl (IntegrityError x)"
  by (simp add: sq_choose_tap_def Let_def split: option.split)

text \<open>
  The checks made before each \<open>INSERT\<close> are complete: the only constraint a reservation can
  violate is the foreign key, and only when the computer has no row; creating a
  computer or a snapshot never violates one.
\<close>

theorem sq_integrity_only_missing_vm:
  shows "(sq_allocate_ip now db vm tap req = Inl (IntegrityError x) \<longrightarrow> x = ''FOREIGN KEY'' \<and> \<not> vm_exists db vm) \<and>
    (sq_reserve_ssh_port now db vm gp reqp excl = Inl (IntegrityError x) \<longrightarrow>
       x = ''FOREIGN KEY'' \<and> \<not> vm_exists db vm) \<and>
    (sq_reserve_vsock_cid now db vm reqp = Inl (IntegrityError x) \<longrightarrow>
       x = ''FOREIGN KEY'' \<and> \<not> vm_exists db vm) \<and>
    (sq_reserve_tap_name tok now db vm mode br req = Inl (IntegrityError x) \<longrightarrow>
       x = ''FOREIGN KEY'' \<and> \<not> vm_exists db vm) \<and>
    sq_create_vm cd now db config \<noteq> Inl (IntegrityError x) \<and>
    sq_create_snapshot cd db snap \<noteq> Inl (IntegrityError x)"
proof (intro conjI impI)
  assume "sq_allocate_ip now db vm tap req = Inl (IntegrityError x)"
  then show "x = ''FOREIGN KEY''" "\<not> vm_exists db vm"
    by (auto simp: sq_allocate_ip_def sq_try_ip_def insert_ip_lease_def Let_def result_iff
        select_one_None_iff split: if_splits option.splits sum.splits
        dest!: scan_list_Inl_D scan_range_Inl_D)
next
  assume "sq_reserve_ssh_port now db vm gp reqp excl = Inl (IntegrityError x)"
  then show "x = ''FOREIGN KEY''" "\<not> vm_exists db vm"
    by (auto simp: sq_reserve_ssh_port_def sq_try_ssh_port_def insert_ssh_forward_def result_iff
        select_one_None_iff split: if_splits option.splits sum.splits
        dest!: scan_list_Inl_D scan_range_Inl_D)
next
  assume "sq_reserve_vsock_cid now db vm reqp = Inl (IntegrityError x)"
  then show "x = ''FOREIGN KEY''" "\<not> vm_exists db vm"
    by (auto simp: sq_reserve_vsock_cid_def sq_try_vsock_cid_def insert_vsock_cid_def result_iff
        select_one_None_iff split: if_splits option.splits sum.splits
        dest!: scan_list_Inl_D scan_range_Inl_D)
next
  assume "sq_reserve_tap_name tok now db vm mode br req = Inl (IntegrityError x)"
  then show "x = ''FOREIGN KEY''" "\<not> vm_exists db vm"
    by (auto simp: sq_reserve_tap_name_def insert_tap_allocation_def result_iff select_one_None_iff
        sq_choose_tap_error split: if_splits option.splits dest!: sq_choose_tap_Inr)
next
  show "sq_create_vm cd now db config \<noteq> Inl (IntegrityError x)"
    by (simp add: sq_create_vm_def insert_vm_def vm_exists_def select_one_None_iff result_iff)
  show "sq_create_snapshot cd db snap \<noteq> Inl (IntegrityError x)"
    by (simp add: sq_create_snapshot_def insert_snapshot_def select_one_None_iff result_iff
        snapshot_row_of_def)
qed

theorem sq_integrity_only_missing_vm_witness:
  "sq_reserve_vsock_cid ''t'' demo_db ''b'' (Some 3) = Inl (IntegrityError ''FOREIGN KEY'') \<and>
   \<not> vm_exists demo_db ''b''"
proof -
  have "sq_reserve_vsock_cid ''t'' demo_db ''b'' (Some 3) = Inl (IntegrityError ''FOREIGN KEY'')"
    by (simp add: sq_reserve_vsock_cid_def sq_try_vsock_cid_def insert_vsock_cid_def vm_exists_def
        demo_db_def init_schema_def select_one_def pool_bounds)
  with sq_integrity_only_missing_vm show ?thesis by blast
qed

text \<open>Snapshots whose parts the serialiser reads back and whose fields the reader accepts.\<close>

definition snapshot_storable :: "codec \<Rightarrow> snapshot_info \<Rightarrow> bool" where
  "snapshot_storable cd info \<longleftrightarrow>
     cd_artifacts_load cd (cd_artifacts_dump cd (si_artifacts info)) = Inr (si_artifacts info) \<and>
     cd_artifacts_dump cd (si_artifacts info) \<noteq> '''' \<and> storable cd (si_vm_config info) \<and>
     cd_net_load cd (cd_net_dump cd (si_network_config info)) = Inr (si_network_config info) \<and>
     IDENTIFIER_PATTERN (si_snapshot_id info) \<and> IDENTIFIER_PATTERN (si_vm_id info) \<and>
     si_backend info \<in> {''firecracker'', ''qemu'', ''libkrun''} \<and>
     opt_all (\<lambda>n. 1 \<le> n) (si_virtual_size_bytes info) \<and> opt_all (\<lambda>n. 0 \<le> n) (si_changed_bytes info) \<and>
     opt_all (\<lambda>n. 1 \<le> n) (si_bitmap_granularity_bytes info)"

lemma optional_int_id:
  "opt_all (\<lambda>n. 1 \<le> n) v \<Longrightarrow> optional_int True v = v"
  "opt_all (\<lambda>n. 0 \<le> n) v \<Longrightarrow> optional_int False v = v"
  by (auto simp: optional_int_def opt_all_def split: option.splits)

lemma artifact_kind_roundtrip [simp]: "artifact_kind_from (map_option artifact_kind_value k) = k"
proof (cases k)
  case (Some a)
  then show ?thesis by (cases a) (simp_all add: artifact_kind_from_def artifact_kind_value_def)
qed (simp add: artifact_kind_from_def)

lemma snapshot_type_roundtrip [simp]: "snapshot_type_from (Some (snapshot_type_value t)) = t"
  by (simp add: snapshot_type_from_def nonempty_column_def)

lemma snapshot_row_roundtrip:
  assumes "snapshot_storable cd info"
  shows "snapshot_info_from_row cd (snapshot_row_of cd info) = Inr info"
proof -
  have "nonempty_column (Some (si_backend info)) = Some (si_backend info)"
    using assms by (auto simp: snapshot_storable_def nonempty_column_def)
  moreover have "nonempty_column (Some (cd_artifacts_dump cd (si_artifacts info))) =
      Some (cd_artifacts_dump cd (si_artifacts info))"
    using assms by (simp add: snapshot_storable_def nonempty_column_def)
  moreover have "raise_if (\<not> IDENTIFIER_PATTERN (si_snapshot_id info) \<or> \<not> IDENTIFIER_PATTERN (si_vm_id info) \<or>
      si_backend info \<notin> {''firecracker'', ''qemu'', ''libkrun''}) (ValidationError ''SnapshotInfo'') = Inr ()"
    using assms by (simp add: snapshot_storable_def raise_if_def)
  ultimately show ?thesis
    using assms
    by (simp add: snapshot_info_from_row_def snapshot_row_of_def snapshot_storable_def storable_def
        Let_def optional_int_id del: insert_iff)
qed

text \<open>
  \<^bold>\<open>C26\<close>. A snapshot record survives the database: what \<open>create_snapshot\<close> stored, \<open>get_snapshot\<close>
  returns unchanged, and after \<open>mark_snapshot_restored\<close> it differs only in the two restore
  fields. The hypothesis is that the serialiser reads back the three embedded models
  and that the sizes are in the range the reader accepts.
\<close>

theorem sq_snapshot_roundtrip:
  assumes "snapshot_storable cd info" "sq_create_snapshot cd db info = Inr (info', db')" "vm \<noteq> ''''"
  shows "sq_get_snapshot cd db' (si_snapshot_id info) = Inr info \<and>
    fst (sq_mark_snapshot_restored cd db' (si_snapshot_id info) vm) =
      Inr (info\<lparr>si_restored := True, si_restored_vm_id := Some vm\<rparr>)"
proof -
  let ?id = "si_snapshot_id info" and ?row = "snapshot_row_of cd info"
  let ?f = "\<lambda>r. if sr_snapshot_id r = ?id
      then r\<lparr>sr_restored := 1, sr_restored_vm_id := Some vm\<rparr> else r"
  have id: "?id \<noteq> ''''" using assms(1) by (simp add: snapshot_storable_def IDENTIFIER_PATTERN_def)
  have rowid: "sr_snapshot_id ?row = ?id" by (simp add: snapshot_row_of_def)
  have fresh: "?id \<notin> sr_snapshot_id ` set (db_snapshots db)"
    and db': "db' = db\<lparr>db_snapshots := db_snapshots db @ [?row]\<rparr>"
    using assms(2) by (auto simp: sq_create_snapshot_def select_one_None_iff insert_snapshot_def
        result_iff split: if_splits)
  then have sel: "select_one sr_snapshot_id ?id (db_snapshots db') = Some ?row"
    by (simp add: select_one_append rowid)
  have sel': "select_one sr_snapshot_id ?id (map ?f (db_snapshots db')) = Some (?f ?row)"
    using sel by (subst select_one_map) auto
  have row': "snapshot_row_of cd (info\<lparr>si_restored := True, si_restored_vm_id := Some vm\<rparr>) = ?f ?row"
    by (simp add: snapshot_row_of_def)
  have storable': "snapshot_storable cd (info\<lparr>si_restored := True, si_restored_vm_id := Some vm\<rparr>)"
    using assms(1) by (simp add: snapshot_storable_def)
  have "snapshot_info_from_row cd (?f ?row) =
      Inr (info\<lparr>si_restored := True, si_restored_vm_id := Some vm\<rparr>)"
    using snapshot_row_roundtrip [OF storable'] unfolding row' .
  then have "sq_get_snapshot cd (db'\<lparr>db_snapshots := map ?f (db_snapshots db')\<rparr>) ?id =
      Inr (info\<lparr>si_restored := True, si_restored_vm_id := Some vm\<rparr>)"
    using id sel' by (simp add: sq_get_snapshot_def)
  moreover have "?id \<in> sr_snapshot_id ` set (db_snapshots db')" by (simp add: db' rowid)
  moreover have "sq_get_snapshot cd db' ?id = Inr info"
    using id sel snapshot_row_roundtrip [OF assms(1)] by (simp add: sq_get_snapshot_def)
  ultimately show ?thesis
    using id assms(3) by (simp add: sq_mark_snapshot_restored_def Let_def)
qed

definition demo_network :: network_config where
  "demo_network = \<lparr>nc_guest_ip = Some ''172.16.0.2'', nc_gateway_ip = Some ''172.16.0.1'',
     nc_netmask = Some ''255.255.0.0'', nc_tap_device = ''tap2'', nc_guest_mac = ''02:00:00:00:00:02'',
     nc_ssh_host_port = Some 2200, nc_egress_proxy_host_port = None, nc_mode = MODE_NAT, nc_bridge = None\<rparr>"

definition demo_artifacts :: snapshot_artifacts where
  "demo_artifacts = \<lparr>sa_state_path = Some ''state'', sa_memory_path = None, sa_disk_path = ''disk''\<rparr>"

definition demo_snapshot :: snapshot_info where
  "demo_snapshot = \<lparr>si_snapshot_id = ''s'', si_vm_id = ''a'', si_backend = ''qemu'',
     si_artifacts = demo_artifacts, si_vm_config = demo_config ''a'', si_network_config = demo_network,
     si_created_at = ''t'', si_snapshot_type = SNAP_DISK, si_artifact_kind = Some ART_FULL,
     si_virtual_size_bytes = Some 1024, si_changed_bytes = None, si_bitmap_granularity_bytes = None,
     si_bitmap_name = None, si_restored = False, si_restored_vm_id = None\<rparr>"

definition snapshot_codec :: codec where
  "snapshot_codec = demo_codec\<lparr>cd_net_load := (\<lambda>_. Inr demo_network),
     cd_artifacts_load := (\<lambda>_. Inr demo_artifacts)\<rparr>"

lemma demo_snapshot_storable: "snapshot_storable snapshot_codec demo_snapshot"
  by (simp add: snapshot_storable_def snapshot_codec_def demo_codec_def demo_snapshot_def storable_def
      IDENTIFIER_PATTERN_def id_edge_char_def id_inner_char_def is_digit_def opt_all_def)

theorem sq_snapshot_roundtrip_witness:
  "\<exists>db'. sq_create_snapshot snapshot_codec init_schema demo_snapshot = Inr (demo_snapshot, db') \<and>
     sq_get_snapshot snapshot_codec db' ''s'' = Inr demo_snapshot"
proof -
  obtain db' where "sq_create_snapshot snapshot_codec init_schema demo_snapshot = Inr (demo_snapshot, db')"
    by (simp add: sq_create_snapshot_def init_schema_def select_one_def insert_snapshot_def)
  with sq_snapshot_roundtrip [OF demo_snapshot_storable this, of "''b''"] show ?thesis
    by (auto simp: demo_snapshot_def)
qed

end
