(* ===== verification/Ip_Address.thy ===== *)
theory Ip_Address
  imports Prelude
begin

text \<open>
  The part of Python's \<open>ipaddress\<close> module that the egress policy uses: parsing of both address
  families, membership in a network, and the special-purpose tables behind \<open>is_private\<close>,
  \<open>is_reserved\<close>, \<open>is_global\<close> and the other predicates (as in Python 3.11.10, the oldest
  supported series after the tables were aligned with IANA).
\<close>

section \<open>Addresses and networks\<close>

datatype ip_address = IPv4Address int | IPv6Address int "string option"

text \<open>A network is its base address and prefix length.\<close>

type_synonym ip_net = "int \<times> nat"

definition in_net :: "nat \<Rightarrow> int \<Rightarrow> ip_net \<Rightarrow> bool" where
  "in_net width a net = (a div 2 ^ (width - snd net) = fst net div 2 ^ (width - snd net))"

definition v4 :: "int \<Rightarrow> int \<Rightarrow> int \<Rightarrow> int \<Rightarrow> int" where
  "v4 a b c d = ((a * 256 + b) * 256 + c) * 256 + d"

text \<open>The value of eight groups of sixteen bits.\<close>

definition v6 :: "int list \<Rightarrow> int" where
  "v6 hextets = foldl (\<lambda>n h. n * 65536 + h) 0 hextets"

definition in_v4 :: "ip_address \<Rightarrow> ip_net list \<Rightarrow> bool" where
  "in_v4 addr nets = (case addr of IPv4Address a \<Rightarrow> list_ex (in_net 32 a) nets | IPv6Address _ _ \<Rightarrow> False)"

definition in_v6 :: "ip_address \<Rightarrow> ip_net list \<Rightarrow> bool" where
  "in_v6 addr nets = (case addr of IPv6Address a _ \<Rightarrow> list_ex (in_net 128 a) nets | IPv4Address _ \<Rightarrow> False)"

section \<open>Special-purpose tables\<close>

definition v4_private :: "ip_net list" where
  "v4_private = [(v4 0 0 0 0, 8), (v4 10 0 0 0, 8), (v4 127 0 0 0, 8), (v4 169 254 0 0, 16),
     (v4 172 16 0 0, 12), (v4 192 0 0 0, 24), (v4 192 0 0 170, 31), (v4 192 0 2 0, 24),
     (v4 192 168 0 0, 16), (v4 198 18 0 0, 15), (v4 198 51 100 0, 24), (v4 203 0 113 0, 24),
     (v4 240 0 0 0, 4), (v4 255 255 255 255, 32)]"

definition v4_private_exceptions :: "ip_net list" where
  "v4_private_exceptions = [(v4 192 0 0 9, 32), (v4 192 0 0 10, 32)]"

definition v6_private :: "ip_net list" where
  "v6_private = [(v6 [0,0,0,0,0,0,0,1], 128), (v6 [0,0,0,0,0,0,0,0], 128),
     (v6 [0,0,0,0,0,0xffff,0,0], 96), (v6 [0x64,0xff9b,1,0,0,0,0,0], 48), (v6 [0x100,0,0,0,0,0,0,0], 64),
     (v6 [0x2001,0,0,0,0,0,0,0], 23), (v6 [0x2001,0xdb8,0,0,0,0,0,0], 32), (v6 [0x2002,0,0,0,0,0,0,0], 16),
     (v6 [0xfc00,0,0,0,0,0,0,0], 7), (v6 [0xfe80,0,0,0,0,0,0,0], 10)]"

definition v6_private_exceptions :: "ip_net list" where
  "v6_private_exceptions = [(v6 [0x2001,1,0,0,0,0,0,1], 128), (v6 [0x2001,1,0,0,0,0,0,2], 128),
     (v6 [0x2001,3,0,0,0,0,0,0], 32), (v6 [0x2001,4,0x112,0,0,0,0,0], 48),
     (v6 [0x2001,0x20,0,0,0,0,0,0], 28), (v6 [0x2001,0x30,0,0,0,0,0,0], 28)]"

definition v6_reserved :: "ip_net list" where
  "v6_reserved = [(v6 [0,0,0,0,0,0,0,0], 8), (v6 [0x100,0,0,0,0,0,0,0], 8), (v6 [0x200,0,0,0,0,0,0,0], 7),
     (v6 [0x400,0,0,0,0,0,0,0], 6), (v6 [0x800,0,0,0,0,0,0,0], 5), (v6 [0x1000,0,0,0,0,0,0,0], 4),
     (v6 [0x4000,0,0,0,0,0,0,0], 3), (v6 [0x6000,0,0,0,0,0,0,0], 3), (v6 [0x8000,0,0,0,0,0,0,0], 3),
     (v6 [0xa000,0,0,0,0,0,0,0], 3), (v6 [0xc000,0,0,0,0,0,0,0], 3), (v6 [0xe000,0,0,0,0,0,0,0], 4),
     (v6 [0xf000,0,0,0,0,0,0,0], 5), (v6 [0xf800,0,0,0,0,0,0,0], 6), (v6 [0xfe00,0,0,0,0,0,0,0], 9)]"

definition is_unspecified :: "ip_address \<Rightarrow> bool" where
  "is_unspecified addr = (case addr of IPv4Address a \<Rightarrow> a = 0 | IPv6Address a _ \<Rightarrow> a = 0)"

definition is_loopback :: "ip_address \<Rightarrow> bool" where
  "is_loopback addr =
     (case addr of IPv4Address a \<Rightarrow> in_net 32 a (v4 127 0 0 0, 8) | IPv6Address a _ \<Rightarrow> a = 1)"

definition is_link_local :: "ip_address \<Rightarrow> bool" where
  "is_link_local addr \<longleftrightarrow>
     in_v4 addr [(v4 169 254 0 0, 16)] \<or> in_v6 addr [(v6 [0xfe80,0,0,0,0,0,0,0], 10)]"

definition is_site_local :: "ip_address \<Rightarrow> bool" where
  "is_site_local addr \<longleftrightarrow> in_v6 addr [(v6 [0xfec0,0,0,0,0,0,0,0], 10)]"

definition is_reserved :: "ip_address \<Rightarrow> bool" where
  "is_reserved addr \<longleftrightarrow> in_v4 addr [(v4 240 0 0 0, 4)] \<or> in_v6 addr v6_reserved"

definition ipv4_mapped :: "ip_address \<Rightarrow> bool" where
  "ipv4_mapped addr =
     (case addr of IPv4Address _ \<Rightarrow> False | IPv6Address a _ \<Rightarrow> a div 2 ^ 32 = 0xffff)"

text \<open>Python delegates to the embedded address for a mapped one.\<close>

definition private_v4 :: "int \<Rightarrow> bool" where
  "private_v4 a \<longleftrightarrow> list_ex (in_net 32 a) v4_private \<and> \<not> list_ex (in_net 32 a) v4_private_exceptions"

definition is_private :: "ip_address \<Rightarrow> bool" where
  "is_private addr =
     (case addr of IPv4Address a \<Rightarrow> private_v4 a
      | IPv6Address a _ \<Rightarrow>
          if ipv4_mapped addr then private_v4 (a mod 2 ^ 32)
          else list_ex (in_net 128 a) v6_private \<and> \<not> list_ex (in_net 128 a) v6_private_exceptions)"

definition is_multicast :: "ip_address \<Rightarrow> bool" where
  "is_multicast addr \<longleftrightarrow>
     in_v4 addr [(v4 224 0 0 0, 4)] \<or> in_v6 addr [(v6 [0xff00,0,0,0,0,0,0,0], 8)]"

definition is_global :: "ip_address \<Rightarrow> bool" where
  "is_global addr \<longleftrightarrow> \<not> in_v4 addr [(v4 100 64 0 0, 10)] \<and> \<not> is_private addr"

section \<open>Parsing\<close>

definition parse_octet :: "string \<Rightarrow> int option" where
  "parse_octet s =
     (if s = [] \<or> \<not> list_all is_digit s \<or> length s > 3 \<or> (s \<noteq> ''0'' \<and> hd s = CHR ''0'') then None
      else let n = int (nat_of_string s) in if n > 255 then None else Some n)"

definition parse_ipv4 :: "string \<Rightarrow> int option" where
  "parse_ipv4 s =
     (case map parse_octet (split_on (CHR ''.'') s) of
        [Some a, Some b, Some c, Some d] \<Rightarrow> Some (v4 a b c d) | _ \<Rightarrow> None)"

definition hex_val :: "char \<Rightarrow> int option" where
  "hex_val c =
     (let n = (of_char c :: int) in
      if 48 \<le> n \<and> n \<le> 57 then Some (n - 48)
      else if 97 \<le> n \<and> n \<le> 102 then Some (n - 87)
      else if 65 \<le> n \<and> n \<le> 70 then Some (n - 55)
      else None)"

definition parse_hextet :: "string \<Rightarrow> int option" where
  "parse_hextet s =
     (if s = [] \<or> length s > 4 \<or> list_ex (\<lambda>c. hex_val c = None) s then None
      else Some (foldl (\<lambda>n c. n * 16 + the (hex_val c)) 0 s))"

text \<open>
  The colon-separated parts: \<open>None\<close> for an empty part, the value of a group otherwise. A dotted
  suffix stands for two groups. The whole is \<open>None\<close> when a part is no group.
\<close>

fun ipv6_groups :: "string list \<Rightarrow> int option list option" where
  "ipv6_groups [] = Some []"
| "ipv6_groups (s # ss) =
     (case ipv6_groups ss of None \<Rightarrow> None
      | Some gs \<Rightarrow>
          if s = [] then Some (None # gs)
          else (case parse_hextet s of None \<Rightarrow> None | Some h \<Rightarrow> Some (Some h # gs)))"

definition ipv6_parts :: "string list \<Rightarrow> int option list option" where
  "ipv6_parts parts =
     (if CHR ''.'' \<in> set (last parts) then
        (case parse_ipv4 (last parts) of None \<Rightarrow> None
         | Some a \<Rightarrow>
             map_option (\<lambda>gs. gs @ [Some (a div 65536), Some (a mod 65536)]) (ipv6_groups (butlast parts)))
      else ipv6_groups parts)"

text \<open>\<open>_ip_int_from_string\<close>: at most one \<open>::\<close>, which stands for at least one group of zeros.\<close>

definition ipv6_value :: "int option list \<Rightarrow> int option" where
  "ipv6_value gs =
     (let value = (\<lambda>hs. v6 (map the hs)) in
      case filter (\<lambda>i. gs ! i = None) [1..<length gs - 1] of
        [] \<Rightarrow>
          if length gs \<noteq> 8 \<or> hd gs = None \<or> last gs = None then None else Some (value gs)
      | [k] \<Rightarrow>
          if hd gs = None \<and> k \<noteq> 1 \<or> last gs = None \<and> k \<noteq> length gs - 2 then None
          else
            let hi = (if hd gs = None then [] else take k gs);
                lo = (if last gs = None then [] else drop (k + 1) gs)
            in if length hi + length lo \<ge> 8 then None
               else Some (value (hi @ replicate (8 - (length hi + length lo)) (Some 0) @ lo))
      | _ \<Rightarrow> None)"

definition parse_ipv6 :: "string \<Rightarrow> ip_address option" where
  "parse_ipv6 s =
     (let addr = takeWhile (\<lambda>c. c \<noteq> CHR ''%'') s;
          rest = dropWhile (\<lambda>c. c \<noteq> CHR ''%'') s;
          scope = tl rest;
          parts = split_on (CHR '':'') addr
      in
      if CHR ''/'' \<in> set s then None
      else if rest \<noteq> [] \<and> (scope = [] \<or> CHR ''%'' \<in> set scope) then None
      else if length parts < 3 then None
      else case ipv6_parts parts of None \<Rightarrow> None
        | Some gs \<Rightarrow>
            if length gs > 9 then None
            else map_option (\<lambda>a. IPv6Address a (if rest = [] then None else Some scope)) (ipv6_value gs))"

text \<open>\<open>ip_address(s)\<close>; \<open>None\<close> is \<open>ValueError\<close>.\<close>

definition ip_address_of :: "string \<Rightarrow> ip_address option" where
  "ip_address_of s =
     (case parse_ipv4 s of Some a \<Rightarrow> Some (IPv4Address a) | None \<Rightarrow> parse_ipv6 s)"

section \<open>Ranges\<close>

lemma div_eq_range:
  fixes a k q :: int
  assumes "0 < k"
  shows "a div k = q \<longleftrightarrow> q * k \<le> a \<and> a < q * k + k"
proof
  assume "a div k = q"
  then have "a = q * k + a mod k" using div_mult_mod_eq [of a k] by simp
  then show "q * k \<le> a \<and> a < q * k + k"
    using pos_mod_bound [OF assms, of a] pos_mod_sign [OF assms, of a] by linarith
next
  assume "q * k \<le> a \<and> a < q * k + k"
  then show "a div k = q" by (intro int_div_pos_eq [of a k q "a - q * k"]) (auto simp: algebra_simps)
qed

text \<open>A network whose base has no host bits is an interval.\<close>

lemma in_net_range:
  assumes "fst net = q * 2 ^ (width - snd net)"
  shows "in_net width a net \<longleftrightarrow> fst net \<le> a \<and> a < fst net + 2 ^ (width - snd net)"
  using div_eq_range [of "2 ^ (width - snd net)" a q] assms by (simp add: in_net_def)

section \<open>Parsed addresses are in range\<close>

definition ip_in_range :: "ip_address \<Rightarrow> bool" where
  "ip_in_range addr =
     (case addr of IPv4Address a \<Rightarrow> 0 \<le> a \<and> a < 2 ^ 32 | IPv6Address a _ \<Rightarrow> 0 \<le> a \<and> a < 2 ^ 128)"

text \<open>Positional notation: digits below the base give a number below the power of the base.\<close>

lemma foldl_digits_bound:
  fixes base :: int
  assumes "0 < base" "\<forall>d\<in>set ds. 0 \<le> d \<and> d < base"
  shows "0 \<le> foldl (\<lambda>n d. n * base + d) 0 ds \<and> foldl (\<lambda>n d. n * base + d) 0 ds < base ^ length ds"
  using assms(2)
proof (induction ds rule: rev_induct)
  case Nil
  then show ?case by simp
next
  case (snoc d ds)
  let ?n = "foldl (\<lambda>n d. n * base + d) 0 ds"
  have n: "0 \<le> ?n" "?n + 1 \<le> base ^ length ds" and d: "0 \<le> d" "d < base" using snoc by auto
  have "?n * base + d < (?n + 1) * base" using d by (simp add: distrib_right)
  also have "\<dots> \<le> base ^ length ds * base" using n(2) assms(1) by (intro mult_right_mono) auto
  finally show ?case using n(1) d(1) assms(1) by (simp add: mult.commute)
qed

lemma parse_octet_bound: "parse_octet s = Some n \<Longrightarrow> 0 \<le> n \<and> n \<le> 255"
  by (auto simp: parse_octet_def Let_def split: if_splits)

lemma parse_ipv4_bound:
  assumes "parse_ipv4 s = Some a"
  shows "0 \<le> a \<and> a < 2 ^ 32"
proof -
  obtain w x y z where parts: "map parse_octet (split_on (CHR ''.'') s) = [Some w, Some x, Some y, Some z]"
    and a: "a = v4 w x y z"
    using assms by (auto simp: parse_ipv4_def split: list.splits option.splits)
  have "0 \<le> n \<and> n \<le> 255" if "n \<in> {w, x, y, z}" for n
  proof -
    have "Some n \<in> set (map parse_octet (split_on (CHR ''.'') s))" using that parts by auto
    then show ?thesis using parse_octet_bound by fastforce
  qed
  then have "0 \<le> w \<and> w \<le> 255" "0 \<le> x \<and> x \<le> 255" "0 \<le> y \<and> y \<le> 255" "0 \<le> z \<and> z \<le> 255" by auto
  then show ?thesis by (simp add: a v4_def)
qed

lemma hex_val_bound: "hex_val c = Some n \<Longrightarrow> 0 \<le> n \<and> n < 16"
  by (auto simp: hex_val_def Let_def split: if_splits)

lemma parse_hextet_bound:
  assumes "parse_hextet s = Some h"
  shows "0 \<le> h \<and> h < 65536"
proof -
  let ?ds = "map (the \<circ> hex_val) s"
  have len: "length s \<le> 4" and vals: "\<forall>c\<in>set s. hex_val c \<noteq> None"
    and h: "h = foldl (\<lambda>n d. n * 16 + d) 0 ?ds"
    using assms by (auto simp: parse_hextet_def list_ex_iff foldl_map split: if_splits)
  have "\<forall>d\<in>set ?ds. 0 \<le> d \<and> d < 16" using vals hex_val_bound by fastforce
  then have "0 \<le> h \<and> h < 16 ^ length s" using foldl_digits_bound [of 16 ?ds] h by simp
  moreover have "(16::int) ^ length s \<le> 16 ^ 4" using len by (intro power_increasing) auto
  ultimately show ?thesis by simp
qed

lemma ipv6_groups_bound:
  "ipv6_groups ss = Some gs \<Longrightarrow> Some h \<in> set gs \<Longrightarrow> 0 \<le> h \<and> h < 65536"
  by (induction ss arbitrary: gs) (auto split: option.splits if_splits dest: parse_hextet_bound)

lemma ipv6_parts_bound:
  assumes "ipv6_parts parts = Some gs" "Some h \<in> set gs"
  shows "0 \<le> h \<and> h < 65536"
  using assms ipv6_groups_bound parse_ipv4_bound
  by (fastforce simp: ipv6_parts_def split: if_splits option.splits)

lemma v6_bound:
  assumes "length hs = 8" "\<forall>h\<in>set hs. 0 \<le> h \<and> h < 65536"
  shows "0 \<le> v6 hs \<and> v6 hs < 2 ^ 128"
  using foldl_digits_bound [of 65536 hs] assms by (simp add: v6_def)

text \<open>When \<open>::\<close> was found at position \<open>k\<close>, no other inner group is empty.\<close>

lemma ipv6_single_gap:
  assumes "filter (\<lambda>i. gs ! i = None) [1..<length gs - 1] = [k]"
  shows "1 \<le> k" "k < length gs - 1" "\<And>i. 1 \<le> i \<Longrightarrow> i < length gs - 1 \<Longrightarrow> i \<noteq> k \<Longrightarrow> gs ! i \<noteq> None"
proof -
  have set: "{i. gs ! i = None \<and> 1 \<le> i \<and> i < length gs - 1} = {k}"
    using arg_cong [OF assms, of set] by auto
  then show "1 \<le> k" "k < length gs - 1" by auto
  show "gs ! i \<noteq> None" if "1 \<le> i" "i < length gs - 1" "i \<noteq> k" for i
    using set that by auto
qed

lemma ipv6_all_groups:
  assumes "filter (\<lambda>i. gs ! i = None) [1..<length gs - 1] = []" "gs \<noteq> []" "hd gs \<noteq> None" "last gs \<noteq> None"
  shows "None \<notin> set gs"
proof
  assume "None \<in> set gs"
  then obtain i where i: "i < length gs" "gs ! i = None" by (metis in_set_conv_nth)
  have "\<not> (1 \<le> i \<and> i < length gs - 1)" using assms(1) i(2)
    unfolding filter_empty_conv by (metis atLeastLessThan_iff set_upt)
  then have "i = 0 \<or> i = length gs - 1" using i(1) by linarith
  then show False using assms(2-4) i by (auto simp: hd_conv_nth last_conv_nth)
qed

lemma ipv6_hi_lo:
  assumes gap: "filter (\<lambda>i. gs ! i = None) [1..<length gs - 1] = [k]"
  shows "hd gs \<noteq> None \<Longrightarrow> None \<notin> set (take k gs)" "last gs \<noteq> None \<Longrightarrow> None \<notin> set (drop (k + 1) gs)"
proof -
  note k = ipv6_single_gap [OF gap]
  have ne: "gs \<noteq> []" using k(1,2) by auto
  show "None \<notin> set (take k gs)" if "hd gs \<noteq> None"
  proof
    assume "None \<in> set (take k gs)"
    then obtain i where "i < k" "gs ! i = None" by (auto simp: in_set_conv_nth)
    then show False using that ne k(2) k(3) [of i] by (cases i) (auto simp: hd_conv_nth)
  qed
  show "None \<notin> set (drop (k + 1) gs)" if "last gs \<noteq> None"
  proof
    assume "None \<in> set (drop (k + 1) gs)"
    then obtain j where j: "j < length gs - (k + 1)" "gs ! (k + 1 + j) = None"
      by (auto simp: in_set_conv_nth)
    then have "k + 1 + j = length gs - 1" using k(3) [of "k + 1 + j"] by linarith
    then show False using that ne j(2) by (simp add: last_conv_nth)
  qed
qed

lemma v6_groups_bound:
  assumes "length gs = 8" "None \<notin> set gs" "\<And>h. Some h \<in> set gs \<Longrightarrow> 0 \<le> h \<and> h < 65536"
  shows "0 \<le> v6 (map the gs) \<and> v6 (map the gs) < 2 ^ 128"
proof (rule v6_bound)
  show "\<forall>h\<in>set (map the gs). 0 \<le> h \<and> h < 65536"
  proof
    fix h assume "h \<in> set (map the gs)"
    then obtain g where g: "g \<in> set gs" "h = the g" by auto
    then have "g \<noteq> None" using assms(2) by metis
    then have "Some h \<in> set gs" using g by simp
    then show "0 \<le> h \<and> h < 65536" by (rule assms(3))
  qed
qed (use assms in simp)

lemma ipv6_value_bound:
  assumes "ipv6_value gs = Some a" "\<And>h. Some h \<in> set gs \<Longrightarrow> 0 \<le> h \<and> h < 65536"
  shows "0 \<le> a \<and> a < 2 ^ 128"
proof -
  let ?gaps = "filter (\<lambda>i. gs ! i = None) [1..<length gs - 1]"
  show ?thesis
  proof (cases ?gaps)
    case Nil
    then have gs: "length gs = 8" "hd gs \<noteq> None" "last gs \<noteq> None" "a = v6 (map the gs)"
      using assms(1) by (auto simp: ipv6_value_def Let_def split: if_splits)
    have "None \<notin> set gs" by (rule ipv6_all_groups [OF Nil]) (use gs in auto)
    then show ?thesis using v6_groups_bound [OF gs(1) _ assms(2)] gs(4) by simp
  next
    case (Cons k ks)
    then have one: "?gaps = [k]"
      using assms(1) by (auto simp: ipv6_value_def Let_def split: list.splits)
    define hi where "hi = (if hd gs = None then [] else take k gs)"
    define lo where "lo = (if last gs = None then [] else drop (k + 1) gs)"
    let ?all = "hi @ replicate (8 - (length hi + length lo)) (Some 0) @ lo"
    have len: "length hi + length lo < 8" and a: "a = v6 (map the ?all)"
      using assms(1) one unfolding ipv6_value_def hi_def lo_def
      by (auto simp: Let_def split: if_splits)
    have "None \<notin> set ?all"
      using ipv6_hi_lo [OF one] by (auto simp: hi_def lo_def)
    moreover have "0 \<le> h \<and> h < 65536" if "Some h \<in> set ?all" for h
      using that assms(2) [of h] by (auto simp: hi_def lo_def dest: in_set_takeD in_set_dropD split: if_splits)
    moreover have "length ?all = 8" using len by simp
    ultimately show ?thesis using v6_groups_bound [of ?all] a by blast
  qed
qed

lemma ip_address_of_range:
  assumes "ip_address_of s = Some addr"
  shows "ip_in_range addr"
proof (cases "parse_ipv4 s")
  case None
  then obtain gs a sc where "ipv6_parts (split_on (CHR '':'') (takeWhile (\<lambda>c. c \<noteq> CHR ''%'') s)) = Some gs"
      "ipv6_value gs = Some a" "addr = IPv6Address a sc"
    using assms by (auto simp: ip_address_of_def parse_ipv6_def Let_def split: if_splits option.splits)
  then show ?thesis using ipv6_value_bound ipv6_parts_bound by (simp add: ip_in_range_def)
next
  case (Some a)
  then show ?thesis using assms parse_ipv4_bound by (auto simp: ip_address_of_def ip_in_range_def)
qed

end
