(* ===== verification/Public_Egress.thy ===== *)
theory Public_Egress
  imports Ip_Address
begin

text \<open>
  The public-egress policy of \<open>host/_public_egress.py\<close>: which addresses a guest may reach
  through the host proxy and how one connection attempt is decided. The resolver is an
  argument; a failing lookup is \<open>None\<close>.
\<close>

section \<open>Requests and decisions\<close>

datatype egress_transport =
  HTTP | HTTPS | WEBSOCKET | WEBSOCKET_SECURE | DIRECT_DNS | RAW_SOCKET

datatype egress_request_kind = NAVIGATION | REDIRECT | SUBRESOURCE | SERVICE_WORKER | KIND_WEBSOCKET

datatype egress_block_reason =
    INVALID_TARGET | UNSUPPORTED_TRANSPORT | DNS_RESOLUTION_FAILED | NO_ADDRESSES
  | MIXED_ADDRESS_SCOPE | IPV4_MAPPED | NETWORK_METADATA | UNSPECIFIED | LOOPBACK | LINK_LOCAL
  | PRIVATE | SHARED | MULTICAST | RESERVED | NON_GLOBAL

record egress_request =
  er_hostname :: string
  er_port :: int
  er_transport :: egress_transport
  er_kind :: egress_request_kind

record address_classification =
  ac_address :: ip_address
  ac_allowed :: bool
  ac_block_reason :: "egress_block_reason option"

record resolved_public_endpoint =
  ep_hostname :: string
  ep_port :: int
  ep_resolved_addresses :: "ip_address list"
  ep_pinned_address :: ip_address

record egress_decision =
  ed_allowed :: bool
  ed_endpoint :: "resolved_public_endpoint option"
  ed_block_reason :: "egress_block_reason option"
  ed_classifications :: "address_classification list"

section \<open>Tables\<close>

definition METADATA_V4 :: "ip_net list" where
  "METADATA_V4 = [(v4 169 254 169 254, 32), (v4 169 254 170 2, 32), (v4 100 100 100 200, 32)]"

definition METADATA_V6 :: "ip_net list" where
  "METADATA_V6 = [(v6 [0xfd00,0xec2,0,0,0,0,0,0x254], 128), (v6 [0xfe80,0,0,0,0,0,0xa9fe,0xa9fe], 128)]"

definition SHARED_ADDRESS_SPACE :: ip_net where
  "SHARED_ADDRESS_SPACE = (v4 100 64 0 0, 10)"

definition NON_GLOBAL_V4 :: "ip_net list" where
  "NON_GLOBAL_V4 = [(v4 192 0 0 0, 24), (v4 192 0 2 0, 24), (v4 192 88 99 0, 24), (v4 198 18 0 0, 15),
     (v4 198 51 100 0, 24), (v4 203 0 113 0, 24)]"

definition NON_GLOBAL_V6 :: "ip_net list" where
  "NON_GLOBAL_V6 = [(v6 [0x64,0xff9b,1,0,0,0,0,0], 48), (v6 [0x100,0,0,0,0,0,0,0], 64),
     (v6 [0x2001,0xdb8,0,0,0,0,0,0], 32), (v6 [0x2002,0,0,0,0,0,0,0], 16)]"

definition GLOBAL_EXCEPTIONS :: "ip_net list" where
  "GLOBAL_EXCEPTIONS = [(v4 192 0 0 9, 32), (v4 192 0 0 10, 32)]"

definition PROXY_TRANSPORTS :: "egress_transport list" where
  "PROXY_TRANSPORTS = [HTTP, HTTPS, WEBSOCKET, WEBSOCKET_SECURE]"

section \<open>Classification\<close>

definition blocked :: "ip_address \<Rightarrow> egress_block_reason \<Rightarrow> address_classification" where
  "blocked address reason = \<lparr>ac_address = address, ac_allowed = False, ac_block_reason = Some reason\<rparr>"

definition classify_public_address :: "ip_address \<Rightarrow> address_classification" where
  "classify_public_address address =
     (if ipv4_mapped address then blocked address IPV4_MAPPED
      else if in_v4 address METADATA_V4 \<or> in_v6 address METADATA_V6 then blocked address NETWORK_METADATA
      else if is_unspecified address then blocked address UNSPECIFIED
      else if is_loopback address then blocked address LOOPBACK
      else if is_link_local address then blocked address LINK_LOCAL
      else if is_site_local address then blocked address PRIVATE
      else if in_v4 address [SHARED_ADDRESS_SPACE] then blocked address SHARED
      else if is_reserved address then blocked address RESERVED
      else if is_private address then blocked address PRIVATE
      else if is_multicast address then blocked address MULTICAST
      else if (in_v4 address NON_GLOBAL_V4 \<or> in_v6 address NON_GLOBAL_V6) \<and>
              \<not> in_v4 address GLOBAL_EXCEPTIONS then blocked address NON_GLOBAL
      else if \<not> is_global address then blocked address NON_GLOBAL
      else \<lparr>ac_address = address, ac_allowed = True, ac_block_reason = None\<rparr>)"

section \<open>Decision\<close>

definition normalize_hostname :: "string \<Rightarrow> string option" where
  "normalize_hostname value =
     (let hostname = lower (strip value);
          hostname = (if starts_with ''['' hostname \<and> ends_with '']'' hostname
                      then butlast (tl hostname) else hostname)
      in
      if hostname = [] \<or> CHR ''%'' \<in> set hostname \<or> list_ex is_space hostname \<or>
         list_ex (\<lambda>c. c \<in> set hostname) [CHR ''/'', CHR 0x5C, CHR ''@'', CHR ''?'', CHR ''#'', CHR 0x00]
      then None
      else
        let name = rstrip_chars (\<lambda>c. c = CHR ''.'') hostname in if name = [] then None else Some name)"

definition denied :: "egress_block_reason \<Rightarrow> address_classification list \<Rightarrow> egress_decision" where
  "denied reason classifications =
     \<lparr>ed_allowed = False, ed_endpoint = None, ed_block_reason = Some reason,
      ed_classifications = classifications\<rparr>"

text \<open>
  The loop over the answers: a repeated address is skipped, an answer that is no address
  fails the whole decision (\<open>None\<close>).
\<close>

fun classify_answers ::
  "ip_address list \<Rightarrow> address_classification list \<Rightarrow> string list \<Rightarrow> address_classification list option" where
  "classify_answers seen acc [] = Some acc"
| "classify_answers seen acc (raw # raws) =
     (case ip_address_of raw of
        None \<Rightarrow> None
      | Some address \<Rightarrow>
          if address \<in> set seen then classify_answers seen acc raws
          else classify_answers (address # seen) (acc @ [classify_public_address address]) raws)"

text \<open>A literal address is classified alone: its text parses to itself again.\<close>

definition checked_answers ::
  "(string \<Rightarrow> int \<Rightarrow> string list option) \<Rightarrow> string \<Rightarrow> int \<Rightarrow> address_classification list option" where
  "checked_answers resolve hostname port =
     (case ip_address_of hostname of
        Some literal \<Rightarrow> Some [classify_public_address literal]
      | None \<Rightarrow> (case resolve hostname port of None \<Rightarrow> None | Some raws \<Rightarrow> classify_answers [] [] raws))"

definition decide_public_egress ::
  "(string \<Rightarrow> int \<Rightarrow> string list option) \<Rightarrow> egress_request \<Rightarrow> egress_decision" where
  "decide_public_egress resolve request =
     (if er_transport request \<notin> set PROXY_TRANSPORTS then denied UNSUPPORTED_TRANSPORT []
      else case normalize_hostname (er_hostname request) of
          None \<Rightarrow> denied INVALID_TARGET []
        | Some hostname \<Rightarrow>
            if \<not> (1 \<le> er_port request \<and> er_port request \<le> 65535) then denied INVALID_TARGET []
            else case checked_answers resolve hostname (er_port request) of
                None \<Rightarrow> denied DNS_RESOLUTION_FAILED []
              | Some [] \<Rightarrow> denied NO_ADDRESSES []
              | Some checked \<Rightarrow>
                  let allowed = filter ac_allowed checked;
                      blocked = filter (\<lambda>item. \<not> ac_allowed item) checked
                  in
                  if blocked \<noteq> [] then
                    denied
                      (if allowed \<noteq> [] then MIXED_ADDRESS_SCOPE
                       else case ac_block_reason (hd blocked) of Some r \<Rightarrow> r | None \<Rightarrow> NON_GLOBAL)
                      checked
                  else
                    \<lparr>ed_allowed = True,
                     ed_endpoint = Some \<lparr>ep_hostname = hostname, ep_port = er_port request,
                       ep_resolved_addresses = map ac_address allowed,
                       ep_pinned_address = ac_address (hd allowed)\<rparr>,
                     ed_block_reason = None, ed_classifications = checked\<rparr>)"

section \<open>Allowed addresses are public\<close>

lemmas v4_networks =
  v4_private_def v4_private_exceptions_def METADATA_V4_def SHARED_ADDRESS_SPACE_def NON_GLOBAL_V4_def
  GLOBAL_EXCEPTIONS_def

lemma classify_address [simp]: "ac_address (classify_public_address a) = a"
  by (simp add: classify_public_address_def blocked_def)

lemma classify_reason:
  "ac_allowed (classify_public_address a) \<longleftrightarrow> ac_block_reason (classify_public_address a) = None"
  by (simp add: classify_public_address_def blocked_def)

lemma classify_allowed_iff:
  "ac_allowed (classify_public_address a) \<longleftrightarrow>
     \<not> ipv4_mapped a \<and> \<not> in_v4 a METADATA_V4 \<and> \<not> in_v6 a METADATA_V6 \<and> \<not> is_unspecified a \<and>
     \<not> is_loopback a \<and> \<not> is_link_local a \<and> \<not> is_site_local a \<and> \<not> in_v4 a [SHARED_ADDRESS_SPACE] \<and>
     \<not> is_reserved a \<and> \<not> is_private a \<and> \<not> is_multicast a \<and>
     ((in_v4 a NON_GLOBAL_V4 \<or> in_v6 a NON_GLOBAL_V6) \<longrightarrow> in_v4 a GLOBAL_EXCEPTIONS) \<and> is_global a"
  by (simp add: classify_public_address_def blocked_def)

text \<open>The blocks of the IPv4 space no guest connection may reach, as half-open intervals.\<close>

definition v4_special :: "(int \<times> int) list" where
  "v4_special =
     [(v4 0 0 0 0, v4 1 0 0 0), (v4 10 0 0 0, v4 11 0 0 0), (v4 100 64 0 0, v4 100 128 0 0),
      (v4 127 0 0 0, v4 128 0 0 0), (v4 169 254 0 0, v4 169 255 0 0), (v4 172 16 0 0, v4 172 32 0 0),
      (v4 192 0 0 0, v4 192 0 1 0), (v4 192 0 2 0, v4 192 0 3 0), (v4 192 88 99 0, v4 192 88 100 0),
      (v4 192 168 0 0, v4 192 169 0 0), (v4 198 18 0 0, v4 198 20 0 0),
      (v4 198 51 100 0, v4 198 51 101 0), (v4 203 0 113 0, v4 203 0 114 0), (v4 224 0 0 0, v4 240 0 0 0),
      (v4 240 0 0 0, 2 ^ 32)]"

text \<open>The same blocks as networks.\<close>

lemma v4_special_nets:
  assumes "a < 2 ^ 32"
  shows "list_all (\<lambda>(first, after). \<not> (first \<le> a \<and> a < after)) v4_special \<longleftrightarrow>
    \<not> list_ex (in_net 32 a)
      [(v4 0 0 0 0, 8), (v4 10 0 0 0, 8), (v4 100 64 0 0, 10), (v4 127 0 0 0, 8), (v4 169 254 0 0, 16),
       (v4 172 16 0 0, 12), (v4 192 0 0 0, 24), (v4 192 0 2 0, 24), (v4 192 88 99 0, 24),
       (v4 192 168 0 0, 16), (v4 198 18 0 0, 15), (v4 198 51 100 0, 24), (v4 203 0 113 0, 24),
       (v4 224 0 0 0, 4), (v4 240 0 0 0, 4)]"
  using assms by (simp add: v4_special_def in_net_def v4_def div_eq_range not_le not_less)

text \<open>The single addresses in the tables lie inside larger blocks.\<close>

lemma v4_subsumed:
  "in_net 32 a (v4 169 254 169 254, 32) \<Longrightarrow> in_net 32 a (v4 169 254 0 0, 16)"
  "in_net 32 a (v4 169 254 170 2, 32) \<Longrightarrow> in_net 32 a (v4 169 254 0 0, 16)"
  "in_net 32 a (v4 100 100 100 200, 32) \<Longrightarrow> in_net 32 a (v4 100 64 0 0, 10)"
  "in_net 32 a (v4 192 0 0 170, 31) \<Longrightarrow> in_net 32 a (v4 192 0 0 0, 24)"
  "in_net 32 a (v4 255 255 255 255, 32) \<Longrightarrow> in_net 32 a (v4 240 0 0 0, 4)"
  "a = 0 \<Longrightarrow> in_net 32 a (v4 0 0 0 0, 8)"
  by (simp_all add: in_net_def v4_def div_eq_range)

lemma v4_single:
  "in_net 32 a (v4 192 0 0 9, 32) \<longleftrightarrow> a = v4 192 0 0 9"
  "in_net 32 a (v4 192 0 0 10, 32) \<longleftrightarrow> a = v4 192 0 0 10"
  by (simp_all add: in_net_def)

lemma v4_exceptions_allowed:
  "ac_allowed (classify_public_address (IPv4Address (v4 192 0 0 9)))"
  "ac_allowed (classify_public_address (IPv4Address (v4 192 0 0 10)))"
  by code_simp+

lemmas address_tests =
  is_unspecified_def is_loopback_def is_link_local_def is_site_local_def is_reserved_def is_private_def
  private_v4_def is_multicast_def is_global_def ipv4_mapped_def in_v4_def in_v6_def

text \<open>
  \<^bold>\<open>C30\<close>. The IPv4 side of the policy, exactly: an address is allowed if and only if it lies in none of
  the special-purpose blocks (this network, private, shared, loopback, link local with the
  cloud metadata services, protocol assignments, documentation, 6to4 relay, benchmarking,
  multicast, reserved and broadcast), apart from the two global anycast addresses of 192.0.0.0/24.
\<close>

theorem classify_ipv4_exact:
  assumes "0 \<le> a" "a < 2 ^ 32"
  shows "ac_allowed (classify_public_address (IPv4Address a)) \<longleftrightarrow>
    list_all (\<lambda>(first, after). \<not> (first \<le> a \<and> a < after)) v4_special \<or>
    a = v4 192 0 0 9 \<or> a = v4 192 0 0 10"
proof (cases "a = v4 192 0 0 9 \<or> a = v4 192 0 0 10")
  case True
  then show ?thesis using v4_exceptions_allowed by auto
next
  case False
  then show ?thesis
    unfolding classify_allowed_iff v4_special_nets [OF assms(2)]
    using v4_subsumed [of a] by (simp add: address_tests v4_networks v4_single) blast
qed

theorem classify_ipv4_exact_witness:
  "\<not> ac_allowed (classify_public_address (IPv4Address (v4 169 254 169 254))) \<and>
   ac_allowed (classify_public_address (IPv4Address (v4 8 8 8 8)))"
  using classify_ipv4_exact [of "v4 169 254 169 254"] classify_ipv4_exact [of "v4 8 8 8 8"]
  by (simp add: v4_special_def v4_def)

text \<open>Blocks that follow each other without a gap leave only the two sides.\<close>

lemma contiguous_blocks:
  fixes a :: int
  assumes "xs \<noteq> []" "list_all (\<lambda>(lo, hi). \<not> (lo \<le> a \<and> a < hi)) xs"
    "successively (\<lambda>(lo, hi) (lo', hi'). hi = lo') xs"
  shows "a < fst (hd xs) \<or> snd (last xs) \<le> a"
  using assms
proof (induction xs)
  case Nil
  then show ?case by simp
next
  case (Cons x xs)
  then show ?case by (cases xs) (auto simp: case_prod_unfold)
qed

text \<open>The special-purpose blocks below and above the global unicast space.\<close>

definition v6_low :: "ip_net list" where
  "v6_low = [(v6 [0,0,0,0,0,0,0,0], 8), (v6 [0x100,0,0,0,0,0,0,0], 8), (v6 [0x200,0,0,0,0,0,0,0], 7),
     (v6 [0x400,0,0,0,0,0,0,0], 6), (v6 [0x800,0,0,0,0,0,0,0], 5), (v6 [0x1000,0,0,0,0,0,0,0], 4)]"

definition v6_high :: "ip_net list" where
  "v6_high = [(v6 [0x4000,0,0,0,0,0,0,0], 3), (v6 [0x6000,0,0,0,0,0,0,0], 3), (v6 [0x8000,0,0,0,0,0,0,0], 3),
     (v6 [0xa000,0,0,0,0,0,0,0], 3), (v6 [0xc000,0,0,0,0,0,0,0], 3), (v6 [0xe000,0,0,0,0,0,0,0], 4),
     (v6 [0xf000,0,0,0,0,0,0,0], 5), (v6 [0xf800,0,0,0,0,0,0,0], 6), (v6 [0xfc00,0,0,0,0,0,0,0], 7),
     (v6 [0xfe00,0,0,0,0,0,0,0], 9), (v6 [0xfe80,0,0,0,0,0,0,0], 10), (v6 [0xfec0,0,0,0,0,0,0,0], 10),
     (v6 [0xff00,0,0,0,0,0,0,0], 8)]"

definition v6_block :: "ip_net \<Rightarrow> int \<times> int" where
  "v6_block net = (fst net, fst net + 2 ^ (128 - snd net))"

lemma v6_blocks_outside:
  assumes "list_all (\<lambda>net. \<not> in_net 128 a net) nets" "list_all (\<lambda>net. fst net mod 2 ^ (128 - snd net) = 0) nets"
  shows "list_all (\<lambda>(lo, hi). \<not> (lo \<le> a \<and> a < hi)) (map v6_block nets)"
proof -
  have "in_net 128 a net \<longleftrightarrow> fst net \<le> a \<and> a < fst net + 2 ^ (128 - snd net)"
    if "net \<in> set nets" for net
  proof (rule in_net_range)
    have "fst net mod 2 ^ (128 - snd net) = 0" using assms(2) that by (auto simp: list_all_iff)
    then show "fst net = (fst net div 2 ^ (128 - snd net)) * 2 ^ (128 - snd net)"
      using div_mult_mod_eq [of "fst net" "2 ^ (128 - snd net)"] by simp
  qed
  with assms(1) show ?thesis by (auto simp: list_all_iff v6_block_def)
qed

lemma v6_gaps:
  assumes "list_all (\<lambda>net. \<not> in_net 128 a net) v6_low" "list_all (\<lambda>net. \<not> in_net 128 a net) v6_high"
  shows "a < 0 \<or> v6 [0x2000,0,0,0,0,0,0,0] \<le> a" "a < v6 [0x4000,0,0,0,0,0,0,0] \<or> 2 ^ 128 \<le> a"
proof -
  have shape: "list_all (\<lambda>net. fst net mod 2 ^ (128 - snd net) = 0) v6_low"
      "list_all (\<lambda>net. fst net mod 2 ^ (128 - snd net) = 0) v6_high"
      "successively (\<lambda>(lo, hi) (lo', hi'). hi = lo') (map v6_block v6_low)"
      "successively (\<lambda>(lo, hi) (lo', hi'). hi = lo') (map v6_block v6_high)"
      "fst (hd (map v6_block v6_low)) = 0" "snd (last (map v6_block v6_low)) = v6 [0x2000,0,0,0,0,0,0,0]"
      "fst (hd (map v6_block v6_high)) = v6 [0x4000,0,0,0,0,0,0,0]"
      "snd (last (map v6_block v6_high)) = 2 ^ 128" "map v6_block v6_low \<noteq> []" "map v6_block v6_high \<noteq> []"
    by (simp_all add: v6_low_def v6_high_def v6_block_def v6_def)
  show "a < 0 \<or> v6 [0x2000,0,0,0,0,0,0,0] \<le> a"
    using contiguous_blocks [OF shape(9) v6_blocks_outside [OF assms(1) shape(1)] shape(3)]
    unfolding shape .
  show "a < v6 [0x4000,0,0,0,0,0,0,0] \<or> 2 ^ 128 \<le> a"
    using contiguous_blocks [OF shape(10) v6_blocks_outside [OF assms(2) shape(2)] shape(4)]
    unfolding shape .
qed

text \<open>
  \<^bold>\<open>C31\<close>. The IPv6 side: every allowed address lies in the global unicast space 2000::/3 and outside
  the documentation and 6to4 prefixes; in particular no IPv4-mapped, loopback, link local, site local, unique
  local (private) or multicast address is ever allowed.
\<close>

theorem classify_ipv6_global_unicast:
  assumes "0 \<le> a" "a < 2 ^ 128" "ac_allowed (classify_public_address (IPv6Address a scope))"
  shows "v6 [0x2000,0,0,0,0,0,0,0] \<le> a \<and> a < v6 [0x4000,0,0,0,0,0,0,0] \<and>
    \<not> (v6 [0x2001,0xdb8,0,0,0,0,0,0] \<le> a \<and> a < v6 [0x2001,0xdb9,0,0,0,0,0,0]) \<and>
    \<not> (v6 [0x2002,0,0,0,0,0,0,0] \<le> a \<and> a < v6 [0x2003,0,0,0,0,0,0,0])"
proof -
  have res: "\<not> list_ex (in_net 128 a) v6_reserved" and mc: "\<not> in_net 128 a (v6 [0xff00,0,0,0,0,0,0,0], 8)"
    and site: "\<not> in_net 128 a (v6 [0xfec0,0,0,0,0,0,0,0], 10)"
    and link: "\<not> in_net 128 a (v6 [0xfe80,0,0,0,0,0,0,0], 10)"
    and ng: "\<not> list_ex (in_net 128 a) NON_GLOBAL_V6"
    and pr: "\<not> (list_ex (in_net 128 a) v6_private \<and> \<not> list_ex (in_net 128 a) v6_private_exceptions)"
    using assms(3) unfolding classify_allowed_iff by (auto simp: address_tests split: if_splits)
  note num = in_net_def v6_def div_eq_range
  have "\<not> in_net 128 a (v6 [0xfc00,0,0,0,0,0,0,0], 7)"
  proof
    assume ula: "in_net 128 a (v6 [0xfc00,0,0,0,0,0,0,0], 7)"
    then have "\<not> list_ex (in_net 128 a) v6_private_exceptions"
      by (simp add: v6_private_exceptions_def num)
    with ula pr show False by (simp add: v6_private_def)
  qed
  then have "list_all (\<lambda>net. \<not> in_net 128 a net) v6_low" "list_all (\<lambda>net. \<not> in_net 128 a net) v6_high"
    using res mc site link by (simp_all add: v6_reserved_def v6_low_def v6_high_def)
  note gaps = v6_gaps [OF this]
  have "v6 [0x2000,0,0,0,0,0,0,0] \<le> a" "a < v6 [0x4000,0,0,0,0,0,0,0]"
    using gaps assms(1,2) by linarith+
  then show ?thesis using ng by (simp add: NON_GLOBAL_V6_def num)
qed

theorem classify_ipv6_global_unicast_witness:
  "ac_allowed (classify_public_address (IPv6Address (v6 [0x2606,0x4700,0,0,0,0,0,0x1111]) None)) \<and>
   v6 [0x2000,0,0,0,0,0,0,0] \<le> v6 [0x2606,0x4700,0,0,0,0,0,0x1111]"
proof -
  have "ac_allowed (classify_public_address (IPv6Address (v6 [0x2606,0x4700,0,0,0,0,0,0x1111]) None))"
    by code_simp
  moreover have "0 \<le> v6 [0x2606,0x4700,0,0,0,0,0,0x1111]" "v6 [0x2606,0x4700,0,0,0,0,0,0x1111] < 2 ^ 128"
    by (simp_all add: v6_def)
  ultimately show ?thesis using classify_ipv6_global_unicast by blast
qed

section \<open>Decisions fail closed\<close>

lemma classify_answers_sound:
  assumes "classify_answers seen acc raws = Some out"
  shows "(\<forall>raw\<in>set raws. \<exists>a. ip_address_of raw = Some a \<and> (a \<in> set seen \<or> classify_public_address a \<in> set out)) \<and>
    (\<exists>new. out = acc @ new \<and> (\<forall>c\<in>set new. \<exists>raw\<in>set raws. \<exists>a. ip_address_of raw = Some a \<and> c = classify_public_address a))"
  using assms
proof (induction raws arbitrary: seen acc)
  case Nil
  then show ?case by simp
next
  case (Cons raw raws)
  obtain a where a: "ip_address_of raw = Some a" using Cons.prems by (auto split: option.splits)
  show ?case
  proof (cases "a \<in> set seen")
    case True
    then have "classify_answers seen acc raws = Some out" using Cons.prems a by simp
    from Cons.IH [OF this] show ?thesis using a True by auto
  next
    case False
    then have "classify_answers (a # seen) (acc @ [classify_public_address a]) raws = Some out"
      using Cons.prems a by simp
    from Cons.IH [OF this] show ?thesis using a by fastforce
  qed
qed

lemma checked_answers_classified:
  assumes "checked_answers resolve host port = Some checked" "c \<in> set checked"
  shows "\<exists>a. c = classify_public_address a \<and> ip_in_range a"
  using assms ip_address_of_range
  by (fastforce simp: checked_answers_def split: option.splits dest!: classify_answers_sound)

lemma checked_answers_cover:
  assumes "checked_answers resolve host port = Some checked"
  shows "case ip_address_of host of
      Some a \<Rightarrow> map ac_address checked = [a]
    | None \<Rightarrow> (case resolve host port of
        None \<Rightarrow> False
      | Some raws \<Rightarrow> list_all (\<lambda>raw. case ip_address_of raw of None \<Rightarrow> False
          | Some a \<Rightarrow> a \<in> set (map ac_address checked)) raws)"
proof (cases "ip_address_of host")
  case None
  then obtain raws where raws: "resolve host port = Some raws" "classify_answers [] [] raws = Some checked"
    using assms by (auto simp: checked_answers_def split: option.splits)
  have "case ip_address_of raw of None \<Rightarrow> False | Some a \<Rightarrow> a \<in> set (map ac_address checked)"
    if "raw \<in> set raws" for raw
  proof -
    obtain a where a: "ip_address_of raw = Some a" "classify_public_address a \<in> set checked"
      using classify_answers_sound [OF raws(2)] \<open>raw \<in> set raws\<close> by auto
    have "a \<in> ac_address ` set checked" using a(2) by (rule rev_image_eqI) simp
    then show ?thesis using a(1) by simp
  qed
  then show ?thesis using None raws(1) by (simp add: list_all_iff)
next
  case (Some a)
  then show ?thesis using assms by (auto simp: checked_answers_def)
qed

lemma decide_denied:
  assumes "\<And>host c cs. er_transport req \<in> set PROXY_TRANSPORTS \<Longrightarrow>
    normalize_hostname (er_hostname req) = Some host \<Longrightarrow> 1 \<le> er_port req \<Longrightarrow> er_port req \<le> 65535 \<Longrightarrow>
    checked_answers resolve host (er_port req) = Some (c # cs) \<Longrightarrow> \<not> list_all ac_allowed (c # cs)"
  shows "\<exists>r cl. decide_public_egress resolve req = denied r cl"
proof (cases "er_transport req \<in> set PROXY_TRANSPORTS \<and> 1 \<le> er_port req \<and> er_port req \<le> 65535")
  case True
  show ?thesis
  proof (cases "normalize_hostname (er_hostname req)")
    case (Some host)
    show ?thesis
    proof (cases "checked_answers resolve host (er_port req)")
      case (Some checked)
      note ans = this
      show ?thesis
      proof (cases checked)
        case (Cons c cs)
        then have "\<not> list_all ac_allowed (c # cs)" using assms [of host c cs] True \<open>normalize_hostname _ = _\<close> ans by simp
        then have "filter (\<lambda>item. \<not> ac_allowed item) (c # cs) \<noteq> []"
          by (auto simp: list_all_iff filter_empty_conv)
        then show ?thesis
          using True \<open>normalize_hostname _ = _\<close> ans Cons
          by (auto simp only: decide_public_egress_def Let_def option.case list.case if_True if_False simp_thms)
      qed (use True \<open>normalize_hostname _ = _\<close> ans in \<open>auto simp: decide_public_egress_def\<close>)
    qed (use True \<open>normalize_hostname _ = _\<close> in \<open>auto simp: decide_public_egress_def\<close>)
  qed (use True in \<open>auto simp: decide_public_egress_def\<close>)
next
  case False
  then show ?thesis
    by (cases "normalize_hostname (er_hostname req)") (auto simp: decide_public_egress_def)
qed

lemma decide_outcome:
  "case ed_endpoint (decide_public_egress resolve req) of
     None \<Rightarrow> \<not> ed_allowed (decide_public_egress resolve req) \<and>
             ed_block_reason (decide_public_egress resolve req) \<noteq> None
   | Some ep \<Rightarrow> ed_allowed (decide_public_egress resolve req) \<and>
       ed_block_reason (decide_public_egress resolve req) = None \<and>
       er_transport req \<in> {HTTP, HTTPS, WEBSOCKET, WEBSOCKET_SECURE} \<and>
       1 \<le> ep_port ep \<and> ep_port ep \<le> 65535 \<and> ep_port ep = er_port req \<and>
       normalize_hostname (er_hostname req) = Some (ep_hostname ep) \<and>
       ep_pinned_address ep \<in> set (ep_resolved_addresses ep) \<and>
       list_all (\<lambda>a. ip_in_range a \<and> ac_allowed (classify_public_address a)) (ep_resolved_addresses ep) \<and>
       (case ip_address_of (ep_hostname ep) of
          Some a \<Rightarrow> ep_resolved_addresses ep = [a]
        | None \<Rightarrow> (case resolve (ep_hostname ep) (ep_port ep) of
            None \<Rightarrow> False
          | Some raws \<Rightarrow> list_all (\<lambda>raw. case ip_address_of raw of None \<Rightarrow> False
              | Some a \<Rightarrow> a \<in> set (ep_resolved_addresses ep)) raws))"
proof (cases "\<exists>host c cs. er_transport req \<in> set PROXY_TRANSPORTS \<and> normalize_hostname (er_hostname req) = Some host \<and>
    1 \<le> er_port req \<and> er_port req \<le> 65535 \<and> checked_answers resolve host (er_port req) = Some (c # cs) \<and>
    list_all ac_allowed (c # cs)")
  case True
  then obtain host c cs where ok: "er_transport req \<in> set PROXY_TRANSPORTS"
    "normalize_hostname (er_hostname req) = Some host" "1 \<le> er_port req" "er_port req \<le> 65535"
    and ans: "checked_answers resolve host (er_port req) = Some (c # cs)" and allowed: "list_all ac_allowed (c # cs)"
    by blast
  have filters: "filter ac_allowed (c # cs) = c # cs" "filter (\<lambda>item. \<not> ac_allowed item) (c # cs) = []"
    using allowed by (auto simp: list_all_iff)
  have dec: "decide_public_egress resolve req =
      \<lparr>ed_allowed = True,
       ed_endpoint = Some \<lparr>ep_hostname = host, ep_port = er_port req,
         ep_resolved_addresses = map ac_address (c # cs), ep_pinned_address = ac_address c\<rparr>,
       ed_block_reason = None, ed_classifications = c # cs\<rparr>"
    using ok ans filters by (simp add: decide_public_egress_def Let_def)
  have public: "list_all (\<lambda>a. ip_in_range a \<and> ac_allowed (classify_public_address a)) (map ac_address (c # cs))"
    using checked_answers_classified [OF ans] allowed unfolding list_all_iff by fastforce
  show ?thesis
    using ok public checked_answers_cover [OF ans]
    by (cases "ip_address_of host"; cases "resolve host (er_port req)")
       (simp_all add: dec PROXY_TRANSPORTS_def cong: option.case_cong)
next
  case False
  have "\<exists>r cl. decide_public_egress resolve req = denied r cl"
    by (rule decide_denied) (use False in blast)
  then show ?thesis by (auto simp: denied_def)
qed

text \<open>
  \<^bold>\<open>C27\<close>. A connection is approved only for a proxied transport, a valid port, a usable host name and an
  answer in which every address is public; what is pinned is one of the checked addresses, in range and
  itself public. Otherwise the decision carries a reason and no endpoint: the policy fails closed, also when
  only one of several answers is private.
\<close>

theorem decide_public_egress_fail_closed:
  "case ed_endpoint (decide_public_egress resolve req) of
     None \<Rightarrow> \<not> ed_allowed (decide_public_egress resolve req) \<and>
             ed_block_reason (decide_public_egress resolve req) \<noteq> None
   | Some ep \<Rightarrow> ed_allowed (decide_public_egress resolve req) \<and>
       ed_block_reason (decide_public_egress resolve req) = None \<and>
       er_transport req \<in> {HTTP, HTTPS, WEBSOCKET, WEBSOCKET_SECURE} \<and>
       1 \<le> ep_port ep \<and> ep_port ep \<le> 65535 \<and> ep_port ep = er_port req \<and>
       normalize_hostname (er_hostname req) = Some (ep_hostname ep) \<and>
       ep_pinned_address ep \<in> set (ep_resolved_addresses ep) \<and>
       list_all (\<lambda>a. ip_in_range a \<and> ac_allowed (classify_public_address a)) (ep_resolved_addresses ep) \<and>
       (case ip_address_of (ep_hostname ep) of
          Some a \<Rightarrow> ep_resolved_addresses ep = [a]
        | None \<Rightarrow> (case resolve (ep_hostname ep) (ep_port ep) of
            None \<Rightarrow> False
          | Some raws \<Rightarrow> list_all (\<lambda>raw. case ip_address_of raw of None \<Rightarrow> False
              | Some a \<Rightarrow> a \<in> set (ep_resolved_addresses ep)) raws))"
  by (rule decide_outcome)

end
