(* ===== verification/Egress_Session.thy ===== *)
theory Egress_Session
  imports Model_Types
begin

text \<open>
  The lifecycle of one public-egress enforcement session and of the controller that owns the
  sessions of a host process (\<open>host/_public_egress_session.py\<close>). The proxy factory, the
  proxies and the network adapter are the environment of a call: each of their operations
  succeeds or raises. A method returns or raises and leaves a new session state in both cases.
  Two fields observe the outside: \<open>es_open\<close> lists the proxies that were made and not
  successfully stopped since, \<open>es_log\<close> the diagnostics emitted.
\<close>

section \<open>State\<close>

datatype egress_session_state = ES_STOPPED | ES_STARTING | ES_READY | ES_FAILED_CLOSED | ES_DELETED

datatype egress_failure =
    INVALID_NETWORK | PROXY_START_FAILED | POLICY_INSTALL_FAILED | GUEST_START_FAILED
  | PROXY_STOPPED | CLEANUP_FAILED

datatype guest_network = QEMU_SLIRP_NET | TAP_NET

record egress_session =
  es_session_id :: string
  es_guest_network :: guest_network
  es_base_network :: network_config
  es_state :: egress_session_state
  es_proxy :: "nat option"
  es_active_network :: "network_config option"
  es_policy_installed :: bool
  es_open :: "nat list"
  es_made :: nat
  es_log :: "(egress_session_state \<times> egress_failure option) list"

record egress_env =
  ee_factory_ok :: bool
  ee_endpoint :: "(string \<times> int) option"
  ee_stop_ok :: bool
  ee_stop_new_ok :: bool
  ee_running :: bool
  ee_apply_ok :: bool
  ee_tap_exists :: bool
  ee_remove_ok :: bool

definition new_session :: "string \<Rightarrow> guest_network \<Rightarrow> network_config \<Rightarrow> egress_session result" where
  "new_session session_id guest_network network =
     (if session_id = [] then Inl (ValueError ''session_id cannot be empty'')
      else Inr \<lparr>es_session_id = session_id, es_guest_network = guest_network, es_base_network = network,
        es_state = ES_STOPPED, es_proxy = None, es_active_network = None, es_policy_installed = False,
        es_open = [], es_made = 0, es_log = []\<rparr>)"

definition cleanup_complete :: "egress_session \<Rightarrow> bool" where
  "cleanup_complete s \<longleftrightarrow> \<not> es_policy_installed s"

section \<open>Steps of a session\<close>

definition emit :: "egress_failure option \<Rightarrow> egress_session \<Rightarrow> egress_session" where
  "emit reason s = s\<lparr>es_log := es_log s @ [(es_state s, reason)]\<rparr>"

definition fail_session :: "egress_session_state \<Rightarrow> egress_failure \<Rightarrow> egress_session \<Rightarrow> egress_session" where
  "fail_session st reason s = emit (Some reason) (s\<lparr>es_state := st\<rparr>)"

text \<open>\<open>proxy.stop()\<close> returned: the proxy is gone and no longer referred to.\<close>

definition drop_proxy :: "egress_session \<Rightarrow> egress_session" where
  "drop_proxy s =
     s\<lparr>es_proxy := None,
       es_open := (case es_proxy s of None \<Rightarrow> es_open s | Some p \<Rightarrow> filter (\<lambda>q. q \<noteq> p) (es_open s))\<rparr>"

definition cleanup_session ::
  "egress_env \<Rightarrow> bool \<Rightarrow> egress_failure option \<Rightarrow> egress_session \<Rightarrow> unit result \<times> egress_session" where
  "cleanup_session env mark_deleted reason s =
     (if es_state s = ES_DELETED then (Inr (), s)
      else if es_proxy s \<noteq> None \<and> \<not> ee_stop_ok env
      then (Inl (PublicEgressSessionError ''cleanup incomplete''),
            fail_session ES_FAILED_CLOSED CLEANUP_FAILED s)
      else
        let s1 = drop_proxy s;
            s2 = (if es_guest_network s1 \<noteq> TAP_NET \<or> \<not> es_policy_installed s1
                  then s1\<lparr>es_active_network := None\<rparr> else s1);
            s3 = s2\<lparr>es_state := if mark_deleted then ES_DELETED
                               else if reason \<noteq> None then ES_FAILED_CLOSED else ES_STOPPED\<rparr>
        in (Inr (), emit reason s3))"

definition listen_host :: "egress_session \<Rightarrow> string result" where
  "listen_host s =
     (let network = es_base_network s in
      if nc_mode network \<noteq> MODE_NAT then Inl (ValueError ''managed NAT required'')
      else if es_guest_network s = QEMU_SLIRP_NET then Inr ''127.0.0.1''
      else case (nc_guest_ip network, nc_gateway_ip network) of
          (Some _, Some gateway) \<Rightarrow>
            if \<not> starts_with ''tap'' (nc_tap_device network)
            then Inl (ValueError ''managed TAP required'') else Inr gateway
        | _ \<Rightarrow> Inl (ValueError ''guest and gateway addresses required''))"

definition validate_endpoint :: "string \<times> int \<Rightarrow> string \<Rightarrow> bool" where
  "validate_endpoint endpoint host \<longleftrightarrow> fst endpoint = host \<and> 1 \<le> snd endpoint \<and> snd endpoint \<le> 65535"

definition require_ready :: "egress_env \<Rightarrow> egress_session \<Rightarrow> network_config result \<times> egress_session" where
  "require_ready env s =
     (case es_active_network s of
        Some network \<Rightarrow>
          if es_state s \<noteq> ES_READY \<or> es_proxy s = None
          then (Inl (PublicEgressSessionError ''not ready''), s)
          else if \<not> ee_running env
          then (Inl (PublicEgressSessionError ''proxy stopped''),
                emit (Some PROXY_STOPPED) (s\<lparr>es_state := ES_FAILED_CLOSED\<rparr>))
          else (Inr network, s)
      | None \<Rightarrow> (Inl (PublicEgressSessionError ''not ready''), s))"

text \<open>The proxy is made and started and its listener checked; \<open>Inl\<close> when any of it raised.\<close>

definition start_proxy :: "egress_env \<Rightarrow> string \<Rightarrow> egress_session \<Rightarrow> int result \<times> egress_session" where
  "start_proxy env host s =
     (if \<not> ee_factory_ok env then (Inl (OSError ''proxy factory''), s)
      else
        let s1 = s\<lparr>es_proxy := Some (es_made s), es_open := es_open s @ [es_made s], es_made := es_made s + 1\<rparr>
        in case ee_endpoint env of
            None \<Rightarrow> (Inl (OSError ''proxy start''), s1)
          | Some endpoint \<Rightarrow>
              if validate_endpoint endpoint host then (Inr (snd endpoint), s1)
              else (Inl (ValueError ''unexpected listener''), s1))"

text \<open>The handler for a proxy that did not come up; \<open>made\<close> tells whether there is one to stop.\<close>

definition abandon_start :: "egress_env \<Rightarrow> bool \<Rightarrow> egress_session \<Rightarrow> egress_session" where
  "abandon_start env made s =
     (let s1 = (if made then
                  (if ee_stop_new_ok env then drop_proxy s
                   else fail_session ES_FAILED_CLOSED CLEANUP_FAILED s)
                else s);
          s2 = (if \<not> es_policy_installed s1 then s1\<lparr>es_active_network := None\<rparr> else s1)
      in if es_state s2 \<noteq> ES_FAILED_CLOSED then fail_session ES_FAILED_CLOSED PROXY_START_FAILED s2 else s2)"

text \<open>
  With the proxy up: publish its port in the metadata and, for a TAP guest, install the policy. An
  attempted installation counts as installed until its removal succeeds.
\<close>

definition enforce_session :: "egress_env \<Rightarrow> int \<Rightarrow> egress_session \<Rightarrow> network_config result \<times> egress_session" where
  "enforce_session env port s =
     (let active = (es_base_network s)\<lparr>nc_egress_proxy_host_port := Some port\<rparr>;
          s1 = s\<lparr>es_active_network := Some active\<rparr>
      in
      if es_guest_network s1 = TAP_NET then
        let s2 = s1\<lparr>es_policy_installed := True\<rparr> in
        if \<not> ee_apply_ok env then
          (Inl (PublicEgressSessionError ''policy could not be installed''),
           snd (cleanup_session (env\<lparr>ee_stop_ok := ee_stop_new_ok env\<rparr>) False
                  (Some POLICY_INSTALL_FAILED) s2))
        else (Inr active, emit None (s2\<lparr>es_state := ES_READY\<rparr>))
      else (Inr active, emit None (s1\<lparr>es_state := ES_READY\<rparr>)))"

definition start_session :: "egress_env \<Rightarrow> egress_session \<Rightarrow> network_config result \<times> egress_session" where
  "start_session env s =
     (case listen_host s of
        Inl _ \<Rightarrow> (Inl (PublicEgressSessionError ''network incomplete''),
                  fail_session ES_FAILED_CLOSED INVALID_NETWORK s)
      | Inr host \<Rightarrow>
          (case start_proxy env host (emit None (s\<lparr>es_state := ES_STARTING\<rparr>)) of
             (Inl _, s1) \<Rightarrow>
               (Inl (PublicEgressSessionError ''proxy could not start''),
                abandon_start env (ee_factory_ok env) s1)
           | (Inr port, s1) \<Rightarrow> enforce_session env port s1))"

definition prepare_session :: "egress_env \<Rightarrow> egress_session \<Rightarrow> network_config result \<times> egress_session" where
  "prepare_session env s =
     (case es_state s of
        ES_DELETED \<Rightarrow> (Inl (PublicEgressSessionError ''was deleted''), s)
      | ES_READY \<Rightarrow> require_ready env s
      | ES_STARTING \<Rightarrow> (Inl (PublicEgressSessionError ''already starting''), s)
      | ES_FAILED_CLOSED \<Rightarrow>
          (case cleanup_session env False None s of
             (Inl e, s1) \<Rightarrow> (Inl e, s1)
           | (Inr _, s1) \<Rightarrow> start_session env s1)
      | ES_STOPPED \<Rightarrow> start_session env s)"

text \<open>
  \<open>launch\<close>: the guest callback runs on the metadata; an exception cleans up (under the
  environment \<open>env'\<close> of that moment), an interrupt passes through.
\<close>

definition launch_session ::
  "egress_env \<Rightarrow> egress_env \<Rightarrow> (network_config \<Rightarrow> 'r result) \<Rightarrow> egress_session \<Rightarrow> 'r result \<times> egress_session" where
  "launch_session env env' launch_guest s =
     (case prepare_session env s of
        (Inl e, s1) \<Rightarrow> (Inl e, s1)
      | (Inr metadata, s1) \<Rightarrow>
          (case launch_guest metadata of
             Inr r \<Rightarrow> (Inr r, s1)
           | Inl e \<Rightarrow>
               if \<not> is_exception e then (Inl e, s1)
               else
                 (case cleanup_session env' False (Some GUEST_START_FAILED) s1 of
                    (Inl e', s2) \<Rightarrow> (Inl e', s2)
                  | (Inr _, s2) \<Rightarrow> (Inl (PublicEgressSessionError ''guest could not start''), s2))))"

definition stop_session :: "egress_env \<Rightarrow> egress_session \<Rightarrow> unit result \<times> egress_session" where
  "stop_session env s = cleanup_session env False None s"

definition delete_session :: "egress_env \<Rightarrow> egress_session \<Rightarrow> unit result \<times> egress_session" where
  "delete_session env s = cleanup_session env True None s"

definition restart_session ::
  "egress_env \<Rightarrow> egress_env \<Rightarrow> egress_env \<Rightarrow> (network_config \<Rightarrow> 'r result) \<Rightarrow> egress_session \<Rightarrow>
   'r result \<times> egress_session" where
  "restart_session env0 env env' launch_guest s =
     (case stop_session env0 s of
        (Inl e, s1) \<Rightarrow> (Inl e, s1)
      | (Inr _, s1) \<Rightarrow> launch_session env env' launch_guest s1)"

definition finalize_guest_teardown :: "egress_env \<Rightarrow> egress_session \<Rightarrow> unit result \<times> egress_session" where
  "finalize_guest_teardown env s =
     (if es_guest_network s \<noteq> TAP_NET \<or> \<not> es_policy_installed s
      then (Inr (), s\<lparr>es_active_network := None\<rparr>)
      else case es_active_network s of
          None \<Rightarrow> (Inl (PublicEgressSessionError ''missing network state''), emit (Some CLEANUP_FAILED) s)
        | Some active \<Rightarrow>
            if ee_tap_exists env
            then (Inl (PublicEgressSessionError ''guest network still exists''), s)
            else if \<not> ee_remove_ok env
            then (Inl (PublicEgressSessionError ''cleanup incomplete''), emit (Some CLEANUP_FAILED) s)
            else (Inr (), s\<lparr>es_policy_installed := False, es_active_network := None\<rparr>))"

section \<open>The controller\<close>

record egress_controller =
  ec_sessions :: "(string \<times> egress_session) list"
  ec_closed :: bool

definition controller_init :: egress_controller where
  "controller_init = \<lparr>ec_sessions = [], ec_closed = False\<rparr>"

definition controller_create ::
  "egress_controller \<Rightarrow> string \<Rightarrow> guest_network \<Rightarrow> network_config \<Rightarrow> egress_controller result" where
  "controller_create c session_id guest_network network =
     (if ec_closed c then Inl (PublicEgressSessionError ''controller is stopped'')
      else if map_of (ec_sessions c) session_id \<noteq> None
      then Inl (PublicEgressSessionError ''session already exists'')
      else rbind (new_session session_id guest_network network) (\<lambda>s.
        Inr (c\<lparr>ec_sessions := AList.update session_id s (ec_sessions c)\<rparr>)))"

definition controller_get :: "egress_controller \<Rightarrow> string \<Rightarrow> egress_session result" where
  "controller_get c session_id =
     (case map_of (ec_sessions c) session_id of
        Some s \<Rightarrow> Inr s | None \<Rightarrow> Inl (PublicEgressSessionError ''session was not found''))"

text \<open>A method call on the session object: its new state is seen through the dictionary.\<close>

definition put_session :: "string \<Rightarrow> egress_session \<Rightarrow> egress_controller \<Rightarrow> egress_controller" where
  "put_session session_id s c = c\<lparr>ec_sessions := AList.update session_id s (ec_sessions c)\<rparr>"

definition pop_session :: "string \<Rightarrow> egress_controller \<Rightarrow> egress_controller" where
  "pop_session session_id c = c\<lparr>ec_sessions := AList.delete session_id (ec_sessions c)\<rparr>"

definition controller_stop ::
  "egress_env \<Rightarrow> egress_controller \<Rightarrow> string \<Rightarrow> unit result \<times> egress_controller" where
  "controller_stop env c session_id =
     (case controller_get c session_id of
        Inl e \<Rightarrow> (Inl e, c)
      | Inr s \<Rightarrow> (let (r, s') = stop_session env s in (r, put_session session_id s' c)))"

definition controller_delete ::
  "egress_env \<Rightarrow> egress_controller \<Rightarrow> string \<Rightarrow> unit result \<times> egress_controller" where
  "controller_delete env c session_id =
     (case map_of (ec_sessions c) session_id of
        None \<Rightarrow> (Inr (), c)
      | Some s \<Rightarrow>
          (case delete_session env s of
             (Inl e, s') \<Rightarrow> (Inl e, put_session session_id s' c)
           | (Inr _, s') \<Rightarrow>
               (Inr (), if cleanup_complete s' then pop_session session_id c
                        else put_session session_id s' c)))"

definition controller_finalize ::
  "egress_env \<Rightarrow> egress_controller \<Rightarrow> string \<Rightarrow> unit result \<times> egress_controller" where
  "controller_finalize env c session_id =
     (case controller_get c session_id of
        Inl e \<Rightarrow> (Inl e, c)
      | Inr s \<Rightarrow>
          (case finalize_guest_teardown env s of
             (Inl e, s') \<Rightarrow> (Inl e, put_session session_id s' c)
           | (Inr _, s') \<Rightarrow>
               (Inr (), if es_state s' = ES_DELETED \<and> cleanup_complete s' then pop_session session_id c
                        else put_session session_id s' c)))"

text \<open>\<open>shutdown\<close> visits the sessions it found; a session that fails to stop is skipped.\<close>

fun shutdown_sessions ::
  "(string \<Rightarrow> egress_env) \<Rightarrow> (string \<times> egress_session) list \<Rightarrow> egress_controller \<Rightarrow> egress_controller" where
  "shutdown_sessions envs [] c = c"
| "shutdown_sessions envs ((session_id, s) # rest) c =
     (case delete_session (envs session_id) s of
        (Inl _, s') \<Rightarrow> shutdown_sessions envs rest (put_session session_id s' c)
      | (Inr _, s') \<Rightarrow>
          shutdown_sessions envs rest
            (if cleanup_complete s' then pop_session session_id c else put_session session_id s' c))"

definition controller_shutdown :: "(string \<Rightarrow> egress_env) \<Rightarrow> egress_controller \<Rightarrow> egress_controller" where
  "controller_shutdown envs c =
     (if ec_closed c \<and> ec_sessions c = [] then c
      else shutdown_sessions envs (ec_sessions c) (c\<lparr>ec_closed := True\<rparr>))"

section \<open>The session invariant\<close>

definition with_proxy_port :: "network_config \<Rightarrow> network_config \<Rightarrow> bool" where
  "with_proxy_port base n \<longleftrightarrow>
     (case nc_egress_proxy_host_port n of None \<Rightarrow> False
      | Some p \<Rightarrow> 1 \<le> p \<and> p \<le> 65535 \<and> n = base\<lparr>nc_egress_proxy_host_port := Some p\<rparr>)"

definition session_wf :: "egress_session \<Rightarrow> bool" where
  "session_wf s \<longleftrightarrow>
     es_state s \<noteq> ES_STARTING \<and>
     (es_policy_installed s \<longrightarrow> es_guest_network s = TAP_NET \<and> es_active_network s \<noteq> None) \<and>
     (es_state s = ES_READY \<and> es_active_network s \<noteq> None \<longrightarrow>
        es_proxy s \<noteq> None \<and> (es_guest_network s = TAP_NET \<longrightarrow> es_policy_installed s)) \<and>
     (es_state s = ES_STOPPED \<or> es_state s = ES_DELETED \<longrightarrow> es_proxy s = None) \<and>
     (\<forall>n. es_active_network s = Some n \<longrightarrow> with_proxy_port (es_base_network s) n) \<and>
     es_open s = (case es_proxy s of None \<Rightarrow> [] | Some p \<Rightarrow> [p])"

lemmas session_step_defs = emit_def fail_session_def drop_proxy_def

lemma new_session_wf: "new_session sid gn net = Inr s \<Longrightarrow> session_wf s"
  by (auto simp: new_session_def session_wf_def split: if_splits)

lemma cleanup_session_cases:
  assumes "cleanup_session env del reason s = (r, s')"
  obtains (Gone) "es_state s = ES_DELETED" "r = Inr ()" "s' = s"
  | (Failed) p e where "es_state s \<noteq> ES_DELETED" "es_proxy s = Some p" "r = Inl e"
      "s' = s\<lparr>es_state := ES_FAILED_CLOSED, es_log := es_log s @ [(ES_FAILED_CLOSED, Some CLEANUP_FAILED)]\<rparr>"
  | (Done) log where "es_state s \<noteq> ES_DELETED" "r = Inr ()"
      "s' = s\<lparr>es_proxy := None,
         es_open := (case es_proxy s of None \<Rightarrow> es_open s | Some p \<Rightarrow> filter (\<lambda>q. q \<noteq> p) (es_open s)),
         es_active_network := (if es_guest_network s \<noteq> TAP_NET \<or> \<not> es_policy_installed s then None
                               else es_active_network s),
         es_state := (if del then ES_DELETED else if reason \<noteq> None then ES_FAILED_CLOSED else ES_STOPPED),
         es_log := log\<rparr>"
proof (cases "es_state s = ES_DELETED")
  case True
  then show ?thesis using assms by (intro Gone) (simp_all add: cleanup_session_def)
next
  case False
  show ?thesis
  proof (cases "es_proxy s \<noteq> None \<and> \<not> ee_stop_ok env")
    case True
    then obtain q where "es_proxy s = Some q" by auto
    then show ?thesis using assms False True
      by (intro Failed [of q "PublicEgressSessionError ''cleanup incomplete''"])
         (simp_all add: cleanup_session_def session_step_defs)
  next
    case False
    then show ?thesis
      using assms \<open>es_state s \<noteq> ES_DELETED\<close>
      by (intro Done [of "es_log s @ [(if del then ES_DELETED else if reason \<noteq> None then ES_FAILED_CLOSED
            else ES_STOPPED, reason)]"])
         (auto simp: cleanup_session_def session_step_defs Let_def split: option.split)
  qed
qed

lemma open_after_drop:
  "es_open s = (case es_proxy s of None \<Rightarrow> [] | Some p \<Rightarrow> [p]) \<Longrightarrow>
     (case es_proxy s of None \<Rightarrow> es_open s | Some p \<Rightarrow> filter (\<lambda>q. q \<noteq> p) (es_open s)) = []"
  by (cases "es_proxy s") auto

lemma cleanup_session_wf:
  assumes "session_wf s" "cleanup_session env del reason s = (r, s')"
  shows "session_wf s'"
  using assms(2)
proof (cases rule: cleanup_session_cases)
  case (Done log)
  then show ?thesis using assms(1) by (simp add: session_wf_def open_after_drop)
qed (use assms(1) in \<open>simp_all add: session_wf_def\<close>)

text \<open>What a successful cleanup leaves: no proxy, and the TAP enforcement untouched.\<close>

lemma cleanup_session_Inr:
  assumes "cleanup_session env del reason s = (Inr u, s')" "session_wf s"
  shows "es_proxy s' = None \<and>
    (es_state s \<noteq> ES_DELETED \<longrightarrow> es_state s' = (if del then ES_DELETED
        else if reason \<noteq> None then ES_FAILED_CLOSED else ES_STOPPED))"
  using assms(1) by (cases rule: cleanup_session_cases) (use assms(2) in \<open>simp_all add: session_wf_def\<close>)

lemma cleanup_session_policy:
  assumes "cleanup_session env del reason s = (r, s')"
  shows "es_policy_installed s' = es_policy_installed s \<and> es_guest_network s' = es_guest_network s"
  using assms by (cases rule: cleanup_session_cases) simp_all

lemma require_ready_wf:
  assumes "session_wf s" "require_ready env s = (r, s')"
  shows "session_wf s'"
  using assms by (auto simp: require_ready_def session_wf_def emit_def split: if_splits option.splits)

lemma require_ready_Inr:
  "require_ready env s = (Inr n, s') \<Longrightarrow>
     s' = s \<and> es_state s = ES_READY \<and> es_proxy s \<noteq> None \<and> es_active_network s = Some n \<and> ee_running env"
  by (auto simp: require_ready_def split: option.splits if_splits)

lemma finalize_wf:
  assumes "session_wf s" "finalize_guest_teardown env s = (r, s')"
  shows "session_wf s'"
  using assms
  by (auto simp: finalize_guest_teardown_def session_wf_def emit_def split: if_splits option.splits)

lemma start_proxy_cases:
  assumes "start_proxy env host s = (r, s')" "es_proxy s = None" "es_open s = []"
  shows "s' = (if ee_factory_ok env
       then s\<lparr>es_proxy := Some (es_made s), es_open := [es_made s], es_made := es_made s + 1\<rparr> else s) \<and>
     (case r of Inr port \<Rightarrow> ee_factory_ok env \<and> 1 \<le> port \<and> port \<le> 65535 | Inl _ \<Rightarrow> True)"
  using assms by (auto simp: start_proxy_def validate_endpoint_def Let_def split: if_splits option.splits)

lemma abandon_start_wf:
  assumes "es_state s = ES_STARTING" "es_policy_installed s \<longrightarrow> es_guest_network s = TAP_NET \<and> es_active_network s \<noteq> None"
    "\<forall>n. es_active_network s = Some n \<longrightarrow> with_proxy_port (es_base_network s) n"
    "es_open s = (case es_proxy s of None \<Rightarrow> [] | Some p \<Rightarrow> [p])" "es_proxy s \<noteq> None \<longleftrightarrow> made"
  shows "session_wf (abandon_start env made s) \<and> es_state (abandon_start env made s) = ES_FAILED_CLOSED"
  using assms
  by (auto simp: abandon_start_def session_step_defs session_wf_def Let_def split: if_splits option.splits)

text \<open>A session that starts from rest ends ready and enforced, or failed closed.\<close>

definition enforced :: "egress_session \<Rightarrow> network_config \<Rightarrow> bool" where
  "enforced s n \<longleftrightarrow> es_state s = ES_READY \<and> es_active_network s = Some n \<and> es_proxy s \<noteq> None \<and>
     with_proxy_port (es_base_network s) n \<and> (es_guest_network s = TAP_NET \<longrightarrow> es_policy_installed s)"

definition started_well :: "network_config result \<Rightarrow> egress_session \<Rightarrow> bool" where
  "started_well r s' \<longleftrightarrow> session_wf s' \<and>
     (case r of Inr n \<Rightarrow> enforced s' n | Inl _ \<Rightarrow> es_state s' = ES_FAILED_CLOSED)"

lemma enforce_session_result:
  assumes s: "es_state s = ES_STARTING" "es_proxy s = Some q" "es_open s = [q]" "1 \<le> port" "port \<le> 65535"
      "es_policy_installed s \<longrightarrow> es_guest_network s = TAP_NET"
    and r: "enforce_session env port s = (r, s')"
  shows "started_well r s'"
proof -
  let ?active = "(es_base_network s)\<lparr>nc_egress_proxy_host_port := Some port\<rparr>"
  have good: "with_proxy_port (es_base_network s) ?active" using s by (simp add: with_proxy_port_def)
  show ?thesis
  proof (cases "es_guest_network s = TAP_NET \<and> \<not> ee_apply_ok env")
    case True
    let ?s2 = "s\<lparr>es_active_network := Some ?active, es_policy_installed := True\<rparr>"
    obtain c s3 where cl: "cleanup_session (env\<lparr>ee_stop_ok := ee_stop_new_ok env\<rparr>) False
        (Some POLICY_INSTALL_FAILED) ?s2 = (c, s3)" by fastforce
    have res: "s' = s3" "r = Inl (PublicEgressSessionError ''policy could not be installed'')"
      using r True cl by (auto simp: enforce_session_def)
    show ?thesis using cl
      by (cases rule: cleanup_session_cases) (use res s good True in \<open>simp_all add: started_well_def session_wf_def\<close>)
  next
    case False
    then show ?thesis using r s good
      by (auto simp: enforce_session_def started_well_def enforced_def session_wf_def emit_def Let_def
          split: if_splits)
  qed
qed

lemma start_session_result:
  assumes wf: "session_wf s" and rest: "es_state s = ES_STOPPED" and r: "start_session env s = (r, s')"
  shows "started_well r s'"
proof -
  have clean: "es_proxy s = None" "es_open s = []" using wf rest by (auto simp: session_wf_def)
  show ?thesis
  proof (cases "listen_host s")
    case (Inl e)
    then show ?thesis using r wf rest
      by (auto simp: start_session_def started_well_def fail_session_def emit_def session_wf_def)
  next
    case (Inr host)
    let ?s1 = "emit None (s\<lparr>es_state := ES_STARTING\<rparr>)"
    obtain q s2 where q: "start_proxy env host ?s1 = (q, s2)" by fastforce
    have s2: "s2 = (if ee_factory_ok env
       then ?s1\<lparr>es_proxy := Some (es_made ?s1), es_open := [es_made ?s1], es_made := es_made ?s1 + 1\<rparr> else ?s1)"
      and port: "case q of Inr port \<Rightarrow> ee_factory_ok env \<and> 1 \<le> port \<and> port \<le> 65535 | Inl _ \<Rightarrow> True"
      using start_proxy_cases [OF q] clean by (auto simp: emit_def)
    show ?thesis
    proof (cases q)
      case (Inl e)
      then have "r = Inl (PublicEgressSessionError ''proxy could not start'')"
          "s' = abandon_start env (ee_factory_ok env) s2"
        using r \<open>listen_host s = Inr host\<close> q by (auto simp: start_session_def)
      moreover have "session_wf (abandon_start env (ee_factory_ok env) s2) \<and>
          es_state (abandon_start env (ee_factory_ok env) s2) = ES_FAILED_CLOSED"
        using wf clean by (intro abandon_start_wf) (auto simp: s2 emit_def session_wf_def split: if_splits)
      ultimately show ?thesis by (simp add: started_well_def)
    next
      case (Inr p)
      then have "enforce_session env p s2 = (r, s')"
        using r \<open>listen_host s = Inr host\<close> q by (simp add: start_session_def)
      then show ?thesis
        using port Inr wf
        by (intro enforce_session_result [of s2 "es_made s" p env]) (auto simp: s2 emit_def session_wf_def)
    qed
  qed
qed

lemma prepare_session_result:
  assumes wf: "session_wf s" and r: "prepare_session env s = (r, s')"
  shows "session_wf s' \<and> (\<forall>n. r = Inr n \<longrightarrow> enforced s' n)"
proof (cases "es_state s")
  case ES_READY
  then have "require_ready env s = (r, s')" using r by (simp add: prepare_session_def)
  then show ?thesis
    using require_ready_wf [OF wf] require_ready_Inr [of env s _ s'] wf unfolding enforced_def session_wf_def
    by blast
next
  case ES_STOPPED
  then show ?thesis using start_session_result [OF wf ES_STOPPED, of env r s'] r
    by (auto simp: prepare_session_def started_well_def)
next
  case ES_FAILED_CLOSED
  obtain c s1 where c: "cleanup_session env False None s = (c, s1)" by fastforce
  have wf1: "session_wf s1" using cleanup_session_wf [OF wf c] .
  show ?thesis
  proof (cases c)
    case (Inl e)
    then show ?thesis using r ES_FAILED_CLOSED c wf1 by (auto simp: prepare_session_def)
  next
    case (Inr u)
    then have "es_state s1 = ES_STOPPED" using cleanup_session_Inr [of env False None s u s1] c wf ES_FAILED_CLOSED by simp
    then show ?thesis using start_session_result [OF wf1, of env r s'] r ES_FAILED_CLOSED c Inr
      by (auto simp: prepare_session_def started_well_def)
  qed
qed (use wf r in \<open>auto simp: prepare_session_def\<close>)

section \<open>Sessions as a state machine\<close>

inductive session_reachable :: "egress_session \<Rightarrow> bool" where
  s_new: "new_session sid gn net = Inr s \<Longrightarrow> session_reachable s"
| s_prepare: "session_reachable s \<Longrightarrow> prepare_session env s = (r, s') \<Longrightarrow> session_reachable s'"
| s_launch: "session_reachable s \<Longrightarrow> launch_session env env' (g :: network_config \<Rightarrow> unit result) s = (q, s') \<Longrightarrow>
    session_reachable s'"
| s_restart: "session_reachable s \<Longrightarrow>
    restart_session env0 env env' (g :: network_config \<Rightarrow> unit result) s = (q, s') \<Longrightarrow> session_reachable s'"
| s_require: "session_reachable s \<Longrightarrow> require_ready env s = (r, s') \<Longrightarrow> session_reachable s'"
| s_stop: "session_reachable s \<Longrightarrow> stop_session env s = (q, s') \<Longrightarrow> session_reachable s'"
| s_delete: "session_reachable s \<Longrightarrow> delete_session env s = (q, s') \<Longrightarrow> session_reachable s'"
| s_finalize: "session_reachable s \<Longrightarrow> finalize_guest_teardown env s = (q, s') \<Longrightarrow> session_reachable s'"

lemma launch_session_wf:
  assumes "session_wf s" "launch_session env env' g s = (r, s')"
  shows "session_wf s'"
proof -
  obtain p s1 where p: "prepare_session env s = (p, s1)" by fastforce
  have wf1: "session_wf s1" using prepare_session_result [OF assms(1) p] by blast
  obtain c s2 where c: "cleanup_session env' False (Some GUEST_START_FAILED) s1 = (c, s2)" by fastforce
  have wf2: "session_wf s2" using cleanup_session_wf [OF wf1 c] .
  have "s' = s1 \<or> s' = s2"
    using assms(2) p c by (auto simp: launch_session_def split: sum.splits if_splits)
  then show ?thesis using wf1 wf2 by blast
qed

lemma session_reachable_wf: "session_reachable s \<Longrightarrow> session_wf s"
proof (induction rule: session_reachable.induct)
  case (s_prepare s env r s')
  then show ?case using prepare_session_result by blast
next
  case (s_restart s env0 env env' g q s')
  obtain c s1 where c: "stop_session env0 s = (c, s1)" by fastforce
  then have "session_wf s1" using s_restart.IH cleanup_session_wf by (simp add: stop_session_def)
  then show ?case using s_restart.hyps(2) c launch_session_wf
    by (fastforce simp: restart_session_def split: sum.splits)
qed (auto simp: stop_session_def delete_session_def
      intro: new_session_wf launch_session_wf require_ready_wf cleanup_session_wf finalize_wf)

section \<open>Properties\<close>


definition demo_tap_network :: network_config where
  "demo_tap_network = \<lparr>nc_guest_ip = Some ''172.16.0.2'', nc_gateway_ip = Some ''172.16.0.1'',
     nc_netmask = Some ''255.255.0.0'', nc_tap_device = ''tap2'', nc_guest_mac = ''02:00:00:00:00:02'',
     nc_ssh_host_port = None, nc_egress_proxy_host_port = None, nc_mode = MODE_NAT, nc_bridge = None\<rparr>"

definition demo_session :: egress_session where
  "demo_session = \<lparr>es_session_id = ''a'', es_guest_network = TAP_NET, es_base_network = demo_tap_network,
     es_state = ES_STOPPED, es_proxy = None, es_active_network = None, es_policy_installed = False,
     es_open = [], es_made = 0, es_log = []\<rparr>"

definition demo_egress_env :: egress_env where
  "demo_egress_env = \<lparr>ee_factory_ok = True, ee_endpoint = Some (''172.16.0.1'', 40000), ee_stop_ok = True,
     ee_stop_new_ok = True, ee_running = True, ee_apply_ok = True, ee_tap_exists = False, ee_remove_ok = True\<rparr>"

lemma demo_session_reachable: "session_reachable demo_session"
  by (rule s_new [of "''a''" TAP_NET demo_tap_network]) (simp add: new_session_def demo_session_def)


text \<open>
  No proxy is ever leaked: in every reachable session the proxies that were made and not stopped are
  exactly the one the session refers to, so a stopped or deleted session has none; and finalizing the teardown
  never finds the network state missing.
\<close>

theorem session_no_proxy_leak:
  assumes "session_reachable s"
  shows "es_open s = (case es_proxy s of None \<Rightarrow> [] | Some p \<Rightarrow> [p]) \<and>
    (es_state s \<in> {ES_STOPPED, ES_DELETED} \<longrightarrow> es_open s = []) \<and>
    fst (finalize_guest_teardown env s) \<noteq> Inl (PublicEgressSessionError ''missing network state'')"
  using session_reachable_wf [OF assms]
  by (auto simp: session_wf_def finalize_guest_teardown_def split: option.split)

theorem session_no_proxy_leak_witness:
  "es_open (snd (stop_session demo_egress_env (snd (prepare_session demo_egress_env demo_session)))) = [] \<and>
   es_policy_installed (snd (stop_session demo_egress_env (snd (prepare_session demo_egress_env demo_session))))"
proof -
  let ?s1 = "snd (prepare_session demo_egress_env demo_session)"
  let ?s2 = "snd (stop_session demo_egress_env ?s1)"
  have "session_reachable ?s1" using s_prepare [OF demo_session_reachable] by (metis prod.collapse)
  then have "session_reachable ?s2" using s_stop by (metis prod.collapse)
  moreover have "es_state ?s2 = ES_STOPPED" "es_policy_installed ?s2" by code_simp+
  ultimately show ?thesis using session_no_proxy_leak by blast
qed

lemma delete_session_policy:
  "delete_session env s = (r, s') \<Longrightarrow> es_policy_installed s' = es_policy_installed s"
  using cleanup_session_policy by (simp add: delete_session_def)

lemma shutdown_keeps:
  assumes "\<forall>(k, x)\<in>set todo. k = sid \<longrightarrow> es_policy_installed x"
    "\<exists>s. map_of (ec_sessions c) sid = Some s \<and> es_policy_installed s"
  shows "\<exists>s. map_of (ec_sessions (shutdown_sessions envs todo c)) sid = Some s \<and> es_policy_installed s"
  using assms
proof (induction envs todo c rule: shutdown_sessions.induct)
  case (1 envs c)
  then show ?case by simp
next
  case (2 envs k x rest c)
  obtain r x' where r: "delete_session (envs k) x = (r, x')" by fastforce
  note pol = delete_session_policy [OF r]
  show ?case
  proof (cases r)
    case (Inl e)
    then show ?thesis using 2 r pol by (simp add: put_session_def)
  next
    case (Inr u)
    then show ?thesis using 2 r pol by (auto simp: put_session_def pop_session_def cleanup_complete_def)
  qed
qed

text \<open>
  \<^bold>\<open>C29\<close>. The controller never forgets a policy that is still installed: after \<open>stop\<close>, \<open>delete\<close> and \<open>shutdown\<close> of any
  sessions, a session that still owned TAP enforcement is still registered and still owns it.
\<close>

theorem controller_keeps_enforcement:
  assumes "map_of (ec_sessions c) sid = Some s" "es_policy_installed s" "keys_distinct (ec_sessions c)"
  shows "(\<exists>s'. map_of (ec_sessions (snd (controller_stop env c k))) sid = Some s' \<and> es_policy_installed s') \<and>
    (\<exists>s'. map_of (ec_sessions (snd (controller_delete env c k))) sid = Some s' \<and> es_policy_installed s') \<and>
    (\<exists>s'. map_of (ec_sessions (controller_shutdown envs c)) sid = Some s' \<and> es_policy_installed s')"
proof (intro conjI)
  show "\<exists>s'. map_of (ec_sessions (snd (controller_stop env c k))) sid = Some s' \<and> es_policy_installed s'"
  proof (cases "map_of (ec_sessions c) k")
    case (Some x)
    obtain q x' where q: "cleanup_session env False None x = (q, x')" by fastforce
    then show ?thesis using assms(1,2) Some cleanup_session_policy [OF q]
      by (auto simp: controller_stop_def controller_get_def stop_session_def put_session_def)
  qed (use assms in \<open>simp add: controller_stop_def controller_get_def\<close>)
  show "\<exists>s'. map_of (ec_sessions (snd (controller_delete env c k))) sid = Some s' \<and> es_policy_installed s'"
  proof (cases "map_of (ec_sessions c) k")
    case (Some x)
    obtain q x' where q: "delete_session env x = (q, x')" by fastforce
    then show ?thesis using assms(1,2) Some delete_session_policy [OF q]
      by (auto simp: controller_delete_def put_session_def pop_session_def cleanup_complete_def split: sum.split)
  qed (use assms in \<open>simp add: controller_delete_def\<close>)
  have "\<forall>(k, x)\<in>set (ec_sessions c). k = sid \<longrightarrow> es_policy_installed x"
    using assms by (auto dest: eq_key_imp_eq_value)
  then show "\<exists>s'. map_of (ec_sessions (controller_shutdown envs c)) sid = Some s' \<and> es_policy_installed s'"
    using assms(1,2) by (auto simp: controller_shutdown_def intro!: shutdown_keeps)
qed

theorem controller_keeps_enforcement_witness:
  "\<exists>s'. map_of (ec_sessions (controller_shutdown (\<lambda>_. demo_egress_env)
      \<lparr>ec_sessions = [(''a'', demo_session\<lparr>es_policy_installed := True\<rparr>)], ec_closed = False\<rparr>)) ''a'' = Some s' \<and>
     es_policy_installed s'"
  using controller_keeps_enforcement [of "\<lparr>ec_sessions = [(''a'', demo_session\<lparr>es_policy_installed := True\<rparr>)],
      ec_closed = False\<rparr>" "''a''" "demo_session\<lparr>es_policy_installed := True\<rparr>"]
  by simp

end
