(* ===== verification/Env_Vars.thy ===== *)
theory Env_Vars
  imports Model_Types "HOL-Library.Char_ord" "HOL-Library.List_Lexorder"
begin

text \<open>
  Environment variables of a guest (\<open>env.py\<close>): the shell script that exports them, written to
  \<open>/etc/profile.d/celesto_env.sh\<close>, and the reader that parses it back. \<open>shlex.quote\<close> and the
  tokenizer \<open>shlex.shlex(posix=True, whitespace_split=True)\<close> of the standard library are written
  out, as is \<open>str.splitlines\<close>. Characters are code points below 256. A dictionary is an association
  list in insertion order; the guest is seen through what its shell returns for a read and a write.
\<close>

section \<open>Keys\<close>

definition is_alpha_us :: "char \<Rightarrow> bool" where
  "is_alpha_us c \<longleftrightarrow>
     (let n = (of_char c :: nat) in 65 \<le> n \<and> n \<le> 90 \<or> 97 \<le> n \<and> n \<le> 122 \<or> n = 95)"

definition is_word_char :: "char \<Rightarrow> bool" where
  "is_word_char c \<longleftrightarrow> is_alpha_us c \<or> is_digit c"

definition shell_identifier :: "string \<Rightarrow> bool" where
  "shell_identifier s \<longleftrightarrow> s \<noteq> [] \<and> is_alpha_us (hd s) \<and> list_all is_word_char s"

text \<open>
  \<open>^[A-Za-z_][A-Za-z0-9_]*$\<close> with \<open>re.match\<close>: in Python \<open>$\<close> also matches before a final newline.
\<close>

definition VALID_KEY_RE :: "string \<Rightarrow> bool" where
  "VALID_KEY_RE key \<longleftrightarrow>
     shell_identifier key \<or> (key \<noteq> [] \<and> last key = CHR 0x0A \<and> shell_identifier (butlast key))"

definition validate_env_key :: "string \<Rightarrow> unit result" where
  "validate_env_key key =
     (if key = [] then Inl (ValueError ''Environment variable key cannot be empty'')
      else if \<not> VALID_KEY_RE key then Inl (ValueError ''Invalid environment variable key'')
      else Inr ())"

fun validate_env_keys :: "string list \<Rightarrow> unit result" where
  "validate_env_keys [] = Inr ()"
| "validate_env_keys (key # keys) = rbind (validate_env_key key) (\<lambda>_. validate_env_keys keys)"

section \<open>Quoting and the script\<close>

text \<open>\<open>shlex.quote\<close>: the characters outside \<open>[^\w@%+=:,./-]\<close> need no quotes.\<close>

definition safe_char :: "char \<Rightarrow> bool" where
  "safe_char c \<longleftrightarrow> is_word_char c \<or> c \<in> set ''@%+=:,./-''"

definition SQ :: char where
  "SQ = CHR 0x27"

definition DQ :: char where
  "DQ = CHR 0x22"

fun escape_quotes :: "string \<Rightarrow> string" where
  "escape_quotes [] = []"
| "escape_quotes (c # s) = (if c = SQ then [SQ, DQ, SQ, DQ, SQ] else [c]) @ escape_quotes s"

definition shell_quote :: "string \<Rightarrow> string" where
  "shell_quote v =
     (if v = [] then [SQ, SQ] else if list_all safe_char v then v else [SQ] @ escape_quotes v @ [SQ])"

definition export_line :: "string \<times> string \<Rightarrow> string" where
  "export_line kv = ''export '' @ fst kv @ ''='' @ shell_quote (snd kv)"

definition env_header :: "string list" where
  "env_header = [''#!/bin/sh'', ''# Celesto managed environment variables'', '''']"

definition build_env_script :: "(string \<times> string) list \<Rightarrow> string result" where
  "build_env_script env_vars =
     (if env_vars = [] then Inr (''# Celesto environment variables (empty)'' @ [CHR 0x0A])
      else
        let items = sort_key fst env_vars
        in rbind (validate_env_keys (map fst items)) (\<lambda>_.
          Inr (join_on [CHR 0x0A]
            (env_header @ map export_line items @ ['''']))))"

section \<open>Reading the script\<close>

definition is_linebreak :: "char \<Rightarrow> bool" where
  "is_linebreak c \<longleftrightarrow> (of_char c :: nat) \<in> {10, 11, 12, 13, 28, 29, 30, 133}"

text \<open>\<open>str.splitlines\<close>; a carriage return and newline count as one break.\<close>

function lines_from :: "string \<Rightarrow> string \<Rightarrow> string list" where
  "lines_from cur [] = (if cur = [] then [] else [cur])"
| "lines_from cur (c # s) =
     (if c = CHR 0x0D \<and> s \<noteq> [] \<and> hd s = CHR 0x0A then cur # lines_from [] (tl s)
      else if is_linebreak c then cur # lines_from [] s
      else lines_from (cur @ [c]) s)"
  by pat_completeness auto
termination by (relation "measure (\<lambda>(_, s). length s)") auto

definition splitlines :: "string \<Rightarrow> string list" where
  "splitlines s = lines_from [] s"

text \<open>
  The tokenizer: between tokens, in a comment, in a word, inside a quotation, after a backslash
  (\<open>None\<close> in a word, otherwise inside the quotation named).
\<close>

datatype shlex_state = SH_START | SH_COMMENT | SH_WORD | SH_QUOTE char | SH_ESCAPE "char option"

definition shlex_blank :: "char \<Rightarrow> bool" where
  "shlex_blank c \<longleftrightarrow> c \<in> {CHR '' '', CHR 0x09, CHR 0x0D, CHR 0x0A}"

fun shlex_run :: "shlex_state \<Rightarrow> string \<Rightarrow> string \<Rightarrow> string list option" where
  "shlex_run SH_START tok [] = Some []"
| "shlex_run SH_COMMENT tok [] = Some []"
| "shlex_run SH_WORD tok [] = Some [tok]"
| "shlex_run (SH_QUOTE q) tok [] = None"
| "shlex_run (SH_ESCAPE e) tok [] = None"
| "shlex_run SH_START tok (c # s) =
     (if shlex_blank c then shlex_run SH_START [] s
      else if c = CHR ''#'' then shlex_run SH_COMMENT [] s
      else if c = CHR 0x5C then shlex_run (SH_ESCAPE None) [] s
      else if c = SQ \<or> c = DQ then shlex_run (SH_QUOTE c) [] s
      else shlex_run SH_WORD [c] s)"
| "shlex_run SH_COMMENT tok (c # s) =
     (if c = CHR 0x0A then shlex_run SH_START [] s else shlex_run SH_COMMENT [] s)"
| "shlex_run SH_WORD tok (c # s) =
     (if shlex_blank c then map_option ((#) tok) (shlex_run SH_START [] s)
      else if c = CHR ''#'' then map_option ((#) tok) (shlex_run SH_COMMENT [] s)
      else if c = SQ \<or> c = DQ then shlex_run (SH_QUOTE c) tok s
      else if c = CHR 0x5C then shlex_run (SH_ESCAPE None) tok s
      else shlex_run SH_WORD (tok @ [c]) s)"
| "shlex_run (SH_QUOTE q) tok (c # s) =
     (if c = q then shlex_run SH_WORD tok s
      else if c = CHR 0x5C \<and> q = DQ then shlex_run (SH_ESCAPE (Some q)) tok s
      else shlex_run (SH_QUOTE q) (tok @ [c]) s)"
| "shlex_run (SH_ESCAPE None) tok (c # s) = shlex_run SH_WORD (tok @ [c]) s"
| "shlex_run (SH_ESCAPE (Some q)) tok (c # s) =
     shlex_run (SH_QUOTE q) (tok @ (if c \<noteq> CHR 0x5C \<and> c \<noteq> q then [CHR 0x5C, c] else [c])) s"

text \<open>The first token, the empty string when there is none, nothing when the lexer raises.\<close>

definition shlex_value :: "string \<Rightarrow> string option" where
  "shlex_value raw = map_option (\<lambda>toks. case toks of [] \<Rightarrow> [] | t # _ \<Rightarrow> t) (shlex_run SH_START [] raw)"

definition parse_export_line :: "string \<Rightarrow> (string \<times> string) option" where
  "parse_export_line raw_line =
     (let line = strip raw_line in
      if \<not> starts_with ''export '' line then None
      else
        let rest = drop (length ''export '') line in
        if CHR ''='' \<notin> set rest then None
        else
          let key = takeWhile (\<lambda>c. c \<noteq> CHR ''='') rest;
              raw_value = drop (length key + 1) rest
          in map_option (Pair key) (shlex_value raw_value))"

fun parse_lines :: "string list \<Rightarrow> (string \<times> string) list \<Rightarrow> (string \<times> string) list" where
  "parse_lines [] env_vars = env_vars"
| "parse_lines (line # rest) env_vars =
     parse_lines rest (case parse_export_line line of None \<Rightarrow> env_vars | Some (k, v) \<Rightarrow> AList.update k v env_vars)"

text \<open>\<open>read\<close> is what \<open>cat\<close> printed, \<open>None\<close> when the command failed.\<close>

definition read_env_vars :: "string option \<Rightarrow> (string \<times> string) list" where
  "read_env_vars read = (case read of None \<Rightarrow> [] | Some out \<Rightarrow> parse_lines (splitlines out) [])"

section \<open>Changing the variables of a guest\<close>

text \<open>
  Each operation returns its result and the script it wrote to the guest, if it got so far;
  \<open>write_ok\<close> tells whether the guest reported success.
\<close>

definition dict_update :: "('k \<times> 'v) list \<Rightarrow> ('k \<times> 'v) list \<Rightarrow> ('k \<times> 'v) list" where
  "dict_update d new = fold (\<lambda>(k, v). AList.update k v) new d"

definition write_script :: "bool \<Rightarrow> string \<Rightarrow> (string \<times> string) list \<Rightarrow> 'a \<Rightarrow> 'a result \<times> string option" where
  "write_script write_ok failure env_vars r =
     (case build_env_script env_vars of
        Inl e \<Rightarrow> (Inl e, None)
      | Inr script \<Rightarrow> (if write_ok then Inr r else Inl (CelestoError failure), Some script))"

definition inject_env_vars ::
  "string option \<Rightarrow> bool \<Rightarrow> (string \<times> string) list \<Rightarrow> bool \<Rightarrow> string list result \<times> string option" where
  "inject_env_vars read write_ok env_vars merge =
     (if env_vars = [] then (Inr [], None)
      else case validate_env_keys (map fst env_vars) of
          Inl e \<Rightarrow> (Inl e, None)
        | Inr _ \<Rightarrow>
            let final_vars = (if merge then dict_update (read_env_vars read) env_vars else env_vars)
            in write_script write_ok ''Failed to inject environment variables'' final_vars
                 (sort (map fst final_vars)))"

fun pop_keys ::
  "string list \<Rightarrow> (string \<times> string) list \<Rightarrow> (string \<times> string) list \<Rightarrow>
   (string \<times> string) list \<times> (string \<times> string) list" where
  "pop_keys [] current removed = (current, removed)"
| "pop_keys (key # keys) current removed =
     (case map_of current key of
        None \<Rightarrow> pop_keys keys current removed
      | Some v \<Rightarrow> pop_keys keys (AList.delete key current) (AList.update key v removed))"

definition remove_env_vars ::
  "string option \<Rightarrow> bool \<Rightarrow> string list \<Rightarrow> (string \<times> string) list result \<times> string option" where
  "remove_env_vars read write_ok keys =
     (if keys = [] then (Inr [], None)
      else
        let (current, removed) = pop_keys keys (read_env_vars read) []
        in if removed = [] then (Inr [], None)
           else write_script write_ok ''Failed to update environment file'' current removed)"

section \<open>The tokenizer undoes the quoting\<close>

lemma quote_chars [simp]: "SQ \<noteq> DQ" "DQ \<noteq> SQ" "SQ \<noteq> CHR 0x5C" "DQ \<noteq> CHR 0x5C"
  "\<not> shlex_blank SQ" "\<not> shlex_blank DQ" "SQ \<noteq> CHR ''#''" "DQ \<noteq> CHR ''#''"
  "\<not> is_linebreak SQ" "\<not> is_linebreak DQ" "\<not> is_space SQ"
  by (simp_all add: SQ_def DQ_def shlex_blank_def is_linebreak_def is_space_def)

lemma special_not_safe:
  "list_all (\<lambda>c. \<not> safe_char c) [CHR '' '', CHR 0x09, CHR 0x0D, CHR 0x0A, CHR ''#'', SQ, DQ, CHR 0x5C]"
  by code_simp

lemma space_not_safe: "is_space c \<Longrightarrow> \<not> safe_char c"
  unfolding is_space_def insert_iff empty_iff
  by (elim disjE) (auto simp: safe_char_def is_word_char_def is_alpha_us_def is_digit_def)

lemma linebreak_is_space: "is_linebreak c \<Longrightarrow> is_space c"
  by (auto simp: is_linebreak_def is_space_def)

lemma safe_char_ordinary:
  assumes "safe_char c"
  shows "\<not> shlex_blank c" "c \<noteq> CHR ''#''" "c \<noteq> SQ" "c \<noteq> DQ" "c \<noteq> CHR 0x5C" "\<not> is_space c" "\<not> is_linebreak c"
  using assms special_not_safe space_not_safe linebreak_is_space by (auto simp: shlex_blank_def)

lemma shlex_quoted:
  "shlex_run (SH_QUOTE SQ) tok (escape_quotes v @ SQ # s) = shlex_run SH_WORD (tok @ v) s"
  by (induction v arbitrary: tok) simp_all

lemma shlex_safe: "list_all safe_char v \<Longrightarrow> shlex_run SH_WORD tok v = Some [tok @ v]"
  by (induction v arbitrary: tok) (simp_all add: safe_char_ordinary)

lemma shlex_value_quote: "shlex_value (shell_quote v) = Some v"
proof (cases "v = []")
  case True
  then show ?thesis by (simp add: shell_quote_def shlex_value_def)
next
  case False
  show ?thesis
  proof (cases "list_all safe_char v")
    case True
    with False obtain c s where "v = c # s" "safe_char c" "list_all safe_char s" by (cases v) auto
    then show ?thesis by (simp add: shell_quote_def shlex_value_def safe_char_ordinary shlex_safe)
  next
    case unsafe: False
    then show ?thesis using False shlex_quoted [of "[]" v "[]"]
      by (simp add: shell_quote_def shlex_value_def)
  qed
qed

section \<open>Lines\<close>

lemma lines_from_line:
  "list_all (\<lambda>c. \<not> is_linebreak c) l \<Longrightarrow>
   lines_from cur (l @ CHR 0x0A # s) = (cur @ l) # lines_from [] s"
proof (induction l arbitrary: cur)
  case Nil
  then show ?case by (simp add: is_linebreak_def)
next
  case (Cons c l)
  then have "c \<noteq> CHR 0x0D" by (auto simp: is_linebreak_def)
  with Cons show ?case by simp
qed

lemma splitlines_join:
  "list_all (list_all (\<lambda>c. \<not> is_linebreak c)) ls \<Longrightarrow>
   splitlines (join_on [CHR 0x0A] (ls @ [''''])) = ls"
proof (induction ls)
  case Nil
  then show ?case by (simp add: splitlines_def)
next
  case (Cons l ls)
  then show ?case by (simp add: splitlines_def join_on_Cons lines_from_line)
qed

lemma strip_id:
  assumes "s \<noteq> []" "\<not> is_space (hd s)" "\<not> is_space (last s)"
  shows "strip s = s"
proof -
  have "lstrip s = s" using assms by (cases s) (simp_all add: lstrip_def)
  moreover have "rev (dropWhile is_space (rev s)) = s"
    using assms(1,3) by (cases s rule: rev_cases) simp_all
  ultimately show ?thesis by (simp add: strip_def rstrip_chars_def)
qed

lemma shell_quote_last: "shell_quote v \<noteq> [] \<and> \<not> is_space (last (shell_quote v))"
proof (cases "v \<noteq> [] \<and> list_all safe_char v")
  case True
  then have "safe_char (last v)" by (simp add: list_all_iff)
  with True show ?thesis by (simp add: shell_quote_def safe_char_ordinary)
next
  case False
  then show ?thesis by (auto simp: shell_quote_def)
qed

lemma identifier_no_eq: "shell_identifier k \<Longrightarrow> CHR ''='' \<notin> set k"
  by (auto simp: shell_identifier_def list_all_iff is_word_char_def is_alpha_us_def is_digit_def)

lemma parse_export_line_export:
  assumes "shell_identifier k"
  shows "parse_export_line (export_line (k, v)) = Some (k, v)"
proof -
  have strip: "strip (export_line (k, v)) = export_line (k, v)"
    by (rule strip_id) (use shell_quote_last [of v] in \<open>simp_all add: export_line_def is_space_def\<close>)
  have key: "takeWhile (\<lambda>c. c \<noteq> CHR ''='') (k @ CHR ''='' # shell_quote v) = k"
    using identifier_no_eq [OF assms] by (simp add: takeWhile_append)
  show ?thesis
    unfolding parse_export_line_def strip
    using key by (simp add: export_line_def starts_with_def Let_def shlex_value_quote)
qed

lemma escape_quotes_lines:
  "list_all (\<lambda>c. \<not> is_linebreak c) v \<Longrightarrow> list_all (\<lambda>c. \<not> is_linebreak c) (escape_quotes v)"
  by (induction v) simp_all

lemma export_line_no_break:
  assumes "shell_identifier k" "list_all (\<lambda>c. \<not> is_linebreak c) v"
  shows "list_all (\<lambda>c. \<not> is_linebreak c) (export_line (k, v))"
proof -
  have "list_all (\<lambda>c. \<not> is_linebreak c) k"
    using assms(1)
    by (auto simp: shell_identifier_def list_all_iff intro!: safe_char_ordinary(7) simp: safe_char_def)
  moreover have "list_all (\<lambda>c. \<not> is_linebreak c) ''export ''" by (simp add: is_linebreak_def)
  moreover have "\<not> is_linebreak (CHR ''='')" by (simp add: is_linebreak_def)
  ultimately show ?thesis using assms(2)
    by (simp add: export_line_def shell_quote_def escape_quotes_lines)
qed

section \<open>The script is read back\<close>

text \<open>Dictionaries with real shell identifiers as keys and values on one line.\<close>

definition plain_env :: "(string \<times> string) list \<Rightarrow> bool" where
  "plain_env d \<longleftrightarrow>
     keys_distinct d \<and> list_all (\<lambda>(k, v). shell_identifier k \<and> list_all (\<lambda>c. \<not> is_linebreak c) v) d"

lemma update_fresh: "k \<notin> fst ` set d \<Longrightarrow> AList.update k v d = d @ [(k, v)]"
  by (induction d) auto

lemma parse_lines_exports:
  assumes "keys_distinct items" "list_all (\<lambda>(k, v). shell_identifier k) items" "fst ` set items \<inter> fst ` set env = {}"
  shows "parse_lines (map export_line items) env = env @ items"
  using assms
proof (induction items arbitrary: env)
  case (Cons kv items)
  obtain k v where kv: "kv = (k, v)" by fastforce
  have new: "AList.update k v env = env @ [(k, v)]"
    using Cons.prems kv by (intro update_fresh) auto
  have "fst ` set items \<inter> fst ` set (env @ [(k, v)]) = {}" using Cons.prems kv by auto
  then show ?case using Cons kv by (simp add: parse_export_line_export new)
qed simp

lemma parse_header:
  "parse_lines (env_header @ ls) env = parse_lines ls env"
proof -
  have "parse_export_line ''#!/bin/sh'' = None" "parse_export_line '''' = None"
    "parse_export_line ''# Celesto managed environment variables'' = None" by code_simp+
  then show ?thesis by (simp add: env_header_def)
qed

lemma validate_env_keys_identifiers: "list_all shell_identifier keys \<Longrightarrow> validate_env_keys keys = Inr ()"
proof (induction keys)
  case (Cons k keys)
  then have "k \<noteq> []" "VALID_KEY_RE k" by (simp_all add: shell_identifier_def VALID_KEY_RE_def)
  with Cons show ?case by (simp add: validate_env_key_def)
qed simp

lemma sorted_items:
  assumes "keys_distinct d"
  shows "keys_distinct (sort_key fst d)" "map_of (sort_key fst d) = map_of d" "set (sort_key fst d) = set d"
proof -
  show dist: "keys_distinct (sort_key fst d)"
    using assms by (simp add: distinct_map)
  show "map_of (sort_key fst d) = map_of d" using assms dist by (simp add: map_of_inject_set)
qed simp

lemma build_read:
  assumes "plain_env d"
  shows "\<exists>script. build_env_script d = Inr script \<and> read_env_vars (Some script) = sort_key fst d"
proof (cases "d = []")
  case True
  have "parse_lines (splitlines (''# Celesto environment variables (empty)'' @ [CHR 0x0A])) [] = []" by code_simp
  with True show ?thesis by (simp add: build_env_script_def read_env_vars_def)
next
  case False
  let ?items = "sort_key fst d"
  have items: "keys_distinct ?items" and ids: "list_all (\<lambda>(k, v). shell_identifier k) ?items"
    using assms by (auto simp: plain_env_def sorted_items list_all_iff)
  have plain: "list_all (list_all (\<lambda>c. \<not> is_linebreak c)) (map export_line ?items)"
    unfolding list.pred_map list_all_iff [of _ ?items] o_def
    using assms by (auto simp: plain_env_def list_all_iff [of _ d] intro!: export_line_no_break)
  have keys: "validate_env_keys (map fst ?items) = Inr ()"
    using ids by (intro validate_env_keys_identifiers) (auto simp: list_all_iff)
  have hdr: "list_all (list_all (\<lambda>c. \<not> is_linebreak c)) env_header" by code_simp
  have "splitlines (join_on [CHR 0x0A] ((env_header @ map export_line ?items) @ [''''])) = env_header @ map export_line ?items"
    by (rule splitlines_join) (use hdr plain in simp)
  then have "parse_lines (splitlines (join_on [CHR 0x0A] ((env_header @ map export_line ?items) @ ['''']))) [] = ?items"
    using parse_header parse_lines_exports [OF items ids, of "[]"] by simp
  then show ?thesis using False keys by (simp add: build_env_script_def read_env_vars_def Let_def)
qed

lemma plain_update:
  assumes "plain_env d" "shell_identifier k" "list_all (\<lambda>c. \<not> is_linebreak c) v"
  shows "plain_env (AList.update k v d)"
proof -
  have "set (AList.update k v d) \<subseteq> insert (k, v) (set d)" by (induction d) auto
  then show ?thesis using assms unfolding plain_env_def list_all_iff [of _ d] list_all_iff [of _ "AList.update k v d"]
    by (auto simp: keys_distinct_update)
qed

lemma plain_delete: "plain_env d \<Longrightarrow> plain_env (AList.delete k d)"
  using keys_distinct_delete by (auto simp: plain_env_def list_all_iff AList.delete_eq)

lemma plain_dict_update: "plain_env d \<Longrightarrow> plain_env new \<Longrightarrow> plain_env (dict_update d new)"
proof (induction new arbitrary: d)
  case (Cons kv new)
  then have "plain_env new" "plain_env (AList.update (fst kv) (snd kv) d)"
    by (auto simp: plain_env_def [of "kv # new"] plain_env_def [of new] intro: plain_update)
  with Cons.IH show ?case by (simp add: dict_update_def split_beta)
qed (simp add: dict_update_def)

lemma map_of_dict_update: "keys_distinct new \<Longrightarrow> map_of (dict_update d new) = map_of d ++ map_of new"
proof (induction new arbitrary: d)
  case (Cons kv new)
  then have IH: "map_of (dict_update (AList.update (fst kv) (snd kv) d) new) =
      (map_of d)(fst kv \<mapsto> snd kv) ++ map_of new" by simp
  have "map_of new (fst kv) = None" using Cons.prems by (auto simp: map_of_eq_None_iff)
  then have "(map_of d)(fst kv \<mapsto> snd kv) ++ map_of new = map_of d ++ map_of (kv # new)"
    by (auto simp: map_add_def fun_eq_iff split: option.split)
  with IH show ?case by (simp only: dict_update_def split_beta fold_Cons o_apply)
qed (simp add: dict_update_def)

lemma plain_sort: "plain_env d \<Longrightarrow> plain_env (sort_key fst d)"
  by (simp add: plain_env_def sorted_items list_all_iff)

lemma write_script_plain:
  assumes "plain_env d"
  shows "\<exists>script. write_script True failure d r = (Inr r, Some script) \<and> plain_env (read_env_vars (Some script)) \<and>
    map_of (read_env_vars (Some script)) = map_of d"
  using build_read [OF assms] assms plain_sort [OF assms]
  by (auto simp: write_script_def sorted_items plain_env_def)

lemma pop_keys_result:
  assumes "pop_keys keys current removed = (c', r')" "plain_env current"
  shows "plain_env c' \<and> map_of c' = map_of current |` (- set keys) \<and>
    map_of r' = map_of removed ++ (map_of current |` set keys)"
  using assms
proof (induction keys current removed rule: pop_keys.induct)
  case (1 current removed)
  then show ?case by simp
next
  case (2 key keys current removed)
  show ?case
  proof (cases "map_of current key")
    case None
    then have "map_of current |` (- set keys) = map_of current |` (- set (key # keys))"
      "map_of current |` set keys = map_of current |` set (key # keys)"
      by (auto simp: restrict_map_def fun_eq_iff)
    then show ?thesis using 2 None by simp
  next
    case (Some v)
    note IH = "2.IH"(2) [OF Some _ plain_delete [OF "2.prems"(2)]]
    have "map_of (AList.delete key current) |` (- set keys) = map_of current |` (- set (key # keys))"
      "map_of (AList.update key v removed) ++ (map_of (AList.delete key current) |` set keys) =
       map_of removed ++ (map_of current |` set (key # keys))"
      using Some by (auto simp: restrict_map_def map_add_def fun_eq_iff split: option.split)
    then show ?thesis using IH "2.prems" Some by (simp del: dict_simps)
  qed
qed



section \<open>Values that do not survive\<close>

lemma shlex_run_chars:
  assumes "shlex_run st tok s = Some toks" "list_all p tok" "list_all p s" "p (CHR 0x5C)"
  shows "list_all (list_all p) toks"
  using assms
proof (induction st tok s arbitrary: toks rule: shlex_run.induct)
qed (auto split: if_splits)

lemma lines_from_chars:
  "list_all (\<lambda>c. \<not> is_linebreak c) cur \<Longrightarrow> list_all (list_all (\<lambda>c. \<not> is_linebreak c)) (lines_from cur s)"
  by (induction cur s rule: lines_from.induct) auto

lemma parse_export_line_chars:
  assumes "parse_export_line line = Some (k, v)" "list_all (\<lambda>c. \<not> is_linebreak c) line"
  shows "list_all (\<lambda>c. \<not> is_linebreak c) v"
proof -
  have "shlex_value (drop (length (takeWhile (\<lambda>c. c \<noteq> CHR ''='') (drop (length ''export '') (strip line))) + 1)
      (drop (length ''export '') (strip line))) = Some v"
    using assms(1) unfolding parse_export_line_def Let_def
    by (auto simp del: list.size drop_drop split: if_splits)
  then obtain n where val: "shlex_value (drop n (strip line)) = Some v" unfolding drop_drop by blast
  have "set (drop n (strip line)) \<subseteq> set line" using set_drop_subset [of n "strip line"] set_strip [of line] by blast
  then have "list_all (\<lambda>c. \<not> is_linebreak c) (drop n (strip line))" using assms(2) by (auto simp: list_all_iff)
  moreover have "\<not> is_linebreak (CHR 0x5C)" by (simp add: is_linebreak_def)
  ultimately have "list_all (list_all (\<lambda>c. \<not> is_linebreak c)) toks"
    if "shlex_run SH_START [] (drop n (strip line)) = Some toks" for toks
    using shlex_run_chars [OF that] by simp
  moreover obtain toks where "shlex_run SH_START [] (drop n (strip line)) = Some toks"
    "v = (case toks of [] \<Rightarrow> [] | t # _ \<Rightarrow> t)"
    using val by (auto simp: shlex_value_def)
  ultimately show ?thesis by (cases toks) auto
qed

lemma parse_lines_chars:
  assumes "list_all (list_all (\<lambda>c. \<not> is_linebreak c)) ls" "\<forall>v\<in>ran (map_of env). list_all (\<lambda>c. \<not> is_linebreak c) v"
  shows "\<forall>v\<in>ran (map_of (parse_lines ls env)). list_all (\<lambda>c. \<not> is_linebreak c) v"
  using assms
proof (induction ls env rule: parse_lines.induct)
  case (2 line rest env)
  have "\<forall>v\<in>ran (map_of (case parse_export_line line of None \<Rightarrow> env | Some (k, v) \<Rightarrow> AList.update k v env)).
      list_all (\<lambda>c. \<not> is_linebreak c) v"
  proof (cases "parse_export_line line")
    case (Some kv)
    then have "list_all (\<lambda>c. \<not> is_linebreak c) (snd kv)"
      using parse_export_line_chars [of line "fst kv" "snd kv"] "2.prems"(1) by simp
    then show ?thesis using Some "2.prems"(2) by (auto simp: ran_def split_beta split: if_splits)
  qed (use "2.prems" in simp)
  then show ?case using 2 by simp
qed simp

text \<open>
  \<^bold>\<open>C37\<close>. A value with a line break is never read back, whatever the file holds; so a merge, which starts
  from what was read, silently drops every variable whose value spans lines, although the script that was
  written exports it.
\<close>

theorem env_multiline_value_lost:
  assumes "list_ex is_linebreak v" "map_of new k \<noteq> Some v" "keys_distinct new"
  shows "map_of (read_env_vars out) k \<noteq> Some v \<and> map_of (dict_update (read_env_vars out) new) k \<noteq> Some v"
proof -
  have "\<forall>v\<in>ran (map_of (read_env_vars out)). list_all (\<lambda>c. \<not> is_linebreak c) v"
    using parse_lines_chars [of "lines_from [] (the out)" "[]"] lines_from_chars [of "[]"]
    by (cases out) (auto simp: read_env_vars_def splitlines_def)
  then have "map_of (read_env_vars out) k \<noteq> Some v"
    using assms(1) by (auto simp: ran_def list_ex_iff list_all_iff)
  then show ?thesis using assms(2) by (auto simp: map_of_dict_update [OF assms(3)] map_add_def split: option.split)
qed

theorem env_multiline_value_lost_witness:
  "\<exists>s0 s1. build_env_script [(''A'', ''1'' @ [CHR 0x0A] @ ''2'')] = Inr s0 \<and>
     inject_env_vars (Some s0) True [(''B'', ''x'')] True = (Inr [''B''], Some s1) \<and>
     map_of (dict_update (read_env_vars (Some s0)) [(''B'', ''x'')]) ''A'' \<noteq> Some (''1'' @ [CHR 0x0A] @ ''2'')"
proof -
  let ?v = "''1'' @ [CHR 0x0A] @ ''2''"
  obtain s0 where s0: "build_env_script [(''A'', ?v)] = Inr s0"
    by (simp add: build_env_script_def validate_env_key_def VALID_KEY_RE_def shell_identifier_def
        is_alpha_us_def is_word_char_def Let_def)
  have "inject_env_vars (Some (projr (build_env_script [(''A'', ?v)]))) True [(''B'', ''x'')] True =
      (Inr [''B''], Some (the (snd (inject_env_vars (Some (projr (build_env_script [(''A'', ?v)]))) True [(''B'', ''x'')] True))))"
    by code_simp
  then have "\<exists>s1. inject_env_vars (Some s0) True [(''B'', ''x'')] True = (Inr [''B''], Some s1)"
    unfolding s0 sum.sel by blast
  moreover have "map_of (dict_update (read_env_vars (Some s0)) [(''B'', ''x'')]) ''A'' \<noteq> Some ?v"
    by (rule conjunct2, rule env_multiline_value_lost) (simp_all add: is_linebreak_def)
  ultimately show ?thesis using s0 by blast
qed

end
