(* ===== verification/Vm_Rules.thy ===== *)
theory Vm_Rules
  imports Env_Vars
begin

text \<open>
  The validators of the models in \<open>types.py\<close>: what a computer's configuration, its network record, its
  mounts and a browser session must satisfy to be accepted. Pydantic runs the field validators in field
  order and then the model validators; it reports all field errors together, the model reports the first.
  The host file system is the parameter \<open>fs\<close>; \<open>check_paths\<close> is the \<open>validate_paths\<close> entry of the
  validation context, which reads from storage switch off.
\<close>

section \<open>Files, formats, names\<close>

datatype path_kind = PATH_MISSING | PATH_FILE | PATH_DIR | PATH_OTHER

definition validate_file_path :: "(string \<Rightarrow> path_kind) \<Rightarrow> string \<Rightarrow> unit result" where
  "validate_file_path fs v =
     (if fs v = PATH_MISSING then Inl (ValueError ''Path does not exist'')
      else if fs v \<noteq> PATH_FILE then Inl (ValueError ''Path is not a file'')
      else Inr ())"

definition validate_path_exists :: "(string \<Rightarrow> path_kind) \<Rightarrow> bool \<Rightarrow> string option \<Rightarrow> unit result" where
  "validate_path_exists fs check_paths v =
     (case v of None \<Rightarrow> Inr ()
      | Some p \<Rightarrow> if \<not> check_paths then Inr () else validate_file_path fs p)"

definition validate_optional_path_exists :: "(string \<Rightarrow> path_kind) \<Rightarrow> bool \<Rightarrow> string option \<Rightarrow> unit result" where
  "validate_optional_path_exists fs check_paths v =
     (case v of None \<Rightarrow> Inr ()
      | Some p \<Rightarrow> if \<not> check_paths then Inr () else validate_file_path fs p)"

fun each :: "('a \<Rightarrow> unit result) \<Rightarrow> 'a list \<Rightarrow> unit result" where
  "each f [] = Inr ()"
| "each f (x # xs) = rbind (f x) (\<lambda>_. each f xs)"

definition validate_extra_drives :: "(string \<Rightarrow> path_kind) \<Rightarrow> bool \<Rightarrow> string list \<Rightarrow> unit result" where
  "validate_extra_drives fs check_paths v =
     (if \<not> check_paths then Inr () else each (validate_file_path fs) v)"

text \<open>\<open>Path.suffix\<close>: the last component's part from its last dot, unless that dot is at either end.\<close>

definition path_name :: "string \<Rightarrow> string" where
  "path_name p =
     (case filter (\<lambda>c. c \<noteq> [] \<and> c \<noteq> ''.'') (split_on (CHR ''/'') p) of [] \<Rightarrow> [] | cs \<Rightarrow> last cs)"

definition path_suffix :: "string \<Rightarrow> string" where
  "path_suffix p =
     (let name = path_name p; n = length name; i = n - length (takeWhile (\<lambda>c. c \<noteq> CHR ''.'') (rev name)) - 1
      in if CHR ''.'' \<in> set name \<and> 0 < i \<and> i < n - 1 then drop i name else [])"

definition infer_rootfs_format_from_path :: "string \<Rightarrow> rootfs_format" where
  "infer_rootfs_format_from_path p = (if lower (path_suffix p) = ''.qcow2'' then QCOW2 else RAW_EXT4)"

definition qemu_disk_format_for_rootfs_format :: "rootfs_format \<Rightarrow> qemu_disk_format" where
  "qemu_disk_format_for_rootfs_format f = (if f = QCOW2 then QDF_QCOW2 else QDF_RAW)"

definition effective_rootfs_format :: "vm_config \<Rightarrow> rootfs_format result" where
  "effective_rootfs_format c =
     (case vc_rootfs_path c of
        None \<Rightarrow> Inl (ValueError ''this guest does not have a Linux-style root filesystem'')
      | Some p \<Rightarrow> Inr (case vc_rootfs_format c of Some f \<Rightarrow> f | None \<Rightarrow> infer_rootfs_format_from_path p))"

definition qemu_rootfs_format :: "vm_config \<Rightarrow> qemu_disk_format result" where
  "qemu_rootfs_format c = rbind (effective_rootfs_format c) (\<lambda>f. Inr (qemu_disk_format_for_rootfs_format f))"

section \<open>Internet settings and attachment\<close>

definition has_explicit_restrictions :: "internet_settings \<Rightarrow> bool" where
  "has_explicit_restrictions s \<longleftrightarrow> is_mode s \<in> {Some NET_OFF, Some NET_RESTRICTED, Some NET_PUBLIC}"

definition is_allow_all_domains :: "internet_settings \<Rightarrow> bool" where
  "is_allow_all_domains s \<longleftrightarrow> \<not> has_explicit_restrictions s \<and> ''*'' \<in> set (is_allowed_domains s)"

definition validate_policy :: "internet_settings \<Rightarrow> unit result" where
  "validate_policy s =
     (if is_allowed_http_methods s \<noteq> [''*''] then Inl (ValueError ''HTTP method restrictions are unsupported'')
      else if is_mode s \<noteq> None \<and> is_allowed_domains s \<noteq> [''*'']
      then Inl (ValueError ''Use either mode or allowed_domains, not both'')
      else if is_mode s = Some NET_RESTRICTED \<and> is_allowed_cidrs s = []
      then Inl (ValueError ''restricted requires allowed_cidrs'')
      else if is_mode s \<noteq> Some NET_RESTRICTED \<and> is_allowed_cidrs s \<noteq> []
      then Inl (ValueError ''allowed_cidrs requires mode restricted'')
      else Inr ())"

fun methods_loop :: "string list \<Rightarrow> string list \<Rightarrow> string list \<Rightarrow> string list" where
  "methods_loop [] seen normalized = normalized"
| "methods_loop (m # ms) seen normalized =
     (let method = upper (strip m) in
      if method = [] then methods_loop ms seen normalized
      else if method \<in> set seen then methods_loop ms seen normalized
      else methods_loop ms (method # seen) (normalized @ [method]))"

definition normalize_methods :: "string list \<Rightarrow> string list result" where
  "normalize_methods v =
     (let normalized = methods_loop v [] []
      in if normalized = [] then Inl (ValueError ''allowed_http_methods must contain at least one entry'')
         else Inr normalized)"

text \<open>\<open>^[a-zA-Z0-9_.-]+$\<close>, again with the final newline that \<open>$\<close> permits.\<close>

definition bridge_char :: "char \<Rightarrow> bool" where
  "bridge_char c \<longleftrightarrow> is_word_char c \<or> c = CHR ''.'' \<or> c = CHR ''-''"

definition bridge_match :: "string \<Rightarrow> bool" where
  "bridge_match v \<longleftrightarrow>
     (v \<noteq> [] \<and> list_all bridge_char v) \<or>
     (v \<noteq> [] \<and> last v = CHR 0x0A \<and> butlast v \<noteq> [] \<and> list_all bridge_char (butlast v))"

definition validate_bridge_name :: "string option \<Rightarrow> string option result" where
  "validate_bridge_name v =
     (case v of None \<Rightarrow> Inr None
      | Some raw \<Rightarrow>
          let b = strip raw in
          if b = [] then Inl (ValueError ''bridge name cannot be empty or whitespace'')
          else if length b > 15 then Inl (ValueError ''bridge name must be 15 bytes or fewer'')
          else if \<not> bridge_match b then Inl (ValueError ''bridge name contains invalid characters'')
          else Inr (Some b))"

definition check_mode_bridge_consistency :: "network_attachment_config \<Rightarrow> unit result" where
  "check_mode_bridge_consistency a =
     (if na_mode a = MODE_BRIDGE \<and> na_bridge a = None then Inl (ValueError ''bridge mode requires a bridge name'')
      else if na_mode a = MODE_NAT \<and> na_bridge a \<noteq> None then Inl (ValueError ''nat mode does not accept a bridge name'')
      else Inr ())"

definition network_attachment :: "attach_mode \<Rightarrow> string option \<Rightarrow> network_attachment_config result" where
  "network_attachment mode bridge =
     rbind (validate_bridge_name bridge) (\<lambda>b.
     let a = \<lparr>na_mode = mode, na_bridge = b\<rparr> in
     rbind (check_mode_bridge_consistency a) (\<lambda>_. Inr a))"

section \<open>Mounts, desktop, macOS machine\<close>

definition validate_host_path :: "(string \<Rightarrow> string) \<Rightarrow> (string \<Rightarrow> path_kind) \<Rightarrow> bool \<Rightarrow> string \<Rightarrow> string result" where
  "validate_host_path resolve fs check_paths v =
     (let p = resolve v in
      if \<not> check_paths then Inr p
      else if fs p = PATH_MISSING then Inl (ValueError ''Workspace path does not exist'')
      else if fs p \<noteq> PATH_DIR then Inl (ValueError ''Workspace path is not a directory'')
      else Inr p)"

definition validate_guest_path :: "string \<Rightarrow> string result" where
  "validate_guest_path v =
     (if \<not> starts_with ''/'' v then Inl (ValueError ''guest_path must be an absolute path'') else Inr v)"

definition resolved_tag :: "workspace_mount \<Rightarrow> nat \<Rightarrow> string" where
  "resolved_tag m index =
     (case wm_mount_tag m of
        None \<Rightarrow> ''workspace'' @ string_of_nat index
      | Some t \<Rightarrow> if t = [] then ''workspace'' @ string_of_nat index else t)"

definition validate_nonempty_text :: "string \<Rightarrow> string result" where
  "validate_nonempty_text value =
     (let normalized = strip value
      in if normalized = [] then Inl (ValueError ''value cannot be empty'') else Inr normalized)"

definition validate_loopback_host :: "string \<Rightarrow> string result" where
  "validate_loopback_host value =
     (let normalized = lower (strip value)
      in if normalized \<notin> {''127.0.0.1'', ''localhost'', ''::1''}
         then Inl (ValueError ''desktop endpoint must use a loopback host'') else Inr normalized)"

definition viewer_url :: "desktop_endpoint \<Rightarrow> string" where
  "viewer_url d =
     ''vnc://'' @ (if CHR '':'' \<in> set (de_host d) then ''['' @ de_host d @ '']'' else de_host d) @ '':'' @
     string_of_int (de_port d)"

section \<open>The configuration of a computer\<close>

definition check_boot_mode_consistency :: "vm_config \<Rightarrow> unit result" where
  "check_boot_mode_consistency c =
     (if vc_guest_os c = MACOS then
        if vc_backend c \<noteq> Some ''vz'' then Inl (ValueError ''macOS guests require backend vz'')
        else if vc_boot_mode c \<noteq> PLATFORM then Inl (ValueError ''macOS guests require boot_mode platform'')
        else if vc_macos_machine c = None then Inl (ValueError ''macOS guests require macos_machine'')
        else if vc_kernel_path c \<noteq> None \<or> vc_initrd_path c \<noteq> None
        then Inl (ValueError ''macOS guests do not accept kernel_path or initrd_path'')
        else if vc_rootfs_path c \<noteq> None \<or> vc_rootfs_format c \<noteq> None
        then Inl (ValueError ''macOS guests use a machine bundle, not rootfs_path'')
        else if vc_comm_channel c = Some COMM_VSOCK then Inl (ValueError ''macOS guests do not support vsock'')
        else if vc_env_vars c \<noteq> [] then Inl (ValueError ''macOS guests do not support env_vars'')
        else if na_mode (vc_network_attachment c) = MODE_BRIDGE then Inl (ValueError ''macOS guests use NAT'')
        else if (case vc_internet_settings c of None \<Rightarrow> False | Some s \<Rightarrow> \<not> is_allow_all_domains s)
        then Inl (ValueError ''macOS guests do not support network restrictions'')
        else Inr ()
      else if vc_backend c = Some ''vz'' then Inl (ValueError ''backend vz is only valid for macos'')
      else if vc_macos_machine c \<noteq> None then Inl (ValueError ''macos_machine is only valid for macos'')
      else if vc_rootfs_path c = None then Inl (ValueError ''non-macOS guests require rootfs_path'')
      else if vc_boot_mode c = PLATFORM then Inl (ValueError ''boot_mode platform is only valid for macOS'')
      else if vc_boot_mode c = FIRMWARE \<and> vc_kernel_path c \<noteq> None
      then Inl (ValueError ''firmware boot requires kernel_path None'')
      else if vc_boot_mode c = FIRMWARE \<and> vc_backend c \<noteq> Some ''qemu''
      then Inl (ValueError ''firmware boot requires backend qemu'')
      else if vc_boot_mode c \<noteq> FIRMWARE \<and> vc_kernel_path c = None
      then Inl (ValueError ''direct_kernel boot requires kernel_path'')
      else if vc_guest_os c = WINDOWS \<and> vc_boot_mode c \<noteq> FIRMWARE
      then Inl (ValueError ''windows requires firmware boot'')
      else Inr ())"

definition check_bridge_mode_constraints :: "vm_config \<Rightarrow> unit result" where
  "check_bridge_mode_constraints c =
     (if na_mode (vc_network_attachment c) \<noteq> MODE_BRIDGE then Inr ()
      else if \<not> vc_guest_managed_networking c then Inl (ValueError ''Bridge mode requires guest-managed networking'')
      else if vc_comm_channel c = Some COMM_SSH then Inl (ValueError ''Bridge mode requires vsock'')
      else if vc_workspace_mounts c \<noteq> [] then Inl (ValueError ''Workspace mounts are not supported with bridge mode'')
      else if vc_port_forwards c \<noteq> [] then Inl (ValueError ''Port forwards are not supported with bridge mode'')
      else if (case vc_internet_settings c of None \<Rightarrow> False | Some s \<Rightarrow> \<not> is_allow_all_domains s)
      then Inl (ValueError ''Network restrictions are not supported with bridge networking'')
      else Inr ())"

fun port_forwards_loop :: "port_forward_config list \<Rightarrow> int set \<Rightarrow> int set \<Rightarrow> unit result" where
  "port_forwards_loop [] seen_host seen_guest = Inr ()"
| "port_forwards_loop (f # fs) seen_host seen_guest =
     (if pf_host_port f \<in> seen_host then Inl (ValueError ''Duplicate host port in port_forwards'')
      else if pf_guest_port f \<in> seen_guest then Inl (ValueError ''Duplicate guest port in port_forwards'')
      else port_forwards_loop fs (insert (pf_host_port f) seen_host) (insert (pf_guest_port f) seen_guest))"

definition validate_port_forwards :: "port_forward_config list \<Rightarrow> unit result" where
  "validate_port_forwards v = port_forwards_loop v {} {}"

fun mounts_loop :: "nat \<Rightarrow> workspace_mount list \<Rightarrow> string set \<Rightarrow> string set \<Rightarrow> unit result" where
  "mounts_loop index [] tags paths = Inr ()"
| "mounts_loop index (m # ms) tags paths =
     (let tag = resolved_tag m index in
      if tag \<in> tags then Inl (ValueError ''Duplicate workspace mount tag'')
      else if wm_guest_path m \<in> paths then Inl (ValueError ''Duplicate workspace guest_path'')
      else mounts_loop (index + 1) ms (insert tag tags) (insert (wm_guest_path m) paths))"

definition validate_workspace_mounts :: "workspace_mount list \<Rightarrow> unit result" where
  "validate_workspace_mounts v = mounts_loop 0 v {} {}"

definition in_range :: "int \<Rightarrow> int \<Rightarrow> int \<Rightarrow> unit result" where
  "in_range lo hi n = raise_if (n < lo \<or> hi < n) (ValueError ''out of range'')"

definition at_least :: "int \<Rightarrow> int option \<Rightarrow> unit result" where
  "at_least lo n = raise_if (case n of None \<Rightarrow> False | Some i \<Rightarrow> i < lo) (ValueError ''out of range'')"

definition validate_vm_config :: "(string \<Rightarrow> path_kind) \<Rightarrow> bool \<Rightarrow> vm_config \<Rightarrow> unit result" where
  "validate_vm_config fs check_paths c =
     rbind (raise_if (\<not> IDENTIFIER_PATTERN (vc_vm_id c)) (ValueError ''vm_id'')) (\<lambda>_.
     rbind (in_range 1 32 (vc_vcpu_count c)) (\<lambda>_.
     rbind (in_range 128 32768 (vc_memory c)) (\<lambda>_.
     rbind (validate_path_exists fs check_paths (vc_kernel_path c)) (\<lambda>_.
     rbind (validate_optional_path_exists fs check_paths (vc_initrd_path c)) (\<lambda>_.
     rbind (validate_path_exists fs check_paths (vc_rootfs_path c)) (\<lambda>_.
     rbind (validate_extra_drives fs check_paths (vc_extra_drives c)) (\<lambda>_.
     rbind (at_least 1 (vc_disk_size_mib c)) (\<lambda>_.
     rbind (validate_env_keys (map fst (vc_env_vars c))) (\<lambda>_.
     rbind (at_least 1 (vc_network_rate_limit_mbps c)) (\<lambda>_.
     rbind (validate_port_forwards (vc_port_forwards c)) (\<lambda>_.
     rbind (validate_workspace_mounts (vc_workspace_mounts c)) (\<lambda>_.
     rbind (check_boot_mode_consistency c) (\<lambda>_.
     check_bridge_mode_constraints c)))))))))))))"

section \<open>The network record\<close>

definition fill_nat_defaults :: "network_config \<Rightarrow> network_config" where
  "fill_nat_defaults n =
     (if nc_mode n = MODE_NAT
      then n\<lparr>nc_gateway_ip := Some (case nc_gateway_ip n of Some g \<Rightarrow> g | None \<Rightarrow> ''172.16.0.1''),
             nc_netmask := Some (case nc_netmask n of Some m \<Rightarrow> m | None \<Rightarrow> ''255.255.255.0'')\<rparr>
      else n)"

definition check_nat_bridge_consistency :: "network_config \<Rightarrow> unit result" where
  "check_nat_bridge_consistency n =
     (case nc_mode n of
        MODE_BRIDGE \<Rightarrow>
          if nc_bridge n = None then Inl (ValueError ''bridge mode requires a bridge name'')
          else if nc_guest_ip n \<noteq> None then Inl (ValueError ''bridge mode must not set guest_ip'')
          else if nc_gateway_ip n \<noteq> None then Inl (ValueError ''bridge mode must not set gateway_ip'')
          else if nc_netmask n \<noteq> None then Inl (ValueError ''bridge mode must not set netmask'')
          else if nc_ssh_host_port n \<noteq> None then Inl (ValueError ''bridge mode must not set ssh_host_port'')
          else if nc_egress_proxy_host_port n \<noteq> None
          then Inl (ValueError ''bridge mode must not set egress_proxy_host_port'')
          else Inr ()
      | MODE_NAT \<Rightarrow>
          if nc_bridge n \<noteq> None then Inl (ValueError ''nat mode must not set bridge'')
          else if nc_guest_ip n = None then Inl (ValueError ''nat mode requires guest_ip'')
          else if nc_gateway_ip n = None then Inl (ValueError ''nat mode requires gateway_ip'')
          else if nc_netmask n = None then Inl (ValueError ''nat mode requires netmask'')
          else Inr ())"

text \<open>\<open>NetworkConfig.model_validate(data)\<close>\<close>

definition validate_network_config :: "network_config \<Rightarrow> network_config result" where
  "validate_network_config data =
     (let n = fill_nat_defaults data in
      rbind (raise_if (case nc_egress_proxy_host_port n of None \<Rightarrow> False | Some p \<Rightarrow> p < 1 \<or> 65535 < p)
              (ValueError ''egress_proxy_host_port'')) (\<lambda>_.
      rbind (check_nat_bridge_consistency n) (\<lambda>_. Inr n)))"

section \<open>Browser sessions\<close>

text \<open>
  The arguments of \<open>BrowserSessionConfig\<close> that its \<open>before\<close> validator looks at: the viewport as an
  object, as a mapping with optional entries, or absent, and the two flat fields when given.
\<close>

datatype viewport_arg = VP_ABSENT | VP_OBJECT browser_viewport | VP_MAPPING "int option" "int option"

text \<open>The viewport and the two flat fields after \<open>normalize_viewport\<close>; an absent entry of a mapping is read as \<open>None\<close>.\<close>

definition normalize_viewport ::
  "viewport_arg \<Rightarrow> int option \<Rightarrow> int option \<Rightarrow> (int option \<times> int option) \<times> int option \<times> int option" where
  "normalize_viewport viewport width height =
     (let given = (\<lambda>d x. case x of Some i \<Rightarrow> Some i | None \<Rightarrow> d) in
      case viewport of
        VP_ABSENT \<Rightarrow> ((given (Some 1280) width, given (Some 720) height), given (Some 1280) width, given (Some 720) height)
      | VP_OBJECT v \<Rightarrow> ((Some (bv_width v), Some (bv_height v)), given (Some (bv_width v)) width, given (Some (bv_height v)) height)
      | VP_MAPPING w h \<Rightarrow> ((given (Some 1280) w, given (Some 720) h), given w width, given h height))"

definition validate_viewport :: "viewport_arg \<Rightarrow> int option \<Rightarrow> int option \<Rightarrow> (int \<times> int) result" where
  "validate_viewport viewport width height =
     (case normalize_viewport viewport width height of
        ((Some vw, Some vh), Some w, Some h) \<Rightarrow>
          if w < 640 \<or> 7680 < w \<or> h < 480 \<or> 4320 < h \<or> vw < 640 \<or> 7680 < vw \<or> vh < 480 \<or> 4320 < vh
          then Inl (ValueError ''viewport out of range'')
          else if vw \<noteq> w then Inl (ValueError ''viewport.width must match viewport_width'')
          else if vh \<noteq> h then Inl (ValueError ''viewport.height must match viewport_height'')
          else Inr (w, h)
      | _ \<Rightarrow> Inl (ValueError ''viewport value missing''))"

definition strip_optional_identifiers :: "string option \<Rightarrow> string option" where
  "strip_optional_identifiers value =
     (case value of None \<Rightarrow> None | Some s \<Rightarrow> if strip s = [] then None else Some (strip s))"

definition validate_browser_session_config :: "browser_session_config \<Rightarrow> unit result" where
  "validate_browser_session_config c =
     (case bc_viewport c of
        None \<Rightarrow> Inl (ValueError ''viewport could not be resolved'')
      | Some v \<Rightarrow>
          if bv_width v \<noteq> bc_viewport_width c then Inl (ValueError ''viewport.width must match viewport_width'')
          else if bv_height v \<noteq> bc_viewport_height c then Inl (ValueError ''viewport.height must match viewport_height'')
          else if bc_profile_mode c = PM_PERSISTENT \<and> (case bc_profile_id c of None \<Rightarrow> True | Some p \<Rightarrow> p = [])
          then Inl (ValueError ''profile_id is required when profile_mode is persistent'')
          else if bc_record_video c \<and> bc_mode c = BM_HEADLESS
          then Inl (ValueError ''record_video requires a visible browser or desktop computer'')
          else if (case bc_network_policy_id c of None \<Rightarrow> False | Some p \<Rightarrow> strip p = [])
          then Inl (ValueError ''network_policy_id cannot be empty'')
          else mounts_loop 0 (bc_workspace_mounts c) {} {})"

section \<open>What is accepted\<close>

lemma each_Inr_iff [result_iff]: "each f xs = Inr () \<longleftrightarrow> list_all (\<lambda>x. f x = Inr ()) xs"
  by (induction xs) (simp_all add: rbind_Inr_iff)

lemma in_range_Inr_iff [result_iff]: "in_range lo hi n = Inr () \<longleftrightarrow> lo \<le> n \<and> n \<le> hi"
  by (auto simp: in_range_def raise_if_Inr_iff)

lemma at_least_Inr_iff [result_iff]: "at_least lo n = Inr () \<longleftrightarrow> pred_option (\<lambda>i. lo \<le> i) n"
  by (cases n) (auto simp: at_least_def raise_if_Inr_iff)

lemma validate_env_keys_iff [result_iff]: "validate_env_keys keys = Inr () \<longleftrightarrow> list_all VALID_KEY_RE keys"
proof (induction keys)
  case (Cons k keys)
  have "VALID_KEY_RE k \<Longrightarrow> k \<noteq> []" by (auto simp: VALID_KEY_RE_def shell_identifier_def)
  with Cons show ?case by (auto simp: validate_env_key_def)
qed simp

definition file_ok :: "(string \<Rightarrow> path_kind) \<Rightarrow> bool \<Rightarrow> string \<Rightarrow> bool" where
  "file_ok fs check_paths p \<longleftrightarrow> \<not> check_paths \<or> fs p = PATH_FILE"

lemma validate_file_path_iff: "validate_file_path fs p = Inr () \<longleftrightarrow> fs p = PATH_FILE"
  by (simp add: validate_file_path_def)

lemma path_checks_iff [result_iff]:
  "validate_path_exists fs check_paths v = Inr () \<longleftrightarrow> pred_option (file_ok fs check_paths) v"
  "validate_optional_path_exists fs check_paths v = Inr () \<longleftrightarrow> pred_option (file_ok fs check_paths) v"
  "validate_extra_drives fs check_paths ps = Inr () \<longleftrightarrow> list_all (file_ok fs check_paths) ps"
proof -
  show "validate_path_exists fs check_paths v = Inr () \<longleftrightarrow> pred_option (file_ok fs check_paths) v"
    "validate_optional_path_exists fs check_paths v = Inr () \<longleftrightarrow> pred_option (file_ok fs check_paths) v"
    by (cases v; simp add: validate_path_exists_def validate_optional_path_exists_def validate_file_path_iff file_ok_def)+
  show "validate_extra_drives fs check_paths ps = Inr () \<longleftrightarrow> list_all (file_ok fs check_paths) ps"
    by (auto simp: validate_extra_drives_def file_ok_def list_all_iff each_Inr_iff validate_file_path_iff)
qed

lemma port_forwards_loop_iff:
  "port_forwards_loop fs hs gs = Inr () \<longleftrightarrow>
   distinct (map pf_host_port fs) \<and> distinct (map pf_guest_port fs) \<and>
   pf_host_port ` set fs \<inter> hs = {} \<and> pf_guest_port ` set fs \<inter> gs = {}"
  by (induction fs arbitrary: hs gs) auto

lemma mounts_loop_iff:
  "mounts_loop i ms tags paths = Inr () \<longleftrightarrow>
   distinct (map2 resolved_tag ms [i..<i + length ms]) \<and> distinct (map wm_guest_path ms) \<and>
   set (map2 resolved_tag ms [i..<i + length ms]) \<inter> tags = {} \<and> wm_guest_path ` set ms \<inter> paths = {}"
proof (induction ms arbitrary: i tags paths)
  case (Cons m ms)
  have "[i..<i + length (m # ms)] = i # [Suc i..<Suc i + length ms]" by (simp add: upt_rec del: upt_Suc)
  then show ?case using Cons [of "Suc i"] by (auto simp: Let_def)
qed simp

text \<open>The three kinds of guest there are, and what bridge networking excludes.\<close>

definition unrestricted :: "vm_config \<Rightarrow> bool" where
  "unrestricted c \<longleftrightarrow> pred_option is_allow_all_domains (vc_internet_settings c)"

definition macos_guest :: "vm_config \<Rightarrow> bool" where
  "macos_guest c \<longleftrightarrow>
     vc_guest_os c = MACOS \<and> vc_backend c = Some ''vz'' \<and> vc_boot_mode c = PLATFORM \<and> vc_macos_machine c \<noteq> None \<and>
     vc_kernel_path c = None \<and> vc_initrd_path c = None \<and> vc_rootfs_path c = None \<and> vc_rootfs_format c = None \<and>
     vc_comm_channel c \<noteq> Some COMM_VSOCK \<and> vc_env_vars c = [] \<and> na_mode (vc_network_attachment c) = MODE_NAT \<and>
     unrestricted c"

definition firmware_guest :: "vm_config \<Rightarrow> bool" where
  "firmware_guest c \<longleftrightarrow>
     vc_guest_os c \<noteq> MACOS \<and> vc_boot_mode c = FIRMWARE \<and> vc_backend c = Some ''qemu'' \<and> vc_kernel_path c = None \<and>
     vc_rootfs_path c \<noteq> None \<and> vc_macos_machine c = None"

definition kernel_guest :: "vm_config \<Rightarrow> bool" where
  "kernel_guest c \<longleftrightarrow>
     (vc_guest_os c = ALPINE \<or> vc_guest_os c = UBUNTU) \<and> vc_boot_mode c = DIRECT_KERNEL \<and>
     vc_backend c \<noteq> Some ''vz'' \<and> vc_kernel_path c \<noteq> None \<and> vc_rootfs_path c \<noteq> None \<and> vc_macos_machine c = None"

definition bridgeable :: "vm_config \<Rightarrow> bool" where
  "bridgeable c \<longleftrightarrow>
     vc_guest_managed_networking c \<and> vc_comm_channel c \<noteq> Some COMM_SSH \<and> vc_workspace_mounts c = [] \<and>
     vc_port_forwards c = [] \<and> unrestricted c"

lemma restricted_test:
  "(case vc_internet_settings c of None \<Rightarrow> False | Some s \<Rightarrow> \<not> is_allow_all_domains s) \<longleftrightarrow> \<not> unrestricted c"
  by (simp add: unrestricted_def split: option.split)

lemma boot_mode_iff:
  "check_boot_mode_consistency c = Inr () \<longleftrightarrow> macos_guest c \<or> firmware_guest c \<or> kernel_guest c"
  unfolding check_boot_mode_consistency_def restricted_test macos_guest_def firmware_guest_def kernel_guest_def
  by (cases "vc_guest_os c"; cases "vc_boot_mode c"; cases "na_mode (vc_network_attachment c)") simp_all

lemma bridge_mode_iff:
  "check_bridge_mode_constraints c = Inr () \<longleftrightarrow> na_mode (vc_network_attachment c) = MODE_NAT \<or> bridgeable c"
  unfolding check_bridge_mode_constraints_def restricted_test bridgeable_def
  by (cases "na_mode (vc_network_attachment c)") simp_all


text \<open>
  A network record that was accepted is accepted again unchanged, also after a proxy port was
  added to a private network, so re-validating it cannot fail; and what is accepted is either a private
  network with all addresses set and no bridge, or a bridge without any of them.
\<close>

theorem network_config_revalidates:
  assumes "validate_network_config data = Inr n"
  shows "validate_network_config n = Inr n \<and>
    (case nc_mode n of
       MODE_NAT \<Rightarrow> nc_bridge n = None \<and> nc_guest_ip n \<noteq> None \<and> nc_gateway_ip n \<noteq> None \<and> nc_netmask n \<noteq> None \<and>
         (\<forall>port. 1 \<le> port \<and> port \<le> 65535 \<longrightarrow>
           validate_network_config (n\<lparr>nc_egress_proxy_host_port := Some port\<rparr>) =
             Inr (n\<lparr>nc_egress_proxy_host_port := Some port\<rparr>))
     | MODE_BRIDGE \<Rightarrow> nc_bridge n \<noteq> None \<and> nc_guest_ip n = None \<and> nc_gateway_ip n = None \<and> nc_netmask n = None \<and>
         nc_ssh_host_port n = None \<and> nc_egress_proxy_host_port n = None)"
proof -
  have n: "n = fill_nat_defaults data" and ok: "check_nat_bridge_consistency n = Inr ()"
    and port: "\<not> (case nc_egress_proxy_host_port n of None \<Rightarrow> False | Some p \<Rightarrow> p < 1 \<or> 65535 < p)"
    using assms unfolding validate_network_config_def Let_def by (auto simp: rbind_Inr_iff raise_if_Inr_iff)
  show ?thesis
  proof (cases "nc_mode n")
    case MODE_NAT
    then have set: "nc_bridge n = None" "nc_guest_ip n \<noteq> None" "nc_gateway_ip n \<noteq> None" "nc_netmask n \<noteq> None"
      using ok by (auto simp: check_nat_bridge_consistency_def split: if_splits)
    then have fill: "fill_nat_defaults n = n" using MODE_NAT by (auto simp: fill_nat_defaults_def)
    have again: "validate_network_config (n\<lparr>nc_egress_proxy_host_port := Some p\<rparr>) =
        Inr (n\<lparr>nc_egress_proxy_host_port := Some p\<rparr>)" if "1 \<le> p" "p \<le> 65535" for p
      using set MODE_NAT that
      by (auto simp: validate_network_config_def fill_nat_defaults_def check_nat_bridge_consistency_def)
    have "validate_network_config n = Inr n"
      using ok port by (simp add: validate_network_config_def fill)
    then show ?thesis using MODE_NAT set again by simp
  next
    case MODE_BRIDGE
    then have "validate_network_config n = Inr n"
      using ok port by (simp add: validate_network_config_def fill_nat_defaults_def)
    then show ?thesis using MODE_BRIDGE ok by (auto simp: check_nat_bridge_consistency_def split: if_splits)
  qed
qed

theorem network_config_revalidates_witness:
  "validate_network_config
     \<lparr>nc_guest_ip = Some ''172.16.0.2'', nc_gateway_ip = Some ''172.16.0.1'', nc_netmask = Some ''255.255.255.0'',
      nc_tap_device = ''tap0'', nc_guest_mac = ''06:00:ac:10:00:02'', nc_ssh_host_port = None,
      nc_egress_proxy_host_port = Some 40000, nc_mode = MODE_NAT, nc_bridge = None\<rparr> = Inr
     \<lparr>nc_guest_ip = Some ''172.16.0.2'', nc_gateway_ip = Some ''172.16.0.1'', nc_netmask = Some ''255.255.255.0'',
      nc_tap_device = ''tap0'', nc_guest_mac = ''06:00:ac:10:00:02'', nc_ssh_host_port = None,
      nc_egress_proxy_host_port = Some 40000, nc_mode = MODE_NAT, nc_bridge = None\<rparr>"
proof -
  let ?raw = "\<lparr>nc_guest_ip = Some ''172.16.0.2'', nc_gateway_ip = None, nc_netmask = None,
      nc_tap_device = ''tap0'', nc_guest_mac = ''06:00:ac:10:00:02'', nc_ssh_host_port = None,
      nc_egress_proxy_host_port = None, nc_mode = MODE_NAT, nc_bridge = None\<rparr>"
  have "validate_network_config ?raw = Inr (fill_nat_defaults ?raw)"
    by (simp add: validate_network_config_def fill_nat_defaults_def check_nat_bridge_consistency_def)
  from network_config_revalidates [OF this] show ?thesis by (simp add: fill_nat_defaults_def)
qed

section \<open>Names, methods, viewports\<close>

lemma strip_last: "strip s \<noteq> [] \<Longrightarrow> \<not> is_space (last (strip s))"
  by (simp add: strip_def rstrip_chars_last)

text \<open>
  A bridge attachment that is accepted names a Linux interface: 1 to 15 characters, all of them letters,
  digits, \<open>_\<close>, \<open>.\<close> or \<open>-\<close> (the newline that the pattern itself would let through is stripped before), and exactly
  the bridge mode carries a name.
\<close>

theorem network_attachment_bridge_name:
  assumes "network_attachment mode bridge = Inr a"
  shows "na_mode a = mode \<and>
    (case na_bridge a of
       None \<Rightarrow> mode = MODE_NAT \<and> bridge = None
     | Some b \<Rightarrow> mode = MODE_BRIDGE \<and> b \<noteq> [] \<and> length b \<le> 15 \<and> list_all bridge_char b \<and> bridge = Some (the bridge) \<and>
         b = strip (the bridge))"
proof -
  obtain v where v: "validate_bridge_name bridge = Inr v" "a = \<lparr>na_mode = mode, na_bridge = v\<rparr>"
    "check_mode_bridge_consistency \<lparr>na_mode = mode, na_bridge = v\<rparr> = Inr ()"
    using assms unfolding network_attachment_def Let_def by (auto simp: rbind_Inr_iff)
  show ?thesis
  proof (cases bridge)
    case None
    then show ?thesis using v
      by (cases mode) (auto simp: validate_bridge_name_def check_mode_bridge_consistency_def)
  next
    case (Some raw)
    let ?b = "strip raw"
    have b: "v = Some ?b" "?b \<noteq> []" "length ?b \<le> 15" "bridge_match ?b"
      using v(1) Some by (auto simp: validate_bridge_name_def Let_def split: if_splits)
    have "last ?b \<noteq> CHR 0x0A" using strip_last [OF b(2)] by (auto simp: is_space_def)
    then have "list_all bridge_char ?b" using b(4) by (simp add: bridge_match_def)
    moreover have "mode = MODE_BRIDGE"
      using v(3) b(1) by (cases mode) (simp_all add: check_mode_bridge_consistency_def)
    ultimately show ?thesis using b v(2) Some by simp
  qed
qed

theorem network_attachment_bridge_name_witness:
  "\<exists>a. network_attachment MODE_BRIDGE (Some '' br0 '') = Inr a \<and> na_bridge a = Some ''br0''"
proof -
  have "network_attachment MODE_BRIDGE (Some '' br0 '') = Inr \<lparr>na_mode = MODE_BRIDGE, na_bridge = Some ''br0''\<rparr>"
    by code_simp
  from network_attachment_bridge_name [OF this] this show ?thesis by simp
qed

lemma methods_loop_result:
  assumes "set seen = set normalized" "distinct normalized" "[] \<notin> set normalized"
  shows "set (methods_loop ms seen normalized) = set normalized \<union> ((\<lambda>m. upper (strip m)) ` set ms - {[]}) \<and>
    distinct (methods_loop ms seen normalized) \<and> [] \<notin> set (methods_loop ms seen normalized)"
  using assms by (induction ms seen normalized rule: methods_loop.induct) (auto simp: Let_def)

lemma normalize_methods_result:
  assumes "normalize_methods v = Inr r"
  shows "distinct r \<and> r \<noteq> [] \<and> set r = (\<lambda>m. upper (strip m)) ` set v - {[]}"
  using assms methods_loop_result [of "[]" "[]" v] by (auto simp: normalize_methods_def Let_def split: if_splits)

lemma validate_viewport_result:
  assumes "validate_viewport viewport width height = Inr (w, h)"
  shows "640 \<le> w \<and> w \<le> 7680 \<and> 480 \<le> h \<and> h \<le> 4320 \<and>
    pred_option (\<lambda>i. i = w) width \<and> pred_option (\<lambda>i. i = h) height \<and>
    (case viewport of VP_ABSENT \<Rightarrow> True | VP_OBJECT v \<Rightarrow> bv_width v = w \<and> bv_height v = h
     | VP_MAPPING vw vh \<Rightarrow> pred_option (\<lambda>i. i = w) vw \<and> pred_option (\<lambda>i. i = h) vh)"
  using assms
  by (cases viewport; cases width; cases height)
     (auto simp: validate_viewport_def normalize_viewport_def Let_def split: if_splits option.splits)

text \<open>
  The viewport of a browser session is unambiguous: an accepted pair of sizes is in range and agrees
  with every value the caller gave, in the nested object, in the mapping or in the flat fields; with none of
  them it is 1280 by 720. Conflicting values are never accepted.
\<close>

theorem viewport_unambiguous:
  assumes "validate_viewport viewport width height = Inr (w, h)"
  shows "640 \<le> w \<and> w \<le> 7680 \<and> 480 \<le> h \<and> h \<le> 4320 \<and>
    pred_option (\<lambda>i. i = w) width \<and> pred_option (\<lambda>i. i = h) height \<and>
    (case viewport of
       VP_ABSENT \<Rightarrow> (width \<noteq> None \<or> w = 1280) \<and> (height \<noteq> None \<or> h = 720)
     | VP_OBJECT v \<Rightarrow> bv_width v = w \<and> bv_height v = h
     | VP_MAPPING vw vh \<Rightarrow> pred_option (\<lambda>i. i = w) vw \<and> pred_option (\<lambda>i. i = h) vh)"
  using validate_viewport_result [OF assms] assms
  by (cases viewport) (auto simp: validate_viewport_def normalize_viewport_def split: if_splits option.splits)

theorem viewport_unambiguous_witness:
  "validate_viewport (VP_MAPPING (Some 800) None) None (Some 600) = Inl (ValueError ''viewport.height must match viewport_height'') \<and>
   validate_viewport (VP_MAPPING (Some 800) (Some 600)) None (Some 600) = Inr (800, 600) \<and>
   480 \<le> (600 :: int)"
proof -
  have "validate_viewport (VP_MAPPING (Some 800) (Some 600)) None (Some 600) = Inr (800, 600)" by code_simp
  moreover have "validate_viewport (VP_MAPPING (Some 800) None) None (Some 600) =
      Inl (ValueError ''viewport.height must match viewport_height'')" by code_simp
  ultimately show ?thesis using viewport_unambiguous [of "VP_MAPPING (Some 800) (Some 600)" None "Some 600"] by blast
qed

end
