(* ===== verification/Backend_Select.thy ===== *)
theory Backend_Select
  imports Vm_Rules
begin

text \<open>
  The static decisions made before a computer is created: which hypervisor backend runs it
  (\<open>runtime/backends.py\<close>), over which channel the host talks to it (\<open>comm/select.py\<close>), and whether
  the requested network restrictions can be enforced there (\<open>_network_policy.py\<close>). The probes of the host
  (programs on the path, devices, the environment variable \<open>CELESTO_BACKEND\<close>, the operating system as
  \<open>platform\<close> and \<open>sys\<close> report it) are a record that every function takes.
\<close>

section \<open>Probing backends\<close>

record host_probe =
  hp_system :: string
  hp_machine :: string
  hp_sys_platform :: string
  hp_env_backend :: "string option"
  hp_firecracker :: bool
  hp_kvm :: bool
  hp_which :: "string \<Rightarrow> bool"
  hp_libkrun :: bool
  hp_macos_supported :: bool
  hp_lume :: bool
  hp_vhost_vsock :: bool

record backend_status =
  bs_available :: bool
  bs_primary_present :: bool
  bs_message :: "string option"

definition SUPPORTED_BACKENDS :: "string list" where
  "SUPPORTED_BACKENDS = [''firecracker'', ''qemu'', ''libkrun'', ''vz'']"

definition qemu_system_candidates :: "host_probe \<Rightarrow> string list" where
  "qemu_system_candidates h =
     (let arch = lower (hp_machine h) in
      if arch \<in> {''arm64'', ''aarch64''} then [''qemu-system-aarch64'', ''qemu-system-x86_64'']
      else if arch \<in> {''x86_64'', ''amd64''} then [''qemu-system-x86_64'', ''qemu-system-aarch64'']
      else [''qemu-system-aarch64'', ''qemu-system-x86_64''])"

definition qemu_system_binary :: "host_probe \<Rightarrow> string option" where
  "qemu_system_binary h = find (hp_which h) (qemu_system_candidates h)"

definition firecracker_status :: "host_probe \<Rightarrow> backend_status" where
  "firecracker_status h =
     (if \<not> hp_firecracker h then \<lparr>bs_available = False, bs_primary_present = False, bs_message = Some ''firecracker missing''\<rparr>
      else if \<not> hp_kvm h then \<lparr>bs_available = False, bs_primary_present = True, bs_message = Some ''kvm unusable''\<rparr>
      else \<lparr>bs_available = True, bs_primary_present = True, bs_message = None\<rparr>)"

definition qemu_status :: "host_probe \<Rightarrow> backend_status" where
  "qemu_status h =
     (let has_system = qemu_system_binary h \<noteq> None; has_img = hp_which h ''qemu-img'' in
      if has_system \<and> has_img then \<lparr>bs_available = True, bs_primary_present = True, bs_message = None\<rparr>
      else \<lparr>bs_available = False, bs_primary_present = has_system, bs_message = Some ''qemu missing''\<rparr>)"

definition libkrun_status :: "host_probe \<Rightarrow> backend_status" where
  "libkrun_status h =
     (if hp_libkrun h then \<lparr>bs_available = True, bs_primary_present = True, bs_message = None\<rparr>
      else \<lparr>bs_available = False, bs_primary_present = False, bs_message = Some ''libkrun missing''\<rparr>)"

definition is_apple_silicon :: "host_probe \<Rightarrow> bool" where
  "is_apple_silicon h \<longleftrightarrow> hp_system h = ''Darwin'' \<and> lower (hp_machine h) \<in> {''arm64'', ''aarch64''}"

definition vz_status :: "host_probe \<Rightarrow> backend_status" where
  "vz_status h =
     (if \<not> is_apple_silicon h
      then \<lparr>bs_available = False, bs_primary_present = False, bs_message = Some ''needs an Apple Silicon Mac''\<rparr>
      else if \<not> hp_macos_supported h
      then \<lparr>bs_available = False, bs_primary_present = False, bs_message = Some ''needs macOS 14 or newer''\<rparr>
      else if \<not> hp_lume h
      then \<lparr>bs_available = False, bs_primary_present = False, bs_message = Some ''macOS runtime missing''\<rparr>
      else \<lparr>bs_available = True, bs_primary_present = True, bs_message = None\<rparr>)"

definition backend_status_of :: "host_probe \<Rightarrow> string \<Rightarrow> backend_status option" where
  "backend_status_of h backend =
     (if backend = ''firecracker'' then Some (firecracker_status h)
      else if backend = ''qemu'' then Some (qemu_status h)
      else if backend = ''libkrun'' then Some (libkrun_status h)
      else if backend = ''vz'' then Some (vz_status h)
      else None)"

section \<open>Choosing a backend\<close>

definition AUTO_PREFERENCE :: "string \<Rightarrow> string list" where
  "AUTO_PREFERENCE system =
     (if system = ''darwin'' then [''qemu'', ''libkrun''] else [''firecracker'', ''qemu'', ''libkrun''])"

text \<open>The loop over the preferences; \<open>Inl\<close> when the status of a listed backend is missing.\<close>

fun auto_loop ::
  "host_probe \<Rightarrow> string list \<Rightarrow> (string \<times> backend_status) option \<Rightarrow> (string \<times> backend_status) option result" where
  "auto_loop h [] partial = Inr partial"
| "auto_loop h (backend # rest) partial =
     (case backend_status_of h backend of
        None \<Rightarrow> Inl (AssertionError ''preference lists only supported backends'')
      | Some status \<Rightarrow>
          if bs_available status then Inr (Some (backend, status))
          else auto_loop h rest
            (if partial = None \<and> bs_primary_present status then Some (backend, status) else partial))"

definition auto_backend :: "host_probe \<Rightarrow> (string \<times> backend_status option) result" where
  "auto_backend h =
     (let preference = AUTO_PREFERENCE (lower (hp_system h)) in
      rbind (auto_loop h preference None) (\<lambda>found.
        case found of
          Some (backend, status) \<Rightarrow> Inr (backend, Some status)
        | None \<Rightarrow> Inr (hd preference, backend_status_of h (hd preference))))"

text \<open>\<open>(requested or os.environ.get("CELESTO_BACKEND") or "auto").strip().lower()\<close>\<close>

definition raw_backend :: "host_probe \<Rightarrow> string option \<Rightarrow> string" where
  "raw_backend h requested =
     (let truthy = (\<lambda>x. case x of None \<Rightarrow> False | Some s \<Rightarrow> s \<noteq> []) in
      lower (strip (if truthy requested then the requested
                    else if truthy (hp_env_backend h) then the (hp_env_backend h) else ''auto'')))"

definition resolve_backend_status :: "host_probe \<Rightarrow> string option \<Rightarrow> (string \<times> backend_status option) result" where
  "resolve_backend_status h requested =
     (let raw = raw_backend h requested in
      if raw = ''auto'' then auto_backend h
      else if raw \<in> set SUPPORTED_BACKENDS then Inr (raw, None)
      else Inl (ValueError ''Unsupported backend''))"

definition resolve_backend :: "host_probe \<Rightarrow> string option \<Rightarrow> string result" where
  "resolve_backend h requested = rbind (resolve_backend_status h requested) (\<lambda>bs. Inr (fst bs))"

definition resolve_backend_for_guest :: "host_probe \<Rightarrow> string option \<Rightarrow> guest_os \<Rightarrow> string result" where
  "resolve_backend_for_guest h requested os =
     (if os \<noteq> MACOS then resolve_backend h requested
      else if raw_backend h requested \<in> {''auto'', ''vz''} then Inr ''vz''
      else Inl (ValueError ''macOS guests require backend vz''))"

definition ensure_backend_available :: "host_probe \<Rightarrow> string \<Rightarrow> backend_status option \<Rightarrow> unit result" where
  "ensure_backend_available h backend status =
     (case (case status of None \<Rightarrow> backend_status_of h backend | Some s \<Rightarrow> Some s) of
        None \<Rightarrow> Inl (ValueError ''Unsupported backend'')
      | Some s \<Rightarrow>
          if bs_available s then Inr ()
          else Inl (CelestoError (case bs_message s of Some m \<Rightarrow> m | None \<Rightarrow> ''backend not available'')))"

section \<open>The control channel\<close>

definition host_supports_vsock :: "host_probe \<Rightarrow> bool" where
  "host_supports_vsock h \<longleftrightarrow> hp_system h = ''Linux'' \<and> hp_vhost_vsock h"

definition vsock_possible :: "host_probe \<Rightarrow> string option \<Rightarrow> guest_os option \<Rightarrow> bool \<Rightarrow> bool" where
  "vsock_possible h backend os host_vsock \<longleftrightarrow>
     os \<noteq> Some WINDOWS \<and>
     (backend = Some ''qemu'' \<and> host_vsock \<or> backend = Some ''firecracker'' \<and> hp_system h = ''Linux'')"

definition resolve_comm_channel ::
  "host_probe \<Rightarrow> comm_kind option \<Rightarrow> comm_kind option \<Rightarrow> string option \<Rightarrow> guest_os option \<Rightarrow> bool option \<Rightarrow>
   comm_kind result" where
  "resolve_comm_channel h requested config_channel backend os host_vsock_supported =
     (let host_vsock = (case host_vsock_supported of Some b \<Rightarrow> b | None \<Rightarrow> host_supports_vsock h);
          effective = (case requested of Some k \<Rightarrow> Some k | None \<Rightarrow> config_channel)
      in case effective of
          Some COMM_SSH \<Rightarrow> Inr COMM_SSH
        | Some COMM_VSOCK \<Rightarrow>
            if os = Some WINDOWS then Inl (VsockNotSupportedError ''vsock_not_supported_for_windows'')
            else if \<not> (backend = Some ''qemu'' \<or> backend = Some ''firecracker'')
            then Inl (VsockNotSupportedError ''vsock_not_supported_for_backend'')
            else if backend = Some ''qemu'' \<and> \<not> host_vsock
            then Inl (VsockNotSupportedError ''vsock_host_device_missing'')
            else if backend = Some ''firecracker'' \<and> hp_system h \<noteq> ''Linux''
            then Inl (VsockNotSupportedError ''vsock_not_supported_for_firecracker_host'')
            else Inr COMM_VSOCK
        | None \<Rightarrow> Inr (if vsock_possible h backend os host_vsock then COMM_VSOCK else COMM_SSH))"

section \<open>Network restrictions\<close>

definition validate_network_policy_options ::
  "host_probe \<Rightarrow> internet_settings \<Rightarrow> string \<Rightarrow> guest_os \<Rightarrow> comm_kind option \<Rightarrow> bool \<Rightarrow> bool \<Rightarrow> attach_mode \<Rightarrow>
   qemu_network \<Rightarrow> unit result" where
  "validate_network_policy_options h settings backend os comm_channel has_mounts has_forwards network_mode qemu_network =
     (let sys = hp_sys_platform h in
      if is_allow_all_domains settings then Inr ()
      else if os = WINDOWS \<or> os = MACOS then Inl (ValidationError ''guest does not support network restrictions'')
      else if network_mode \<noteq> MODE_NAT then Inl (ValidationError ''restrictions require private networking'')
      else if is_mode settings = Some NET_PUBLIC then
        if has_mounts \<or> has_forwards then Inl (ValidationError ''public mode cannot use shared folders or exposed ports'')
        else if backend \<noteq> ''qemu'' \<or> qemu_network \<noteq> QN_SLIRP \<or> sys \<notin> {''linux'', ''darwin''}
        then Inl (ValidationError ''public mode requires QEMU on macOS or Linux'')
        else Inr ()
      else if has_explicit_restrictions settings then
        if backend = ''qemu'' then
          if is_mode settings = Some NET_RESTRICTED \<and> (sys \<noteq> ''linux'' \<or> qemu_network \<noteq> QN_TAP)
          then Inl (ValidationError ''QEMU address restrictions require Linux TAP networking'')
          else if sys \<notin> {''linux'', ''darwin''} \<or> qemu_network = QN_TAP \<and> sys \<noteq> ''linux''
          then Inl (ValidationError ''QEMU network configuration is unsupported'')
          else if qemu_network = QN_TAP \<and> has_forwards
          then Inl (ValidationError ''QEMU TAP does not support port_forwards'')
          else Inr ()
        else if backend \<noteq> ''firecracker'' \<or> sys \<noteq> ''linux''
        then Inl (ValidationError ''network mode requires Linux Firecracker'')
        else if has_mounts \<or> has_forwards
        then Inl (ValidationError ''network mode cannot use shared folders or exposed ports'')
        else if comm_channel = Some COMM_SSH then Inl (ValidationError ''set comm_channel vsock'')
        else Inr ()
      else if backend \<noteq> ''firecracker'' \<and> \<not> (backend = ''qemu'' \<and> qemu_network = QN_TAP)
      then Inl (ValidationError ''configuration cannot enforce network restrictions'')
      else Inr ())"

section \<open>Properties of the choice of backend\<close>

definition runnable :: "host_probe \<Rightarrow> string \<Rightarrow> bool" where
  "runnable h backend = (case backend_status_of h backend of None \<Rightarrow> False | Some s \<Rightarrow> bs_available s)"

definition partly_installed :: "host_probe \<Rightarrow> string \<Rightarrow> bool" where
  "partly_installed h backend = (case backend_status_of h backend of None \<Rightarrow> False | Some s \<Rightarrow> bs_primary_present s)"

text \<open>The specification: the first runnable backend, else the first partly installed, else the first.\<close>

definition best_backend :: "host_probe \<Rightarrow> string list \<Rightarrow> string" where
  "best_backend h preference =
     (case find (runnable h) preference of
        Some b \<Rightarrow> b
      | None \<Rightarrow> (case find (partly_installed h) preference of Some b \<Rightarrow> b | None \<Rightarrow> hd preference))"

lemma status_supported: "backend_status_of h b \<noteq> None \<longleftrightarrow> b \<in> set SUPPORTED_BACKENDS"
  by (auto simp: backend_status_of_def SUPPORTED_BACKENDS_def)

lemma auto_loop_result:
  assumes "list_all (\<lambda>b. b \<in> set SUPPORTED_BACKENDS) bs"
  shows "auto_loop h bs partial = Inr
    (case find (runnable h) bs of
       Some b \<Rightarrow> Some (b, the (backend_status_of h b))
     | None \<Rightarrow> (case partial of
         Some p \<Rightarrow> Some p
       | None \<Rightarrow> map_option (\<lambda>b. (b, the (backend_status_of h b))) (find (partly_installed h) bs)))"
  using assms
proof (induction bs arbitrary: partial)
  case (Cons b bs)
  then obtain s where s: "backend_status_of h b = Some s" using status_supported by fastforce
  show ?case using Cons s
    by (cases partial) (auto simp: runnable_def partly_installed_def split: option.split)
qed (simp split: option.split)

lemma preference_supported: "list_all (\<lambda>b. b \<in> set SUPPORTED_BACKENDS) (AUTO_PREFERENCE system)"
  by (simp add: AUTO_PREFERENCE_def SUPPORTED_BACKENDS_def)

lemma preference_neq_Nil [simp]: "AUTO_PREFERENCE system \<noteq> []"
  by (simp add: AUTO_PREFERENCE_def)

lemma find_Some_mem: "find p xs = Some x \<Longrightarrow> x \<in> set xs \<and> p x"
  by (auto simp: find_Some_iff)

lemma best_backend_mem: "best_backend h (AUTO_PREFERENCE system) \<in> set (AUTO_PREFERENCE system)"
  by (auto simp: best_backend_def split: option.split dest: find_Some_mem)

lemma auto_backend_eq:
  fixes h
  defines "b \<equiv> best_backend h (AUTO_PREFERENCE (lower (hp_system h)))"
  shows "auto_backend h = Inr (b, backend_status_of h b) \<and> backend_status_of h b \<noteq> None"
proof
  let ?pref = "AUTO_PREFERENCE (lower (hp_system h))"
  have mem: "x \<in> set SUPPORTED_BACKENDS" if "x \<in> set ?pref" for x
    using preference_supported that by (auto simp: list_all_iff)
  show "backend_status_of h b \<noteq> None" using best_backend_mem mem unfolding b_def status_supported by blast
  have known: "Some (the (backend_status_of h x)) = backend_status_of h x" if "x \<in> set ?pref" for x
    using mem [OF that] status_supported by fastforce
  then show "auto_backend h = Inr (b, backend_status_of h b)"
    using auto_loop_result [OF preference_supported, of h "lower (hp_system h)" None]
    by (auto simp: auto_backend_def b_def best_backend_def Let_def split: option.split dest: find_Some_mem)
qed

text \<open>
  \<^bold>\<open>C34\<close>. Choosing a backend: automatic selection never fails and picks the first runnable backend of the platform's
  preference list (failing that, the first that is partly installed, then the platform default), so it never
  picks an unusable backend while a usable one is listed; an explicit request is taken as it is; and what
  \<open>ensure_backend_available\<close> lets through is a supported backend that can run here.
\<close>

theorem resolve_backend_sound:
  assumes "resolve_backend_status h requested = Inr (b, status)"
  shows "b \<in> {''firecracker'', ''qemu'', ''libkrun'', ''vz''} \<and>
    b = (if raw_backend h requested = ''auto'' then best_backend h (AUTO_PREFERENCE (lower (hp_system h)))
         else raw_backend h requested) \<and>
    (ensure_backend_available h b status = Inr () \<longleftrightarrow> runnable h b) \<and>
    (raw_backend h requested = ''auto'' \<and> list_ex (runnable h) (AUTO_PREFERENCE (lower (hp_system h))) \<longrightarrow>
       runnable h b)"
proof (cases "raw_backend h requested = ''auto''")
  case True
  let ?pref = "AUTO_PREFERENCE (lower (hp_system h))"
  have b: "b = best_backend h ?pref" "status = backend_status_of h b" "backend_status_of h b \<noteq> None"
    using assms True auto_backend_eq [of h] by (auto simp: resolve_backend_status_def)
  have "ensure_backend_available h b status = Inr () \<longleftrightarrow> runnable h b"
    using b(2,3) by (auto simp: ensure_backend_available_def runnable_def split: if_splits)
  moreover have "runnable h b" if "list_ex (runnable h) ?pref"
  proof -
    have "find (runnable h) ?pref \<noteq> None" using that by (auto simp: find_None_iff list_ex_iff)
    then obtain x where "find (runnable h) ?pref = Some x" by blast
    then show ?thesis using b(1) find_Some_mem by (fastforce simp: best_backend_def)
  qed
  ultimately show ?thesis using True b status_supported [of h b] by (auto simp: SUPPORTED_BACKENDS_def)
next
  case False
  then have b: "b = raw_backend h requested" "b \<in> set SUPPORTED_BACKENDS" "status = None"
    using assms by (auto simp: resolve_backend_status_def Let_def split: if_splits)
  obtain s where "backend_status_of h b = Some s" using b(2) status_supported by fastforce
  then have "ensure_backend_available h b status = Inr () \<longleftrightarrow> runnable h b"
    using b(3) by (auto simp: ensure_backend_available_def runnable_def split: if_splits)
  then show ?thesis using False b by (auto simp: SUPPORTED_BACKENDS_def)
qed

definition linux_laptop :: host_probe where
  "linux_laptop =
     \<lparr>hp_system = ''Linux'', hp_machine = ''x86_64'', hp_sys_platform = ''linux'', hp_env_backend = None,
      hp_firecracker = True, hp_kvm = False, hp_which = (\<lambda>p. p \<in> {''qemu-img'', ''qemu-system-x86_64''}),
      hp_libkrun = False, hp_macos_supported = False, hp_lume = False, hp_vhost_vsock = True\<rparr>"

text \<open>Firecracker is installed without KVM access: QEMU is chosen.\<close>

theorem resolve_backend_sound_witness:
  "\<exists>status. resolve_backend_status linux_laptop None = Inr (''qemu'', status) \<and>
     ensure_backend_available linux_laptop ''qemu'' status = Inr ()"
proof -
  have run: "resolve_backend_status linux_laptop None = Inr (''qemu'', Some (qemu_status linux_laptop))" by code_simp
  have "runnable linux_laptop ''qemu''" by code_simp
  with resolve_backend_sound [OF run] run show ?thesis by blast
qed

section \<open>Properties of the channel and the restrictions\<close>

text \<open>
  The channel: vsock is only chosen where it can work (a QEMU host with the device, or Firecracker on
  Linux, and never a Windows guest); an explicit request is honoured or refused, never replaced by the other
  channel; and only an explicit vsock request is ever refused, in exactly the situations in which vsock cannot
  work.
\<close>

theorem resolve_comm_channel_sound:
  "case (case requested of Some k \<Rightarrow> Some k | None \<Rightarrow> config_channel) of
     Some COMM_SSH \<Rightarrow> resolve_comm_channel h requested config_channel backend os None = Inr COMM_SSH
   | Some COMM_VSOCK \<Rightarrow>
       if vsock_possible h backend os (host_supports_vsock h)
       then resolve_comm_channel h requested config_channel backend os None = Inr COMM_VSOCK
       else \<exists>code. resolve_comm_channel h requested config_channel backend os None = Inl (VsockNotSupportedError code)
   | None \<Rightarrow> resolve_comm_channel h requested config_channel backend os None =
       Inr (if vsock_possible h backend os (host_supports_vsock h) then COMM_VSOCK else COMM_SSH)"
  by (auto simp: resolve_comm_channel_def vsock_possible_def Let_def
      split: option.splits comm_kind.splits)



end
