(* ===== verification/Internet_Policy.thy ===== *)
theory Internet_Policy
  imports Vm_Rules Ip_Address Ip_Pool
begin

text \<open>
  The normalisation of \<open>InternetSettings\<close> (\<open>types.py\<close>): address ranges are parsed strictly, checked against
  the blocks that must stay closed, and collapsed; domain entries are reduced to host names. The parts of the
  standard library this runs (\<open>IPv4Network\<close>, \<open>collapse_addresses\<close>, \<open>urlparse\<close>) are written out. A network is
  its base address and prefix length.
\<close>

section \<open>IPv4 networks\<close>

text \<open>\<open>_count_righthand_zero_bits\<close> and \<open>bit_length() - 1\<close>.\<close>

fun trailing_zeros :: "nat \<Rightarrow> int \<Rightarrow> nat" where
  "trailing_zeros 0 n = 0"
| "trailing_zeros (Suc b) n = (if odd n then 0 else Suc (trailing_zeros b (n div 2)))"

function floor_log2 :: "int \<Rightarrow> nat" where
  "floor_log2 n = (if n < 2 then 0 else Suc (floor_log2 (n div 2)))"
  by pat_completeness auto
termination by (relation "measure nat") auto

declare floor_log2.simps [simp del]

text \<open>A netmask or a host mask written in dotted form.\<close>

definition prefix_of_mask :: "int \<Rightarrow> nat option" where
  "prefix_of_mask m =
     (let z = trailing_zeros 32 m
      in if m div 2 ^ z = 2 ^ (32 - z) - 1 then Some (32 - z) else None)"

definition parse_prefix :: "string \<Rightarrow> nat option" where
  "parse_prefix s =
     (if s \<noteq> [] \<and> list_all is_digit s \<and> nat_of_string s \<le> 32 then Some (nat_of_string s)
      else case parse_ipv4 s of None \<Rightarrow> None
        | Some m \<Rightarrow> (case prefix_of_mask m of Some p \<Rightarrow> Some p | None \<Rightarrow> prefix_of_mask (2 ^ 32 - 1 - m)))"

text \<open>\<open>IPv4Network(s)\<close>: \<open>None\<close> is \<open>ValueError\<close>, here also for an address with host bits.\<close>

definition parse_network :: "string \<Rightarrow> ip_net option" where
  "parse_network s =
     (case split_on (CHR ''/'') s of
        [a] \<Rightarrow> map_option (\<lambda>n. (n, 32)) (parse_ipv4 a)
      | [a, p] \<Rightarrow>
          (case (parse_ipv4 a, parse_prefix p) of
             (Some n, Some k) \<Rightarrow> if n mod 2 ^ (32 - k) = 0 then Some (n, k) else None
           | _ \<Rightarrow> None)
      | _ \<Rightarrow> None)"

definition broadcast :: "ip_net \<Rightarrow> int" where
  "broadcast n = fst n + 2 ^ (32 - snd n) - 1"

definition print_ipv4 :: "int \<Rightarrow> string" where
  "print_ipv4 a =
     join_on ''.'' (map (\<lambda>o'. string_of_nat (nat o')) [a div 16777216, a div 65536 mod 256, a div 256 mod 256, a mod 256])"

definition print_network :: "ip_net \<Rightarrow> string" where
  "print_network n = print_ipv4 (fst n) @ ''/'' @ string_of_nat (snd n)"

definition overlaps :: "ip_net \<Rightarrow> ip_net \<Rightarrow> bool" where
  "overlaps n m \<longleftrightarrow>
     in_net 32 (fst m) n \<or> in_net 32 (broadcast m) n \<or> in_net 32 (fst n) m \<or> in_net 32 (broadcast n) m"

section \<open>\<open>collapse_addresses\<close>\<close>

definition supernet :: "ip_net \<Rightarrow> ip_net" where
  "supernet n = (if snd n = 0 then n else (fst n div 2 ^ (33 - snd n) * 2 ^ (33 - snd n), snd n - 1))"

function summarize_range :: "int \<Rightarrow> int \<Rightarrow> ip_net list" where
  "summarize_range first final =
     (if first > final then []
      else
        let nbits = min (trailing_zeros 32 first) (floor_log2 (final - first + 1)); next = first + 2 ^ nbits
        in (first, 32 - nbits) # (if next - 1 = 2 ^ 32 - 1 then [] else summarize_range next final))"
  by pat_completeness auto
termination by (relation "measure (\<lambda>(first, final). nat (final - first + 1))") auto

declare summarize_range.simps [simp del]

text \<open>\<open>_find_address_range\<close>: maximal runs of consecutive addresses of a sorted list.\<close>

fun find_ranges :: "int \<Rightarrow> int \<Rightarrow> int list \<Rightarrow> (int \<times> int) list" where
  "find_ranges first final [] = [(first, final)]"
| "find_ranges first final (ip # ips) =
     (if ip \<noteq> final + 1 then (first, final) # find_ranges ip ip ips else find_ranges first ip ips)"

lemma length_delete_mem: "map_of d k = Some v \<Longrightarrow> length (AList.delete k d) < length d"
  by (induction d) (auto intro: le_imp_less_Suc simp: AList.delete_eq)

lemma length_update_fresh: "map_of d k = None \<Longrightarrow> length (AList.update k v d) = Suc (length d)"
  by (induction d) (auto split: if_splits)

text \<open>
  The merge loop; the stack is \<open>to_merge\<close> with its end in front, the dictionary maps a supernet to the
  half that was seen.
\<close>

function merge_nets :: "ip_net list \<Rightarrow> (ip_net \<times> ip_net) list \<Rightarrow> (ip_net \<times> ip_net) list" where
  "merge_nets [] subnets = subnets"
| "merge_nets (net # to_merge) subnets =
     (case map_of subnets (supernet net) of
        None \<Rightarrow> merge_nets to_merge (AList.update (supernet net) net subnets)
      | Some existing \<Rightarrow>
          if existing \<noteq> net then merge_nets (supernet net # to_merge) (AList.delete (supernet net) subnets)
          else merge_nets to_merge subnets)"
  by pat_completeness auto
termination
  by (relation "measure (\<lambda>(to_merge, subnets). 2 * length to_merge + length subnets)")
     (auto simp: length_update_fresh dest: length_delete_mem)

fun skip_subsumed :: "ip_net option \<Rightarrow> ip_net list \<Rightarrow> ip_net list" where
  "skip_subsumed prev [] = []"
| "skip_subsumed prev (net # nets) =
     (if (case prev of None \<Rightarrow> False | Some l \<Rightarrow> broadcast l \<ge> broadcast net) then skip_subsumed prev nets
      else net # skip_subsumed (Some net) nets)"

definition summarize_addresses :: "int list \<Rightarrow> ip_net list" where
  "summarize_addresses ips =
     (case ips of [] \<Rightarrow> []
      | ip # rest \<Rightarrow> concat (map (\<lambda>(f, l). summarize_range f l) (find_ranges ip ip rest)))"

definition collapse_addresses :: "ip_net list \<Rightarrow> ip_net list" where
  "collapse_addresses nets =
     (let ips = sort (remdups (map fst (filter (\<lambda>n. snd n = 32) nets)));
          subnets = merge_nets (rev (summarize_addresses ips @ filter (\<lambda>n. snd n \<noteq> 32) nets)) []
      in skip_subsumed None (sort_key (\<lambda>(b, p). b * 64 + int p) (map snd subnets)))"

section \<open>Normalising the ranges\<close>

definition FORBIDDEN_BLOCKS :: "ip_net list" where
  "FORBIDDEN_BLOCKS = [(v4 172 16 0 0, 16), (v4 169 254 0 0, 16)]"

fun parse_networks :: "string list \<Rightarrow> ip_net list result" where
  "parse_networks [] = Inr []"
| "parse_networks (v # vs) =
     (case parse_network (strip v) of
        None \<Rightarrow> Inl (ValueError ''Invalid IPv4 address or range'')
      | Some n \<Rightarrow> rbind (parse_networks vs) (\<lambda>ns. Inr (n # ns)))"

definition normalize_cidrs :: "string list \<Rightarrow> string list result" where
  "normalize_cidrs entries =
     rbind (parse_networks entries) (\<lambda>networks.
       if list_ex (\<lambda>n. list_ex (overlaps n) FORBIDDEN_BLOCKS) networks
       then Inl (ValueError ''internal and link-local addresses cannot be allowed'')
       else Inr (map print_network (collapse_addresses networks)))"

section \<open>The addresses of a network\<close>

definition net_ok :: "ip_net \<Rightarrow> bool" where
  "net_ok n \<longleftrightarrow> snd n \<le> 32 \<and> 0 \<le> fst n \<and> fst n < 2 ^ 32 \<and> fst n mod 2 ^ (32 - snd n) = 0"

definition cover :: "ip_net \<Rightarrow> int set" where
  "cover n = {fst n..<fst n + 2 ^ (32 - snd n)}"

definition covers :: "ip_net list \<Rightarrow> int set" where
  "covers ns = (\<Union>n\<in>set ns. cover n)"

lemma covers_simps [simp]:
  "covers [] = {}" "covers (n # ns) = cover n \<union> covers ns" "covers (ns @ ms) = covers ns \<union> covers ms"
  "covers (rev ns) = covers ns" "covers (sort_key k ns) = covers ns"
  by (auto simp: covers_def)

lemma in_net_cover: "net_ok n \<Longrightarrow> in_net 32 a n \<longleftrightarrow> a \<in> cover n"
  using in_net_range [of n "fst n div 2 ^ (32 - snd n)" 32 a]
  by (auto simp: net_ok_def cover_def mult.commute minus_mod_eq_mult_div [symmetric])

lemma interval_overlap:
  fixes a b k l :: int
  assumes "0 < k" "0 < l"
  shows "(b \<in> {a..<a + k} \<or> b + l - 1 \<in> {a..<a + k} \<or> a \<in> {b..<b + l} \<or> a + k - 1 \<in> {b..<b + l}) \<longleftrightarrow>
    {a..<a + k} \<inter> {b..<b + l} \<noteq> {}"
  using assms by auto

lemma overlaps_iff:
  assumes "net_ok n" "net_ok m"
  shows "overlaps n m \<longleftrightarrow> cover n \<inter> cover m \<noteq> {}"
  using interval_overlap [of "2 ^ (32 - snd n)" "2 ^ (32 - snd m)" "fst m" "fst n"]
  by (simp add: overlaps_def in_net_cover assms cover_def broadcast_def)

lemma supernet_shape:
  assumes "net_ok n" "snd n \<noteq> 0"
  defines "k \<equiv> (2 :: int) ^ (32 - snd n)"
  shows "supernet n = (fst n - fst n mod (2 * k), snd n - 1)" "fst n mod (2 * k) = 0 \<or> fst n mod (2 * k) = k"
    "(2 :: int) ^ (32 - (snd n - 1)) = 2 * k"
proof -
  have e: "33 - snd n = Suc (32 - snd n)" "32 - (snd n - 1) = Suc (32 - snd n)"
    using assms(1,2) by (auto simp: net_ok_def)
  show "(2 :: int) ^ (32 - (snd n - 1)) = 2 * k" unfolding e k_def by simp
  show "supernet n = (fst n - fst n mod (2 * k), snd n - 1)"
    using assms(2) by (simp add: supernet_def e k_def minus_mod_eq_div_mult)
  have "fst n mod k = 0" using assms(1) by (simp add: net_ok_def k_def)
  then obtain q where q: "fst n = k * q" by (auto elim: dvdE simp: dvd_eq_mod_eq_0 [symmetric])
  have "fst n mod (2 * k) = k * (q mod 2)" unfolding q mult.commute [of 2 k] by (rule mult_mod_right [symmetric])
  moreover have "q mod 2 = 0 \<or> q mod 2 = 1" by auto
  ultimately show "fst n mod (2 * k) = 0 \<or> fst n mod (2 * k) = k" by auto
qed

lemma supernet_ok:
  assumes "net_ok n"
  shows "net_ok (supernet n) \<and> cover n \<subseteq> cover (supernet n)"
proof (cases "snd n = 0")
  case True
  then show ?thesis using assms by (simp add: supernet_def)
next
  case False
  note s = supernet_shape [OF assms False]
  define k where "k = (2 :: int) ^ (32 - snd n)"
  note s = s [folded k_def]
  have k: "0 < k" by (simp add: k_def)
  have m: "0 \<le> fst n mod (2 * k)" "fst n mod (2 * k) \<le> fst n"
    using assms k by (auto simp: net_ok_def intro: zmod_le_nonneg_dividend)
  have "(fst n - fst n mod (2 * k)) mod (2 * k) = 0" by (simp add: minus_mod_eq_div_mult)
  then have "net_ok (supernet n)"
    using assms m unfolding net_ok_def s(1) fst_conv snd_conv s(3) by auto
  moreover have "cover n \<subseteq> cover (supernet n)"
    using s(2) k unfolding cover_def s(1) fst_conv snd_conv s(3) k_def [symmetric] by auto
  ultimately show ?thesis by simp
qed

lemma halves_cover:
  assumes "net_ok n" "net_ok m" "supernet n = supernet m" "n \<noteq> m"
  shows "cover n \<union> cover m = cover (supernet n)"
proof (cases "snd n = 0 \<or> snd m = 0")
  case True
  then have "supernet n = n \<or> supernet n = m" using assms(3) by (auto simp: supernet_def)
  then show ?thesis using supernet_ok [OF assms(1)] supernet_ok [OF assms(2)] assms(3) by auto
next
  case False
  define k where "k = (2 :: int) ^ (32 - snd n)"
  note sn = supernet_shape [OF assms(1), folded k_def] and sm = supernet_shape [OF assms(2)]
  have p: "snd n = snd m" using sn(1) sm(1) assms(3) False by auto
  have k_m: "k = 2 ^ (32 - snd m)" by (simp add: k_def p)
  note sm = sm [folded k_m]
  have base: "fst n - fst n mod (2 * k) = fst m - fst m mod (2 * k)"
    using sn(1) sm(1) assms(3) False p by auto
  have "fst n \<noteq> fst m" using p assms(4) by (auto simp: prod_eq_iff)
  then have "fst n mod (2 * k) = 0 \<and> fst m mod (2 * k) = k \<or> fst n mod (2 * k) = k \<and> fst m mod (2 * k) = 0"
    using base sn(2) sm(2) False p by auto
  then have mods: "fst m = fst n + k \<and> fst n mod (2 * k) = 0 \<or> fst n = fst m + k \<and> fst n mod (2 * k) = k"
    using base by auto
  have k: "0 < k" by (simp add: k_def)
  have super: "cover (supernet n) = {fst n - fst n mod (2 * k)..<fst n - fst n mod (2 * k) + 2 * k}"
    unfolding cover_def using sn(1,3) False by simp
  show ?thesis
    unfolding super unfolding cover_def p [symmetric] k_def [symmetric]
    using mods k by auto
qed

section \<open>Collapsing changes no address\<close>

definition merged_ok :: "(ip_net \<times> ip_net) list \<Rightarrow> bool" where
  "merged_ok d \<longleftrightarrow> keys_distinct d \<and> (\<forall>(s, n)\<in>set d. net_ok n \<and> supernet n = s)"

lemma covers_update:
  "map_of d k = None \<Longrightarrow> covers (map snd (AList.update k v d)) = cover v \<union> covers (map snd d)"
  by (induction d) (auto split: if_splits)

lemma covers_delete:
  assumes "keys_distinct d" "map_of d k = Some v"
  shows "covers (map snd d) = cover v \<union> covers (map snd (AList.delete k d))"
  using assms
proof (induction d)
  case (Cons p d)
  show ?case
  proof (cases "fst p = k")
    case True
    then have "AList.delete k d = d" using Cons.prems by (intro delete_id) auto
    then show ?thesis using Cons.prems True by (cases p) auto
  qed (use Cons in \<open>cases p; auto\<close>)
qed simp

lemma merged_ok_update:
  "merged_ok d \<Longrightarrow> net_ok n \<Longrightarrow> merged_ok (AList.update (supernet n) n d)"
proof -
  assume a: "merged_ok d" "net_ok n"
  have "set (AList.update (supernet n) n d) \<subseteq> insert (supernet n, n) (set d)" by (induction d) auto
  with a show ?thesis by (auto simp: merged_ok_def keys_distinct_update)
qed

lemma merged_ok_delete: "merged_ok d \<Longrightarrow> merged_ok (AList.delete k d)"
  unfolding merged_ok_def using keys_distinct_delete [of d k] by (auto simp: AList.delete_eq)

lemma merge_nets_covers:
  assumes "list_all net_ok ns" "merged_ok d"
  shows "merged_ok (merge_nets ns d) \<and> covers (map snd (merge_nets ns d)) = covers ns \<union> covers (map snd d)"
  using assms
proof (induction ns d rule: merge_nets.induct)
  case (2 n ns d)
  show ?case
  proof (cases "map_of d (supernet n)")
    case None
    then show ?thesis using "2.IH"(1) [OF None] "2.prems" by (auto simp: merged_ok_update covers_update)
  next
    case (Some m)
    then have m: "(supernet n, m) \<in> set d" by (rule map_of_SomeD)
    then have mok: "net_ok m" "supernet m = supernet n" and dist: "keys_distinct d"
      using "2.prems"(2) by (auto simp: merged_ok_def)
    note cd = covers_delete [OF dist Some]
    show ?thesis
    proof (cases "m = n")
      case True
      then have "cover n \<subseteq> covers (map snd d)" using cd by auto
      then show ?thesis using "2.IH"(3) [OF Some] "2.prems" True Some by auto
    next
      case False
      have "cover n \<union> cover m = cover (supernet n)"
        using halves_cover [of n m] "2.prems"(1) mok False by auto
      moreover have "net_ok (supernet n)" using supernet_ok "2.prems"(1) by simp
      ultimately show ?thesis
        using "2.IH"(2) [OF Some False] "2.prems" Some False cd by (auto simp: merged_ok_delete)
    qed
  qed
qed simp

lemma skip_subsumed_covers:
  assumes "sorted (map fst ns)" "list_all (\<lambda>n. fst l \<le> fst n) ns"
  shows "cover l \<union> covers (skip_subsumed (Some l) ns) = cover l \<union> covers ns"
  using assms
proof (induction ns arbitrary: l)
  case (Cons n ns)
  have le: "fst l \<le> fst n" and s: "sorted (map fst ns)" and rest: "list_all (\<lambda>m. fst n \<le> fst m) ns"
    using Cons.prems by (auto simp: list_all_iff)
  show ?case
  proof (cases "broadcast l \<ge> broadcast n")
    case True
    then have "cover n \<subseteq> cover l" using le by (auto simp: cover_def broadcast_def)
    moreover have "list_all (\<lambda>m. fst l \<le> fst m) ns" using Cons.prems by simp
    ultimately show ?thesis using Cons.IH [OF s] True by auto
  next
    case False
    then show ?thesis using Cons.IH [OF s rest] by auto
  qed
qed simp

lemma skip_subsumed_None: "sorted (map fst ns) \<Longrightarrow> covers (skip_subsumed None ns) = covers ns"
proof (cases ns)
  case (Cons n ms)
  assume "sorted (map fst ns)"
  then show ?thesis using Cons skip_subsumed_covers [of ms n] by (simp add: list_all_iff)
qed simp

lemma set_skip_subsumed: "set (skip_subsumed l ns) \<subseteq> set ns"
  by (induction l ns rule: skip_subsumed.induct) auto

lemma trailing_zeros_dvd: "(2 :: int) ^ trailing_zeros b n dvd n"
proof (induction b n rule: trailing_zeros.induct)
  case (2 b n)
  show ?case
  proof (cases "odd n")
    case False
    then have "2 * (2 :: int) ^ trailing_zeros b (n div 2) dvd 2 * (n div 2)" using 2 by (intro mult_dvd_mono) auto
    moreover have "2 * (n div 2) = n" using False by simp
    ultimately show ?thesis using False by (simp only: trailing_zeros.simps if_False power_Suc)
  qed simp
qed simp

lemma trailing_zeros_le: "trailing_zeros b n \<le> b"
  by (induction b n rule: trailing_zeros.induct) auto

lemma floor_log2_le: "1 \<le> n \<Longrightarrow> (2 :: int) ^ floor_log2 n \<le> n"
proof (induction n rule: floor_log2.induct)
  case (1 n)
  show ?case
  proof (cases "n < 2")
    case True
    then show ?thesis using 1 by (simp add: floor_log2.simps [of n])
  next
    case False
    then have "2 * (2 :: int) ^ floor_log2 (n div 2) \<le> 2 * (n div 2)" using 1 by simp
    then show ?thesis using False by (simp add: floor_log2.simps [of n])
  qed
qed

lemma ivl_split:
  fixes a k b :: int
  shows "0 < k \<Longrightarrow> a + k - 1 \<le> b \<Longrightarrow> {a..<a + k} \<union> {a + k..b} = {a..b}"
  by auto

lemma summarize_range_covers:
  assumes "0 \<le> first" "final < 2 ^ 32"
  shows "list_all net_ok (summarize_range first final) \<and> covers (summarize_range first final) = {first..final}"
  using assms
proof (induction first final rule: summarize_range.induct)
  case (1 first final)
  show ?case
  proof (cases "first > final")
    case True
    then show ?thesis by (simp add: summarize_range.simps [of first])
  next
    case False
    define nbits where "nbits = min (trailing_zeros 32 first) (floor_log2 (final - first + 1))"
    have le32: "nbits \<le> 32" using trailing_zeros_le [of 32 first] by (simp add: nbits_def)
    have "(2 :: int) ^ nbits dvd 2 ^ trailing_zeros 32 first" by (rule le_imp_power_dvd) (simp add: nbits_def)
    then have dvd: "(2 :: int) ^ nbits dvd first" using trailing_zeros_dvd dvd_trans by blast
    have "(2 :: int) ^ nbits \<le> 2 ^ floor_log2 (final - first + 1)"
      by (rule power_increasing) (simp_all add: nbits_def)
    then have fits: "first + 2 ^ nbits - 1 \<le> final" using floor_log2_le [of "final - first + 1"] False by linarith
    have ok: "net_ok (first, 32 - nbits)"
      using "1.prems" False dvd le32 by (auto simp: net_ok_def)
    have cov: "cover (first, 32 - nbits) = {first..<first + 2 ^ nbits}" using le32 by (simp add: cover_def)
    have pos: "(0 :: int) < 2 ^ nbits" by simp
    have eq: "summarize_range first final = (first, 32 - nbits) #
        (if first + 2 ^ nbits - 1 = 2 ^ 32 - 1 then [] else summarize_range (first + 2 ^ nbits) final)"
      using False by (subst summarize_range.simps) (simp add: nbits_def Let_def)
    show ?thesis
    proof (cases "first + (2 :: int) ^ nbits - 1 = 2 ^ 32 - 1")
      case True
      then have "final = first + 2 ^ nbits - 1" using fits "1.prems" by linarith
      then have "{first..final} = {first..<first + 2 ^ nbits}" by auto
      then show ?thesis unfolding eq if_P [OF True] covers_simps cov using ok by simp
    next
      case more: False
      have "list_all net_ok (summarize_range (first + 2 ^ nbits) final) \<and>
          covers (summarize_range (first + 2 ^ nbits) final) = {first + 2 ^ nbits..final}"
        by (rule "1.IH" [OF False nbits_def refl more]) (use "1.prems" pos in linarith)+
      moreover have "{first..<first + 2 ^ nbits} \<union> {first + 2 ^ nbits..final} = {first..final}"
        by (rule ivl_split) (use fits pos in simp_all)
      ultimately show ?thesis unfolding eq if_not_P [OF more] covers_simps(2) cov using ok by simp
    qed
  qed
qed

lemma find_ranges_covers:
  assumes "first \<le> final"
  shows "(\<Union>(f, l)\<in>set (find_ranges first final ips). {f..l}) = {first..final} \<union> set ips \<and>
    (\<forall>(f, l)\<in>set (find_ranges first final ips). (f = first \<or> f \<in> set ips) \<and> (l = final \<or> l \<in> set ips))"
  using assms
proof (induction first final ips rule: find_ranges.induct)
  case (2 first final ip ips)
  show ?case
  proof (cases "ip = final + 1")
    case True
    then have "{first..ip} = {first..final} \<union> {ip}" using "2.prems" by auto
    then show ?thesis using 2 True by auto
  next
    case False
    then show ?thesis using "2.IH"(1) [OF False] by auto
  qed
qed simp

lemma covers_concat: "covers (concat nss) = (\<Union>ns\<in>set nss. covers ns)"
  by (auto simp: covers_def)

lemma summarize_addresses_covers:
  assumes "\<forall>x\<in>set ips. 0 \<le> x \<and> x < 2 ^ 32"
  shows "list_all net_ok (summarize_addresses ips) \<and> covers (summarize_addresses ips) = set ips"
proof (cases ips)
  case (Cons ip rest)
  have range: "0 \<le> f \<and> l < 2 ^ 32" if "(f, l) \<in> set (find_ranges ip ip rest)" for f l
    using find_ranges_covers [of ip ip rest] that assms unfolding Cons by fastforce
  have sum: "list_all net_ok (summarize_range f l) \<and> covers (summarize_range f l) = {f..l}"
    if "(f, l) \<in> set (find_ranges ip ip rest)" for f l
    using summarize_range_covers range [OF that] by blast
  have "covers (summarize_addresses ips) = (\<Union>(f, l)\<in>set (find_ranges ip ip rest). {f..l})"
    unfolding summarize_addresses_def Cons list.case covers_concat set_map image_image
    by (rule SUP_cong) (use sum in \<open>auto simp: split_beta\<close>)
  also have "\<dots> = set ips" using find_ranges_covers [of ip ip rest] unfolding Cons by auto
  finally have cov: "covers (summarize_addresses ips) = set ips" .
  have "net_ok n" if "n \<in> set (summarize_addresses ips)" for n
    using that sum by (auto simp: summarize_addresses_def Cons list_all_iff)
  with cov show ?thesis by (simp add: list_all_iff)
qed (simp add: summarize_addresses_def)

lemma collapse_covers:
  assumes "list_all net_ok ns"
  shows "covers (collapse_addresses ns) = covers ns \<and> list_all net_ok (collapse_addresses ns)"
proof -
  let ?ips = "sort (remdups (map fst (filter (\<lambda>n. snd n = 32) ns)))"
  let ?addrs = "summarize_addresses ?ips"
  let ?nets = "filter (\<lambda>n. snd n \<noteq> 32) ns"
  have addrs: "list_all net_ok ?addrs \<and> covers ?addrs = set ?ips"
    by (rule summarize_addresses_covers) (use assms in \<open>auto simp: list_all_iff net_ok_def\<close>)
  have single: "cover n = {fst n}" if "snd n = 32" for n using that by (auto simp: cover_def)
  have all: "set ?ips \<union> covers ?nets = covers ns" by (induction ns) (auto simp: single)
  let ?m = "merge_nets (rev (?addrs @ ?nets)) []"
  have "list_all net_ok (rev (?addrs @ ?nets))" using addrs assms by (auto simp: list_all_iff)
  then have m: "merged_ok ?m \<and> covers (map snd ?m) = covers (rev (?addrs @ ?nets))"
    using merge_nets_covers [of "rev (?addrs @ ?nets)" "[]"] by (simp add: merged_ok_def)
  let ?s = "sort_key (\<lambda>(b, p). b * 64 + int p) (map snd ?m)"
  have mok: "net_ok n" if "n \<in> set ?s" for n using that m by (auto simp: merged_ok_def)
  have "sorted (map (\<lambda>(b, p). b * 64 + int p) ?s)" by simp
  then have "sorted_wrt (\<lambda>x y. fst x \<le> fst y) ?s"
    unfolding sorted_map
  proof (rule sorted_wrt_mono_rel [rotated])
    fix x y assume "x \<in> set ?s" "y \<in> set ?s" "(case x of (b, p) \<Rightarrow> b * 64 + int p) \<le> (case y of (b, p) \<Rightarrow> b * 64 + int p)"
    then show "fst x \<le> fst y" using mok [of x] mok [of y] by (auto simp: net_ok_def split_beta)
  qed
  then have "sorted (map fst ?s)" by (simp add: sorted_map)
  then have "covers (skip_subsumed None ?s) = covers ns" using m addrs all by (simp add: skip_subsumed_None Un_commute)
  moreover have "list_all net_ok (skip_subsumed None ?s)"
    using set_skip_subsumed mok by (fastforce simp: list_all_iff)
  ultimately show ?thesis by (simp add: collapse_addresses_def Let_def)
qed

section \<open>What is printed is read back\<close>

lemma octet_roundtrip: "k < 256 \<Longrightarrow> parse_octet (string_of_nat k) = Some (int k)"
proof -
  assume k: "k < 256"
  have "list_all is_digit (string_of_nat k)" using string_of_nat_digits by (auto simp: list_all_iff)
  moreover have "length (string_of_nat k) \<le> 3" using k by (intro length_string_of_nat) simp
  moreover have "string_of_nat k = ''0'' \<or> hd (string_of_nat k) \<noteq> CHR ''0''"
    using hd_string_of_nat [of k] by (cases "k = 0") (auto simp: string_of_nat.simps)
  ultimately show ?thesis using k by (auto simp: parse_octet_def Let_def)
qed

lemma digits_no_char: "\<not> is_digit c \<Longrightarrow> c \<notin> set (string_of_nat n)"
  using string_of_nat_digits by blast

lemma dotted_split:
  "split_on (CHR ''.'') (join_on ''.'' (map string_of_nat [a, b, c, d])) =
   [string_of_nat a, string_of_nat b, string_of_nat c, string_of_nat d]"
proof -
  have "CHR ''.'' \<notin> set (string_of_nat n)" for n by (rule digits_no_char) (simp add: is_digit_def)
  then show ?thesis by (simp add: split_on_append_sep split_on_no_sep)
qed

lemma print_ipv4_roundtrip:
  assumes "0 \<le> a" "a < 2 ^ 32"
  shows "parse_ipv4 (print_ipv4 a) = Some a"
proof -
  let ?o = "[a div 16777216, a div 65536 mod 256, a div 256 mod 256, a mod 256]"
  have oct: "parse_octet (string_of_nat (nat k)) = Some k" if "0 \<le> k" "k < 256" for k
    using octet_roundtrip [of "nat k"] that by auto
  have octs: "map (\<lambda>k. parse_octet (string_of_nat (nat k))) ?o = map Some ?o" using assms by (simp add: oct)
  have val: "v4 (a div 16777216) (a div 65536 mod 256) (a div 256 mod 256) (a mod 256) = a"
  proof -
    have "a div 16777216 = a div 65536 div 256" "a div 65536 = a div 256 div 256" by (simp_all add: div_mult2_eq)
    then show ?thesis by (simp add: v4_def)
  qed
  have split: "split_on (CHR ''.'') (print_ipv4 a) = map (\<lambda>k. string_of_nat (nat k)) ?o"
    using dotted_split [of "nat (a div 16777216)" "nat (a div 65536 mod 256)" "nat (a div 256 mod 256)" "nat (a mod 256)"]
    by (simp add: print_ipv4_def)
  have "map parse_octet (split_on (CHR ''.'') (print_ipv4 a)) = map Some ?o"
    unfolding split map_map o_def by (rule octs)
  then show ?thesis unfolding parse_ipv4_def by (simp only: list.map list.case option.case val)
qed

lemma print_network_roundtrip:
  assumes "net_ok n"
  shows "parse_network (strip (print_network n)) = Some n"
proof -
  have char: "c \<in> set (print_network n) \<Longrightarrow> is_digit c \<or> c = CHR ''.'' \<or> c = CHR ''/''" for c
    by (auto simp: print_network_def print_ipv4_def dest: string_of_nat_digits)
  have "\<not> is_space c" if "c \<in> set (print_network n)" for c
    using char [OF that] space_not_safe [of c] by (auto simp: safe_char_def is_word_char_def)
  moreover have "print_network n \<noteq> []" by (simp add: print_network_def)
  ultimately have strip: "strip (print_network n) = print_network n"
    using hd_in_set last_in_set strip_id by blast
  have no_slash: "CHR ''/'' \<notin> set (print_ipv4 (fst n))" "CHR ''/'' \<notin> set (string_of_nat k)" for k
    by (auto simp: print_ipv4_def is_digit_def dest: string_of_nat_digits)
  have split: "split_on (CHR ''/'') (print_network n) = [print_ipv4 (fst n), string_of_nat (snd n)]"
    using no_slash by (simp add: print_network_def split_on_append_sep split_on_no_sep)
  have "list_all is_digit (string_of_nat (snd n))" using string_of_nat_digits by (auto simp: list_all_iff)
  then have "parse_prefix (string_of_nat (snd n)) = Some (snd n)"
    using assms by (simp add: parse_prefix_def net_ok_def)
  then show ?thesis
    using assms print_ipv4_roundtrip [of "fst n"] by (simp add: strip parse_network_def split net_ok_def)
qed

lemma parse_network_ok: "parse_network s = Some n \<Longrightarrow> net_ok n"
proof -
  have p: "parse_prefix t = Some k \<Longrightarrow> k \<le> 32" for t k
    by (auto simp: parse_prefix_def prefix_of_mask_def Let_def split: if_splits option.splits)
  assume "parse_network s = Some n"
  then show ?thesis
    by (auto simp: parse_network_def net_ok_def dest: parse_ipv4_bound p split: list.splits option.splits if_splits)
qed

section \<open>The ranges that are let through\<close>

definition addrs_of :: "string \<Rightarrow> int set" where
  "addrs_of s = (case parse_network (strip s) of None \<Rightarrow> {} | Some n \<Rightarrow> cover n)"

lemma parse_networks_covers:
  "parse_networks entries = Inr ns \<Longrightarrow>
   list_all net_ok ns \<and> covers ns = (\<Union>s\<in>set entries. addrs_of s) \<and> list_all (\<lambda>s. parse_network (strip s) \<noteq> None) entries"
proof (induction entries arbitrary: ns)
  case (Cons s entries)
  then obtain n ms where n: "parse_network (strip s) = Some n" "parse_networks entries = Inr ms" "ns = n # ms"
    by (auto simp: result_iff split: option.splits)
  have "addrs_of s = cover n" by (simp add: addrs_of_def n(1))
  then show ?case using Cons.IH [OF n(2)] n parse_network_ok [OF n(1)] by simp
qed simp

text \<open>
  \<^bold>\<open>C38\<close>. Normalising a list of allowed ranges changes no address: every entry was a valid range, the strings
  returned denote exactly the addresses the given ones denote (after sorting, merging and dropping ranges inside
  others), and none of them lies in the private pool 172.16.0.0/16 or the link-local block 169.254.0.0/16.
\<close>

theorem normalize_cidrs_exact:
  assumes "normalize_cidrs entries = Inr out"
  shows "list_all (\<lambda>s. parse_network (strip s) \<noteq> None) entries \<and>
    (\<Union>s\<in>set out. addrs_of s) = (\<Union>s\<in>set entries. addrs_of s) \<and>
    (\<Union>s\<in>set out. addrs_of s) \<inter> {v4 172 16 0 0..v4 172 16 255 255} = {} \<and>
    (\<Union>s\<in>set out. addrs_of s) \<inter> {v4 169 254 0 0..v4 169 254 255 255} = {}"
proof -
  obtain ns where ns: "parse_networks entries = Inr ns" "\<not> list_ex (\<lambda>n. list_ex (overlaps n) FORBIDDEN_BLOCKS) ns"
    "out = map print_network (collapse_addresses ns)"
    using assms by (auto simp: normalize_cidrs_def result_iff split: if_splits)
  note p = parse_networks_covers [OF ns(1)]
  note c = collapse_covers [OF conjunct1 [OF p]]
  have out: "(\<Union>s\<in>set out. addrs_of s) = covers (collapse_addresses ns)"
    using c by (auto simp: ns(3) addrs_of_def print_network_roundtrip list_all_iff covers_def)
  have blks: "cover (v4 172 16 0 0, 16) = {v4 172 16 0 0..v4 172 16 255 255}"
    "cover (v4 169 254 0 0, 16) = {v4 169 254 0 0..v4 169 254 255 255}"
    "net_ok (v4 172 16 0 0, 16)" "net_ok (v4 169 254 0 0, 16)"
    by (auto simp: cover_def v4_def net_ok_def)
  have "cover n \<inter> {v4 172 16 0 0..v4 172 16 255 255} = {} \<and> cover n \<inter> {v4 169 254 0 0..v4 169 254 255 255} = {}"
    if "n \<in> set ns" for n
  proof -
    have "net_ok n" "\<not> overlaps n (v4 172 16 0 0, 16)" "\<not> overlaps n (v4 169 254 0 0, 16)"
      using p ns(2) that by (auto simp: list_all_iff list_ex_iff FORBIDDEN_BLOCKS_def)
    then show ?thesis using overlaps_iff blks by metis
  qed
  then show ?thesis using p c unfolding out by (fastforce simp: covers_def)
qed

theorem normalize_cidrs_exact_witness:
  "normalize_cidrs ['' 10.0.0.0/25'', ''10.0.0.128/25'', ''8.8.8.8''] = Inr [''8.8.8.8/32'', ''10.0.0.0/24''] \<and>
   addrs_of ''8.8.8.8/32'' \<union> addrs_of ''10.0.0.0/24'' =
     addrs_of '' 10.0.0.0/25'' \<union> addrs_of ''10.0.0.128/25'' \<union> addrs_of ''8.8.8.8''"
proof -
  have "normalize_cidrs ['' 10.0.0.0/25'', ''10.0.0.128/25'', ''8.8.8.8''] = Inr [''8.8.8.8/32'', ''10.0.0.0/24'']"
    by code_simp
  with normalize_cidrs_exact [OF this] show ?thesis by auto
qed

section \<open>Domains\<close>

text \<open>\<open>s.partition(c)\<close> and \<open>s.rpartition(c)\<close>: \<open>None\<close> when the separator does not occur.\<close>

definition partition_at :: "char \<Rightarrow> string \<Rightarrow> (string \<times> string) option" where
  "partition_at c s =
     (if c \<in> set s then Some (takeWhile (\<lambda>x. x \<noteq> c) s, tl (dropWhile (\<lambda>x. x \<noteq> c) s)) else None)"

definition rpartition_at :: "char \<Rightarrow> string \<Rightarrow> (string \<times> string) option" where
  "rpartition_at c s = map_option (\<lambda>(a, b). (rev b, rev a)) (partition_at c (rev s))"

definition before :: "char \<Rightarrow> string \<Rightarrow> string" where
  "before c s = takeWhile (\<lambda>x. x \<noteq> c) s"

definition after :: "char \<Rightarrow> string \<Rightarrow> string" where
  "after c s = tl (dropWhile (\<lambda>x. x \<noteq> c) s)"

record parsed_url =
  pu_scheme :: string
  pu_netloc :: string
  pu_path :: string
  pu_params :: string
  pu_query :: string
  pu_fragment :: string

definition is_scheme_char :: "char \<Rightarrow> bool" where
  "is_scheme_char c \<longleftrightarrow> is_alpha_us c \<and> c \<noteq> CHR ''_'' \<or> is_digit c \<or> c \<in> set ''+-.''"

definition is_hex_char :: "char \<Rightarrow> bool" where
  "is_hex_char c \<longleftrightarrow> hex_val c \<noteq> None"

definition bracketed_host_ok :: "string \<Rightarrow> bool" where
  "bracketed_host_ok h =
     (if starts_with ''v'' h
      then (case partition_at (CHR ''.'') (tl h) of
              None \<Rightarrow> False | Some (a, b) \<Rightarrow> a \<noteq> [] \<and> list_all is_hex_char a \<and> b \<noteq> [])
      else (case ip_address_of h of Some (IPv6Address _ _) \<Rightarrow> True | _ \<Rightarrow> False))"

definition USES_PARAMS :: "string list" where
  "USES_PARAMS = ['''', ''ftp'', ''hdl'', ''prospero'', ''http'', ''imap'', ''https'', ''shttp'', ''rtsp'', ''rtsps'',
     ''rtspu'', ''sip'', ''sips'', ''mms'', ''sftp'', ''tel'']"

text \<open>The path and its parameters: the part after the first semicolon of the last segment.\<close>

definition split_params :: "string \<Rightarrow> string \<times> string" where
  "split_params path =
     (case rpartition_at (CHR ''/'') path of
        None \<Rightarrow> (before (CHR '';'') path, after (CHR '';'') path)
      | Some (dir, seg) \<Rightarrow>
          if CHR '';'' \<in> set seg then (dir @ ''/'' @ before (CHR '';'') seg, after (CHR '';'') seg) else (path, []))"

definition urlsplit :: "string \<Rightarrow> parsed_url option" where
  "urlsplit raw =
     (let url = filter (\<lambda>c. c \<notin> {CHR 0x09, CHR 0x0D, CHR 0x0A}) (dropWhile (\<lambda>c. (of_char c :: nat) \<le> 32) raw);
          head = before (CHR '':'') url;
          has_scheme = CHR '':'' \<in> set url \<and> head \<noteq> [] \<and> is_alpha_us (hd head) \<and> hd head \<noteq> CHR ''_'' \<and>
            list_all is_scheme_char head;
          scheme = (if has_scheme then lower head else []);
          rest = (if has_scheme then after (CHR '':'') url else url);
          has_netloc = starts_with ''//'' rest;
          body = drop 2 rest;
          netloc = (if has_netloc then takeWhile (\<lambda>c. c \<notin> set ''/?#'') body else []);
          tail = (if has_netloc then dropWhile (\<lambda>c. c \<notin> set ''/?#'') body else rest);
          opened = CHR ''['' \<in> set netloc; closed = CHR '']'' \<in> set netloc
      in if has_netloc \<and> opened \<noteq> closed then None
         else if has_netloc \<and> opened \<and> closed \<and> \<not> bracketed_host_ok (before (CHR '']'') (after (CHR ''['') netloc))
         then None
         else
           let fragment = after (CHR ''#'') tail; nofrag = before (CHR ''#'') tail
           in Some \<lparr>pu_scheme = scheme, pu_netloc = netloc, pu_path = before (CHR ''?'') nofrag, pu_params = [],
                     pu_query = after (CHR ''?'') nofrag, pu_fragment = fragment\<rparr>)"

definition urlparse :: "string \<Rightarrow> parsed_url option" where
  "urlparse raw =
     map_option (\<lambda>u.
       if pu_scheme u \<in> set USES_PARAMS \<and> CHR '';'' \<in> set (pu_path u)
       then (let (path, params) = split_params (pu_path u) in u\<lparr>pu_path := path, pu_params := params\<rparr>)
       else u) (urlsplit raw)"

definition has_credentials :: "parsed_url \<Rightarrow> bool" where
  "has_credentials u =
     (case rpartition_at (CHR ''@'') (pu_netloc u) of
        None \<Rightarrow> False
      | Some (userinfo, _) \<Rightarrow> before (CHR '':'') userinfo \<noteq> [] \<or> after (CHR '':'') userinfo \<noteq> [])"

definition url_hostname :: "parsed_url \<Rightarrow> string" where
  "url_hostname u =
     (let hostinfo = (case rpartition_at (CHR ''@'') (pu_netloc u) of None \<Rightarrow> pu_netloc u | Some (_, h) \<Rightarrow> h)
      in if CHR ''['' \<in> set hostinfo then before (CHR '']'') (after (CHR ''['') hostinfo)
         else before (CHR '':'') hostinfo)"

fun contains :: "string \<Rightarrow> string \<Rightarrow> bool" where
  "contains p [] = (p = [])"
| "contains p (c # s) = (starts_with p (c # s) \<or> contains p s)"

text \<open>One entry of the list: nothing for a blank one.\<close>

definition normalize_domain :: "string \<Rightarrow> string option result" where
  "normalize_domain raw =
     (let entry = strip raw in
      if entry = [] then Inr None
      else if entry = ''*'' then Inr (Some entry)
      else if contains ''://'' entry then
        (case urlparse entry of
           None \<Rightarrow> Inl (ValueError ''Invalid IPv6 URL'')
         | Some u \<Rightarrow>
             if has_credentials u then Inl (ValueError ''must not contain credentials'')
             else if pu_path u \<noteq> [] \<and> pu_path u \<noteq> ''/'' then Inl (ValueError ''must be hostnames, not URLs with paths'')
             else if pu_query u \<noteq> [] \<or> pu_fragment u \<noteq> [] \<or> pu_params u \<noteq> []
             then Inl (ValueError ''must be hostnames, not URLs with query/fragment'')
             else if url_hostname u = [] then Inl (ValueError ''Could not extract hostname'')
             else Inr (Some (lower (url_hostname u))))
      else
        let hostname = before (CHR '':'') entry
        in if hostname = [] then Inl (ValueError ''Could not extract hostname'') else Inr (Some (lower hostname)))"

fun domains_loop :: "string list \<Rightarrow> string list result" where
  "domains_loop [] = Inr []"
| "domains_loop (e # es) =
     rbind (normalize_domain e) (\<lambda>d. rbind (domains_loop es) (\<lambda>ds.
       Inr (case d of None \<Rightarrow> ds | Some h \<Rightarrow> h # ds)))"

definition normalize_domains :: "string list \<Rightarrow> string list result" where
  "normalize_domains v =
     rbind (domains_loop v) (\<lambda>normalized.
       if normalized = [] then Inl (ValueError ''allowed_domains must contain at least one entry'')
       else Inr normalized)"

section \<open>Constructing and re-validating settings\<close>

definition validate_internet_settings :: "internet_settings \<Rightarrow> internet_settings result" where
  "validate_internet_settings s =
     rbind (normalize_cidrs (is_allowed_cidrs s)) (\<lambda>cidrs.
     rbind (normalize_domains (is_allowed_domains s)) (\<lambda>domains.
     rbind (normalize_methods (is_allowed_http_methods s)) (\<lambda>methods.
       let s' = s\<lparr>is_allowed_cidrs := cidrs, is_allowed_domains := domains, is_allowed_http_methods := methods\<rparr>
       in rbind (validate_policy s') (\<lambda>_. Inr s'))))"

definition parse_network_policy :: "internet_settings \<Rightarrow> internet_settings result" where
  "parse_network_policy s =
     (case validate_internet_settings s of
        Inl _ \<Rightarrow> Inl (ValidationError ''Invalid internet_settings'') | Inr s' \<Rightarrow> Inr s')"

section \<open>Stability of the normal form\<close>

lemma partition_at_Some:
  "partition_at c s = Some (a, b) \<longleftrightarrow> s = a @ c # b \<and> c \<notin> set a"
proof
  assume p: "partition_at c s = Some (a, b)"
  then have c: "c \<in> set s" "a = takeWhile (\<lambda>x. x \<noteq> c) s" "b = tl (dropWhile (\<lambda>x. x \<noteq> c) s)"
    by (auto simp: partition_at_def split: if_splits)
  then obtain t where "dropWhile (\<lambda>x. x \<noteq> c) s = c # t"
    by (metis (mono_tags, lifting) dropWhile_eq_Nil_conv hd_dropWhile list.collapse)
  then show "s = a @ c # b \<and> c \<notin> set a" using c by (metis (mono_tags, lifting) list.sel(3) set_takeWhileD takeWhile_dropWhile_id)
next
  assume s: "s = a @ c # b \<and> c \<notin> set a"
  then have "takeWhile (\<lambda>x. x \<noteq> c) s = a" "dropWhile (\<lambda>x. x \<noteq> c) s = c # b"
    by (induction a arbitrary: s) auto
  then show "partition_at c s = Some (a, b)" using s by (simp add: partition_at_def)
qed

lemma lower_char_idem: "lower_char (lower_char c) = lower_char c"
proof (cases "65 \<le> (of_char c :: nat) \<and> (of_char c :: nat) \<le> 90")
  case True
  then have "of_char (char_of ((of_char c :: nat) + 32) :: char) = (of_char c :: nat) + 32" by simp
  then show ?thesis using True by (simp add: lower_char_def)
qed (auto simp: lower_char_def)

lemma lower_idem [simp]: "lower (lower s) = lower s"
  by (simp add: lower_def lower_char_idem)

lemma lower_simps [simp]: "lower s = [] \<longleftrightarrow> s = []" "lower ''*'' = ''*''"
  by (simp_all add: lower_def lower_char_def)

lemma normalize_domain_result:
  assumes "normalize_domain e = Inr (Some h)"
  shows "h \<noteq> [] \<and> lower h = h"
proof -
  have "h = ''*'' \<or> (\<exists>s. s \<noteq> [] \<and> h = lower s)"
    using assms unfolding normalize_domain_def Let_def
    by (simp split: if_splits option.splits) (metis | blast)+
  then show ?thesis by (elim disjE exE conjE) (simp_all del: list.distinct)
qed

lemma contains_colon: "contains ''://'' s \<Longrightarrow> CHR '':'' \<in> set s"
  by (induction s) (auto simp: starts_with_def split: if_splits)

text \<open>A lower-case host name without a colon and without outer blanks is left alone.\<close>

lemma normalize_domain_id:
  assumes "h \<noteq> []" "lower h = h" "strip h = h" "CHR '':'' \<notin> set h"
  shows "normalize_domain h = Inr (Some h)"
proof -
  have "before (CHR '':'') h = h" using assms(4) by (simp add: before_def takeWhile_eq_all_conv) blast
  then show ?thesis using assms contains_colon by (auto simp: normalize_domain_def)
qed

lemma domains_loop_result:
  "domains_loop es = Inr ds \<Longrightarrow> list_all (\<lambda>h. h \<noteq> [] \<and> lower h = h) ds"
proof (induction es arbitrary: ds)
  case (Cons e es)
  then obtain d ds' where "normalize_domain e = Inr d" "domains_loop es = Inr ds'"
    "ds = (case d of None \<Rightarrow> ds' | Some h \<Rightarrow> h # ds')"
    by (auto simp: result_iff)
  then show ?case using Cons.IH by (auto split: option.splits dest: normalize_domain_result)
qed simp

lemma domains_loop_id:
  "list_all (\<lambda>h. normalize_domain h = Inr (Some h)) ds \<Longrightarrow> domains_loop ds = Inr ds"
  by (induction ds) simp_all

text \<open>
  The normal form of a domain list is not empty, has only non-empty lower-case entries and, as long as
  no entry contains a colon or outer blanks, is stable: validating stored settings again, as the manager does
  before every start, gives the same list.
\<close>

theorem normalize_domains_stable:
  assumes "normalize_domains v = Inr out"
  shows "out \<noteq> [] \<and> list_all (\<lambda>h. h \<noteq> [] \<and> lower h = h) out \<and>
    (list_all (\<lambda>h. CHR '':'' \<notin> set h \<and> strip h = h) out \<longrightarrow> normalize_domains out = Inr out)"
proof -
  have out: "out \<noteq> []" "domains_loop v = Inr out"
    using assms by (auto simp: normalize_domains_def result_iff split: if_splits)
  note r = domains_loop_result [OF out(2)]
  have "domains_loop out = Inr out" if "list_all (\<lambda>h. CHR '':'' \<notin> set h \<and> strip h = h) out"
    by (rule domains_loop_id) (use that r normalize_domain_id in \<open>auto simp: list_all_iff\<close>)
  then show ?thesis using out(1) r by (auto simp: normalize_domains_def)
qed

theorem normalize_domains_stable_witness:
  "normalize_domains ['' Example.COM:8080 '', ''https://PyPI.org/''] = Inr [''example.com'', ''pypi.org''] \<and>
   normalize_domains [''example.com'', ''pypi.org''] = Inr [''example.com'', ''pypi.org'']"
proof -
  have n: "normalize_domains ['' Example.COM:8080 '', ''https://PyPI.org/''] = Inr [''example.com'', ''pypi.org'']"
    by code_simp
  have "list_all (\<lambda>h. CHR '':'' \<notin> set h \<and> strip h = h) [''example.com'', ''pypi.org'']" by code_simp
  with normalize_domains_stable [OF n] n show ?thesis by blast
qed


end
