(* ===== verification/Mac_Address.thy ===== *)
theory Mac_Address
  imports Model_Types Ip_Address
begin

unbundle bit_operations_syntax

text \<open>
  The hardware addresses that \<open>host/network.py\<close> gives to computers. A computer behind address translation gets one
  made from its number in the pool, a bridged one gets the random suffix of its interface name. The lemmas show
  that different computers get different addresses, and that the two families do not meet.
\<close>

section \<open>Definitions\<close>

definition hex_digit :: "int \<Rightarrow> char" where
  "hex_digit d = ''0123456789ABCDEF'' ! nat d"

text \<open>\<open>f"{octet:02X}"\<close> of a byte\<close>

definition octet_text :: "int \<Rightarrow> string" where
  "octet_text b = [hex_digit (b div 16), hex_digit (b mod 16)]"

definition generate_mac :: "int \<Rightarrow> string result" where
  "generate_mac vm_number =
     (if vm_number < 0 \<or> vm_number > 65534 then Inl (ValueError ''vm_number must be between 0 and 65534'')
      else Inr (''AA:FC:00:00:'' @ octet_text (drop_bit 8 vm_number AND 0xFF) @ '':'' @ octet_text (vm_number AND 0xFF)))"

text \<open>\<open>re.fullmatch(r"svmb[0-9a-fA-F]{8}", tap_name)\<close>\<close>

definition bridge_tap_match :: "string \<Rightarrow> bool" where
  "bridge_tap_match s \<longleftrightarrow> length s = 12 \<and> take 4 s = ''svmb'' \<and> list_all (\<lambda>c. hex_val c \<noteq> None) (drop 4 s)"

text \<open>\<open>bytes.fromhex\<close> of hexadecimal digits without spaces\<close>

fun fromhex :: "string \<Rightarrow> int list" where
  "fromhex (a # b # s) = (the (hex_val a) * 16 + the (hex_val b)) # fromhex s"
| "fromhex _ = []"

fun join_octets :: "int list \<Rightarrow> string" where
  "join_octets [] = []"
| "join_octets [b] = octet_text b"
| "join_octets (b # bs) = octet_text b @ '':'' @ join_octets bs"

text \<open>The argument \<open>urandom\<close> is what \<open>os.urandom(5)\<close> returns.\<close>

definition generate_bridge_mac :: "int list \<Rightarrow> string option \<Rightarrow> string" where
  "generate_bridge_mac urandom tap_name =
     (case tap_name of
        Some tap \<Rightarrow> if bridge_tap_match tap then ''02:53:'' @ join_octets (fromhex (drop 4 tap))
                    else ''02:'' @ join_octets urandom
      | None \<Rightarrow> ''02:'' @ join_octets urandom)"

section \<open>Addresses are not shared\<close>

lemma hex_digits_checked: "list_all (\<lambda>d. hex_val (hex_digit d) = Some d) [0..15]"
  by code_simp

lemma hex_val_hex_digit: "0 \<le> d \<Longrightarrow> d < 16 \<Longrightarrow> hex_val (hex_digit d) = Some d"
  using hex_digits_checked by (simp add: list_all_iff)

lemma hex_val_range: "hex_val c = Some d \<Longrightarrow> 0 \<le> d \<and> d < 16"
  by (auto simp: hex_val_def Let_def split: if_splits)

lemma hex_digit_inject: "0 \<le> a \<Longrightarrow> a < 16 \<Longrightarrow> 0 \<le> b \<Longrightarrow> b < 16 \<Longrightarrow> hex_digit a = hex_digit b \<longleftrightarrow> a = b"
  by (metis hex_val_hex_digit option.inject)

lemma div_mod_inject: "(a::int) div k = b div k \<Longrightarrow> a mod k = b mod k \<Longrightarrow> a = b"
  by (metis mult_div_mod_eq)

lemma octet_text_inject:
  assumes "0 \<le> a" "a < 256" "0 \<le> b" "b < 256"
  shows "octet_text a = octet_text b \<longleftrightarrow> a = b"
proof -
  have "0 \<le> a div 16" "a div 16 < 16" "0 \<le> b div 16" "b div 16 < 16" using assms by simp_all
  then have "hex_digit (a div 16) = hex_digit (b div 16) \<longleftrightarrow> a div 16 = b div 16" by (rule hex_digit_inject)
  moreover have "hex_digit (a mod 16) = hex_digit (b mod 16) \<longleftrightarrow> a mod 16 = b mod 16" by (rule hex_digit_inject) simp_all
  ultimately show ?thesis unfolding octet_text_def using div_mod_inject [of a 16 b] by auto
qed

lemma length_octet_text [simp]: "length (octet_text b) = 2"
  by (simp add: octet_text_def)

lemma low_byte: "(n::int) AND 0xFF = n mod 256"
proof -
  have "n AND mask 8 = n mod 2 ^ 8" by (simp add: take_bit_eq_mask [symmetric] take_bit_eq_mod)
  then show ?thesis by (simp add: mask_eq_exp_minus_1)
qed

lemma number_bytes: "generate_mac n = Inr a \<Longrightarrow>
    0 \<le> n \<and> n \<le> 65534 \<and> a = ''AA:FC:00:00:'' @ octet_text (n div 256) @ '':'' @ octet_text (n mod 256)"
  by (auto simp: generate_mac_def low_byte drop_bit_eq_div split: if_splits)

lemma join_octets_inject:
  "length as = length bs \<Longrightarrow> \<forall>a\<in>set as. 0 \<le> a \<and> a < 256 \<Longrightarrow> \<forall>b\<in>set bs. 0 \<le> b \<and> b < 256 \<Longrightarrow>
   join_octets as = join_octets bs \<longleftrightarrow> as = bs"
proof (induction as arbitrary: bs rule: join_octets.induct)
  case (2 a)
  then obtain b where "bs = [b]" by (cases bs) auto
  then show ?case using 2 by (simp add: octet_text_inject)
next
  case (3 a a' as)
  then obtain b b' bs' where "bs = b # b' # bs'" by (cases bs; cases "tl bs") auto
  then show ?case using 3 by (simp add: octet_text_inject)
qed simp

lemma fromhex_bytes: "list_all (\<lambda>c. hex_val c \<noteq> None) s \<Longrightarrow> b \<in> set (fromhex s) \<Longrightarrow> 0 \<le> b \<and> b < 256"
proof (induction s rule: fromhex.induct)
  case (1 c d s)
  then obtain x y where v: "hex_val c = Some x" "hex_val d = Some y" by auto
  then show ?case using 1 hex_val_range [OF v(1)] hex_val_range [OF v(2)] by auto
qed auto

lemma length_fromhex [simp]: "length (fromhex s) = length s div 2"
  by (induction s rule: fromhex.induct) auto

lemma two_digits:
  fixes a b c d :: int
  assumes "0 \<le> b" "b < 16" "0 \<le> d" "d < 16"
  shows "a * 16 + b = c * 16 + d \<longleftrightarrow> a = c \<and> b = d"
proof -
  have "(a * 16 + b) div 16 = a" "(c * 16 + d) div 16 = c" using assms by simp_all
  then show ?thesis by (metis add_left_cancel)
qed

lemma fromhex_inject:
  "length s = length t \<Longrightarrow> even (length s) \<Longrightarrow> list_all (\<lambda>c. hex_val c \<noteq> None) s \<Longrightarrow> list_all (\<lambda>c. hex_val c \<noteq> None) t \<Longrightarrow>
   fromhex s = fromhex t \<longleftrightarrow> map hex_val s = map hex_val t"
proof (induction s arbitrary: t rule: fromhex.induct)
  case (1 a b s)
  then obtain c d t' where t: "t = c # d # t'" by (cases t; cases "tl t") auto
  obtain va vb vc vd where
    v: "hex_val a = Some va" "hex_val b = Some vb" "hex_val c = Some vc" "hex_val d = Some vd"
    using 1 t by auto
  have "va * 16 + vb = vc * 16 + vd \<longleftrightarrow> va = vc \<and> vb = vd"
    using hex_val_range [OF v(2)] hex_val_range [OF v(4)] by (simp add: two_digits)
  then show ?case using 1 t v by auto
qed auto

text \<open>
  \<^bold>\<open>C39\<close> Hardware addresses identify computers. Two pool numbers give the same address only when they are equal; two bridged
  interfaces get the same address only when their names carry the same 32-bit suffix; an address of the first
  family is never one of the second; and the seed that a user-mode computer derives from its port is always in range.
\<close>

theorem mac_addresses_distinct:
  assumes "generate_mac m = Inr a" "generate_mac n = Inr b" "bridge_tap_match s" "bridge_tap_match t"
  shows "(a = b \<longleftrightarrow> m = n) \<and>
    (generate_bridge_mac u (Some s) = generate_bridge_mac v (Some t) \<longleftrightarrow> map hex_val (drop 4 s) = map hex_val (drop 4 t)) \<and>
    a \<noteq> generate_bridge_mac u (Some s) \<and>
    (\<exists>mac. generate_mac (port mod 65534 + 1) = Inr mac \<and> length mac = 17)"
proof (intro conjI)
  have r: "0 \<le> m" "m \<le> 65534" "0 \<le> n" "n \<le> 65534"
    using number_bytes [OF assms(1)] number_bytes [OF assms(2)] by blast+
  then have m: "0 \<le> m div 256" "m div 256 < 256" "0 \<le> m mod 256" "m mod 256 < 256"
    and n: "0 \<le> n div 256" "n div 256 < 256" "0 \<le> n mod 256" "n mod 256 < 256"
    by simp_all
  have "a = b \<longleftrightarrow> octet_text (m div 256) = octet_text (n div 256) \<and> octet_text (m mod 256) = octet_text (n mod 256)"
    using number_bytes [OF assms(1)] number_bytes [OF assms(2)] by auto
  then show "a = b \<longleftrightarrow> m = n"
    unfolding octet_text_inject [OF m(1,2) n(1,2)] octet_text_inject [OF m(3,4) n(3,4)]
    using div_mod_inject by blast
  have bytes: "\<forall>x\<in>set (fromhex (drop 4 s)). 0 \<le> x \<and> x < 256" "\<forall>x\<in>set (fromhex (drop 4 t)). 0 \<le> x \<and> x < 256"
    using assms(3,4) unfolding bridge_tap_match_def by (blast dest: fromhex_bytes)+
  have "join_octets (fromhex (drop 4 s)) = join_octets (fromhex (drop 4 t)) \<longleftrightarrow> fromhex (drop 4 s) = fromhex (drop 4 t)"
    using assms(3,4) bytes by (intro join_octets_inject) (auto simp: bridge_tap_match_def)
  moreover have "fromhex (drop 4 s) = fromhex (drop 4 t) \<longleftrightarrow> map hex_val (drop 4 s) = map hex_val (drop 4 t)"
    using assms(3,4) by (intro fromhex_inject) (auto simp: bridge_tap_match_def)
  ultimately show "generate_bridge_mac u (Some s) = generate_bridge_mac v (Some t) \<longleftrightarrow>
      map hex_val (drop 4 s) = map hex_val (drop 4 t)"
    using assms(3,4) by (simp add: generate_bridge_mac_def)
  show "a \<noteq> generate_bridge_mac u (Some s)"
    using number_bytes [OF assms(1)] assms(3) by (auto simp: generate_bridge_mac_def)
  have "0 \<le> port mod 65534" "port mod 65534 < 65534" by simp_all
  then show "\<exists>mac. generate_mac (port mod 65534 + 1) = Inr mac \<and> length mac = 17"
    by (simp add: generate_mac_def del: pos_mod_sign pos_mod_bound)
qed

theorem mac_addresses_distinct_witness:
  "generate_mac 1 = Inr ''AA:FC:00:00:00:01'' \<and> generate_mac 300 = Inr ''AA:FC:00:00:01:2C'' \<and>
   bridge_tap_match ''svmb0a1b2c3d'' \<and> bridge_tap_match ''svmb0a1b2c3e'' \<and>
   generate_bridge_mac [] (Some ''svmb0a1b2c3d'') \<noteq> generate_bridge_mac [] (Some ''svmb0a1b2c3e'')"
proof -
  have 1: "generate_mac 1 = Inr ''AA:FC:00:00:00:01''" "generate_mac 300 = Inr ''AA:FC:00:00:01:2C''"
    "bridge_tap_match ''svmb0a1b2c3d''" "bridge_tap_match ''svmb0a1b2c3e''"
    by code_simp+
  moreover have "map hex_val (drop 4 ''svmb0a1b2c3d'') \<noteq> map hex_val (drop 4 ''svmb0a1b2c3e'')" by code_simp
  ultimately show ?thesis using mac_addresses_distinct [OF 1, of "[]" "[]" 2200] by blast
qed

end
