(* ===== verification/Effects.thy ===== *)
theory Effects
  imports Model_Types
begin

text \<open>
  Python methods that change their object and may raise: a function from the state to an outcome and the
  state left behind, also when it raises. Sequencing stops at an exception, handlers are chosen by the
  exception, \<open>finally\<close> runs in both cases. Such methods are verified by their weakest precondition, with one
  postcondition for a return and one for an exception; the equations of \<open>wp\<close> make the simplifier compute it.
\<close>

named_theorems wp \<open>weakest preconditions of the operations\<close>

type_synonym ('s, 'a) op = "'s \<Rightarrow> 'a result \<times> 's"

section \<open>Operations\<close>

definition ret :: "'a \<Rightarrow> ('s, 'a) op" where
  "ret x = (\<lambda>s. (Inr x, s))"

definition raise :: "celesto_error \<Rightarrow> ('s, 'a) op" where
  "raise e = (\<lambda>s. (Inl e, s))"

definition lift :: "'a result \<Rightarrow> ('s, 'a) op" where
  "lift r = (\<lambda>s. (r, s))"

definition gets :: "('s \<Rightarrow> 'a) \<Rightarrow> ('s, 'a) op" where
  "gets f = (\<lambda>s. (Inr (f s), s))"

definition modify :: "('s \<Rightarrow> 's) \<Rightarrow> ('s, unit) op" where
  "modify f = (\<lambda>s. (Inr (), f s))"

definition bind :: "('s, 'a) op \<Rightarrow> ('a \<Rightarrow> ('s, 'b) op) \<Rightarrow> ('s, 'b) op" where
  "bind m f = (\<lambda>s. case m s of (Inl e, s') \<Rightarrow> (Inl e, s') | (Inr x, s') \<Rightarrow> f x s')"

definition catch :: "(celesto_error \<Rightarrow> bool) \<Rightarrow> ('s, 'a) op \<Rightarrow> (celesto_error \<Rightarrow> ('s, 'a) op) \<Rightarrow> ('s, 'a) op" where
  "catch p m h = (\<lambda>s. case m s of (Inl e, s') \<Rightarrow> if p e then h e s' else (Inl e, s') | (Inr x, s') \<Rightarrow> (Inr x, s'))"

text \<open>\<open>finally\<close>: an exception of the final action replaces the outcome.\<close>

definition ensuring :: "('s, 'a) op \<Rightarrow> ('s, unit) op \<Rightarrow> ('s, 'a) op" where
  "ensuring m f =
     (\<lambda>s. case m s of (r, s') \<Rightarrow> (case f s' of (Inl e, s'') \<Rightarrow> (Inl e, s'') | (Inr _, s'') \<Rightarrow> (r, s'')))"

definition unless :: "bool \<Rightarrow> ('s, unit) op \<Rightarrow> ('s, unit) op" where
  "unless b m = (if b then ret () else m)"

definition raise_when :: "bool \<Rightarrow> celesto_error \<Rightarrow> ('s, unit) op" where
  "raise_when b e = (if b then raise e else ret ())"

text \<open>\<open>with suppress(Exception): m\<close>\<close>

definition suppress :: "('s, unit) op \<Rightarrow> ('s, unit) op" where
  "suppress m = catch is_exception m (\<lambda>_. ret ())"

fun for_each :: "('a \<Rightarrow> ('s, unit) op) \<Rightarrow> 'a list \<Rightarrow> ('s, unit) op" where
  "for_each f [] = ret ()"
| "for_each f (x # xs) = bind (f x) (\<lambda>_. for_each f xs)"

section \<open>Weakest preconditions\<close>

definition wpre :: "('s, 'a) op \<Rightarrow> ('a \<Rightarrow> 's \<Rightarrow> bool) \<Rightarrow> (celesto_error \<Rightarrow> 's \<Rightarrow> bool) \<Rightarrow> 's \<Rightarrow> bool" where
  "wpre m Q R s = (case m s of (Inl e, s') \<Rightarrow> R e s' | (Inr x, s') \<Rightarrow> Q x s')"

lemma wpre_D: "wpre m Q R s \<Longrightarrow> m s = (r, s') \<Longrightarrow> case r of Inl e \<Rightarrow> R e s' | Inr x \<Rightarrow> Q x s'"
  by (auto simp: wpre_def split: sum.splits)

lemma wpre_I: "(\<And>r s'. m s = (r, s') \<Longrightarrow> case r of Inl e \<Rightarrow> R e s' | Inr x \<Rightarrow> Q x s') \<Longrightarrow> wpre m Q R s"
  by (cases "m s") (auto simp: wpre_def split: sum.splits)

lemma wpre_mono:
  "wpre m Q R s \<Longrightarrow> (\<And>x s'. Q x s' \<Longrightarrow> Q' x s') \<Longrightarrow> (\<And>e s'. R e s' \<Longrightarrow> R' e s') \<Longrightarrow> wpre m Q' R' s"
  by (auto simp: wpre_def split: prod.splits sum.splits)

lemma wpre_conj:
  "wpre m Q R s \<Longrightarrow> wpre m Q' R' s \<Longrightarrow> wpre m (\<lambda>x t. Q x t \<and> Q' x t) (\<lambda>e t. R e t \<and> R' e t) s"
  by (auto simp: wpre_def split: prod.splits sum.splits)

lemma wpre_basic [wp]:
  "wpre (ret x) Q R s \<longleftrightarrow> Q x s"
  "wpre (raise e) Q R s \<longleftrightarrow> R e s"
  "wpre (gets f) Q R s \<longleftrightarrow> Q (f s) s"
  "wpre (modify g) Q' R s \<longleftrightarrow> Q' () (g s)"
  by (simp_all add: wpre_def ret_def raise_def gets_def modify_def)

lemma wpre_lift [wp]:
  "wpre (lift r) Q R s \<longleftrightarrow> (case r of Inl e \<Rightarrow> R e s | Inr x \<Rightarrow> Q x s)"
  by (simp add: wpre_def lift_def split: sum.split)

lemma wpre_bind [wp]: "wpre (bind m f) Q R s \<longleftrightarrow> wpre m (\<lambda>x. wpre (f x) Q R) R s"
  by (auto simp: wpre_def bind_def split: prod.splits sum.splits)

lemma wpre_catch [wp]:
  "wpre (catch p m h) Q R s \<longleftrightarrow> wpre m Q (\<lambda>e t. if p e then wpre (h e) Q R t else R e t) s"
  by (auto simp: wpre_def catch_def split: prod.splits sum.splits)

lemma wpre_ensuring [wp]:
  "wpre (ensuring m f) Q R s \<longleftrightarrow>
   wpre m (\<lambda>x. wpre f (\<lambda>_. Q x) R) (\<lambda>e. wpre f (\<lambda>_. R e) R) s"
  by (auto simp: wpre_def ensuring_def split: prod.splits sum.splits)

lemma wpre_unless [wp]: "wpre (unless b m) Q R s \<longleftrightarrow> (if b then Q () s else wpre m Q R s)"
  by (simp add: unless_def wpre_basic)

lemma wpre_raise_when [wp]: "wpre (raise_when b e) Q R s \<longleftrightarrow> (if b then R e s else Q () s)"
  by (simp add: raise_when_def wpre_basic)

lemma wpre_suppress [wp]:
  "wpre (suppress m) Q R s \<longleftrightarrow> wpre m Q (\<lambda>e t. if is_exception e then Q () t else R e t) s"
  by (simp add: suppress_def wpre_catch wpre_basic)

lemma wpre_if [wp]: "wpre (if b then m else m') Q R s \<longleftrightarrow> (if b then wpre m Q R s else wpre m' Q R s)"
  by simp

text \<open>An invariant of a loop body holds after the loop, whether it ended or raised.\<close>

lemma wpre_for_each:
  assumes "\<And>x s. x \<in> set xs \<Longrightarrow> I s \<Longrightarrow> wpre (f x) (\<lambda>_. I) (\<lambda>_. I) s" "I s"
  shows "wpre (for_each f xs) (\<lambda>_. I) (\<lambda>_. I) s"
  using assms
proof (induction xs arbitrary: s)
  case (Cons x xs)
  have "wpre (f x) (\<lambda>_. I) (\<lambda>_. I) s" using Cons.prems by simp
  then show ?case
    unfolding for_each.simps wpre_bind
    by (rule wpre_mono) (use Cons in auto)
qed (simp add: wpre_basic)

text \<open>Operations that keep a predicate whatever they return or raise.\<close>

definition keeps :: "('s \<Rightarrow> bool) \<Rightarrow> ('s, 'a) op \<Rightarrow> bool" where
  "keeps I m \<longleftrightarrow> (\<forall>s. I s \<longrightarrow> wpre m (\<lambda>_. I) (\<lambda>_. I) s)"

named_theorems keep \<open>operations that keep an invariant\<close>

lemma keepsD: "keeps I m \<Longrightarrow> I s \<Longrightarrow> wpre m (\<lambda>_. I) (\<lambda>_. I) s"
  by (simp add: keeps_def)

lemma keeps_run: "keeps I m \<Longrightarrow> I s \<Longrightarrow> m s = (r, s') \<Longrightarrow> I s'"
  by (auto simp: keeps_def wpre_def split: sum.splits)

lemma keepsI: "(\<And>s r s'. I s \<Longrightarrow> m s = (r, s') \<Longrightarrow> I s') \<Longrightarrow> keeps I m"
  by (auto simp: keeps_def wpre_def split: prod.splits sum.splits)

lemma keeps_wpre:
  assumes "keeps I m" "I s" "wpre m Q R s"
  shows "wpre m (\<lambda>x t. I t \<and> Q x t) (\<lambda>e t. I t \<and> R e t) s"
  by (rule wpre_conj [OF keepsD [OF assms(1,2)] assms(3)])

lemma keeps_basic [keep]:
  "keeps I (ret x)" "keeps I (raise e)" "keeps I (gets g)" "keeps I (lift r)" "keeps I (raise_when b e)"
  by (auto simp: keeps_def wp split: sum.split)

lemma keeps_bind [keep]: "keeps I m \<Longrightarrow> (\<And>x. keeps I (f x)) \<Longrightarrow> keeps I (bind m f)"
  unfolding keeps_def wpre_bind by (blast intro: wpre_mono)

lemma keeps_catch [keep]: "keeps I m \<Longrightarrow> (\<And>e. keeps I (h e)) \<Longrightarrow> keeps I (catch p m h)"
  unfolding keeps_def wpre_catch by (auto intro: wpre_mono)

lemma keeps_ensuring [keep]: "keeps I m \<Longrightarrow> keeps I f \<Longrightarrow> keeps I (ensuring m f)"
  unfolding keeps_def wpre_ensuring by (auto intro: wpre_mono)

lemma keeps_if [keep]: "(b \<Longrightarrow> keeps I m) \<Longrightarrow> (\<not> b \<Longrightarrow> keeps I m') \<Longrightarrow> keeps I (if b then m else m')"
  by simp

lemma keeps_unless [keep]: "(\<not> b \<Longrightarrow> keeps I m) \<Longrightarrow> keeps I (unless b m)"
  by (simp add: unless_def keeps_basic)

lemma keeps_suppress [keep]: "keeps I m \<Longrightarrow> keeps I (suppress m)"
  by (simp add: suppress_def keep)

lemma keeps_for_each [keep]: "(\<And>x. x \<in> set xs \<Longrightarrow> keeps I (f x)) \<Longrightarrow> keeps I (for_each f xs)"
  by (induction xs) (simp_all add: keep)

lemma keeps_modify: "(\<And>s. I s \<Longrightarrow> I (g s)) \<Longrightarrow> keeps I (modify g)"
  by (simp add: keeps_def wp)

lemma keeps_case_option [keep]:
  "(\<And>y. x = Some y \<Longrightarrow> keeps I (f y)) \<Longrightarrow> (x = None \<Longrightarrow> keeps I g) \<Longrightarrow>
   keeps I (case x of None \<Rightarrow> g | Some y \<Rightarrow> f y)"
  by (cases x) simp_all

lemma keeps_case_prod [keep]: "(\<And>a b. p = (a, b) \<Longrightarrow> keeps I (f a b)) \<Longrightarrow> keeps I (case p of (a, b) \<Rightarrow> f a b)"
  by (cases p) simp

text \<open>A property of every value that an operation returns.\<close>

definition returns :: "('a \<Rightarrow> bool) \<Rightarrow> ('s, 'a) op \<Rightarrow> bool" where
  "returns P m \<longleftrightarrow> (\<forall>s. wpre m (\<lambda>x _. P x) (\<lambda>_ _. True) s)"

named_theorems returning \<open>properties of returned values\<close>

lemma returns_D: "returns P m \<Longrightarrow> m s = (Inr x, s') \<Longrightarrow> P x"
  by (auto simp: returns_def wpre_def split: prod.splits sum.splits dest!: spec [of _ s])

lemma returns_wpre: "returns P m \<Longrightarrow> wpre m Q R s \<Longrightarrow> wpre m (\<lambda>x t. P x \<and> Q x t) R s"
  unfolding returns_def by (auto simp: wpre_def split: prod.splits sum.splits dest!: spec [of _ s])

lemma returns_basic [returning]: "P x \<Longrightarrow> returns P (ret x)" "returns P (raise e)"
  by (simp_all add: returns_def wp)

lemma returns_bind [returning]: "(\<And>x. returns P (f x)) \<Longrightarrow> returns P (bind m f)"
  unfolding returns_def wpre_bind by (auto intro!: wpre_I split: sum.split)

lemma returns_through: "returns P' m \<Longrightarrow> (\<And>x. P' x \<Longrightarrow> returns P (f x)) \<Longrightarrow> returns P (bind m f)"
  unfolding returns_def wpre_bind by (blast intro: wpre_mono)

lemma returns_if [returning]: "(b \<Longrightarrow> returns P m) \<Longrightarrow> (\<not> b \<Longrightarrow> returns P m') \<Longrightarrow> returns P (if b then m else m')"
  by simp

lemma returns_case_option [returning]:
  "(\<And>y. x = Some y \<Longrightarrow> returns P (f y)) \<Longrightarrow> (x = None \<Longrightarrow> returns P g) \<Longrightarrow>
   returns P (case x of None \<Rightarrow> g | Some y \<Rightarrow> f y)"
  by (cases x) simp_all

section \<open>Running the model\<close>

text \<open>
  The equations by which the simplifier runs an operation on a given state: each applies only to an operation that is given its
  state, so that the continuations stay folded until they are reached.
\<close>

named_theorems run \<open>equations of operations applied to a state\<close>

lemma run_bind [run]: "bind m f s = (case m s of (Inl e, s') \<Rightarrow> (Inl e, s') | (Inr x, s') \<Rightarrow> f x s')"
  by (simp add: bind_def)

lemma run_catch [run]:
  "catch p m k s = (case m s of (Inl e, s') \<Rightarrow> if p e then k e s' else (Inl e, s') | (Inr x, s') \<Rightarrow> (Inr x, s'))"
  by (simp add: catch_def)

lemma run_ensuring [run]:
  "ensuring m n s = (case m s of (r, s') \<Rightarrow> (case n s' of (Inl e, s'') \<Rightarrow> (Inl e, s'') | (Inr _, s'') \<Rightarrow> (r, s'')))"
  by (simp add: ensuring_def)

text \<open>Congruences that keep the simplifier out of the parts that are not run yet.\<close>

lemma run_cong:
  "s = s' \<Longrightarrow> bind m f s = bind m f s'" "s = s' \<Longrightarrow> catch p m k s = catch p m k s'" "s = s' \<Longrightarrow> ensuring m n s = ensuring m n s'"
  by simp_all

lemmas run_basic [run] =
  fun_cong [OF ret_def] fun_cong [OF raise_def] fun_cong [OF gets_def] fun_cong [OF modify_def] fun_cong [OF lift_def]
  fun_cong [OF unless_def] fun_cong [OF raise_when_def]

end
