(* ===== verification/Manager.thy ===== *)
theory Manager
  imports Effects Memory_Props Internet_Policy Backend_Select Egress_Session
begin

text \<open>
  The manager of computers (\<open>vm.py\<close>, class \<open>CelestoManager\<close>): starting, stopping, pausing, resuming and deleting
  a computer, preparing its network and its public-egress session, and releasing what it holds. Everything
  outside the process is a field of the record \<open>world\<close>: what a runtime adapter, a network command, a probe or a file
  operation answers. An answer may depend on the moment of the call, which the field \<open>mg_clock\<close> counts, so two
  calls with the same arguments may end differently. The state manager is the record of its operations, so that
  the manager runs on either of them. Three fields observe the outside: \<open>mg_procs\<close> lists the descriptions that
  a process was launched with, until it was stopped or seen dead, \<open>mg_net\<close> and \<open>mg_disk\<close> the network commands and disk steps that succeeded. Log files, log messages and
  the asynchronous twins of the methods are left out.
\<close>

section \<open>What the manager works with\<close>

record 's vm_store =
  so_create :: "'s \<Rightarrow> vm_config \<Rightarrow> vm_info result \<times> 's"
  so_get :: "'s \<Rightarrow> string \<Rightarrow> vm_info result"
  so_list :: "'s \<Rightarrow> vm_info list result"
  so_update :: "'s \<Rightarrow> string \<Rightarrow> vm_update \<Rightarrow> vm_info result \<times> 's"
  so_delete :: "'s \<Rightarrow> string \<Rightarrow> unit result \<times> 's"
  so_allocate_ip :: "'s \<Rightarrow> string \<Rightarrow> string \<Rightarrow> string result \<times> 's"
  so_get_ip_lease :: "'s \<Rightarrow> string \<Rightarrow> (string \<times> string) option result"
  so_update_ip_lease_tap :: "'s \<Rightarrow> string \<Rightarrow> string \<Rightarrow> unit result \<times> 's"
  so_release_ip :: "'s \<Rightarrow> string \<Rightarrow> unit result \<times> 's"
  so_reserve_ssh :: "'s \<Rightarrow> string \<Rightarrow> int list \<Rightarrow> int result \<times> 's"
  so_get_ssh :: "'s \<Rightarrow> string \<Rightarrow> int option result"
  so_release_ssh :: "'s \<Rightarrow> string \<Rightarrow> unit result \<times> 's"
  so_reserve_vsock :: "'s \<Rightarrow> string \<Rightarrow> int option \<Rightarrow> int result \<times> 's"
  so_get_vsock :: "'s \<Rightarrow> string \<Rightarrow> int option result"
  so_release_vsock :: "'s \<Rightarrow> string \<Rightarrow> unit result \<times> 's"
  so_reserve_tap :: "'s \<Rightarrow> string \<Rightarrow> string \<Rightarrow> string option \<Rightarrow> string option \<Rightarrow> string result \<times> 's"
  so_get_tap :: "'s \<Rightarrow> string \<Rightarrow> (string \<times> string \<times> string option) option result"
  so_release_tap :: "'s \<Rightarrow> string \<Rightarrow> unit result \<times> 's"
  so_reconcile :: "'s \<Rightarrow> string list result \<times> 's"

text \<open>The in-memory state manager, which a manager uses unless it is given another one.\<close>

definition mem_ops :: "host_env \<Rightarrow> memory_state vm_store" where
  "mem_ops env =
     \<lparr>so_create = (\<lambda>st config. commit st (mem_create_vm st config)),
      so_get = mem_get_vm,
      so_list = (\<lambda>st. Inr (mem_list_vms st None)),
      so_update = (\<lambda>st vm u. commit st (mem_update_vm st vm u)),
      so_delete = (\<lambda>st vm. commit_unit st (mem_delete_vm st vm)),
      so_allocate_ip = (\<lambda>st vm tap. commit st (mem_allocate_ip env st vm tap None)),
      so_get_ip_lease = (\<lambda>st vm. Inr (mem_get_ip_lease st vm)),
      so_update_ip_lease_tap = (\<lambda>st vm tap. (Inr (), mem_update_ip_lease_tap st vm tap)),
      so_release_ip = (\<lambda>st vm. (Inr (), mem_release_ip st vm)),
      so_reserve_ssh = (\<lambda>st vm excluded. commit st (mem_reserve_ssh_port env st vm None excluded)),
      so_get_ssh = (\<lambda>st vm. Inr (mem_get_ssh_port st vm)),
      so_release_ssh = (\<lambda>st vm. (Inr (), mem_release_ssh_port st vm)),
      so_reserve_vsock = (\<lambda>st vm cid. commit st (mem_reserve_vsock_cid env st vm cid)),
      so_get_vsock = (\<lambda>st vm. Inr (mem_get_vsock_cid st vm)),
      so_release_vsock = (\<lambda>st vm. (Inr (), mem_release_vsock_cid st vm)),
      so_reserve_tap = (\<lambda>st vm mode bridge tap. commit st (mem_reserve_tap_name env st vm mode bridge tap)),
      so_get_tap = (\<lambda>st vm. Inr (mem_get_tap_allocation st vm)),
      so_release_tap = (\<lambda>st vm. (Inr (), mem_release_tap_name st vm)),
      so_reconcile = (\<lambda>st. (let (ids, st') = mem_reconcile env st in (Inr ids, st')))\<rparr>"

record runtime_launch =
  rl_pid :: int
  rl_control_socket_path :: "string option"
  rl_status :: vm_state
  rl_display :: "desktop_endpoint option"

text \<open>The commands that the manager gives to the host network.\<close>

datatype net_cmd =
    PREPARE_TAP string string
  | ADD_ROUTE string string
  | APPLY_POLICY string "string list option" "string option"
  | SETUP_NAT string bool
  | APPLY_ALLOWLIST string "string list"
  | SSH_FORWARD string string int
  | PREPARE_BRIDGED string string string
  | CLEANUP_SSH_FORWARD string string int
  | CLEANUP_LOCAL_FORWARDS string
  | REMOVE_EGRESS_RULES string
  | CLEANUP_NAT_RULES string
  | CLEANUP_TAP string
  | REMOVE_POLICY string
  | CLEANUP_BRIDGED string string

text \<open>The steps of the disks, firmware and bundle files that \<open>create\<close> takes and undoes.\<close>

datatype disk_cmd =
    INSPECT_QCOW2 string
  | OVERLAY_DISK string string qemu_disk_format
  | COPY_DISK string string
  | RESIZE_DISK string int
  | GROW_FILESYSTEM string
  | BACKUP_DISK string
  | RESTORE_BACKUP string
  | DISCARD_BACKUP string
  | CLEAR_MARKER string
  | MARK_RETAINED string
  | MATERIALIZE_BUNDLE string
  | MATERIALIZE_FIRMWARE string
  | REMOVE_UNPERSISTED_DISK string
  | REMOVE_FIRMWARE string
  | REMOVE_BUNDLE string

record world =
  w_host :: host_probe
  w_start :: "nat \<Rightarrow> vm_info \<Rightarrow> (int \<times> string option \<times> desktop_endpoint option) result"
  w_stop :: "nat \<Rightarrow> vm_info \<Rightarrow> unit result"
  w_pause :: "nat \<Rightarrow> vm_info \<Rightarrow> unit result"
  w_resume :: "nat \<Rightarrow> vm_info \<Rightarrow> unit result"
  w_alive :: "nat \<Rightarrow> int \<Rightarrow> bool"
  w_port_free :: "nat \<Rightarrow> string \<Rightarrow> int \<Rightarrow> bool"
  w_egress :: "nat \<Rightarrow> egress_env"
  w_net :: "nat \<Rightarrow> net_cmd \<Rightarrow> unit result"
  w_tap_index :: "nat \<Rightarrow> string \<Rightarrow> bool"
  w_bridge_ok :: "nat \<Rightarrow> string \<Rightarrow> bool"
  w_live_cids :: "nat \<Rightarrow> int list"
  w_fs :: "nat \<Rightarrow> string \<Rightarrow> path_kind"
  w_resolve_domains :: "nat \<Rightarrow> string list \<Rightarrow> string list result"
  w_delete_bundle :: "nat \<Rightarrow> vm_info \<Rightarrow> unit result"
  w_cleanup_artifacts :: "nat \<Rightarrow> string \<Rightarrow> vm_info option \<Rightarrow> bool \<Rightarrow> unit result"
  w_unlink_socket :: "nat \<Rightarrow> string \<Rightarrow> unit result"
  w_create_lock :: "nat \<Rightarrow> string \<Rightarrow> unit result"
  w_disk_size :: "nat \<Rightarrow> string \<Rightarrow> int result"
  w_disk :: "nat \<Rightarrow> disk_cmd \<Rightarrow> unit result"
  w_urandom :: "nat \<Rightarrow> int list"
  w_host_ip :: string
  w_socket_dir :: string
  w_data_dir :: string

record 's manager =
  mg_store :: 's
  mg_backend :: string
  mg_public_egress :: "(string \<times> egress_session) list"
  mg_unrecorded :: "(string \<times> vm_info) list"
  mg_active :: "string list"
  mg_close_requested :: bool
  mg_closing :: bool
  mg_closed :: bool
  mg_procs :: "vm_info list"
  mg_net :: "net_cmd list"
  mg_disk :: "disk_cmd list"
  mg_clock :: nat

type_synonym ('s, 'a) mop = "('s manager, 'a) op"

section \<open>Elementary calls\<close>

definition ask :: "(nat \<Rightarrow> 'a) \<Rightarrow> ('s, 'a) mop" where
  "ask f = (\<lambda>m. (Inr (f (mg_clock m)), m\<lparr>mg_clock := mg_clock m + 1\<rparr>))"

definition attempt :: "(nat \<Rightarrow> 'a result) \<Rightarrow> ('s, 'a) mop" where
  "attempt f = (\<lambda>m. (f (mg_clock m), m\<lparr>mg_clock := mg_clock m + 1\<rparr>))"

definition on_store :: "('s \<Rightarrow> 'a result \<times> 's) \<Rightarrow> ('s, 'a) mop" where
  "on_store f = (\<lambda>m. case f (mg_store m) of (r, st) \<Rightarrow> (r, m\<lparr>mg_store := st\<rparr>))"

definition from_store :: "('s \<Rightarrow> 'a result) \<Rightarrow> ('s, 'a) mop" where
  "from_store f = (\<lambda>m. (f (mg_store m), m))"

definition network :: "world \<Rightarrow> net_cmd \<Rightarrow> ('s, unit) mop" where
  "network w cmd = bind (attempt (\<lambda>t. w_net w t cmd)) (\<lambda>_. modify (\<lambda>m. m\<lparr>mg_net := mg_net m @ [cmd]\<rparr>))"

text \<open>Every adapter's \<open>start\<close> reports the status \<open>RUNNING\<close> with the process it launched.\<close>

definition adapter_start :: "world \<Rightarrow> vm_info \<Rightarrow> ('s, runtime_launch) mop" where
  "adapter_start w info =
     bind (attempt (\<lambda>t. w_start w t info)) (\<lambda>(pid, socket_path, display).
     bind (modify (\<lambda>m. m\<lparr>mg_procs := info # mg_procs m\<rparr>)) (\<lambda>_.
       ret \<lparr>rl_pid = pid, rl_control_socket_path = socket_path, rl_status = VM_RUNNING, rl_display = display\<rparr>))"

text \<open>The processes of these computers are known to have ended.\<close>

definition forget_processes :: "string list \<Rightarrow> ('s, unit) mop" where
  "forget_processes vm_ids = modify (\<lambda>m. m\<lparr>mg_procs := filter (\<lambda>i. vi_vm_id i \<notin> set vm_ids) (mg_procs m)\<rparr>)"

definition adapter_stop :: "world \<Rightarrow> vm_info \<Rightarrow> ('s, unit) mop" where
  "adapter_stop w info = bind (attempt (\<lambda>t. w_stop w t info)) (\<lambda>_. forget_processes [vi_vm_id info])"

text \<open>A method of the public-egress session of a computer, whose state lives in the dictionary.\<close>

definition on_session :: "string \<Rightarrow> (egress_session \<Rightarrow> 'a result \<times> egress_session) \<Rightarrow> ('s, 'a) mop" where
  "on_session vm_id f =
     (\<lambda>m. case map_of (mg_public_egress m) vm_id of
        None \<Rightarrow> (Inl (CelestoError ''no session''), m)
      | Some s \<Rightarrow> (case f s of (r, s') \<Rightarrow> (r, m\<lparr>mg_public_egress := AList.update vm_id s' (mg_public_egress m)\<rparr>)))"

section \<open>Backends and channels\<close>

definition backend_for_config :: "world \<Rightarrow> vm_config \<Rightarrow> ('s, string) mop" where
  "backend_for_config w config =
     bind (gets mg_backend) (\<lambda>default.
       let requested = (case vc_backend config of Some b \<Rightarrow> if b \<noteq> [] then b else default | None \<Rightarrow> default)
       in case resolve_backend_for_guest (w_host w) (Some requested) (vc_guest_os config) of
            Inr b \<Rightarrow> ret b
          | Inl (ValueError s) \<Rightarrow> raise (CelestoError s)
          | Inl e \<Rightarrow> raise e)"

definition backend_for_vm :: "world \<Rightarrow> vm_info \<Rightarrow> ('s, string) mop" where
  "backend_for_vm w info = backend_for_config w (vi_config info)"

definition runtime_adapter_for_backend :: "string \<Rightarrow> ('s, unit) mop" where
  "runtime_adapter_for_backend backend =
     raise_when (backend \<notin> {''firecracker'', ''qemu'', ''libkrun'', ''vz''}) (CelestoError ''Unsupported backend'')"

definition runtime_adapter_for_vm :: "world \<Rightarrow> vm_info \<Rightarrow> ('s, unit) mop" where
  "runtime_adapter_for_vm w info = bind (backend_for_vm w info) runtime_adapter_for_backend"

definition resolve_control_channel_for_config :: "world \<Rightarrow> vm_config \<Rightarrow> string \<Rightarrow> ('s, comm_kind) mop" where
  "resolve_control_channel_for_config w config backend =
     (case resolve_comm_channel (w_host w) None (vc_comm_channel config) (Some backend) (Some (vc_guest_os config)) None of
        Inr k \<Rightarrow> ret k
      | Inl (VsockNotSupportedError code) \<Rightarrow> raise (CelestoError code)
      | Inl e \<Rightarrow> raise e)"

definition should_reserve_ssh_forward :: "vm_config \<Rightarrow> comm_kind \<Rightarrow> bool" where
  "should_reserve_ssh_forward config resolution = (if vc_workspace_mounts config \<noteq> [] then True else resolution = COMM_SSH)"

definition validate_network_policy :: "world \<Rightarrow> vm_config \<Rightarrow> string \<Rightarrow> ('s, unit) mop" where
  "validate_network_policy w config backend =
     (case vc_internet_settings config of
        None \<Rightarrow> ret ()
      | Some raw \<Rightarrow>
          bind (lift (parse_network_policy raw)) (\<lambda>settings.
          lift (validate_network_policy_options (w_host w) settings backend (vc_guest_os config) (vc_comm_channel config)
            (vc_workspace_mounts config \<noteq> []) (vc_port_forwards config \<noteq> [])
            (na_mode (vc_network_attachment config)) (vc_qemu_network config))))"

definition has_restrictions :: "vm_config \<Rightarrow> bool" where
  "has_restrictions config =
     (case vc_internet_settings config of None \<Rightarrow> False | Some s \<Rightarrow> has_explicit_restrictions s)"

definition is_public :: "vm_config \<Rightarrow> bool" where
  "is_public config = (case vc_internet_settings config of None \<Rightarrow> False | Some s \<Rightarrow> is_mode s = Some NET_PUBLIC)"

definition uses_host_tap_networking :: "vm_config \<Rightarrow> string \<Rightarrow> bool" where
  "uses_host_tap_networking config backend =
     (if backend = ''firecracker'' then True
      else if backend = ''qemu''
      then vc_qemu_network config = QN_TAP \<or> na_mode (vc_network_attachment config) = MODE_BRIDGE
      else False)"

definition policy_destinations :: "vm_config \<Rightarrow> string list option" where
  "policy_destinations config =
     (case vc_internet_settings config of
        None \<Rightarrow> None | Some s \<Rightarrow> if has_explicit_restrictions s then Some (is_allowed_cidrs s) else None)"

section \<open>Public egress\<close>

definition stop_public_egress :: "world \<Rightarrow> string \<Rightarrow> ('s, unit) mop" where
  "stop_public_egress w vm_id =
     bind (gets (\<lambda>m. map_of (mg_public_egress m) vm_id)) (\<lambda>session.
       case session of
         None \<Rightarrow> ret ()
       | Some _ \<Rightarrow>
           bind (ask (w_egress w)) (\<lambda>env.
           bind (on_session vm_id (delete_session env)) (\<lambda>_.
             modify (\<lambda>m. m\<lparr>mg_public_egress := AList.delete vm_id (mg_public_egress m)\<rparr>))))"

definition prepare_public_egress :: "'s vm_store \<Rightarrow> world \<Rightarrow> vm_info \<Rightarrow> ('s, vm_info) mop" where
  "prepare_public_egress so w info =
     (if \<not> is_public (vi_config info) then ret info
      else
        let vm_id = vi_vm_id info in
        bind (gets (\<lambda>m. map_of (mg_unrecorded m) vm_id \<noteq> None)) (\<lambda>pending.
        bind (raise_when pending (CelestoError ''still stopping'')) (\<lambda>_.
        bind (stop_public_egress w vm_id) (\<lambda>_.
        case vi_network info of
          None \<Rightarrow> raise (CelestoError ''has no network'')
        | Some net \<Rightarrow>
            bind (lift (new_session vm_id QEMU_SLIRP_NET net)) (\<lambda>session.
            bind (modify (\<lambda>m. m\<lparr>mg_public_egress := AList.update vm_id session (mg_public_egress m)\<rparr>)) (\<lambda>_.
            bind (ask (w_egress w)) (\<lambda>env.
            bind (on_session vm_id (prepare_session env)) (\<lambda>metadata.
              on_store (\<lambda>st. so_update so st vm_id (no_update\<lparr>up_network := Some metadata\<rparr>)))))))))) "

section \<open>Network of a computer\<close>

definition setup_policy_network :: "world \<Rightarrow> vm_config \<Rightarrow> string \<Rightarrow> string \<Rightarrow> ('s, unit) mop" where
  "setup_policy_network w config tap guest_ip =
     (let destinations = policy_destinations config in
      bind (if destinations \<noteq> None then backend_for_config w config else ret []) (\<lambda>backend.
      bind (if destinations \<noteq> None \<and> backend = ''qemu''
            then network w (APPLY_POLICY tap destinations (Some guest_ip))
            else network w (APPLY_POLICY tap destinations None)) (\<lambda>_.
        network w (SETUP_NAT tap (destinations = None)))))"

text \<open>The allow list of the legacy \<open>allowed_domains\<close> setting.\<close>

definition apply_domain_allowlist :: "world \<Rightarrow> vm_config \<Rightarrow> string \<Rightarrow> ('s, unit) mop" where
  "apply_domain_allowlist w config tap =
     (case vc_internet_settings config of
        None \<Rightarrow> ret ()
      | Some s \<Rightarrow>
          if is_mode s = None \<and> \<not> is_allow_all_domains s
          then bind (attempt (\<lambda>t. w_resolve_domains w t (is_allowed_domains s))) (\<lambda>ips. network w (APPLY_ALLOWLIST tap ips))
          else ret ())"

definition validate_bridge_mode :: "world \<Rightarrow> vm_config \<Rightarrow> string \<Rightarrow> comm_kind option \<Rightarrow> ('s, unit) mop" where
  "validate_bridge_mode w config backend resolution =
     bind (raise_when (hp_system (w_host w) \<noteq> ''Linux'') (CelestoError ''Bridged networking is unavailable on this host'')) (\<lambda>_.
     bind (raise_when (backend \<noteq> ''firecracker'' \<and> backend \<noteq> ''qemu'') (CelestoError ''Bridged networking is unavailable with backend'')) (\<lambda>_.
     bind (raise_when (vc_guest_os config = WINDOWS) (CelestoError ''Bridged networking is unavailable for Windows'')) (\<lambda>_.
     bind (raise_when (\<not> vc_guest_managed_networking config) (CelestoError ''image cannot configure bridged networking'')) (\<lambda>_.
     bind (case resolution of Some k \<Rightarrow> ret k | None \<Rightarrow> resolve_control_channel_for_config w config backend) (\<lambda>kind.
     bind (raise_when (kind \<noteq> COMM_VSOCK) (CelestoError ''needs fast shell support'')) (\<lambda>_.
     bind (raise_when (vc_workspace_mounts config \<noteq> []) (CelestoError ''cannot share host folders yet'')) (\<lambda>_.
     bind (raise_when (vc_port_forwards config \<noteq> []) (CelestoError ''cannot use launch-time port forwarding'')) (\<lambda>_.
     bind (raise_when (\<not> unrestricted config) (CelestoError ''Domain controls do not apply'')) (\<lambda>_.
     case na_bridge (vc_network_attachment config) of
       None \<Rightarrow> raise (CelestoError ''has no bridge'')
     | Some bridge \<Rightarrow>
         bind (raise_when (bridge = []) (CelestoError ''has no bridge'')) (\<lambda>_.
         bind (ask (\<lambda>t. w_bridge_ok w t bridge)) (\<lambda>ok. raise_when (\<not> ok) (CelestoError ''bridge inspection''))))))))))))"

definition ensure_bridge_ready ::
  "'s vm_store \<Rightarrow> world \<Rightarrow> string \<Rightarrow> network_config \<Rightarrow> vm_config \<Rightarrow> string \<Rightarrow> ('s, unit) mop" where
  "ensure_bridge_ready so w vm_id net config backend =
     (let bridge = (case nc_bridge net of Some b \<Rightarrow> b | None \<Rightarrow> []) in
      bind (raise_when (Some bridge \<noteq> na_bridge (vc_network_attachment config)) (CelestoError ''inconsistent bridge settings'')) (\<lambda>_.
      bind (validate_bridge_mode w config backend None) (\<lambda>_.
      bind (on_store (\<lambda>st. so_reserve_tap so st vm_id ''bridge'' (Some bridge) (Some (nc_tap_device net)))) (\<lambda>_.
        network w (PREPARE_BRIDGED (nc_tap_device net) bridge vm_id)))))"

definition ensure_network_connectivity :: "'s vm_store \<Rightarrow> world \<Rightarrow> vm_info \<Rightarrow> ('s, unit) mop" where
  "ensure_network_connectivity so w info =
     (let config = vi_config info; vm_id = vi_vm_id info in
      case vi_network info of
        None \<Rightarrow> ret ()
      | Some net \<Rightarrow>
          bind (backend_for_vm w info) (\<lambda>backend.
          bind (validate_network_policy w config backend) (\<lambda>_.
          if is_public config then
            if is_live_status (vi_status info) then
              bind (gets (\<lambda>m. map_of (mg_public_egress m) vm_id)) (\<lambda>session.
              bind (raise_when (session = None) (CelestoError ''belongs to another session'')) (\<lambda>_.
              bind (ask (w_egress w)) (\<lambda>env.
              bind (on_session vm_id (require_ready env)) (\<lambda>_. ret ()))))
            else ret ()
          else if \<not> uses_host_tap_networking config backend then ret ()
          else if nc_mode net = MODE_BRIDGE then ensure_bridge_ready so w vm_id net config backend
          else
            bind (if backend = ''qemu''
                  then bind (ask (\<lambda>t. w_tap_index w t (nc_tap_device net))) (\<lambda>exists.
                         unless exists (network w (PREPARE_TAP (nc_tap_device net)
                           (case nc_gateway_ip net of Some g \<Rightarrow> g | None \<Rightarrow> w_host_ip w))))
                  else ret ()) (\<lambda>_.
            case nc_guest_ip net of
              None \<Rightarrow> raise (AssertionError ''guest_ip'')
            | Some guest_ip \<Rightarrow>
                bind (network w (ADD_ROUTE guest_ip (nc_tap_device net))) (\<lambda>_.
                bind (setup_policy_network w config (nc_tap_device net) guest_ip) (\<lambda>_.
                bind (apply_domain_allowlist w config (nc_tap_device net)) (\<lambda>_.
                case nc_ssh_host_port net of
                  None \<Rightarrow> ret ()
                | Some port \<Rightarrow> network w (SSH_FORWARD vm_id guest_ip port))))))))"

fun check_forwards :: "world \<Rightarrow> port_forward_config list \<Rightarrow> ('s, unit) mop" where
  "check_forwards w [] = ret ()"
| "check_forwards w (f # fs) =
     bind (ask (\<lambda>t. w_port_free w t (pf_host_address f) (pf_host_port f))) (\<lambda>free.
     bind (raise_when (\<not> free) (CelestoError ''Local port is already in use'')) (\<lambda>_. check_forwards w fs))"

definition check_qemu_slirp_host_forward_ports :: "world \<Rightarrow> vm_info \<Rightarrow> ('s, unit) mop" where
  "check_qemu_slirp_host_forward_ports w info =
     (case vi_network info of
        None \<Rightarrow> ret ()
      | Some net \<Rightarrow>
          if vc_qemu_network (vi_config info) = QN_TAP then ret ()
          else
            bind (case nc_ssh_host_port net of
                    None \<Rightarrow> ret ()
                  | Some port \<Rightarrow>
                      bind (ask (\<lambda>t. w_port_free w t ''127.0.0.1'' port)) (\<lambda>free.
                        raise_when (\<not> free) (CelestoError ''Local SSH port is already in use''))) (\<lambda>_.
              check_forwards w (vc_port_forwards (vi_config info))))"

definition check_workspace_mounts :: "world \<Rightarrow> vm_info \<Rightarrow> ('s, unit) mop" where
  "check_workspace_mounts w info =
     bind (ask (w_fs w)) (\<lambda>fs.
       raise_when (list_ex (\<lambda>mnt. fs (wm_host_path mnt) \<noteq> PATH_DIR) (vc_workspace_mounts (vi_config info)))
         (CelestoError ''shared folder is missing''))"

definition enforce_macos_concurrency_limit :: "'s vm_store \<Rightarrow> string \<Rightarrow> ('s, unit) mop" where
  "enforce_macos_concurrency_limit so vm_id =
     bind (from_store (so_list so)) (\<lambda>vms.
       raise_when
         (length (filter (\<lambda>vm. vi_vm_id vm \<noteq> vm_id \<and> vc_guest_os (vi_config vm) = MACOS \<and> vi_status vm = VM_RUNNING) vms) \<ge> 2)
         (CelestoError ''two running macOS computers''))"

section \<open>Starting and stopping\<close>

definition error_update :: vm_update where
  "error_update = no_update\<lparr>up_status := Some VM_ERROR, up_clear_pid := True, up_clear_socket_path := True, up_clear_display := True\<rparr>"

definition launch_update :: "runtime_launch \<Rightarrow> vm_update" where
  "launch_update l = no_update\<lparr>up_status := Some (rl_status l), up_pid := Some (rl_pid l),
     up_control_socket_path := rl_control_socket_path l, up_display := rl_display l\<rparr>"

text \<open>What must hold before anything is launched.\<close>

definition start_checks :: "'s vm_store \<Rightarrow> world \<Rightarrow> vm_info \<Rightarrow> ('s, string) mop" where
  "start_checks so w info =
     (let vm_id = vi_vm_id info; config = vi_config info in
      bind (raise_when (vi_status info \<noteq> VM_CREATED \<and> vi_status info \<noteq> VM_STOPPED) (CelestoError ''Cannot start computer in state'')) (\<lambda>_.
      bind (raise_when (vi_network info = None \<and> vc_guest_os config \<noteq> MACOS) (CelestoError ''Computer has no network configuration'')) (\<lambda>_.
      bind (check_workspace_mounts w info) (\<lambda>_.
      bind (backend_for_vm w info) (\<lambda>backend.
      bind (validate_network_policy w config backend) (\<lambda>_.
      bind (if has_restrictions config then ensure_network_connectivity so w info else ret ()) (\<lambda>_.
      bind (if backend = ''vz'' then enforce_macos_concurrency_limit so vm_id else ret ()) (\<lambda>_.
      bind (case vi_network info of
              None \<Rightarrow> ret ()
            | Some net \<Rightarrow> if nc_mode net = MODE_BRIDGE then ensure_bridge_ready so w vm_id net config backend else ret ()) (\<lambda>_.
      bind (if backend = ''qemu'' then check_qemu_slirp_host_forward_ports w info else ret ()) (\<lambda>_.
      bind (runtime_adapter_for_backend backend) (\<lambda>_. ret backend)))))))))))"

text \<open>The launch itself; a public computer is remembered until its row is written.\<close>

definition launch_computer :: "'s vm_store \<Rightarrow> world \<Rightarrow> vm_info \<Rightarrow> ('s, vm_info) mop" where
  "launch_computer so w info =
     (let vm_id = vi_vm_id info in
      bind (prepare_public_egress so w info) (\<lambda>prepared.
      bind (adapter_start w prepared) (\<lambda>launch.
      bind (modify (\<lambda>m. if map_of (mg_public_egress m) vm_id = None then m
              else m\<lparr>mg_unrecorded := AList.update vm_id
                (prepared\<lparr>vi_status := rl_status launch, vi_pid := Some (rl_pid launch),
                  vi_control_socket_path := rl_control_socket_path launch, vi_display := rl_display launch\<rparr>)
                (mg_unrecorded m)\<rparr>)) (\<lambda>_.
      bind (on_store (\<lambda>st. so_update so st vm_id (launch_update launch))) (\<lambda>updated.
      bind (modify (\<lambda>m. m\<lparr>mg_unrecorded := AList.delete vm_id (mg_unrecorded m)\<rparr>)) (\<lambda>_. ret updated))))))"

definition roll_back_start :: "'s vm_store \<Rightarrow> world \<Rightarrow> string \<Rightarrow> ('s, unit) mop" where
  "roll_back_start so w vm_id =
     bind (gets (\<lambda>m. map_of (mg_unrecorded m) vm_id)) (\<lambda>pending.
     bind (case pending of
             None \<Rightarrow> ret ()
           | Some p \<Rightarrow> bind (adapter_stop w p) (\<lambda>_.
               modify (\<lambda>m. m\<lparr>mg_unrecorded := AList.delete vm_id (mg_unrecorded m)\<rparr>))) (\<lambda>_.
     bind (stop_public_egress w vm_id) (\<lambda>_.
     bind (on_store (\<lambda>st. so_update so st vm_id error_update)) (\<lambda>_. ret ()))))"

definition start_claimed :: "'s vm_store \<Rightarrow> world \<Rightarrow> string \<Rightarrow> ('s, vm_info) mop" where
  "start_claimed so w vm_id =
     bind (from_store (\<lambda>st. so_get so st vm_id)) (\<lambda>info.
     bind (start_checks so w info) (\<lambda>_.
       catch (\<lambda>_. True) (launch_computer so w info)
         (\<lambda>e. bind (roll_back_start so w vm_id) (\<lambda>_. raise e))))"

definition stop_update :: vm_update where
  "stop_update = no_update\<lparr>up_status := Some VM_STOPPED, up_clear_pid := True, up_clear_socket_path := True, up_clear_display := True\<rparr>"

definition stop_claimed :: "'s vm_store \<Rightarrow> world \<Rightarrow> string \<Rightarrow> ('s, vm_info) mop" where
  "stop_claimed so w vm_id =
     bind (gets (\<lambda>m. map_of (mg_unrecorded m) vm_id)) (\<lambda>unrecorded.
     bind (case unrecorded of Some info \<Rightarrow> ret info | None \<Rightarrow> from_store (\<lambda>st. so_get so st vm_id)) (\<lambda>info.
     if \<not> is_live_status (vi_status info) then ret info
     else
       bind (runtime_adapter_for_vm w info) (\<lambda>_.
       bind (adapter_stop w info) (\<lambda>_.
       bind (modify (\<lambda>m. m\<lparr>mg_unrecorded := AList.delete vm_id (mg_unrecorded m)\<rparr>)) (\<lambda>_.
       bind (stop_public_egress w vm_id) (\<lambda>_.
         on_store (\<lambda>st. so_update so st vm_id stop_update)))))))"

section \<open>Closing and the operation guard\<close>

fun close_sessions :: "'s vm_store \<Rightarrow> world \<Rightarrow> string list \<Rightarrow> celesto_error list \<Rightarrow> ('s, celesto_error list) mop" where
  "close_sessions so w [] failures = ret failures"
| "close_sessions so w (vm_id # vm_ids) failures =
     bind (catch is_exception
             (bind (stop_claimed so w vm_id) (\<lambda>_. bind (stop_public_egress w vm_id) (\<lambda>_. ret failures)))
             (\<lambda>e. ret (failures @ [e])))
       (\<lambda>failures'. close_sessions so w vm_ids failures')"

definition close_resources :: "'s vm_store \<Rightarrow> world \<Rightarrow> ('s, unit) mop" where
  "close_resources so w =
     bind (gets (\<lambda>m. map fst (mg_public_egress m))) (\<lambda>vm_ids.
     bind (close_sessions so w vm_ids []) (\<lambda>failures.
       case failures of
         [] \<Rightarrow> modify (\<lambda>m. m\<lparr>mg_closed := True\<rparr>)
       | [e] \<Rightarrow> raise e
       | _ \<Rightarrow> raise (CelestoError ''could not finish closing'')))"

definition close_manager :: "'s vm_store \<Rightarrow> world \<Rightarrow> ('s, unit) mop" where
  "close_manager so w =
     bind (gets (\<lambda>m. mg_closed m \<or> mg_closing m)) (\<lambda>finished.
     if finished then ret ()
     else
       bind (modify (\<lambda>m. m\<lparr>mg_close_requested := True\<rparr>)) (\<lambda>_.
       bind (gets (\<lambda>m. mg_active m \<noteq> [])) (\<lambda>busy.
       if busy then ret ()
       else
         bind (modify (\<lambda>m. m\<lparr>mg_closing := True\<rparr>)) (\<lambda>_.
           ensuring (close_resources so w)
             (modify (\<lambda>m. m\<lparr>mg_closing := False, mg_close_requested := mg_closed m\<rparr>))))))"

text \<open>The two halves of the guard; the lock makes each of them one step.\<close>

definition claim_operation :: "string \<Rightarrow> ('s, unit) mop" where
  "claim_operation vm_id =
     bind (gets mg_closed) (\<lambda>closed.
     bind (raise_when closed (CelestoError ''This session is closed'')) (\<lambda>_.
     bind (gets mg_close_requested) (\<lambda>requested.
     bind (raise_when requested (CelestoError ''This session is closing'')) (\<lambda>_.
     bind (gets (\<lambda>m. vm_id \<in> set (mg_active m))) (\<lambda>busy.
     bind (raise_when busy (CelestoError ''Computer is busy'')) (\<lambda>_.
       modify (\<lambda>m. m\<lparr>mg_active := vm_id # mg_active m\<rparr>)))))))"

definition release_operation :: "'s vm_store \<Rightarrow> world \<Rightarrow> string \<Rightarrow> ('s, unit) mop" where
  "release_operation so w vm_id =
     bind (modify (\<lambda>m. m\<lparr>mg_active := removeAll vm_id (mg_active m)\<rparr>)) (\<lambda>_.
     bind (gets (\<lambda>m. mg_close_requested m \<and> mg_active m = [])) (\<lambda>finish_close.
       unless (\<not> finish_close) (close_manager so w)))"

definition vm_operation_guard :: "'s vm_store \<Rightarrow> world \<Rightarrow> string \<Rightarrow> ('s, 'a) mop \<Rightarrow> ('s, 'a) mop" where
  "vm_operation_guard so w vm_id body =
     bind (claim_operation vm_id) (\<lambda>_. ensuring body (release_operation so w vm_id))"

definition start_vm :: "'s vm_store \<Rightarrow> world \<Rightarrow> string \<Rightarrow> ('s, vm_info) mop" where
  "start_vm so w vm_id =
     bind (raise_when (vm_id = []) (ValueError ''vm_id cannot be empty'')) (\<lambda>_.
       vm_operation_guard so w vm_id (start_claimed so w vm_id))"

definition stop_vm :: "'s vm_store \<Rightarrow> world \<Rightarrow> string \<Rightarrow> ('s, vm_info) mop" where
  "stop_vm so w vm_id =
     bind (raise_when (vm_id = []) (ValueError ''vm_id cannot be empty'')) (\<lambda>_.
       vm_operation_guard so w vm_id (stop_claimed so w vm_id))"

section \<open>Liveness, pausing and resuming\<close>

definition refresh_status :: "'s vm_store \<Rightarrow> world \<Rightarrow> vm_info \<Rightarrow> ('s, vm_info) mop" where
  "refresh_status so w info =
     (if \<not> is_live_status (vi_status info) then ret info
      else case vi_pid info of
          None \<Rightarrow> ret info
        | Some pid \<Rightarrow>
            bind (ask (\<lambda>t. w_alive w t pid)) (\<lambda>alive.
              if alive then ret info
              else bind (forget_processes [vi_vm_id info]) (\<lambda>_. on_store (\<lambda>st. so_update so st (vi_vm_id info)
                     (no_update\<lparr>up_status := Some VM_ERROR, up_clear_pid := True\<rparr>)))))"

definition raise_crashed_or_state_error :: "'s vm_store \<Rightarrow> world \<Rightarrow> vm_info \<Rightarrow> ('s, unit) mop" where
  "raise_crashed_or_state_error so w info =
     bind (refresh_status so w info) (\<lambda>refreshed.
       if vi_status refreshed = VM_ERROR \<and> is_live_status (vi_status info) then raise (CelestoError ''crashed'')
       else raise (CelestoError ''wrong state''))"

definition raise_if_crashed :: "'s vm_store \<Rightarrow> world \<Rightarrow> vm_info \<Rightarrow> ('s, unit) mop" where
  "raise_if_crashed so w info =
     bind (refresh_status so w info) (\<lambda>refreshed. raise_when (vi_status refreshed = VM_ERROR) (CelestoError ''crashed''))"

definition pause_vm :: "'s vm_store \<Rightarrow> world \<Rightarrow> string \<Rightarrow> ('s, vm_info) mop" where
  "pause_vm so w vm_id =
     bind (raise_when (vm_id = []) (ValueError ''vm_id cannot be empty'')) (\<lambda>_.
     bind (from_store (\<lambda>st. so_get so st vm_id)) (\<lambda>info.
     bind (if vi_status info \<noteq> VM_RUNNING then raise_crashed_or_state_error so w info else ret ()) (\<lambda>_.
     bind (catch is_exception
             (bind (runtime_adapter_for_vm w info) (\<lambda>_. attempt (\<lambda>t. w_pause w t info)))
             (\<lambda>e. bind (raise_if_crashed so w info) (\<lambda>_. raise e))) (\<lambda>_.
       on_store (\<lambda>st. so_update so st vm_id (no_update\<lparr>up_status := Some VM_PAUSED\<rparr>))))))"

definition resume_vm :: "'s vm_store \<Rightarrow> world \<Rightarrow> string \<Rightarrow> ('s, vm_info) mop" where
  "resume_vm so w vm_id =
     bind (raise_when (vm_id = []) (ValueError ''vm_id cannot be empty'')) (\<lambda>_.
     bind (from_store (\<lambda>st. so_get so st vm_id)) (\<lambda>info.
     bind (if vi_status info \<noteq> VM_PAUSED then raise_crashed_or_state_error so w info else ret ()) (\<lambda>_.
     bind (backend_for_vm w info) (\<lambda>backend.
     bind (validate_network_policy w (vi_config info) backend) (\<lambda>_.
     bind (if has_restrictions (vi_config info) then ensure_network_connectivity so w info else ret ()) (\<lambda>_.
     bind (catch is_exception
             (bind (runtime_adapter_for_vm w info) (\<lambda>_. attempt (\<lambda>t. w_resume w t info)))
             (\<lambda>e. bind (raise_if_crashed so w info) (\<lambda>_. raise e))) (\<lambda>_.
       on_store (\<lambda>st. so_update so st vm_id (no_update\<lparr>up_status := Some VM_RUNNING\<rparr>)))))))))"

end
