(* ===== verification/Manager_Resources.thy ===== *)
theory Manager_Resources
  imports Manager Mac_Address
begin

text \<open>
  The resources of a computer in \<open>vm.py\<close>: reserving a port and a context identifier that are free on the host as well as in
  the state manager, creating a computer with its disk and its network, undoing a creation that failed, and
  releasing everything a deleted computer held.
\<close>

section \<open>Ports and context identifiers\<close>

text \<open>
  The loop of \<open>_reserve_available_ssh_port\<close>, with fuel; \<open>None\<close> says that the fuel was not enough.
\<close>

definition ssh_pool_size :: nat where
  "ssh_pool_size = nat (SSH_PORT_END - SSH_PORT_START + 1)"

fun ssh_port_loop :: "'s vm_store \<Rightarrow> world \<Rightarrow> string \<Rightarrow> nat \<Rightarrow> int list \<Rightarrow> ('s, int option) mop" where
  "ssh_port_loop so w vm_id 0 excluded = ret None"
| "ssh_port_loop so w vm_id (Suc fuel) excluded =
     (if length excluded < ssh_pool_size then
        bind (on_store (\<lambda>st. so_reserve_ssh so st vm_id excluded)) (\<lambda>port.
        bind (ask (\<lambda>t. w_port_free w t ''127.0.0.1'' port)) (\<lambda>free.
          if free then ret (Some port)
          else bind (on_store (\<lambda>st. so_release_ssh so st vm_id)) (\<lambda>_.
            ssh_port_loop so w vm_id fuel (List.insert port excluded))))
      else raise (NetworkError ''No local SSH port is available''))"

definition reserve_available_ssh_port :: "'s vm_store \<Rightarrow> world \<Rightarrow> string \<Rightarrow> ('s, int) mop" where
  "reserve_available_ssh_port so w vm_id =
     bind (ssh_port_loop so w vm_id (ssh_pool_size + 1) []) (\<lambda>found.
       case found of Some port \<Rightarrow> ret port | None \<Rightarrow> raise (AssertionError ''fuel''))"

fun free_cid_loop :: "'s vm_store \<Rightarrow> string \<Rightarrow> int list \<Rightarrow> int list \<Rightarrow> ('s, int) mop" where
  "free_cid_loop so vm_id live [] = raise (NetworkError ''No vsock CIDs available in pool'')"
| "free_cid_loop so vm_id live (cid # cids) =
     (if cid \<in> set live then free_cid_loop so vm_id live cids
      else catch is_network_error (on_store (\<lambda>st. so_reserve_vsock so st vm_id (Some cid)))
             (\<lambda>_. free_cid_loop so vm_id live cids))"

definition reserve_vsock_cid_for_backend ::
  "'s vm_store \<Rightarrow> world \<Rightarrow> string \<Rightarrow> string \<Rightarrow> int option \<Rightarrow> ('s, int) mop" where
  "reserve_vsock_cid_for_backend so w vm_id backend requested_cid =
     (if backend \<noteq> ''qemu'' then on_store (\<lambda>st. so_reserve_vsock so st vm_id requested_cid)
      else
        bind (ask (w_live_cids w)) (\<lambda>live.
        if live = [] then on_store (\<lambda>st. so_reserve_vsock so st vm_id requested_cid)
        else case requested_cid of
            Some _ \<Rightarrow>
              bind (on_store (\<lambda>st. so_reserve_vsock so st vm_id requested_cid)) (\<lambda>cid.
              if cid \<in> set live
              then bind (on_store (\<lambda>st. so_release_vsock so st vm_id)) (\<lambda>_. raise (NetworkError ''Vsock CID is already in use''))
              else ret cid)
          | None \<Rightarrow>
              bind (from_store (\<lambda>st. so_get_vsock so st vm_id)) (\<lambda>existing.
              case existing of
                Some cid \<Rightarrow> ret cid
              | None \<Rightarrow> free_cid_loop so vm_id live [VSOCK_CID_START..VSOCK_CID_END])))"

definition vsock_config_of :: "int \<Rightarrow> string option \<Rightarrow> vsock_config result" where
  "vsock_config_of cid uds_path =
     (if cid < 3 \<or> cid > 4294967295 then Inl (ValueError ''guest_cid'')
      else Inr \<lparr>vs_guest_cid = cid, vs_uds_path = uds_path\<rparr>)"

definition maybe_enable_vsock :: "'s vm_store \<Rightarrow> world \<Rightarrow> vm_config \<Rightarrow> string \<Rightarrow> vm_info \<Rightarrow> ('s, vm_info) mop" where
  "maybe_enable_vsock so w config backend info =
     bind (resolve_control_channel_for_config w config backend) (\<lambda>kind.
     let requested = vc_vsock config;
         should_reserve_device = (backend \<in> {''qemu'', ''firecracker''} \<and> requested \<noteq> None)
     in if kind \<noteq> COMM_VSOCK \<and> \<not> should_reserve_device then ret info
        else
          bind (reserve_vsock_cid_for_backend so w (vc_vm_id config) backend (map_option vs_guest_cid requested)) (\<lambda>cid.
          let uds_path = (case requested of Some v \<Rightarrow> vs_uds_path v | None \<Rightarrow> None);
              uds_path = (if backend = ''firecracker'' \<and> uds_path = None
                          then Some (w_socket_dir w @ ''/vsock-'' @ vc_vm_id config @ ''.sock'') else uds_path)
          in bind (lift (vsock_config_of cid uds_path)) (\<lambda>vsock.
             on_store (\<lambda>st. so_update so st (vc_vm_id config) (no_update\<lparr>up_config := Some (config\<lparr>vc_vsock := Some vsock\<rparr>)\<rparr>)))))"

section \<open>Releasing what a computer holds\<close>

definition validate_cleanup_id :: "string \<Rightarrow> ('s, unit) mop" where
  "validate_cleanup_id vm_id = raise_when (\<not> IDENTIFIER_PATTERN vm_id) (ValueError ''Invalid sandbox name'')"

definition vm_info_for_cleanup :: "'s vm_store \<Rightarrow> string \<Rightarrow> ('s, vm_info option) mop" where
  "vm_info_for_cleanup so vm_id =
     catch is_exception (bind (from_store (\<lambda>st. so_get so st vm_id)) (\<lambda>info. ret (Some info))) (\<lambda>_. ret None)"

definition bridge_row :: "vm_info option \<Rightarrow> bool" where
  "bridge_row info = (case info of None \<Rightarrow> False
     | Some i \<Rightarrow> (case vi_network i of None \<Rightarrow> False | Some net \<Rightarrow> nc_mode net = MODE_BRIDGE))"

definition bridge_alloc :: "(string \<times> string \<times> string option) option \<Rightarrow> bool" where
  "bridge_alloc tap_alloc = (case tap_alloc of None \<Rightarrow> False | Some (_, mode, _) \<Rightarrow> mode = ''bridge'')"

text \<open>The bridge branch: only an interface that is known to be foreign or removed is forgotten.\<close>

definition cleanup_bridge ::
  "'s vm_store \<Rightarrow> world \<Rightarrow> string \<Rightarrow> string option \<Rightarrow> bool \<Rightarrow> bool \<Rightarrow> ('s, unit) mop" where
  "cleanup_bridge so w vm_id tap_device reserved strict =
     (let forget = (if reserved then on_store (\<lambda>st. so_release_tap so st vm_id) else ret ()) in
      case tap_device of
        None \<Rightarrow> ret ()
      | Some tap \<Rightarrow>
          if tap = [] then ret ()
          else
            bind (catch is_exception (bind (network w (CLEANUP_BRIDGED tap vm_id)) (\<lambda>_. ret True))
                    (\<lambda>e. case e of
                       BridgeTapOwnershipError _ \<Rightarrow> ret True
                     | _ \<Rightarrow> if strict then raise e else ret False))
              (\<lambda>gone. if gone then forget else ret ()))"

text \<open>The address-translation branch: every step is tried, whatever happened to the others.\<close>

definition cleanup_nat ::
  "'s vm_store \<Rightarrow> world \<Rightarrow> string \<Rightarrow> (string \<times> string) option \<Rightarrow> bool \<Rightarrow> int option \<Rightarrow> string option \<Rightarrow> ('s, unit) mop" where
  "cleanup_nat so w vm_id lease uses_tap ssh_host_port guest_ip =
     bind (case (ssh_host_port, guest_ip) of
             (Some port, Some ip) \<Rightarrow>
               if uses_tap \<and> ip \<noteq> [] then suppress (network w (CLEANUP_SSH_FORWARD vm_id ip port)) else ret ()
           | _ \<Rightarrow> ret ()) (\<lambda>_.
     bind (suppress (network w (CLEANUP_LOCAL_FORWARDS vm_id))) (\<lambda>_.
     case lease of
       None \<Rightarrow> ret ()
     | Some (_, tap) \<Rightarrow>
         bind (if uses_tap
               then for_each (\<lambda>cmd. suppress (network w cmd))
                      [REMOVE_EGRESS_RULES tap, CLEANUP_NAT_RULES tap, CLEANUP_TAP tap, REMOVE_POLICY tap]
               else ret ()) (\<lambda>_.
           suppress (on_store (\<lambda>st. so_release_ip so st vm_id)))))"

definition cleanup_socket :: "world \<Rightarrow> string \<Rightarrow> ('s, unit) mop" where
  "cleanup_socket w path =
     bind (ask (w_fs w)) (\<lambda>fs.
       if fs path \<noteq> PATH_MISSING then suppress (attempt (\<lambda>t. w_unlink_socket w t path)) else ret ())"

definition cleanup_host_resources ::
  "'s vm_store \<Rightarrow> world \<Rightarrow> string \<Rightarrow> vm_info option \<Rightarrow> bool \<Rightarrow> ('s, unit) mop" where
  "cleanup_host_resources so w vm_id info strict =
     bind (gets mg_backend) (\<lambda>default.
     bind (case info of
             None \<Rightarrow> ret default
           | Some i \<Rightarrow> catch is_celesto_error (backend_for_vm w i) (\<lambda>_. ret default)) (\<lambda>backend.
     bind (from_store (\<lambda>st. so_get_ip_lease so st vm_id)) (\<lambda>lease.
     bind (from_store (\<lambda>st. so_get_tap so st vm_id)) (\<lambda>tap_alloc.
     bind (case info of
             Some i \<Rightarrow> (case vi_network i of
                 Some net \<Rightarrow> ret (nc_ssh_host_port net, nc_guest_ip net)
               | None \<Rightarrow> bind (from_store (\<lambda>st. so_get_ssh so st vm_id)) (\<lambda>p. ret (p, map_option fst lease)))
           | None \<Rightarrow> bind (from_store (\<lambda>st. so_get_ssh so st vm_id)) (\<lambda>p. ret (p, map_option fst lease))) (\<lambda>(ssh_host_port, guest_ip).
     let is_bridge = (bridge_row info \<or> bridge_alloc tap_alloc);
         uses_tap = (case info of Some i \<Rightarrow> uses_host_tap_networking (vi_config i) backend
                     | None \<Rightarrow> lease \<noteq> None \<or> tap_alloc \<noteq> None);
         tap_device = (case tap_alloc of
             Some (tap, _) \<Rightarrow> Some tap
           | None \<Rightarrow> (case info of None \<Rightarrow> None | Some i \<Rightarrow> map_option nc_tap_device (vi_network i)))
     in bind (if is_bridge then cleanup_bridge so w vm_id tap_device (tap_alloc \<noteq> None) strict
              else cleanup_nat so w vm_id lease uses_tap ssh_host_port guest_ip) (\<lambda>_.
        bind (if ssh_host_port \<noteq> None \<and> \<not> is_bridge
              then suppress (on_store (\<lambda>st. so_release_ssh so st vm_id)) else ret ()) (\<lambda>_.
        for_each (cleanup_socket w)
          [w_socket_dir w @ ''/fc-'' @ vm_id @ ''.sock'', w_socket_dir w @ ''/qmp-'' @ vm_id @ ''.sock'']))))))) "

definition cleanup_resources :: "'s vm_store \<Rightarrow> world \<Rightarrow> string \<Rightarrow> bool \<Rightarrow> bool \<Rightarrow> ('s, unit) mop" where
  "cleanup_resources so w vm_id preserve_managed_disk require_bridge_cleanup =
     bind (validate_cleanup_id vm_id) (\<lambda>_.
     bind (vm_info_for_cleanup so vm_id) (\<lambda>info.
     bind (catch is_exception (cleanup_host_resources so w vm_id info require_bridge_cleanup)
             (\<lambda>e. if require_bridge_cleanup then raise e else ret ())) (\<lambda>_.
       attempt (\<lambda>t. w_cleanup_artifacts w t vm_id info preserve_managed_disk))))"

definition delete_claimed :: "'s vm_store \<Rightarrow> world \<Rightarrow> string \<Rightarrow> ('s, unit) mop" where
  "delete_claimed so w vm_id =
     bind (gets (\<lambda>m. map_of (mg_unrecorded m) vm_id \<noteq> None)) (\<lambda>unrecorded.
     bind (if unrecorded then bind (stop_claimed so w vm_id) (\<lambda>_. ret ()) else ret ()) (\<lambda>_.
     bind (catch (\<lambda>e. case e of VMNotFoundError _ \<Rightarrow> True | _ \<Rightarrow> False)
             (from_store (\<lambda>st. so_get so st vm_id))
             (\<lambda>e. bind (cleanup_resources so w vm_id False False) (\<lambda>_. raise e))) (\<lambda>info.
     bind (if is_live_status (vi_status info) then bind (stop_claimed so w vm_id) (\<lambda>_. ret ()) else ret ()) (\<lambda>_.
     bind (stop_public_egress w vm_id) (\<lambda>_.
     bind (attempt (\<lambda>t. w_delete_bundle w t info)) (\<lambda>_.
     bind (if bridge_row (Some info) then ret True
           else bind (from_store (\<lambda>st. so_get_tap so st vm_id)) (\<lambda>tap_alloc. ret (bridge_alloc tap_alloc))) (\<lambda>strict.
     bind (cleanup_resources so w vm_id False strict) (\<lambda>_.
       on_store (\<lambda>st. so_delete so st vm_id)))))))))"

definition delete_vm :: "'s vm_store \<Rightarrow> world \<Rightarrow> string \<Rightarrow> ('s, unit) mop" where
  "delete_vm so w vm_id =
     bind (validate_cleanup_id vm_id) (\<lambda>_. vm_operation_guard so w vm_id (delete_claimed so w vm_id))"

text \<open>Sweeping the rows of dead processes.\<close>

definition reconcile_forward :: "'s vm_store \<Rightarrow> world \<Rightarrow> string \<Rightarrow> ('s, unit) mop" where
  "reconcile_forward so w vm_id =
     bind (from_store (\<lambda>st. so_get so st vm_id)) (\<lambda>info.
       case vi_network info of
         None \<Rightarrow> ret ()
       | Some net \<Rightarrow>
           (case nc_ssh_host_port net of
              None \<Rightarrow> ret ()
            | Some port \<Rightarrow>
                (case nc_guest_ip net of
                   None \<Rightarrow> raise (AssertionError ''guest_ip'')
                 | Some ip \<Rightarrow> network w (CLEANUP_SSH_FORWARD vm_id ip port))))"

definition reconcile :: "'s vm_store \<Rightarrow> world \<Rightarrow> ('s, string list) mop" where
  "reconcile so w =
     bind (on_store (so_reconcile so)) (\<lambda>stale.
     bind (forget_processes stale) (\<lambda>_.
     bind (for_each (\<lambda>vm_id. suppress (reconcile_forward so w vm_id)) stale) (\<lambda>_. ret stale)))"

section \<open>Creating a computer\<close>

definition effective_create_config :: "vm_config \<Rightarrow> string \<Rightarrow> vm_config" where
  "effective_create_config config backend =
     (let c = (if vc_backend config \<noteq> Some backend then config\<lparr>vc_backend := Some backend\<rparr> else config)
      in if na_mode (vc_network_attachment c) = MODE_BRIDGE \<and> backend = ''qemu'' \<and> vc_qemu_network c \<noteq> QN_TAP
         then c\<lparr>vc_qemu_network := QN_TAP\<rparr> else c)"

definition is_bridge_attachment :: "vm_config \<Rightarrow> bool" where
  "is_bridge_attachment config \<longleftrightarrow> na_mode (vc_network_attachment config) = MODE_BRIDGE"

definition create_checks :: "world \<Rightarrow> vm_config \<Rightarrow> string \<Rightarrow> ('s, unit) mop" where
  "create_checks w config backend =
     bind (raise_when (vc_workspace_mounts config \<noteq> [] \<and> backend \<notin> {''qemu'', ''vz''})
            (CelestoError ''Shared folders are only supported with the QEMU backend'')) (\<lambda>_.
     bind (if is_bridge_attachment config
           then bind (resolve_control_channel_for_config w config backend) (\<lambda>kind. validate_bridge_mode w config backend (Some kind))
           else ret ()) (\<lambda>_.
       validate_network_policy w config backend))"

definition ensure_vm_id_available :: "'s vm_store \<Rightarrow> string \<Rightarrow> ('s, unit) mop" where
  "ensure_vm_id_available so vm_id =
     bind (catch (\<lambda>e. case e of VMNotFoundError _ \<Rightarrow> True | _ \<Rightarrow> False)
             (bind (from_store (\<lambda>st. so_get so st vm_id)) (\<lambda>_. ret True)) (\<lambda>_. ret False))
       (\<lambda>found. raise_when found (VMAlreadyExistsError vm_id))"

definition instance_disk_path :: "world \<Rightarrow> string \<Rightarrow> string \<Rightarrow> rootfs_format option \<Rightarrow> string" where
  "instance_disk_path w vm_id backend fmt =
     w_data_dir w @ ''/disks/'' @ vm_id @ (if backend = ''qemu'' \<and> fmt \<noteq> Some RAW_EXT4 then ''.qcow2'' else ''.ext4'')"

definition qemu_materialized_rootfs_format :: "vm_config \<Rightarrow> rootfs_format result" where
  "qemu_materialized_rootfs_format config =
     rbind (effective_rootfs_format config) (\<lambda>f. Inr (if f = RAW_EXT4 \<and> vc_grow_filesystem config then RAW_EXT4 else QCOW2))"

definition materialized_rootfs_format :: "vm_config \<Rightarrow> string \<Rightarrow> rootfs_format result" where
  "materialized_rootfs_format config backend =
     (if backend = ''qemu'' then qemu_materialized_rootfs_format config else effective_rootfs_format config)"

definition managed_disk_path_for_create :: "world \<Rightarrow> vm_config \<Rightarrow> string \<Rightarrow> string option result" where
  "managed_disk_path_for_create w config backend =
     (if vc_guest_os config = MACOS \<or> vc_disk_mode config = DISK_SHARED then Inr None
      else rbind (materialized_rootfs_format config backend) (\<lambda>f.
        Inr (Some (instance_disk_path w (vc_vm_id config) backend (Some f)))))"

definition is_os_error :: "celesto_error \<Rightarrow> bool" where
  "is_os_error e \<longleftrightarrow> (case e of OSError _ \<Rightarrow> True | _ \<Rightarrow> False)"

definition disk_step :: "world \<Rightarrow> disk_cmd \<Rightarrow> ('s, unit) mop" where
  "disk_step w cmd = bind (attempt (\<lambda>t. w_disk w t cmd)) (\<lambda>_. modify (\<lambda>m. m\<lparr>mg_disk := mg_disk m @ [cmd]\<rparr>))"

text \<open>\<open>with suppress(OSError)\<close> around a step\<close>

definition disk_try :: "world \<Rightarrow> disk_cmd \<Rightarrow> ('s, unit) mop" where
  "disk_try w cmd = catch is_os_error (disk_step w cmd) (\<lambda>_. ret ())"

definition path_exists :: "world \<Rightarrow> string \<Rightarrow> ('s, bool) mop" where
  "path_exists w p = ask (\<lambda>t. w_fs w t p \<noteq> PATH_MISSING)"

definition optional_exists :: "world \<Rightarrow> string option \<Rightarrow> ('s, bool) mop" where
  "optional_exists w p = (case p of None \<Rightarrow> ret False | Some path \<Rightarrow> path_exists w path)"

definition materialize_rootfs :: "world \<Rightarrow> vm_config \<Rightarrow> ('s, vm_config) mop" where
  "materialize_rootfs w config =
     (case vc_rootfs_path config of
        None \<Rightarrow> raise (AssertionError ''rootfs_path'')
      | Some base \<Rightarrow>
          bind (lift (effective_rootfs_format config)) (\<lambda>format.
          bind (if format = QCOW2 then disk_step w (INSPECT_QCOW2 base) else ret ()) (\<lambda>_.
          if vc_disk_mode config = DISK_SHARED then ret config
          else
            bind (backend_for_config w config) (\<lambda>backend.
            bind (lift (materialized_rootfs_format config backend)) (\<lambda>materialized.
            let disk = instance_disk_path w (vc_vm_id config) backend (Some materialized) in
            bind (path_exists w disk) (\<lambda>there.
            bind (if there then ret ()
                  else if backend = ''qemu'' \<and> materialized = QCOW2
                  then bind (lift (qemu_rootfs_format config)) (\<lambda>f. disk_step w (OVERLAY_DISK base disk f))
                  else disk_step w (COPY_DISK base disk)) (\<lambda>_.
              ret (config\<lparr>vc_rootfs_path := Some disk, vc_rootfs_format := Some materialized\<rparr>))))))))"

text \<open>Sizes in bytes; a disk is never made smaller.\<close>

definition resize_disk :: "world \<Rightarrow> string \<Rightarrow> int \<Rightarrow> ('s, unit) mop" where
  "resize_disk w disk target_mib =
     bind (attempt (\<lambda>t. w_disk_size w t disk)) (\<lambda>current.
     let target = target_mib * 1048576 in
     bind (raise_when (target < current) (CelestoError ''Requested disk size is smaller'')) (\<lambda>_.
     if target = current then ret () else disk_step w (RESIZE_DISK disk target)))"

definition resize_materialized_rootfs :: "world \<Rightarrow> vm_config \<Rightarrow> ('s, vm_config) mop" where
  "resize_materialized_rootfs w config =
     bind (raise_when ((vc_disk_size_mib config \<noteq> None \<or> vc_grow_filesystem config) \<and> vc_disk_mode config = DISK_SHARED)
            (CelestoError ''Disk resizing needs an isolated disk'')) (\<lambda>_.
     if vc_disk_size_mib config = None \<and> \<not> vc_grow_filesystem config then ret config
     else case vc_rootfs_path config of
         None \<Rightarrow> raise (AssertionError ''rootfs_path'')
       | Some disk \<Rightarrow>
           bind (lift (effective_rootfs_format config)) (\<lambda>format.
           if format = QCOW2 then
             bind (raise_when (vc_grow_filesystem config) (CelestoError ''Filesystem growth for qcow2 disks'')) (\<lambda>_.
             bind (case vc_disk_size_mib config of None \<Rightarrow> ret () | Some mib \<Rightarrow> resize_disk w disk mib) (\<lambda>_. ret config))
           else
             bind (case vc_disk_size_mib config of
                     None \<Rightarrow> bind (attempt (\<lambda>t. w_disk_size w t disk)) (\<lambda>_. ret ())
                   | Some mib \<Rightarrow> resize_disk w disk mib) (\<lambda>_.
             bind (if vc_grow_filesystem config then disk_step w (GROW_FILESYSTEM disk) else ret ()) (\<lambda>_. ret config))))"

definition materialize_firmware :: "world \<Rightarrow> vm_config \<Rightarrow> ('s, unit) mop" where
  "materialize_firmware w config =
     (if vc_guest_os config \<noteq> WINDOWS then ret () else disk_step w (MATERIALIZE_FIRMWARE (vc_vm_id config)))"

text \<open>What existed before the creation, so that a failure removes nothing else.\<close>

record create_plan =
  cp_disk :: "string option"
  cp_disk_existed :: bool
  cp_disk_saved :: bool
  cp_firmware_existed :: bool
  cp_bundle :: "string option"
  cp_bundle_existed :: bool
  cp_backed_up :: bool

definition plan_create :: "world \<Rightarrow> vm_config \<Rightarrow> string \<Rightarrow> ('s, create_plan) mop" where
  "plan_create w config backend =
     bind (lift (managed_disk_path_for_create w config backend)) (\<lambda>disk.
     bind (optional_exists w disk) (\<lambda>disk_existed.
     bind (if disk_existed then optional_exists w (map_option (\<lambda>p. p @ ''.retained'') disk) else ret False) (\<lambda>disk_saved.
     bind (path_exists w (w_data_dir w @ ''/firmware/'' @ vc_vm_id config)) (\<lambda>firmware_existed.
     let bundle = map_option mm_bundle_path (vc_macos_machine config) in
     bind (optional_exists w bundle) (\<lambda>bundle_existed.
     let backed_up = (disk_existed \<and> (vc_disk_size_mib config \<noteq> None \<or> vc_grow_filesystem config)) in
     bind (case disk of Some p \<Rightarrow> if backed_up then disk_step w (BACKUP_DISK p) else ret () | None \<Rightarrow> ret ()) (\<lambda>_.
       ret \<lparr>cp_disk = disk, cp_disk_existed = disk_existed, cp_disk_saved = disk_saved, cp_firmware_existed = firmware_existed,
            cp_bundle = bundle, cp_bundle_existed = bundle_existed, cp_backed_up = backed_up\<rparr>))))))"

definition restore_retained_marker :: "world \<Rightarrow> string option \<Rightarrow> bool \<Rightarrow> ('s, unit) mop" where
  "restore_retained_marker w disk was_saved =
     (case disk of
        None \<Rightarrow> ret ()
      | Some p \<Rightarrow>
          if \<not> was_saved then ret ()
          else bind (path_exists w p) (\<lambda>there. if there then disk_try w (MARK_RETAINED p) else ret ()))"

definition undo_record :: "'s vm_store \<Rightarrow> world \<Rightarrow> string \<Rightarrow> create_plan \<Rightarrow> bool \<Rightarrow> ('s, unit) mop" where
  "undo_record so w vm_id plan recorded =
     bind (case cp_disk plan of
             Some p \<Rightarrow> if cp_backed_up plan then disk_step w (RESTORE_BACKUP p) else ret ()
           | None \<Rightarrow> ret ()) (\<lambda>_.
     bind (if recorded then suppress (on_store (\<lambda>st. so_delete so st vm_id)) else ret ()) (\<lambda>_.
     bind (case cp_disk plan of
             Some p \<Rightarrow> if cp_disk_existed plan then ret () else disk_try w (REMOVE_UNPERSISTED_DISK p)
           | None \<Rightarrow> ret ()) (\<lambda>_.
     bind (restore_retained_marker w (cp_disk plan) (cp_disk_saved plan)) (\<lambda>_.
     bind (if cp_firmware_existed plan then ret () else disk_try w (REMOVE_FIRMWARE vm_id)) (\<lambda>_.
     case cp_bundle plan of
       Some b \<Rightarrow>
         if cp_bundle_existed plan then ret ()
         else bind (ask (\<lambda>t. w_fs w t b = PATH_DIR)) (\<lambda>dir. if dir then disk_try w (REMOVE_BUNDLE b) else ret ())
     | None \<Rightarrow> ret ())))))"

text \<open>The part under the creation lock: the disk, then the row, then the size of the disk.\<close>

definition persist_computer :: "'s vm_store \<Rightarrow> world \<Rightarrow> vm_config \<Rightarrow> create_plan \<Rightarrow> ('s, vm_config) mop" where
  "persist_computer so w config plan =
     (let vm_id = vc_vm_id config;
          undo = (\<lambda>recorded e. bind (undo_record so w vm_id plan recorded) (\<lambda>_. raise e))
      in
      bind (catch (\<lambda>_. True)
              (bind (if vc_guest_os config = MACOS
                     then bind (case vc_macos_machine config of
                            Some mm \<Rightarrow> disk_step w (MATERIALIZE_BUNDLE (mm_bundle_path mm)) | None \<Rightarrow> ret ()) (\<lambda>_. ret config)
                     else materialize_rootfs w config) (\<lambda>c.
               bind (on_store (\<lambda>st. so_create so st c)) (\<lambda>_. ret c)))
              (undo False)) (\<lambda>c.
      catch (\<lambda>_. True)
        (bind (case cp_disk plan of Some p \<Rightarrow> disk_try w (CLEAR_MARKER p) | None \<Rightarrow> ret ()) (\<lambda>_.
         bind (if vc_guest_os c \<noteq> MACOS
               then bind (resize_materialized_rootfs w c) (\<lambda>c'.
                    bind (materialize_firmware w c') (\<lambda>_. ret c'))
               else ret c) (\<lambda>c'.
         bind (case cp_disk plan of
                 Some p \<Rightarrow> if cp_backed_up plan then disk_try w (DISCARD_BACKUP p) else ret ()
               | None \<Rightarrow> ret ()) (\<lambda>_. ret c'))))
        (undo True)))"

definition usernet_addresses :: "string \<Rightarrow> (string \<times> string \<times> string) result" where
  "usernet_addresses backend =
     (if backend = ''qemu'' then Inr (''10.0.2.15'', ''10.0.2.2'', ''255.255.255.0'')
      else if backend = ''libkrun'' then Inr (''192.168.127.2'', ''192.168.127.1'', ''255.255.255.0'')
      else Inl (NetworkError ''does not know what network settings''))"

text \<open>The three networks: bridged, user mode, and a device of the host with address translation.\<close>

definition create_bridged :: "'s vm_store \<Rightarrow> world \<Rightarrow> vm_config \<Rightarrow> string \<Rightarrow> comm_kind \<Rightarrow> ('s, vm_info) mop" where
  "create_bridged so w config backend kind =
     (let vm_id = vc_vm_id config in
      bind (validate_bridge_mode w config backend (Some kind)) (\<lambda>_.
      case na_bridge (vc_network_attachment config) of
        None \<Rightarrow> raise (AssertionError ''bridge_name'')
      | Some bridge \<Rightarrow>
          bind (on_store (\<lambda>st. so_reserve_tap so st vm_id ''bridge'' (Some bridge) None)) (\<lambda>tap.
          bind (ask (\<lambda>t. generate_bridge_mac (w_urandom w t) (Some tap))) (\<lambda>mac.
          bind (lift (validate_network_config
                  \<lparr>nc_guest_ip = None, nc_gateway_ip = None, nc_netmask = None, nc_tap_device = tap, nc_guest_mac = mac,
                   nc_ssh_host_port = None, nc_egress_proxy_host_port = None, nc_mode = MODE_BRIDGE, nc_bridge = Some bridge\<rparr>)) (\<lambda>net.
          bind (on_store (\<lambda>st. so_update so st vm_id (no_update\<lparr>up_network := Some net\<rparr>))) (\<lambda>info.
          bind (maybe_enable_vsock so w config backend info) (\<lambda>info'.
          bind (network w (PREPARE_BRIDGED tap bridge vm_id)) (\<lambda>_. ret info'))))))))"

definition create_usernet :: "'s vm_store \<Rightarrow> world \<Rightarrow> vm_config \<Rightarrow> string \<Rightarrow> int option \<Rightarrow> ('s, vm_info) mop" where
  "create_usernet so w config backend ssh_host_port =
     (let vm_id = vc_vm_id config;
          mac_seed = (case ssh_host_port of Some p \<Rightarrow> if p \<noteq> 0 then p else SSH_PORT_START | None \<Rightarrow> SSH_PORT_START) mod 65534 + 1
      in bind (lift (generate_mac mac_seed)) (\<lambda>mac.
         bind (lift (usernet_addresses backend)) (\<lambda>(guest_ip, gateway_ip, netmask).
         bind (lift (validate_network_config
                 \<lparr>nc_guest_ip = Some guest_ip, nc_gateway_ip = Some gateway_ip, nc_netmask = Some netmask, nc_tap_device = ''usernet'',
                  nc_guest_mac = mac, nc_ssh_host_port = ssh_host_port, nc_egress_proxy_host_port = None, nc_mode = MODE_NAT,
                  nc_bridge = None\<rparr>)) (\<lambda>net.
         bind (on_store (\<lambda>st. so_update so st vm_id (no_update\<lparr>up_network := Some net\<rparr>))) (\<lambda>info.
           maybe_enable_vsock so w config backend info)))))"

definition pool_index :: "string \<Rightarrow> int result" where
  "pool_index ip = (case ip_to_pool_index ip of Inr i \<Rightarrow> Inr i | Inl _ \<Rightarrow> Inl (ValueError ''ip''))"

definition create_tap :: "'s vm_store \<Rightarrow> world \<Rightarrow> vm_config \<Rightarrow> string \<Rightarrow> int option \<Rightarrow> ('s, vm_info) mop" where
  "create_tap so w config backend ssh_host_port =
     (let vm_id = vc_vm_id config in
      bind (on_store (\<lambda>st. so_allocate_ip so st vm_id ''pending'')) (\<lambda>guest_ip.
      bind (lift (pool_index guest_ip)) (\<lambda>vm_number.
      let tap = ''tap'' @ string_of_int vm_number in
      bind (on_store (\<lambda>st. so_update_ip_lease_tap so st vm_id tap)) (\<lambda>_.
      bind (network w (PREPARE_TAP tap (w_host_ip w))) (\<lambda>_.
      bind (network w (ADD_ROUTE guest_ip tap)) (\<lambda>_.
      bind (setup_policy_network w config tap guest_ip) (\<lambda>_.
      bind (apply_domain_allowlist w config tap) (\<lambda>_.
      bind (case ssh_host_port of None \<Rightarrow> ret () | Some port \<Rightarrow> network w (SSH_FORWARD vm_id guest_ip port)) (\<lambda>_.
      bind (lift (generate_mac vm_number)) (\<lambda>mac.
      bind (lift (validate_network_config
              \<lparr>nc_guest_ip = Some guest_ip, nc_gateway_ip = Some (w_host_ip w), nc_netmask = None, nc_tap_device = tap,
               nc_guest_mac = mac, nc_ssh_host_port = ssh_host_port, nc_egress_proxy_host_port = None, nc_mode = MODE_NAT,
               nc_bridge = None\<rparr>)) (\<lambda>net.
      bind (on_store (\<lambda>st. so_update so st vm_id (no_update\<lparr>up_network := Some net\<rparr>))) (\<lambda>info.
        maybe_enable_vsock so w config backend info)))))))))))) "

definition create_network :: "'s vm_store \<Rightarrow> world \<Rightarrow> vm_config \<Rightarrow> string \<Rightarrow> ('s, vm_info) mop" where
  "create_network so w config backend =
     (if backend = ''vz'' then from_store (\<lambda>st. so_get so st (vc_vm_id config))
      else
        bind (resolve_control_channel_for_config w config backend) (\<lambda>kind.
        if is_bridge_attachment config then create_bridged so w config backend kind
        else
          bind (if should_reserve_ssh_forward config kind
                then bind (reserve_available_ssh_port so w (vc_vm_id config)) (\<lambda>p. ret (Some p)) else ret None) (\<lambda>ssh_host_port.
          if \<not> uses_host_tap_networking config backend then create_usernet so w config backend ssh_host_port
          else create_tap so w config backend ssh_host_port)))"

definition undo_create :: "'s vm_store \<Rightarrow> world \<Rightarrow> string \<Rightarrow> create_plan \<Rightarrow> ('s, unit) mop" where
  "undo_create so w vm_id plan =
     bind (cleanup_resources so w vm_id (cp_disk_existed plan) False) (\<lambda>_.
     bind (restore_retained_marker w (cp_disk plan) (cp_disk_saved plan)) (\<lambda>_.
       suppress (on_store (\<lambda>st. so_delete so st vm_id))))"

definition create_vm :: "'s vm_store \<Rightarrow> world \<Rightarrow> vm_config \<Rightarrow> ('s, vm_info) mop" where
  "create_vm so w config =
     (let vm_id = vc_vm_id config in
      bind (backend_for_config w config) (\<lambda>backend.
      let c = effective_create_config config backend in
      bind (create_checks w c backend) (\<lambda>_.
      bind (attempt (\<lambda>t. w_create_lock w t vm_id)) (\<lambda>_.
      bind (ensure_vm_id_available so vm_id) (\<lambda>_.
      bind (plan_create w c backend) (\<lambda>plan.
      bind (persist_computer so w c plan) (\<lambda>c'.
        catch (\<lambda>_. True) (create_network so w c' backend)
          (\<lambda>e. bind (undo_create so w vm_id plan) (\<lambda>_. raise e)))))))))"

end
