(* ===== verification/Manager_Contract.thy ===== *)
theory Manager_Contract
  imports Manager_Resources
begin

text \<open>
  What the manager relies on and what it guarantees. The contract of a state manager is the locale \<open>vm_rows\<close>: its
  operations on the rows of computers refine the registry, and its allocations leave the rows alone. From
  the contract alone follow the two guarantees of every manager operation: each computer moves along the
  life-cycle graph, and a guest with public access runs only while the manager holds its proxy.
\<close>

section \<open>Weakest preconditions of the elementary calls\<close>

lemma wpre_end [wp]: "wpre (ret x) Q R = Q x" "wpre (raise e) Q R = R e"
  by (simp_all add: fun_eq_iff wp)

lemma bind_assoc: "bind (bind m k) l = bind m (\<lambda>x. bind (k x) l)"
  by (simp add: bind_def fun_eq_iff split: prod.split sum.split)

lemma wpre_ask [wp]: "wpre (ask f) Q R m \<longleftrightarrow> Q (f (mg_clock m)) (m\<lparr>mg_clock := mg_clock m + 1\<rparr>)"
  by (simp add: wpre_def ask_def)

lemma wpre_attempt [wp]:
  "wpre (attempt f) Q R m \<longleftrightarrow>
     (case f (mg_clock m) of Inl e \<Rightarrow> R e (m\<lparr>mg_clock := mg_clock m + 1\<rparr>)
      | Inr x \<Rightarrow> Q x (m\<lparr>mg_clock := mg_clock m + 1\<rparr>))"
  by (simp add: wpre_def attempt_def split: sum.split)

lemma wpre_on_store [wp]:
  "wpre (on_store f) Q R m \<longleftrightarrow>
     (case f (mg_store m) of (Inl e, st) \<Rightarrow> R e (m\<lparr>mg_store := st\<rparr>) | (Inr x, st) \<Rightarrow> Q x (m\<lparr>mg_store := st\<rparr>))"
  by (simp add: wpre_def on_store_def split: prod.split sum.split)

lemma wpre_from_store [wp]:
  "wpre (from_store f) Q R m \<longleftrightarrow> (case f (mg_store m) of Inl e \<Rightarrow> R e m | Inr x \<Rightarrow> Q x m)"
  by (simp add: wpre_def from_store_def)

lemma wpre_on_session [wp]:
  "wpre (on_session vm f) Q R m \<longleftrightarrow>
     (case map_of (mg_public_egress m) vm of
        None \<Rightarrow> R (CelestoError ''no session'') m
      | Some s \<Rightarrow> (case f s of
            (Inl e, s') \<Rightarrow> R e (m\<lparr>mg_public_egress := AList.update vm s' (mg_public_egress m)\<rparr>)
          | (Inr x, s') \<Rightarrow> Q x (m\<lparr>mg_public_egress := AList.update vm s' (mg_public_egress m)\<rparr>)))"
  by (simp add: wpre_def on_session_def split: option.split prod.split sum.split)

section \<open>The life cycle\<close>

text \<open>
  An operation may move the status of a computer only along the edges that it is given, \<open>None\<close> standing for a computer without a
  row. A stop also reaches a computer whose launch never got into its row. No operation removes a live computer or starts
  one that is in error.
\<close>

type_synonym edges = "string \<Rightarrow> vm_state option \<Rightarrow> vm_state option \<Rightarrow> bool"

definition may_create :: "edges \<Rightarrow> string \<Rightarrow> bool" where
  "may_create E vm \<longleftrightarrow> E vm None (Some VM_CREATED) \<and> E vm (Some VM_CREATED) None"

definition may_start :: "edges \<Rightarrow> string \<Rightarrow> bool" where
  "may_start E vm \<longleftrightarrow> (\<forall>s. s = VM_CREATED \<or> s = VM_STOPPED \<longrightarrow> E vm (Some s) (Some VM_RUNNING) \<and> E vm (Some s) (Some VM_ERROR))"

definition may_toggle :: "edges \<Rightarrow> string \<Rightarrow> vm_state \<Rightarrow> bool" where
  "may_toggle E vm t \<longleftrightarrow> (\<forall>s. is_live_status s \<longrightarrow> s \<noteq> t \<longrightarrow> E vm (Some s) (Some t))"

definition may_fail :: "edges \<Rightarrow> string \<Rightarrow> bool" where
  "may_fail E vm \<longleftrightarrow> (\<forall>s. is_live_status s \<longrightarrow> E vm (Some s) (Some VM_ERROR))"

definition may_stop :: "edges \<Rightarrow> string \<Rightarrow> bool" where
  "may_stop E vm \<longleftrightarrow> (\<forall>s. s \<noteq> VM_ERROR \<longrightarrow> s \<noteq> VM_STOPPED \<longrightarrow> E vm (Some s) (Some VM_STOPPED))"

definition may_delete :: "edges \<Rightarrow> string \<Rightarrow> bool" where
  "may_delete E vm \<longleftrightarrow> (\<forall>s. \<not> is_live_status s \<longrightarrow> E vm (Some s) None)"

lemmas may_defs = may_create_def may_start_def may_toggle_def may_fail_def may_stop_def may_delete_def

section \<open>What the guarantees speak about\<close>

record mview =
  v_rows :: registry
  v_procs :: "vm_info list"
  v_proxies :: "string \<Rightarrow> nat option option"
  v_unrecorded :: "string \<Rightarrow> vm_info option"

definition status_of :: "registry \<Rightarrow> string \<Rightarrow> vm_state option" where
  "status_of m vm = map_option vi_status (m vm)"

definition flags :: "'s manager \<Rightarrow> string list \<times> bool \<times> bool \<times> bool" where
  "flags m = (mg_active m, mg_close_requested m, mg_closing m, mg_closed m)"

text \<open>A guest launched with public access whose process is not known to have ended.\<close>

definition public_process :: "mview \<Rightarrow> string \<Rightarrow> bool" where
  "public_process v vm \<longleftrightarrow> (\<exists>i\<in>set (v_procs v). vi_vm_id i = vm \<and> is_public (vi_config i))"

text \<open>The guarantees for one computer: its first status, its row, its proxy, its unrecorded launch, its process.\<close>

definition good_at ::
  "string \<Rightarrow> (vm_state option \<Rightarrow> vm_state option \<Rightarrow> bool) \<Rightarrow> vm_state option \<Rightarrow> vm_info option \<Rightarrow> nat option option \<Rightarrow> vm_info option \<Rightarrow> bool \<Rightarrow> bool" where
  "good_at vm E s0 row proxy unrecorded public \<longleftrightarrow>
     (public \<longrightarrow> (\<exists>p. proxy = Some (Some p)) \<and>
        (unrecorded \<noteq> None \<or> (\<exists>r. row = Some r \<and> is_live_status (vi_status r)))) \<and>
     (\<forall>u. unrecorded = Some u \<longrightarrow> vi_vm_id u = vm \<and> is_live_status (vi_status u) \<and>
        (\<exists>r. row = Some r \<and> is_public (vi_config r) \<and> (vi_status r = VM_CREATED \<or> vi_status r = VM_STOPPED))) \<and>
     (\<forall>r. row = Some r \<longrightarrow> vi_vm_id r = vm) \<and>
     (proxy \<noteq> None \<longrightarrow> (\<exists>r. row = Some r \<and> is_public (vi_config r))) \<and>
     E\<^sup>*\<^sup>* s0 (map_option vi_status row)"

definition good :: "edges \<Rightarrow> (string \<Rightarrow> vm_state option) \<Rightarrow> mview \<Rightarrow> bool" where
  "good E r0 v \<longleftrightarrow>
     (\<forall>vm. good_at vm (E vm) (r0 vm) (v_rows v vm) (v_proxies v vm) (v_unrecorded v vm) (public_process v vm))"

lemma goodD:
  "good E r0 v \<Longrightarrow> good_at vm (E vm) (r0 vm) (v_rows v vm) (v_proxies v vm) (v_unrecorded v vm) (public_process v vm)"
  by (simp add: good_def)

lemma good_at_weaken: "good_at vm E s row proxy un pub \<Longrightarrow> (pub' \<Longrightarrow> pub) \<Longrightarrow> good_at vm E s row proxy un pub'"
  unfolding good_at_def by blast

text \<open>A step that concerns one computer is judged at that computer.\<close>

lemma good_change:
  assumes "good E r0 v"
    and "\<And>x. x \<noteq> vm \<Longrightarrow> v_rows v' x = v_rows v x \<and> v_proxies v' x = v_proxies v x \<and>
        v_unrecorded v' x = v_unrecorded v x \<and> (public_process v' x \<longrightarrow> public_process v x)"
    and "good_at vm (E vm) (r0 vm) (v_rows v vm) (v_proxies v vm) (v_unrecorded v vm) (public_process v vm) \<Longrightarrow>
      good_at vm (E vm) (r0 vm) (v_rows v' vm) (v_proxies v' vm) (v_unrecorded v' vm) (public_process v' vm)"
  shows "good E r0 v'"
  unfolding good_def
proof
  fix x
  have at: "good_at y (E y) (r0 y) (v_rows v y) (v_proxies v y) (v_unrecorded v y) (public_process v y)" for y
    using assms(1) by (rule goodD)
  show "good_at x (E x) (r0 x) (v_rows v' x) (v_proxies v' x) (v_unrecorded v' x) (public_process v' x)"
  proof (cases "x = vm")
    case True
    then show ?thesis using assms(3) [OF at] by simp
  next
    case False
    then show ?thesis using assms(2) [OF False] good_at_weaken [OF at [of x]] by simp
  qed
qed

lemma path_step: "E\<^sup>*\<^sup>* s t \<Longrightarrow> t = u \<or> E t u \<Longrightarrow> E\<^sup>*\<^sup>* s u"
  by (auto intro: rtranclp.rtrancl_into_rtrancl)

lemma good_end_processes:
  assumes "good E r0 v"
  shows "good E r0 (v\<lparr>v_procs := filter P (v_procs v)\<rparr>)"
  unfolding good_def
proof
  fix vm
  show "good_at vm (E vm) (r0 vm) (v_rows (v\<lparr>v_procs := filter P (v_procs v)\<rparr>) vm) (v_proxies (v\<lparr>v_procs := filter P (v_procs v)\<rparr>) vm)
      (v_unrecorded (v\<lparr>v_procs := filter P (v_procs v)\<rparr>) vm) (public_process (v\<lparr>v_procs := filter P (v_procs v)\<rparr>) vm)"
    by (simp, rule good_at_weaken [OF goodD [OF assms]]) (auto simp: public_process_def)
qed

lemma stop_update_simps:
  "vi_status (apply_vm_update stop_update r) = VM_STOPPED" "vi_config (apply_vm_update stop_update r) = vi_config r"
  by (simp_all add: apply_vm_update_def stop_update_def no_update_def overwrite_def)

section \<open>The contract of a state manager\<close>

named_theorems calm \<open>operations that change nothing the guarantees speak about\<close>

locale vm_rows =
  fixes so :: "'s vm_store" and ok :: "'s \<Rightarrow> bool" and rows :: "'s \<Rightarrow> registry"
  assumes get_row: "ok st \<Longrightarrow> so_get so st vm = reg_get (rows st) vm"
    and create_row: "ok st \<Longrightarrow> so_create so st c = (r, st') \<Longrightarrow> ok st' \<and> (r, rows st') = reg_create (rows st) c"
    and update_row: "ok st \<Longrightarrow> so_update so st vm u = (r, st') \<Longrightarrow> ok st' \<and> (r, rows st') = reg_update (rows st) vm u"
    and delete_row: "ok st \<Longrightarrow> so_delete so st vm = (q, st') \<Longrightarrow> ok st' \<and> (q, rows st') = reg_delete (rows st) vm"
    and allocate_ip_rows: "ok st \<Longrightarrow> so_allocate_ip so st vm tap = (s, st') \<Longrightarrow> ok st' \<and> rows st' = rows st"
    and update_ip_lease_tap_rows: "ok st \<Longrightarrow> so_update_ip_lease_tap so st vm tap = (q, st') \<Longrightarrow> ok st' \<and> rows st' = rows st"
    and release_ip_rows: "ok st \<Longrightarrow> so_release_ip so st vm = (q, st') \<Longrightarrow> ok st' \<and> rows st' = rows st"
    and reserve_ssh_rows: "ok st \<Longrightarrow> so_reserve_ssh so st vm ex = (i, st') \<Longrightarrow> ok st' \<and> rows st' = rows st"
    and release_ssh_rows: "ok st \<Longrightarrow> so_release_ssh so st vm = (q, st') \<Longrightarrow> ok st' \<and> rows st' = rows st"
    and reserve_vsock_rows: "ok st \<Longrightarrow> so_reserve_vsock so st vm cid = (i, st') \<Longrightarrow> ok st' \<and> rows st' = rows st"
    and release_vsock_rows: "ok st \<Longrightarrow> so_release_vsock so st vm = (q, st') \<Longrightarrow> ok st' \<and> rows st' = rows st"
    and reserve_tap_rows: "ok st \<Longrightarrow> so_reserve_tap so st vm mode br req = (s, st') \<Longrightarrow> ok st' \<and> rows st' = rows st"
    and release_tap_rows: "ok st \<Longrightarrow> so_release_tap so st vm = (q, st') \<Longrightarrow> ok st' \<and> rows st' = rows st"
    and reconcile_rows: "ok st \<Longrightarrow> so_reconcile so st = (ids, st') \<Longrightarrow> ok st' \<and>
      (case ids of Inl _ \<Rightarrow> rows st' = rows st
       | Inr vms \<Rightarrow> rows st' = (\<lambda>vm. if vm \<in> set vms then map_option stale_info (rows st vm) else rows st vm) \<and>
           (\<forall>vm\<in>set vms. \<exists>r. rows st vm = Some r \<and> is_live_status (vi_status r)))"
begin

definition view :: "'s manager \<Rightarrow> mview" where
  "view m = \<lparr>v_rows = rows (mg_store m), v_procs = mg_procs m,
     v_proxies = (\<lambda>vm. map_option es_proxy (map_of (mg_public_egress m) vm)), v_unrecorded = map_of (mg_unrecorded m)\<rparr>"

definition same :: "mview \<Rightarrow> string list \<times> bool \<times> bool \<times> bool \<Rightarrow> 's manager \<Rightarrow> bool" where
  "same v f m \<longleftrightarrow> ok (mg_store m) \<and> view m = v \<and> flags m = f"

text \<open>An operation that leaves the view alone keeps every predicate of it.\<close>

lemma calm_keeps:
  assumes "\<And>v f. keeps (same v f) op"
  shows "keeps (\<lambda>m. ok (mg_store m) \<and> P (view m) (flags m)) op"
  unfolding keeps_def
proof (intro allI impI)
  fix m assume "ok (mg_store m) \<and> P (view m) (flags m)"
  moreover from this have "wpre op (\<lambda>_. same (view m) (flags m)) (\<lambda>_. same (view m) (flags m)) m"
    using keepsD [OF assms] by (simp add: same_def)
  ultimately show "wpre op (\<lambda>_ m. ok (mg_store m) \<and> P (view m) (flags m)) (\<lambda>_ m. ok (mg_store m) \<and> P (view m) (flags m)) m"
    by (auto simp: same_def elim: wpre_mono)
qed

lemma calm_wpre:
  assumes "\<And>v f. keeps (same v f) op" "ok (mg_store m)"
    "\<And>x m'. ok (mg_store m') \<Longrightarrow> view m' = view m \<Longrightarrow> flags m' = flags m \<Longrightarrow> Q x m'"
    "\<And>e m'. ok (mg_store m') \<Longrightarrow> view m' = view m \<Longrightarrow> flags m' = flags m \<Longrightarrow> R e m'"
  shows "wpre op Q R m"
proof -
  have "wpre op (\<lambda>_. same (view m) (flags m)) (\<lambda>_. same (view m) (flags m)) m"
    using keepsD [OF assms(1)] assms(2) by (simp add: same_def)
  then show ?thesis by (rule wpre_mono) (use assms(3,4) in \<open>auto simp: same_def\<close>)
qed

lemma calm_outside [calm]:
  "keeps (same v f) (ask g)" "keeps (same v f) (attempt h)" "keeps (same v f) (from_store k)"
  by (auto simp: keeps_def wp same_def view_def flags_def split: sum.split)

lemma calm_store [calm]:
  "keeps (same v f) (on_store (\<lambda>st. so_allocate_ip so st vm tap))"
  "keeps (same v f) (on_store (\<lambda>st. so_update_ip_lease_tap so st vm tap))"
  "keeps (same v f) (on_store (\<lambda>st. so_release_ip so st vm))"
  "keeps (same v f) (on_store (\<lambda>st. so_reserve_ssh so st vm ex))"
  "keeps (same v f) (on_store (\<lambda>st. so_release_ssh so st vm))"
  "keeps (same v f) (on_store (\<lambda>st. so_reserve_vsock so st vm cid))"
  "keeps (same v f) (on_store (\<lambda>st. so_release_vsock so st vm))"
  "keeps (same v f) (on_store (\<lambda>st. so_reserve_tap so st vm mode br req))"
  "keeps (same v f) (on_store (\<lambda>st. so_release_tap so st vm))"
  by (auto simp: keeps_def wp same_def view_def flags_def split: prod.split sum.split
      dest: allocate_ip_rows update_ip_lease_tap_rows release_ip_rows reserve_ssh_rows release_ssh_rows
        reserve_vsock_rows release_vsock_rows reserve_tap_rows release_tap_rows)

lemma calm_network [calm]: "keeps (same v f) (network w cmd)"
  unfolding network_def by (intro keep calm keeps_modify) (auto simp: same_def view_def flags_def)

lemma calm_disk [calm]: "keeps (same v f) (disk_step w cmd)" "keeps (same v f) (disk_try w cmd)"
  unfolding disk_try_def disk_step_def by (intro keep calm keeps_modify; auto simp: same_def view_def flags_def)+

lemma calm_backend [calm]:
  "keeps (same v f) (backend_for_config w c)" "keeps (same v f) (resolve_control_channel_for_config w c b)"
  unfolding backend_for_config_def resolve_control_channel_for_config_def Let_def
  by (auto intro!: keep simp: keep split: sum.split celesto_error.split)

lemma calm_adapter [calm]:
  "keeps (same v f) (backend_for_vm w i)" "keeps (same v f) (runtime_adapter_for_backend b)"
  "keeps (same v f) (runtime_adapter_for_vm w i)" "keeps (same v f) (validate_network_policy w c b)"
  unfolding runtime_adapter_for_vm_def backend_for_vm_def runtime_adapter_for_backend_def validate_network_policy_def
  by (intro keep calm)+

lemma calm_policy [calm]:
  "keeps (same v f) (setup_policy_network w c tap ip)" "keeps (same v f) (apply_domain_allowlist w c tap)"
  "keeps (same v f) (validate_bridge_mode w c b k)" "keeps (same v f) (check_workspace_mounts w i)"
  "keeps (same v f) (enforce_macos_concurrency_limit so vm)"
  unfolding setup_policy_network_def apply_domain_allowlist_def validate_bridge_mode_def check_workspace_mounts_def
    enforce_macos_concurrency_limit_def Let_def
  by (intro keep calm)+

lemma calm_ports [calm]: "keeps (same v f) (check_forwards w fs)" "keeps (same v f) (check_qemu_slirp_host_forward_ports w i)"
proof -
  show "keeps (same v f) (check_forwards w fs)" for fs by (induction fs) (simp_all, (intro keep calm | assumption)+)
  then show "keeps (same v f) (check_qemu_slirp_host_forward_ports w i)"
    unfolding check_qemu_slirp_host_forward_ports_def by (intro keep calm)
qed

lemma calm_bridge [calm]: "keeps (same v f) (ensure_bridge_ready so w vm n c b)"
  unfolding ensure_bridge_ready_def Let_def by (intro keep calm)

text \<open>A readiness check may fail the session, but the manager goes on holding the proxy.\<close>

lemma require_ready_proxy: "require_ready env s = (r, s') \<Longrightarrow> es_proxy s' = es_proxy s"
  by (auto simp: require_ready_def emit_def split: if_splits option.splits)

lemma calm_ready [calm]: "keeps (same v f) (on_session vm (require_ready env))"
  by (auto simp: keeps_def wp same_def view_def flags_def fun_eq_iff split: prod.split sum.split option.split
      dest: require_ready_proxy)

lemma calm_connect [calm]: "keeps (same v f) (ensure_network_connectivity so w i)"
  unfolding ensure_network_connectivity_def Let_def by (intro keep calm)

lemma calm_start_checks [calm]: "keeps (same v f) (start_checks so w i)"
  unfolding start_checks_def Let_def by (intro keep calm)

lemma calm_ssh_port [calm]:
  "keeps (same v f) (ssh_port_loop so w vm n ex)" "keeps (same v f) (reserve_available_ssh_port so w vm)"
proof -
  show loop: "keeps (same v f) (ssh_port_loop so w vm n ex)" for n ex
  proof (induction n arbitrary: ex)
    case (Suc n)
    then show ?case unfolding ssh_port_loop.simps by (intro keep calm)
  qed (simp add: keep)
  show "keeps (same v f) (reserve_available_ssh_port so w vm)"
    unfolding reserve_available_ssh_port_def by (intro keep calm loop)
qed

lemma calm_vsock [calm]: "keeps (same v f) (reserve_vsock_cid_for_backend so w vm b cid)"
proof -
  have loop: "keeps (same v f) (free_cid_loop so vm live cids)" for live cids
    by (induction cids) (simp_all add: keep calm)
  show ?thesis
    unfolding reserve_vsock_cid_for_backend_def by (intro keep calm loop)
qed

lemma calm_cleanup_parts [calm]:
  "keeps (same v f) (validate_cleanup_id vm)" "keeps (same v f) (vm_info_for_cleanup so vm)"
  "keeps (same v f) (cleanup_nat so w vm lease tap port ip)" "keeps (same v f) (cleanup_socket w p)"
  unfolding validate_cleanup_id_def vm_info_for_cleanup_def cleanup_nat_def cleanup_socket_def
  by (intro keep calm)+

lemma calm_cleanup_bridge [calm]: "keeps (same v f) (cleanup_bridge so w vm tap reserved strict)"
proof -
  have "keeps (same v f) (case e of BridgeTapOwnershipError _ \<Rightarrow> ret True | _ \<Rightarrow> if strict then raise e else ret False)" for e
    by (cases e) (simp_all add: keep)
  then show ?thesis unfolding cleanup_bridge_def Let_def by (intro keep calm)
qed

lemma calm_cleanup [calm]:
  "keeps (same v f) (cleanup_host_resources so w vm i strict)" "keeps (same v f) (cleanup_resources so w vm keepdisk strict)"
proof -
  show host: "keeps (same v f) (cleanup_host_resources so w vm i strict)" for i
    unfolding cleanup_host_resources_def Let_def by (intro keep calm)
  show "keeps (same v f) (cleanup_resources so w vm keepdisk strict)"
    unfolding cleanup_resources_def by (intro keep calm host)
qed

lemma calm_disks [calm]:
  "keeps (same v f) (path_exists w p)" "keeps (same v f) (optional_exists w q)" "keeps (same v f) (resize_disk w p n)"
  "keeps (same v f) (restore_retained_marker w q saved)" "keeps (same v f) (materialize_firmware w c)"
  unfolding materialize_firmware_def path_exists_def optional_exists_def resize_disk_def restore_retained_marker_def Let_def by (intro keep calm)+

lemma calm_create [calm]:
  "keeps (same v f) (materialize_rootfs w c)" "keeps (same v f) (resize_materialized_rootfs w c)"
  "keeps (same v f) (plan_create w c b)" "keeps (same v f) (create_checks w c b)"
  "keeps (same v f) (ensure_vm_id_available so vm)"
  unfolding materialize_rootfs_def resize_materialized_rootfs_def plan_create_def create_checks_def
    ensure_vm_id_available_def Let_def
  by (intro keep calm)+

text \<open>The guarantee of an operation: from the first statuses \<open>r0\<close>, with the flags \<open>f\<close> of the manager unchanged.\<close>

definition G :: "edges \<Rightarrow> (string \<Rightarrow> vm_state option) \<Rightarrow> string list \<times> bool \<times> bool \<times> bool \<Rightarrow> 's manager \<Rightarrow> bool" where
  "G E r0 f m \<longleftrightarrow> ok (mg_store m) \<and> good E r0 (view m) \<and> flags m = f"

lemma G_calm: "(\<And>v f. keeps (same v f) op) \<Longrightarrow> keeps (G E r0 f) op"
  using calm_keeps [of op "\<lambda>v g. good E r0 v \<and> g = f"] by (simp add: G_def [abs_def] conj_assoc)

lemma view_simps [simp]:
  "v_rows (view m) = rows (mg_store m)" "v_procs (view m) = mg_procs m"
  "v_proxies (view m) = (\<lambda>vm. map_option es_proxy (map_of (mg_public_egress m) vm))"
  "v_unrecorded (view m) = map_of (mg_unrecorded m)"
  by (simp_all add: view_def)

lemma view_rows: "view m' = view m \<Longrightarrow> rows (mg_store m') = rows (mg_store m)"
  by (metis view_simps(1))

lemma public_process_simps [simp]:
  "public_process (view (m\<lparr>mg_store := st\<rparr>)) = public_process (view m)"
  "public_process (view (m\<lparr>mg_public_egress := es\<rparr>)) = public_process (view m)"
  "public_process (view (m\<lparr>mg_unrecorded := us\<rparr>)) = public_process (view m)"
  "public_process (view (m\<lparr>mg_clock := t\<rparr>)) = public_process (view m)"
  by (simp_all add: fun_eq_iff public_process_def)

lemma at_row: "G E r0 f m \<Longrightarrow> good_at vm (E vm) (r0 vm) (rows (mg_store m) vm) (map_option es_proxy (map_of (mg_public_egress m) vm))
    (map_of (mg_unrecorded m) vm) (public_process (view m) vm)"
  using goodD [of E r0 "view m" vm] by (simp add: G_def)

lemma G_change:
  assumes "G E r0 f m" "ok (mg_store m')" "flags m' = flags m"
    "\<And>x. x \<noteq> vm \<Longrightarrow> rows (mg_store m') x = rows (mg_store m) x \<and>
        map_option es_proxy (map_of (mg_public_egress m') x) = map_option es_proxy (map_of (mg_public_egress m) x) \<and>
        map_of (mg_unrecorded m') x = map_of (mg_unrecorded m) x \<and>
        (public_process (view m') x \<longrightarrow> public_process (view m) x)"
    "good_at vm (E vm) (r0 vm) (rows (mg_store m) vm) (map_option es_proxy (map_of (mg_public_egress m) vm))
       (map_of (mg_unrecorded m) vm) (public_process (view m) vm) \<Longrightarrow>
     good_at vm (E vm) (r0 vm) (rows (mg_store m') vm) (map_option es_proxy (map_of (mg_public_egress m') vm))
       (map_of (mg_unrecorded m') vm) (public_process (view m') vm)"
  shows "G E r0 f m'"
  using assms good_change [of E r0 "view m" vm "view m'"] by (simp add: G_def)

text \<open>A row is written; the computer may start, pause, stop or fail by it.\<close>

definition idle :: "string \<Rightarrow> 's manager \<Rightarrow> bool" where
  "idle vm m \<longleftrightarrow> \<not> public_process (view m) vm \<and> map_of (mg_unrecorded m) vm = None"

lemma wpre_update:
  assumes "G E r0 f m"
    and "\<And>r st. rows (mg_store m) vm = Some r \<Longrightarrow> ok st \<Longrightarrow> rows st = (rows (mg_store m))(vm \<mapsto> apply_vm_update u r) \<Longrightarrow>
        Q (apply_vm_update u r) (m\<lparr>mg_store := st\<rparr>)"
    and "\<And>st. rows (mg_store m) vm = None \<Longrightarrow> ok st \<Longrightarrow> rows st = rows (mg_store m) \<Longrightarrow> R (VMNotFoundError vm) (m\<lparr>mg_store := st\<rparr>)"
  shows "wpre (on_store (\<lambda>st. so_update so st vm u)) Q R m"
proof -
  obtain q st where st: "so_update so (mg_store m) vm u = (q, st)" by fastforce
  then have "ok st \<and> (q, rows st) = reg_update (rows (mg_store m)) vm u"
    using update_row [OF _ st] assms(1) by (simp add: G_def)
  then show ?thesis
    using st assms(2,3) by (auto simp: wpre_on_store reg_update_def split: option.splits)
qed

lemma G_same_rows:
  "G E r0 f m \<Longrightarrow> ok st \<Longrightarrow> rows st = rows (mg_store m) \<Longrightarrow> G E r0 f (m\<lparr>mg_store := st\<rparr>)"
  by (simp add: G_def view_def flags_def)

lemma G_row:
  assumes "G E r0 f m" "ok st" "rows st = (rows (mg_store m))(vm \<mapsto> apply_vm_update u r)" "rows (mg_store m) vm = Some r"
    "is_public (vi_config (apply_vm_update u r)) = is_public (vi_config r) \<or>
       map_of (mg_public_egress m) vm = None \<and> map_of (mg_unrecorded m) vm = None"
    "let s = vi_status r; t = vi_status (apply_vm_update u r) in
       (s = t \<or> E vm (Some s) (Some t)) \<and> (s = t \<or> idle vm m \<or> map_of (mg_unrecorded m) vm = None \<and> is_live_status t)"
  shows "G E r0 f (m\<lparr>mg_store := st\<rparr>)"
proof (rule G_change [OF assms(1), where vm = vm])
  show "ok (mg_store (m\<lparr>mg_store := st\<rparr>))" using assms(2) by simp
  show "flags (m\<lparr>mg_store := st\<rparr>) = flags m" by (simp add: flags_def)
  show "rows (mg_store (m\<lparr>mg_store := st\<rparr>)) x = rows (mg_store m) x \<and>
      map_option es_proxy (map_of (mg_public_egress (m\<lparr>mg_store := st\<rparr>)) x) = map_option es_proxy (map_of (mg_public_egress m) x) \<and>
      map_of (mg_unrecorded (m\<lparr>mg_store := st\<rparr>)) x = map_of (mg_unrecorded m) x \<and>
      (public_process (view (m\<lparr>mg_store := st\<rparr>)) x \<longrightarrow> public_process (view m) x)" if "x \<noteq> vm" for x
    using that assms(3) by (simp add: public_process_def)
  assume at: "good_at vm (E vm) (r0 vm) (rows (mg_store m) vm) (map_option es_proxy (map_of (mg_public_egress m) vm))
     (map_of (mg_unrecorded m) vm) (public_process (view m) vm)"
  have "public_process (view (m\<lparr>mg_store := st\<rparr>)) vm = public_process (view m) vm" by (simp add: public_process_def)
  moreover have "(E vm)\<^sup>*\<^sup>* (r0 vm) (Some (vi_status (apply_vm_update u r)))"
    using at assms(4,6) path_step [of "E vm" "r0 vm" "Some (vi_status r)" "Some (vi_status (apply_vm_update u r))"]
    by (auto simp: good_at_def Let_def)
  ultimately show "good_at vm (E vm) (r0 vm) (rows (mg_store (m\<lparr>mg_store := st\<rparr>)) vm)
      (map_option es_proxy (map_of (mg_public_egress (m\<lparr>mg_store := st\<rparr>)) vm))
      (map_of (mg_unrecorded (m\<lparr>mg_store := st\<rparr>)) vm) (public_process (view (m\<lparr>mg_store := st\<rparr>)) vm)"
    using at assms(3,4,5,6) unfolding good_at_def Let_def idle_def by (elim conjE disjE) auto
qed

lemma G_ended:
  assumes "G E r0 f m"
  shows "G E r0 f (m\<lparr>mg_procs := filter P (mg_procs m)\<rparr>)"
  using assms good_end_processes [of E r0 "view m" P] by (simp add: G_def view_def flags_def)

lemma not_public_ended:
  "\<not> public_process (view (m\<lparr>mg_procs := filter (\<lambda>i. vi_vm_id i \<notin> set vms) (mg_procs m)\<rparr>)) vm \<longleftrightarrow>
     vm \<in> set vms \<or> \<not> public_process (view m) vm"
  by (auto simp: public_process_def)

lemma G_recorded:
  assumes "G E r0 f m" "\<not> public_process (view m) vm"
  shows "G E r0 f (m\<lparr>mg_unrecorded := AList.delete vm (mg_unrecorded m)\<rparr>)"
proof (rule G_change [OF assms(1), where vm = vm])
  assume "good_at vm (E vm) (r0 vm) (rows (mg_store m) vm) (map_option es_proxy (map_of (mg_public_egress m) vm))
     (map_of (mg_unrecorded m) vm) (public_process (view m) vm)"
  then show "good_at vm (E vm) (r0 vm) (rows (mg_store (m\<lparr>mg_unrecorded := AList.delete vm (mg_unrecorded m)\<rparr>)) vm)
      (map_option es_proxy (map_of (mg_public_egress (m\<lparr>mg_unrecorded := AList.delete vm (mg_unrecorded m)\<rparr>)) vm))
      (map_of (mg_unrecorded (m\<lparr>mg_unrecorded := AList.delete vm (mg_unrecorded m)\<rparr>)) vm)
      (public_process (view (m\<lparr>mg_unrecorded := AList.delete vm (mg_unrecorded m)\<rparr>)) vm)"
    using assms(2) by (simp add: good_at_def)
qed (use assms(1) in \<open>simp_all add: G_def flags_def public_process_def\<close>)

lemma G_session:
  assumes "G E r0 f m" "\<not> public_process (view m) vm" "m' = m\<lparr>mg_clock := t, mg_public_egress := es\<rparr>"
    "map_of es vm = None \<or> (\<exists>r. rows (mg_store m) vm = Some r \<and> is_public (vi_config r))"
    "\<And>x. x \<noteq> vm \<Longrightarrow> map_of es x = map_of (mg_public_egress m) x"
  shows "G E r0 f m'"
proof (rule G_change [OF assms(1), where vm = vm])
  assume "good_at vm (E vm) (r0 vm) (rows (mg_store m) vm) (map_option es_proxy (map_of (mg_public_egress m) vm))
     (map_of (mg_unrecorded m) vm) (public_process (view m) vm)"
  then show "good_at vm (E vm) (r0 vm) (rows (mg_store m') vm) (map_option es_proxy (map_of (mg_public_egress m') vm))
      (map_of (mg_unrecorded m') vm) (public_process (view m') vm)"
    using assms(2,3,4) by (auto simp: good_at_def)
qed (use assms(1,3,5) in \<open>simp_all add: G_def flags_def public_process_def\<close>)

text \<open>What a step on a session leaves alone.\<close>

definition beside :: "'s manager \<Rightarrow> 's manager \<Rightarrow> bool" where
  "beside m m' \<longleftrightarrow> rows (mg_store m') = rows (mg_store m) \<and> mg_procs m' = mg_procs m \<and> mg_unrecorded m' = mg_unrecorded m"

lemma wpre_stop_egress:
  assumes "G E r0 f m" "\<not> public_process (view m) vm"
  shows "wpre (stop_public_egress w vm)
    (\<lambda>_ m'. G E r0 f m' \<and> beside m m' \<and> map_of (mg_public_egress m') vm = None) (\<lambda>_ m'. G E r0 f m' \<and> beside m m') m"
proof (cases "map_of (mg_public_egress m) vm")
  case None
  then show ?thesis using assms by (simp add: stop_public_egress_def wp beside_def)
next
  case (Some s)
  have row: "\<exists>r. rows (mg_store m) vm = Some r \<and> is_public (vi_config r)"
    using at_row [OF assms(1), of vm] Some by (auto simp: good_at_def)
  have "G E r0 f (m\<lparr>mg_clock := t, mg_public_egress := AList.update vm s' (mg_public_egress m)\<rparr>)" for s' t
    by (rule G_session [OF assms refl]) (use row in \<open>auto simp: update_conv'\<close>)
  moreover have "G E r0 f (m\<lparr>mg_clock := t, mg_public_egress := AList.delete vm (AList.update vm s' (mg_public_egress m))\<rparr>)" for s' t
    by (rule G_session [OF assms refl]) (auto simp: update_conv' delete_conv')
  ultimately show ?thesis
    using Some by (simp add: stop_public_egress_def wp beside_def delete_conv' split: prod.split sum.split)
qed

lemma idle_beside: "beside m m' \<Longrightarrow> idle vm m' \<longleftrightarrow> idle vm m"
  by (simp add: idle_def beside_def public_process_def)

lemma wpre_finish_stop:
  assumes "G E r0 f m" "idle vm m" "\<And>r. rows (mg_store m) vm = Some r \<Longrightarrow> vi_status r \<noteq> VM_ERROR" "may_stop E vm"
  shows "wpre (bind (stop_public_egress w vm) (\<lambda>_. on_store (\<lambda>st. so_update so st vm stop_update)))
    (\<lambda>_ m'. G E r0 f m' \<and> idle vm m' \<and> (\<forall>r. rows (mg_store m') vm = Some r \<longrightarrow> \<not> is_live_status (vi_status r)))
    (\<lambda>_. G E r0 f) m"
  unfolding wpre_bind
proof (rule wpre_mono [OF wpre_stop_egress])
  fix m1 assume m1: "G E r0 f m1 \<and> beside m m1 \<and> map_of (mg_public_egress m1) vm = None"
  have idle: "idle vm m1" using m1 assms(2) idle_beside by blast
  show "wpre (on_store (\<lambda>st. so_update so st vm stop_update))
     (\<lambda>_ m'. G E r0 f m' \<and> idle vm m' \<and> (\<forall>r. rows (mg_store m') vm = Some r \<longrightarrow> \<not> is_live_status (vi_status r))) (\<lambda>_. G E r0 f) m1"
  proof (rule wpre_update)
    fix r st assume r: "rows (mg_store m1) vm = Some r" "ok st" "rows st = (rows (mg_store m1))(vm \<mapsto> apply_vm_update stop_update r)"
    have "vi_status r \<noteq> VM_ERROR" using assms(3) r(1) m1 by (simp add: beside_def)
    then have "G E r0 f (m1\<lparr>mg_store := st\<rparr>)"
      using m1 r idle assms(4) by (intro G_row [of E r0 f m1 st vm stop_update r]) (auto simp: stop_update_simps may_stop_def)
    then show "G E r0 f (m1\<lparr>mg_store := st\<rparr>) \<and> idle vm (m1\<lparr>mg_store := st\<rparr>) \<and>
        (\<forall>q. rows (mg_store (m1\<lparr>mg_store := st\<rparr>)) vm = Some q \<longrightarrow> \<not> is_live_status (vi_status q))"
      using idle r(3) by (simp add: idle_def stop_update_simps is_live_status_def)
  qed (use m1 G_same_rows in auto)
qed (use assms in \<open>auto simp: idle_def\<close>)

lemma wpre_adapter_stop:
  "wpre (adapter_stop w info) Q R m \<longleftrightarrow>
     (case w_stop w (mg_clock m) info of
        Inl e \<Rightarrow> R e (m\<lparr>mg_clock := mg_clock m + 1\<rparr>)
      | Inr _ \<Rightarrow> Q () (m\<lparr>mg_clock := mg_clock m + 1, mg_procs := filter (\<lambda>i. vi_vm_id i \<notin> {vi_vm_id info}) (mg_procs m)\<rparr>))"
  by (simp add: adapter_stop_def forget_processes_def wp split: sum.split)

lemma G_clock [simp]: "G E r0 f (m\<lparr>mg_clock := t\<rparr>) = G E r0 f m"
  by (simp add: G_def view_def flags_def)

lemma wpre_stop_process:
  assumes "G E r0 f m" "vi_vm_id info = vm" "\<And>r. rows (mg_store m) vm = Some r \<Longrightarrow> vi_status r \<noteq> VM_ERROR" "may_stop E vm"
  shows "wpre (bind (runtime_adapter_for_vm w info) (\<lambda>_.
       bind (adapter_stop w info) (\<lambda>_.
       bind (modify (\<lambda>m. m\<lparr>mg_unrecorded := AList.delete vm (mg_unrecorded m)\<rparr>)) (\<lambda>_.
       bind (stop_public_egress w vm) (\<lambda>_.
         on_store (\<lambda>st. so_update so st vm stop_update))))))
    (\<lambda>_ m'. G E r0 f m' \<and> idle vm m' \<and> (\<forall>r. rows (mg_store m') vm = Some r \<longrightarrow> \<not> is_live_status (vi_status r)))
    (\<lambda>_. G E r0 f) m"
  unfolding wpre_bind [of "runtime_adapter_for_vm w info"]
proof (rule calm_wpre [OF calm_adapter(3)])
  fix m1 assume m1: "ok (mg_store m1)" "view m1 = view m" "flags m1 = flags m"
  then have G1: "G E r0 f m1" using assms(1) by (simp add: G_def)
  let ?m2 = "m1\<lparr>mg_clock := mg_clock m1 + 1, mg_procs := filter (\<lambda>i. vi_vm_id i \<notin> {vm}) (mg_procs m1)\<rparr>"
  let ?m3 = "?m2\<lparr>mg_unrecorded := AList.delete vm (mg_unrecorded ?m2)\<rparr>"
  have gone: "\<not> public_process (view ?m2) vm" by (simp add: public_process_def)
  have "G E r0 f ?m2" using G_ended [of E r0 f "m1\<lparr>mg_clock := mg_clock m1 + 1\<rparr>"] G1 by simp
  then have G3: "G E r0 f ?m3" using G_recorded gone by blast
  have "idle vm ?m3" using gone by (simp add: idle_def delete_conv' public_process_def)
  moreover have "rows (mg_store ?m3) vm = Some r \<Longrightarrow> vi_status r \<noteq> VM_ERROR" for r
    using assms(3) arg_cong [OF m1(2), of v_rows] by simp
  ultimately have "wpre (bind (stop_public_egress w vm) (\<lambda>_. on_store (\<lambda>st. so_update so st vm stop_update)))
    (\<lambda>_ m'. G E r0 f m' \<and> idle vm m' \<and> (\<forall>r. rows (mg_store m') vm = Some r \<longrightarrow> \<not> is_live_status (vi_status r)))
    (\<lambda>_. G E r0 f) ?m3"
    using wpre_finish_stop [OF G3 _ _ assms(4)] by blast
  then show "wpre (bind (adapter_stop w info) (\<lambda>_.
       bind (modify (\<lambda>m. m\<lparr>mg_unrecorded := AList.delete vm (mg_unrecorded m)\<rparr>)) (\<lambda>_.
       bind (stop_public_egress w vm) (\<lambda>_.
         on_store (\<lambda>st. so_update so st vm stop_update)))))
    (\<lambda>_ m'. G E r0 f m' \<and> idle vm m' \<and> (\<forall>r. rows (mg_store m') vm = Some r \<longrightarrow> \<not> is_live_status (vi_status r)))
    (\<lambda>_. G E r0 f) m1"
    unfolding wpre_bind [of "adapter_stop w info"] wpre_bind [of "modify _"] wpre_adapter_stop wpre_basic
    using G1 assms(2) by (simp split: sum.split)
qed (use assms(1) in \<open>auto simp: G_def\<close>)

lemma wpre_stop_claimed:
  assumes G: "G E r0 f m" and may: "may_stop E vm"
  shows "wpre (stop_claimed so w vm)
    (\<lambda>_ m'. G E r0 f m' \<and> idle vm m' \<and> (\<forall>r. rows (mg_store m') vm = Some r \<longrightarrow> \<not> is_live_status (vi_status r))) (\<lambda>_. G E r0 f) m"
proof (cases "map_of (mg_unrecorded m) vm")
  case (Some info)
  then have "vi_vm_id info = vm" "is_live_status (vi_status info)" "\<And>r. rows (mg_store m) vm = Some r \<Longrightarrow> vi_status r \<noteq> VM_ERROR"
    using at_row [OF G, of vm] by (auto simp: good_at_def)
  then show ?thesis
    unfolding stop_claimed_def wpre_bind [of "gets _"] wpre_bind [of "case _ of None \<Rightarrow> _ | Some x \<Rightarrow> _ x"] wpre_basic Some
    using wpre_stop_process [OF G _ _ may] by (simp add: wp(1))
next
  case None
  show ?thesis
  proof (cases "rows (mg_store m) vm")
    case None': None
    then show ?thesis
      using G None get_row [of "mg_store m" vm]
      by (simp add: stop_claimed_def wp G_def reg_get_def)
  next
    case (Some info)
    then have get: "so_get so (mg_store m) vm = Inr info" using G get_row [of "mg_store m" vm] by (simp add: G_def reg_get_def)
    have "vi_vm_id info = vm" using at_row [OF G, of vm] Some by (simp add: good_at_def)
    then show ?thesis
    proof (cases "is_live_status (vi_status info)")
      case True
      then have "vi_status info \<noteq> VM_ERROR" by (auto simp: is_live_status_def)
      then show ?thesis
        unfolding stop_claimed_def wpre_bind [of "gets _"] wpre_bind [of "case _ of None \<Rightarrow> _ | Some x \<Rightarrow> _ x"] wpre_basic None
        using wpre_stop_process [OF G \<open>vi_vm_id info = vm\<close> _ may] Some True get by (simp add: wpre_from_store)
    next
      case False
      have "idle vm m" using at_row [OF G, of vm] Some False None by (auto simp: good_at_def idle_def)
      then show ?thesis using False G None Some get by (simp add: stop_claimed_def wp)
    qed
  qed
qed

text \<open>A computer that may be started.\<close>

definition startable :: "edges \<Rightarrow> (string \<Rightarrow> vm_state option) \<Rightarrow> string list \<times> bool \<times> bool \<times> bool \<Rightarrow> string \<Rightarrow> 's manager \<Rightarrow> bool" where
  "startable E r0 f vm m \<longleftrightarrow> G E r0 f m \<and> (\<exists>r. rows (mg_store m) vm = Some r \<and> (vi_status r = VM_CREATED \<or> vi_status r = VM_STOPPED))"

lemma startable_not_live: "startable E r0 f vm m \<Longrightarrow> public_process (view m) vm \<Longrightarrow> map_of (mg_unrecorded m) vm \<noteq> None"
  using at_row [of E r0 f m vm] by (auto simp: startable_def good_at_def is_live_status_def)

lemma startable_clock [simp]: "startable E r0 f vm (m\<lparr>mg_clock := t\<rparr>) = startable E r0 f vm m"
  by (simp add: startable_def)

text \<open>Ready to launch \<open>p\<close>: its row is \<open>p\<close> and, for a public computer, its proxy is up.\<close>

definition launchable :: "edges \<Rightarrow> (string \<Rightarrow> vm_state option) \<Rightarrow> string list \<times> bool \<times> bool \<times> bool \<Rightarrow> string \<Rightarrow> vm_info \<Rightarrow> 's manager \<Rightarrow> bool" where
  "launchable E r0 f vm p m \<longleftrightarrow> startable E r0 f vm m \<and> rows (mg_store m) vm = Some p \<and> \<not> public_process (view m) vm \<and>
     (if is_public (vi_config p) then \<exists>s q. map_of (mg_public_egress m) vm = Some s \<and> es_proxy s = Some q
      else map_of (mg_public_egress m) vm = None)"

lemma network_update_simps [simp]:
  "vi_status (apply_vm_update (no_update\<lparr>up_network := n\<rparr>) r) = vi_status r"
  "vi_config (apply_vm_update (no_update\<lparr>up_network := n\<rparr>) r) = vi_config r"
  by (simp_all add: apply_vm_update_def no_update_def overwrite_def)

lemma wpre_publish:
  assumes "launchable E r0 f vm p m"
  shows "wpre (on_store (\<lambda>st. so_update so st vm (no_update\<lparr>up_network := Some n\<rparr>)))
    (launchable E r0 f vm) (\<lambda>_. startable E r0 f vm) m"
proof (rule wpre_update)
  show "G E r0 f m" using assms by (simp add: launchable_def startable_def)
  fix r st assume r: "rows (mg_store m) vm = Some r" "ok st"
    "rows st = (rows (mg_store m))(vm \<mapsto> apply_vm_update (no_update\<lparr>up_network := Some n\<rparr>) r)"
  have "G E r0 f (m\<lparr>mg_store := st\<rparr>)"
    by (rule G_row [OF \<open>G E r0 f m\<close> r(2,3,1)]) simp_all
  then show "launchable E r0 f vm (apply_vm_update (no_update\<lparr>up_network := Some n\<rparr>) r) (m\<lparr>mg_store := st\<rparr>)"
    using assms r by (auto simp: launchable_def startable_def)
qed (use assms in \<open>auto simp: launchable_def\<close>)

lemma wpre_prepare_session:
  assumes "startable E r0 f vm m" "rows (mg_store m) vm = Some info" "is_public (vi_config info)" "\<not> public_process (view m) vm"
    "new_session vm g net = Inr session"
  shows "wpre (bind (modify (\<lambda>m. m\<lparr>mg_public_egress := AList.update vm session (mg_public_egress m)\<rparr>)) (\<lambda>_.
            bind (ask (w_egress w)) (\<lambda>env.
            bind (on_session vm (prepare_session env)) (\<lambda>metadata.
              on_store (\<lambda>st. so_update so st vm (no_update\<lparr>up_network := Some metadata\<rparr>))))))
    (launchable E r0 f vm) (\<lambda>_. startable E r0 f vm) m"
proof -
  obtain q s where prep: "prepare_session (w_egress w (mg_clock m)) session = (q, s)" by fastforce
  let ?m = "m\<lparr>mg_clock := Suc (mg_clock m), mg_public_egress := AList.update vm s (AList.update vm session (mg_public_egress m))\<rparr>"
  have G: "G E r0 f ?m"
    by (rule G_session [OF _ assms(4) refl]) (use assms in \<open>auto simp: startable_def update_conv'\<close>)
  then have "startable E r0 f vm ?m" using assms(1) by (simp add: startable_def)
  moreover have "launchable E r0 f vm info ?m" if "q = Inr n" for n
  proof -
    have "es_proxy s \<noteq> None"
      using prepare_session_result [OF new_session_wf [OF assms(5)] prep] that by (auto simp: enforced_def session_wf_def)
    then show ?thesis using G assms by (auto simp: launchable_def startable_def update_conv')
  qed
  ultimately show ?thesis
    using prep wpre_publish [of E r0 f vm info ?m]
    by (simp add: wpre_bind wpre_basic wpre_ask wpre_on_session update_conv' split: sum.split)
qed

lemma wpre_prepare_public_egress:
  assumes "startable E r0 f vm m" "rows (mg_store m) vm = Some info"
  shows "wpre (prepare_public_egress so w info) (launchable E r0 f vm) (\<lambda>_. startable E r0 f vm) m"
proof -
  have id: "vi_vm_id info = vm" using assms at_row [of E r0 f m vm] by (simp add: startable_def good_at_def)
  show ?thesis
  proof (cases "is_public (vi_config info)")
    case False
    have "map_of (mg_unrecorded m) vm = None" "map_of (mg_public_egress m) vm = None"
      using assms False at_row [of E r0 f m vm] by (auto simp: startable_def good_at_def)
    then have "\<not> public_process (view m) vm" using startable_not_live [OF assms(1)] by blast
    then show ?thesis using assms False \<open>map_of (mg_public_egress m) vm = None\<close>
      by (simp add: prepare_public_egress_def wp launchable_def)
  next
    case True
    have network: "wpre (case vi_network info of None \<Rightarrow> raise (CelestoError ''has no network'')
        | Some net \<Rightarrow>
            bind (lift (new_session vm QEMU_SLIRP_NET net)) (\<lambda>session.
            bind (modify (\<lambda>m. m\<lparr>mg_public_egress := AList.update vm session (mg_public_egress m)\<rparr>)) (\<lambda>_.
            bind (ask (w_egress w)) (\<lambda>env.
            bind (on_session vm (prepare_session env)) (\<lambda>metadata.
              on_store (\<lambda>st. so_update so st vm (no_update\<lparr>up_network := Some metadata\<rparr>)))))))
        (launchable E r0 f vm) (\<lambda>_. startable E r0 f vm) m1"
      if "startable E r0 f vm m1" "rows (mg_store m1) vm = Some info" "\<not> public_process (view m1) vm" for m1
      unfolding wpre_bind [of "lift _"] wpre_lift
      using that wpre_prepare_session [OF that(1,2) True that(3), of QEMU_SLIRP_NET _ _ w]
      by (auto simp: wpre_basic wpre_bind [of "lift _"] wpre_lift split: option.split sum.split)
    have "wpre (stop_public_egress w vm) (\<lambda>_ m1. startable E r0 f vm m1 \<and> rows (mg_store m1) vm = Some info \<and> \<not> public_process (view m1) vm)
        (\<lambda>_. startable E r0 f vm) m" if "map_of (mg_unrecorded m) vm = None"
    proof (rule wpre_mono [OF wpre_stop_egress])
      show "G E r0 f m" using assms(1) by (simp add: startable_def)
      show np: "\<not> public_process (view m) vm" using startable_not_live [OF assms(1)] that by blast
    qed (use assms startable_not_live [OF assms(1)] that in \<open>auto simp: startable_def beside_def public_process_def\<close>)
    then show ?thesis
      unfolding prepare_public_egress_def Let_def id
      using True assms(1) network
      by (auto simp: wpre_bind wpre_basic wpre_raise_when wpre_if elim!: wpre_mono)
  qed
qed

lemma wpre_launch:
  assumes "launchable E r0 f vm p m" and may: "may_start E vm"
  shows "wpre (bind (adapter_start w p) (\<lambda>launch.
      bind (modify (\<lambda>m. if map_of (mg_public_egress m) vm = None then m
              else m\<lparr>mg_unrecorded := AList.update vm
                (p\<lparr>vi_status := rl_status launch, vi_pid := Some (rl_pid launch),
                  vi_control_socket_path := rl_control_socket_path launch, vi_display := rl_display launch\<rparr>)
                (mg_unrecorded m)\<rparr>)) (\<lambda>_.
      bind (on_store (\<lambda>st. so_update so st vm (launch_update launch))) (\<lambda>updated.
      bind (modify (\<lambda>m. m\<lparr>mg_unrecorded := AList.delete vm (mg_unrecorded m)\<rparr>)) (\<lambda>_. ret updated)))))
    (\<lambda>_. G E r0 f) (\<lambda>_. startable E r0 f vm) m"
proof (cases "w_start w (mg_clock m) p")
  case (Inl e)
  then show ?thesis using assms by (simp add: adapter_start_def wp launchable_def)
next
  case (Inr x)
  obtain pid socket display where x: "x = (pid, socket, display)" by (cases x)
  let ?launch = "\<lparr>rl_pid = pid, rl_control_socket_path = socket, rl_status = VM_RUNNING, rl_display = display\<rparr>"
  have G: "G E r0 f m" and row: "rows (mg_store m) vm = Some p" and idle: "\<not> public_process (view m) vm"
    and rest: "vi_status p = VM_CREATED \<or> vi_status p = VM_STOPPED"
    using assms by (auto simp: launchable_def startable_def)
  have id: "vi_vm_id p = vm" using at_row [OF G, of vm] row by (simp add: good_at_def)
  obtain q st where st: "so_update so (mg_store m) vm (launch_update ?launch) = (q, st)" by fastforce
  then have upd: "ok st" "q = Inr (apply_vm_update (launch_update ?launch) p)"
      "rows st = (rows (mg_store m))(vm \<mapsto> apply_vm_update (launch_update ?launch) p)"
    using update_row [OF _ st] G row by (auto simp: G_def reg_update_def)
  define p' where "p' = apply_vm_update (launch_update ?launch) p"
  have p': "vi_status p' = VM_RUNNING" "vi_config p' = vi_config p" "vi_vm_id p' = vm"
    using id by (simp_all add: p'_def apply_vm_update_def launch_update_def no_update_def overwrite_def)
  have "(E vm)\<^sup>*\<^sup>* (r0 vm) (Some (vi_status p))" using at_row [OF G, of vm] row by (simp add: good_at_def)
  then have path: "(E vm)\<^sup>*\<^sup>* (r0 vm) (Some VM_RUNNING)"
    by (rule path_step) (use may rest in \<open>auto simp: may_start_def\<close>)
  have step: "G E r0 f (m\<lparr>mg_clock := t, mg_procs := p # mg_procs m, mg_store := st, mg_unrecorded := us\<rparr>)"
    if us: "\<And>x. map_of us x = (if x = vm then None else map_of (mg_unrecorded m) x)" for us t
  proof (rule G_change [OF G, where vm = vm])
    show "good_at vm (E vm) (r0 vm) (rows (mg_store (m\<lparr>mg_clock := t, mg_procs := p # mg_procs m, mg_store := st, mg_unrecorded := us\<rparr>)) vm)
      (map_option es_proxy (map_of (mg_public_egress (m\<lparr>mg_clock := t, mg_procs := p # mg_procs m, mg_store := st, mg_unrecorded := us\<rparr>)) vm))
      (map_of (mg_unrecorded (m\<lparr>mg_clock := t, mg_procs := p # mg_procs m, mg_store := st, mg_unrecorded := us\<rparr>)) vm)
      (public_process (view (m\<lparr>mg_clock := t, mg_procs := p # mg_procs m, mg_store := st, mg_unrecorded := us\<rparr>)) vm)"
      using assms path idle upd(3) us p' p'_def id
      by (auto simp: good_at_def launchable_def public_process_def is_live_status_def split: if_splits)
  qed (use upd us id in \<open>auto simp: flags_def public_process_def\<close>)
  show ?thesis
    using Inr x st upd(2) step [of "AList.delete vm (mg_unrecorded m)" "Suc (mg_clock m)"]
      step [of "AList.delete vm (AList.update vm u (mg_unrecorded m))" "Suc (mg_clock m)" for u]
    by (auto simp: adapter_start_def wp delete_conv' update_conv')
qed

lemma wpre_launch_computer:
  assumes "startable E r0 f vm m" "rows (mg_store m) vm = Some info" and may: "may_start E vm"
  shows "wpre (launch_computer so w info) (\<lambda>_. G E r0 f) (\<lambda>_. startable E r0 f vm) m"
proof -
  have id: "vi_vm_id info = vm" using assms at_row [of E r0 f m vm] by (simp add: startable_def good_at_def)
  show ?thesis
    unfolding launch_computer_def Let_def wpre_bind [of "prepare_public_egress so w info"] id
    by (rule wpre_mono [OF wpre_prepare_public_egress [OF assms(1,2)]]) (erule wpre_launch [OF _ may])
qed

lemma error_update_simps [simp]:
  "vi_status (apply_vm_update error_update r) = VM_ERROR" "vi_config (apply_vm_update error_update r) = vi_config r"
  by (simp_all add: apply_vm_update_def error_update_def no_update_def overwrite_def)

lemma wpre_fail_row:
  assumes "G E r0 f m" "idle vm m" "\<And>r. rows (mg_store m) vm = Some r \<Longrightarrow> E vm (Some (vi_status r)) (Some VM_ERROR)"
  shows "wpre (on_store (\<lambda>st. so_update so st vm error_update)) (\<lambda>_. G E r0 f) (\<lambda>_. G E r0 f) m"
proof (rule wpre_update [OF assms(1)])
  fix r st assume "rows (mg_store m) vm = Some r" "ok st" "rows st = (rows (mg_store m))(vm \<mapsto> apply_vm_update error_update r)"
  then show "G E r0 f (m\<lparr>mg_store := st\<rparr>)" using assms by (intro G_row [OF assms(1), of st vm error_update r]) (simp_all add: Let_def)
qed (use assms G_same_rows in auto)

lemma wpre_roll_back_start:
  assumes "startable E r0 f vm m" "may_start E vm"
  shows "wpre (roll_back_start so w vm) (\<lambda>_. G E r0 f) (\<lambda>_. G E r0 f) m"
proof -
  have G: "G E r0 f m" using assms by (simp add: startable_def)
  have rest: "wpre (bind (stop_public_egress w vm) (\<lambda>_.
     bind (on_store (\<lambda>st. so_update so st vm error_update)) (\<lambda>_. ret ()))) (\<lambda>_. G E r0 f) (\<lambda>_. G E r0 f) m1"
    if "G E r0 f m1" "idle vm m1" "rows (mg_store m1) = rows (mg_store m)" for m1
    unfolding wpre_bind [of "stop_public_egress w vm"]
  proof (rule wpre_mono [OF wpre_stop_egress [OF that(1)]])
    fix m2 assume m2: "G E r0 f m2 \<and> beside m1 m2 \<and> map_of (mg_public_egress m2) vm = None"
    have "E vm (Some (vi_status r)) (Some VM_ERROR)" if "rows (mg_store m2) vm = Some r" for r
      using assms m2 that \<open>rows (mg_store m1) = rows (mg_store m)\<close> by (auto simp: startable_def may_start_def beside_def)
    with m2 show "wpre (bind (on_store (\<lambda>st. so_update so st vm error_update)) (\<lambda>_. ret ())) (\<lambda>_. G E r0 f) (\<lambda>_. G E r0 f) m2"
      using wpre_fail_row [of E r0 f m2 vm] idle_beside [of m1 m2] that(2) by (simp add: wpre_bind wpre_end)
  qed (use that in \<open>auto simp: idle_def\<close>)
  show ?thesis
  proof (cases "map_of (mg_unrecorded m) vm")
    case None
    then have "idle vm m" using startable_not_live [OF assms(1)] by (auto simp: idle_def)
    then show ?thesis using rest [OF G] None by (simp add: roll_back_start_def wpre_bind wpre_basic)
  next
    case (Some p)
    then have id: "vi_vm_id p = vm" using at_row [OF G, of vm] by (simp add: good_at_def)
    let ?m2 = "m\<lparr>mg_clock := mg_clock m + 1, mg_procs := filter (\<lambda>i. vi_vm_id i \<notin> {vm}) (mg_procs m)\<rparr>"
    have gone: "\<not> public_process (view ?m2) vm" by (simp add: public_process_def)
    have "G E r0 f ?m2" using G_ended [of E r0 f "m\<lparr>mg_clock := mg_clock m + 1\<rparr>"] G by simp
    then have "G E r0 f (?m2\<lparr>mg_unrecorded := AList.delete vm (mg_unrecorded ?m2)\<rparr>)" using G_recorded gone by blast
    moreover have "idle vm (?m2\<lparr>mg_unrecorded := AList.delete vm (mg_unrecorded ?m2)\<rparr>)"
      using gone by (simp add: idle_def delete_conv' public_process_def)
    ultimately show ?thesis
      using rest [of "?m2\<lparr>mg_unrecorded := AList.delete vm (mg_unrecorded ?m2)\<rparr>"] Some G id
      by (simp add: roll_back_start_def wpre_bind wpre_basic wpre_adapter_stop split: sum.split)
  qed
qed

lemma start_checks_status:
  assumes "ok (mg_store m)"
  shows "wpre (start_checks so w info)
    (\<lambda>_ m'. ok (mg_store m') \<and> view m' = view m \<and> flags m' = flags m \<and> (vi_status info = VM_CREATED \<or> vi_status info = VM_STOPPED))
    (\<lambda>_ m'. ok (mg_store m') \<and> view m' = view m \<and> flags m' = flags m) m"
proof (cases "vi_status info = VM_CREATED \<or> vi_status info = VM_STOPPED")
  case True
  then show ?thesis by (auto intro: calm_wpre [OF calm_start_checks assms])
next
  case False
  then show ?thesis using assms by (auto simp: start_checks_def Let_def wp)
qed

lemma G_view: "G E r0 f m \<Longrightarrow> ok (mg_store m') \<Longrightarrow> view m' = view m \<Longrightarrow> flags m' = flags m \<Longrightarrow> G E r0 f m'"
  by (simp add: G_def)

lemma keeps_start_claimed:
  assumes may: "may_start E vm"
  shows "keeps (G E r0 f) (start_claimed so w vm)"
  unfolding keeps_def
proof (intro allI impI)
  fix m assume G: "G E r0 f m"
  have handler: "wpre (bind (roll_back_start so w vm) (\<lambda>_. raise e)) (\<lambda>_. G E r0 f) (\<lambda>_. G E r0 f) m1"
    if "startable E r0 f vm m1" for m1 e
    using wpre_roll_back_start [OF that may, of w] by (simp add: wpre_bind wpre_end)
  have launch: "wpre (launch_computer so w info) (\<lambda>_. G E r0 f) (\<lambda>e. wpre (bind (roll_back_start so w vm) (\<lambda>_. raise e)) (\<lambda>_. G E r0 f) (\<lambda>_. G E r0 f)) m1"
    if "startable E r0 f vm m1" "rows (mg_store m1) vm = Some info" for m1 info
    using wpre_launch_computer [OF that may] by (rule wpre_mono) (use handler in auto)
  show "wpre (start_claimed so w vm) (\<lambda>_. G E r0 f) (\<lambda>_. G E r0 f) m"
  proof (cases "rows (mg_store m) vm")
    case None
    then show ?thesis using G get_row [of "mg_store m" vm] by (simp add: start_claimed_def wp reg_get_def G_def)
  next
    case (Some info)
    have "wpre (start_checks so w info) (\<lambda>_ m1. startable E r0 f vm m1 \<and> rows (mg_store m1) vm = Some info) (\<lambda>_. G E r0 f) m"
      using start_checks_status
    proof (rule wpre_mono)
      fix m1
      assume *: "ok (mg_store m1) \<and> view m1 = view m \<and> flags m1 = flags m \<and> (vi_status info = VM_CREATED \<or> vi_status info = VM_STOPPED)"
      then have "rows (mg_store m1) vm = Some info" using Some view_rows by metis
      then show "startable E r0 f vm m1 \<and> rows (mg_store m1) vm = Some info"
        using * G_view [OF G] by (auto simp: startable_def)
    qed (use G G_view in \<open>auto simp: G_def\<close>)
    then show ?thesis
      using G Some get_row [of "mg_store m" vm] launch
      by (auto simp: start_claimed_def wpre_bind [of "from_store _"] wpre_bind [of "start_checks so w info"] wpre_catch
          wpre_from_store reg_get_def G_def elim!: wpre_mono)
  qed
qed

lemma keeps_stop_claimed: "may_stop E vm \<Longrightarrow> keeps (G E r0 f) (stop_claimed so w vm)"
  unfolding keeps_def using wpre_stop_claimed by (blast intro: wpre_mono)

lemma live_update:
  assumes "G E r0 f m" "rows (mg_store m) vm = Some r" "is_live_status (vi_status r)" "is_live_status s" "may_toggle E vm s"
  shows "wpre (on_store (\<lambda>st. so_update so st vm (no_update\<lparr>up_status := Some s\<rparr>))) (\<lambda>_. G E r0 f) (\<lambda>_. G E r0 f) m"
proof (rule wpre_update [OF assms(1)])
  fix r' st assume r': "rows (mg_store m) vm = Some r'" "ok st"
    "rows st = (rows (mg_store m))(vm \<mapsto> apply_vm_update (no_update\<lparr>up_status := Some s\<rparr>) r')"
  have "map_of (mg_unrecorded m) vm = None"
    using at_row [OF assms(1), of vm] assms(2,3) by (cases "map_of (mg_unrecorded m) vm") (auto simp: good_at_def is_live_status_def)
  moreover have "vi_status r' = s \<or> E vm (Some (vi_status r')) (Some s)"
    using assms(2,3,5) r'(1) by (auto simp: may_toggle_def)
  ultimately show "G E r0 f (m\<lparr>mg_store := st\<rparr>)"
    using assms(4)
    by (intro G_row [OF assms(1) r'(2,3,1)]) (simp_all add: apply_vm_update_def no_update_def overwrite_def Let_def)
qed (use assms G_same_rows in auto)

lemma live_unrecorded:
  "G E r0 f m \<Longrightarrow> rows (mg_store m) vm = Some r \<Longrightarrow> is_live_status (vi_status r) \<Longrightarrow> map_of (mg_unrecorded m) vm = None"
  using at_row [of E r0 f m vm] by (cases "map_of (mg_unrecorded m) vm") (auto simp: good_at_def is_live_status_def)

lemma wpre_refresh_status:
  assumes "G E r0 f m" "rows (mg_store m) vm = Some info" "may_fail E vm"
  shows "wpre (refresh_status so w info) (\<lambda>_. G E r0 f) (\<lambda>_. G E r0 f) m"
proof -
  have id: "vi_vm_id info = vm" using at_row [OF assms(1), of vm] assms(2) by (simp add: good_at_def)
  let ?u = "no_update\<lparr>up_status := Some VM_ERROR, up_clear_pid := True\<rparr>"
  let ?m = "m\<lparr>mg_clock := Suc (mg_clock m), mg_procs := filter (\<lambda>i. vi_vm_id i \<noteq> vm) (mg_procs m)\<rparr>"
  have "wpre (on_store (\<lambda>st. so_update so st vm ?u)) (\<lambda>_. G E r0 f) (\<lambda>_. G E r0 f) ?m" if live: "is_live_status (vi_status info)"
  proof -
    have G: "G E r0 f ?m" using G_ended [of E r0 f "m\<lparr>mg_clock := Suc (mg_clock m)\<rparr>"] assms(1) by simp
    have idle: "idle vm ?m" using live_unrecorded [OF assms(1,2) live] by (simp add: idle_def public_process_def)
    show ?thesis
    proof (rule wpre_update [OF G])
      fix r st assume r: "rows (mg_store ?m) vm = Some r" "ok st" "rows st = (rows (mg_store ?m))(vm \<mapsto> apply_vm_update ?u r)"
      show "G E r0 f (?m\<lparr>mg_store := st\<rparr>)"
        using idle assms(2,3) live r(1)
        by (intro G_row [OF G r(2,3,1)]) (simp_all add: apply_vm_update_def no_update_def overwrite_def Let_def may_fail_def)
    qed (use G G_same_rows in auto)
  qed
  then show ?thesis
    using assms(1) id by (auto simp: refresh_status_def forget_processes_def wp split: option.split)
qed

lemma wpre_then: "wpre op (\<lambda>_. I) (\<lambda>_. I) m \<Longrightarrow> (\<And>x. keeps I (k x)) \<Longrightarrow> wpre (bind op k) (\<lambda>_. I) (\<lambda>_. I) m"
  unfolding wpre_bind by (auto simp: keeps_def elim!: wpre_mono)

lemma wpre_crash_checks:
  assumes "G E r0 f m" "rows (mg_store m) vm = Some info" "may_fail E vm"
  shows "wpre (raise_crashed_or_state_error so w info) Q (\<lambda>_. G E r0 f) m"
    "wpre (bind (raise_if_crashed so w info) (\<lambda>_. raise e)) Q' (\<lambda>_. G E r0 f) m"
proof -
  show "wpre (raise_crashed_or_state_error so w info) Q (\<lambda>_. G E r0 f) m"
    unfolding raise_crashed_or_state_error_def wpre_bind
    by (rule wpre_mono [OF wpre_refresh_status [OF assms]]) (simp_all add: wp)
  show "wpre (bind (raise_if_crashed so w info) (\<lambda>_. raise e)) Q' (\<lambda>_. G E r0 f) m"
    unfolding raise_if_crashed_def wpre_bind
    by (rule wpre_mono [OF wpre_refresh_status [OF assms]]) (simp_all add: wp)
qed

lemma wpre_runtime_call:
  assumes "G E r0 f m" "rows (mg_store m) vm = Some info" "may_fail E vm"
  shows "wpre (catch is_exception (bind (runtime_adapter_for_vm w info) (\<lambda>_. attempt c))
      (\<lambda>e. bind (raise_if_crashed so w info) (\<lambda>_. raise e)))
    (\<lambda>_ m'. G E r0 f m' \<and> rows (mg_store m') vm = Some info) (\<lambda>_. G E r0 f) m"
  unfolding wpre_catch
proof (rule calm_wpre)
  show "keeps (same v g) (bind (runtime_adapter_for_vm w info) (\<lambda>_. attempt c))" for v g by (intro keep calm)
  fix m1 assume m1: "ok (mg_store m1)" "view m1 = view m" "flags m1 = flags m"
  have G1: "G E r0 f m1" and row: "rows (mg_store m1) vm = Some info"
    using G_view [OF assms(1) m1] view_rows [OF m1(2)] assms(2) by auto
  show "G E r0 f m1 \<and> rows (mg_store m1) vm = Some info" using G1 row by simp
  show "if is_exception e then wpre (bind (raise_if_crashed so w info) (\<lambda>_. raise e))
        (\<lambda>_ m'. G E r0 f m' \<and> rows (mg_store m') vm = Some info) (\<lambda>_. G E r0 f) m1 else G E r0 f m1" for e
    using G1 by (simp add: wpre_crash_checks(2) [OF G1 row assms(3)])
qed (use assms in \<open>simp add: G_def\<close>)

lemma keeps_get:
  assumes "\<And>m info. G E r0 f m \<Longrightarrow> rows (mg_store m) vm = Some info \<Longrightarrow> wpre (k info) (\<lambda>_. G E r0 f) (\<lambda>_. G E r0 f) m"
  shows "keeps (G E r0 f) (bind (from_store (\<lambda>st. so_get so st vm)) k)"
  unfolding keeps_def
proof (intro allI impI)
  fix m assume "G E r0 f m"
  then show "wpre (bind (from_store (\<lambda>st. so_get so st vm)) k) (\<lambda>_. G E r0 f) (\<lambda>_. G E r0 f) m"
    using assms [of m] get_row [of "mg_store m" vm]
    by (cases "rows (mg_store m) vm") (simp_all add: wp reg_get_def G_def)
qed

lemma keeps_pause_vm:
  assumes may: "may_fail E vm" "may_toggle E vm VM_PAUSED"
  shows "keeps (G E r0 f) (pause_vm so w vm)"
  unfolding pause_vm_def
proof (rule keeps_bind [OF keeps_basic(5)], rule keeps_get)
  fix m info assume m: "G E r0 f m" "rows (mg_store m) vm = Some info"
  show "wpre (bind (if vi_status info \<noteq> VM_RUNNING then raise_crashed_or_state_error so w info else ret ()) (\<lambda>_.
     bind (catch is_exception
             (bind (runtime_adapter_for_vm w info) (\<lambda>_. attempt (\<lambda>t. w_pause w t info)))
             (\<lambda>e. bind (raise_if_crashed so w info) (\<lambda>_. raise e))) (\<lambda>_.
       on_store (\<lambda>st. so_update so st vm (no_update\<lparr>up_status := Some VM_PAUSED\<rparr>))))) (\<lambda>_. G E r0 f) (\<lambda>_. G E r0 f) m"
  proof (cases "vi_status info = VM_RUNNING")
    case True
    then show ?thesis
      unfolding wpre_bind [of "catch _ _ _"]
      by (simp add: wpre_bind [of "ret _"] wpre_basic wpre_bind [of "catch _ _ _"])
         (rule wpre_mono [OF wpre_runtime_call [OF m may(1)]], auto intro: live_update may(2) simp: is_live_status_def)
  next
    case False
    then show ?thesis using wpre_crash_checks(1) [OF m may(1)] by (simp add: wpre_bind [of "raise_crashed_or_state_error so w info"])
  qed
qed

lemma keeps_resume_vm:
  assumes may: "may_fail E vm" "may_toggle E vm VM_RUNNING"
  shows "keeps (G E r0 f) (resume_vm so w vm)"
  unfolding resume_vm_def
proof (rule keeps_bind [OF keeps_basic(5)], rule keeps_get)
  fix m info assume m: "G E r0 f m" "rows (mg_store m) vm = Some info"
  let ?call = "bind (catch is_exception
             (bind (runtime_adapter_for_vm w info) (\<lambda>_. attempt (\<lambda>t. w_resume w t info)))
             (\<lambda>e. bind (raise_if_crashed so w info) (\<lambda>_. raise e))) (\<lambda>_.
       on_store (\<lambda>st. so_update so st vm (no_update\<lparr>up_status := Some VM_RUNNING\<rparr>)))"
  let ?check = "bind (backend_for_vm w info) (\<lambda>backend.
     bind (validate_network_policy w (vi_config info) backend) (\<lambda>_.
       if has_restrictions (vi_config info) then ensure_network_connectivity so w info else ret ()))"
  have calm: "keeps (same v g) ?check" for v g by (intro keep calm)
  have assoc: "bind (backend_for_vm w info) (\<lambda>backend.
     bind (validate_network_policy w (vi_config info) backend) (\<lambda>_.
     bind (if has_restrictions (vi_config info) then ensure_network_connectivity so w info else ret ()) (\<lambda>_. ?call))) = bind ?check (\<lambda>_. ?call)"
    by (simp add: bind_assoc)
  have "wpre (bind ?check (\<lambda>_. ?call)) (\<lambda>_. G E r0 f) (\<lambda>_. G E r0 f) m" if "vi_status info = VM_PAUSED"
    unfolding wpre_bind [of ?check]
  proof (rule calm_wpre [OF calm])
    fix m1 assume m1: "ok (mg_store m1)" "view m1 = view m" "flags m1 = flags m"
    have "G E r0 f m1" "rows (mg_store m1) vm = Some info"
      using G_view [OF m(1) m1] view_rows [OF m1(2)] m(2) by auto
    then show "wpre ?call (\<lambda>_. G E r0 f) (\<lambda>_. G E r0 f) m1"
      unfolding wpre_bind [of "catch _ _ _"]
      by (rule wpre_mono [OF wpre_runtime_call [OF _ _ may(1)]]) (use that in \<open>auto intro: live_update may(2) simp: is_live_status_def\<close>)
  qed (use m G_view in \<open>auto simp: G_def\<close>)
  then show "wpre (bind (if vi_status info \<noteq> VM_PAUSED then raise_crashed_or_state_error so w info else ret ()) (\<lambda>_.
     bind (backend_for_vm w info) (\<lambda>backend.
     bind (validate_network_policy w (vi_config info) backend) (\<lambda>_.
     bind (if has_restrictions (vi_config info) then ensure_network_connectivity so w info else ret ()) (\<lambda>_. ?call)))))
     (\<lambda>_. G E r0 f) (\<lambda>_. G E r0 f) m"
    unfolding assoc using wpre_crash_checks(1) [OF m may(1)]
    by (simp add: wpre_bind [of "raise_crashed_or_state_error so w info"] wpre_bind [of "ret _"] wpre_basic)
qed

text \<open>Closing and the guard: the flags change, the guarantees stay.\<close>

definition GF :: "edges \<Rightarrow> (string \<Rightarrow> vm_state option) \<Rightarrow> 's manager \<Rightarrow> bool" where
  "GF E r0 m \<longleftrightarrow> ok (mg_store m) \<and> good E r0 (view m)"

lemma GF_I: "G E r0 f m \<Longrightarrow> GF E r0 m" and GF_D: "GF E r0 m \<Longrightarrow> G E r0 (flags m) m"
  by (simp_all add: G_def GF_def)

lemma keeps_GF: "(\<And>f. keeps (G E r0 f) op) \<Longrightarrow> keeps (GF E r0) op"
  unfolding keeps_def using GF_D GF_I by (blast intro: wpre_mono)

lemma keeps_flags: "(\<And>m. view (g m) = view m \<and> mg_store (g m) = mg_store m) \<Longrightarrow> keeps (GF E r0) (modify g)"
  by (rule keeps_modify) (simp add: GF_def)

lemma keeps_close_sessions:
  assumes may: "\<And>vm. may_stop E vm"
  shows "keeps (G E r0 f) (close_sessions so w vms failures)"
proof (induction vms arbitrary: failures)
  case (Cons vm vms)
  have "wpre (bind (stop_claimed so w vm) (\<lambda>_. bind (stop_public_egress w vm) (\<lambda>_. ret failures))) (\<lambda>_. G E r0 f) (\<lambda>_. G E r0 f) m"
    if "G E r0 f m" for m
    unfolding wpre_bind [of "stop_claimed so w vm"]
  proof (rule wpre_mono [OF wpre_stop_claimed [OF that may]])
    fix m1 assume m1: "G E r0 f m1 \<and> idle vm m1 \<and> (\<forall>r. rows (mg_store m1) vm = Some r \<longrightarrow> \<not> is_live_status (vi_status r))"
    then show "wpre (bind (stop_public_egress w vm) (\<lambda>_. ret failures)) (\<lambda>_. G E r0 f) (\<lambda>_. G E r0 f) m1"
      unfolding wpre_bind by (intro wpre_mono [OF wpre_stop_egress]) (auto simp: idle_def wp)
  qed simp
  then have "keeps (G E r0 f) (bind (stop_claimed so w vm) (\<lambda>_. bind (stop_public_egress w vm) (\<lambda>_. ret failures)))"
    by (simp add: keeps_def)
  then show ?case using Cons.IH unfolding close_sessions.simps by (metis keeps_bind keeps_catch keeps_basic(1))
qed (simp add: keep)

lemma keeps_close_manager:
  assumes may: "\<And>vm. may_stop E vm"
  shows "keeps (GF E r0) (close_manager so w)"
proof -
  have "keeps (GF E r0) (close_resources so w)"
    unfolding close_resources_def
  proof (rule keeps_bind [OF keeps_basic(3)], rule keeps_bind [OF keeps_GF [OF keeps_close_sessions [OF may]]])
    fix failures :: "celesto_error list"
    show "keeps (GF E r0) (case failures of [] \<Rightarrow> modify (\<lambda>m. m\<lparr>mg_closed := True\<rparr>) | [e] \<Rightarrow> raise e
        | _ \<Rightarrow> raise (CelestoError ''could not finish closing''))"
      by (auto intro: keeps_flags keep simp: view_def split: list.split)
  qed
  then show ?thesis
    unfolding close_manager_def by (intro keep keeps_flags) (simp_all add: view_def)
qed

text \<open>An operation that nobody asked to close during its run gives the claim back and changes no flag.\<close>

lemma keeps_guard:
  assumes "\<And>f. keeps (G E r0 f) body"
  shows "keeps (G E r0 f) (vm_operation_guard so w vm body)"
  unfolding keeps_def
proof (intro allI impI)
  fix m assume G: "G E r0 f m"
  show "wpre (vm_operation_guard so w vm body) (\<lambda>_. G E r0 f) (\<lambda>_. G E r0 f) m"
  proof (cases "mg_closed m \<or> mg_close_requested m \<or> vm \<in> set (mg_active m)")
    case True
    then show ?thesis using G by (auto simp: vm_operation_guard_def claim_operation_def wp)
  next
    case False
    let ?m = "m\<lparr>mg_active := vm # mg_active m\<rparr>"
    have "G E r0 (flags ?m) ?m" using G by (simp add: G_def view_def)
    moreover have "wpre (release_operation so w vm) (\<lambda>_. G E r0 f) (\<lambda>_. G E r0 f) m'" if "G E r0 (flags ?m) m'" for m'
      using that G False by (auto simp: release_operation_def wp G_def flags_def view_def)
    ultimately have "wpre (ensuring body (release_operation so w vm)) (\<lambda>_. G E r0 f) (\<lambda>_. G E r0 f) ?m"
      unfolding wpre_ensuring by (intro wpre_mono [OF keepsD [OF assms]]) auto
    then show ?thesis
      using False by (simp add: vm_operation_guard_def claim_operation_def wpre_bind wpre_basic wpre_raise_when)
  qed
qed

text \<open>Deleting: the row goes last, when nothing of the computer runs and its proxy is released.\<close>

lemma wpre_delete_row:
  assumes "G E r0 f m" "map_of (mg_unrecorded m) vm = None" "map_of (mg_public_egress m) vm = None"
    "\<And>r. rows (mg_store m) vm = Some r \<Longrightarrow> \<not> is_live_status (vi_status r) \<and> E vm (Some (vi_status r)) None"
  shows "wpre (on_store (\<lambda>st. so_delete so st vm)) (\<lambda>_ m'. G E r0 f m' \<and> rows (mg_store m') vm = None) (\<lambda>_ m'. G E r0 f m') m"
proof -
  obtain q st where st: "so_delete so (mg_store m) vm = (q, st)" by fastforce
  then have "ok st \<and> (q, rows st) = reg_delete (rows (mg_store m)) vm"
    using delete_row [OF _ st] assms(1) by (simp add: G_def)
  then consider "q = Inl (VMNotFoundError vm)" "ok st" "rows st = rows (mg_store m)"
    | "q = Inr ()" "ok st" "rows st = (rows (mg_store m))(vm := None)" "rows (mg_store m) vm \<noteq> None"
    by (auto simp: reg_delete_def split: if_splits)
  then show ?thesis
  proof cases
    case 1
    then show ?thesis using st assms(1) G_same_rows by (simp add: wpre_on_store)
  next
    case 2
    then obtain r where r: "rows (mg_store m) vm = Some r" by blast
    have "G E r0 f (m\<lparr>mg_store := st\<rparr>)"
    proof (rule G_change [OF assms(1), where vm = vm])
      assume "good_at vm (E vm) (r0 vm) (rows (mg_store m) vm) (map_option es_proxy (map_of (mg_public_egress m) vm))
        (map_of (mg_unrecorded m) vm) (public_process (view m) vm)"
      then show "good_at vm (E vm) (r0 vm) (rows (mg_store (m\<lparr>mg_store := st\<rparr>)) vm)
        (map_option es_proxy (map_of (mg_public_egress (m\<lparr>mg_store := st\<rparr>)) vm))
        (map_of (mg_unrecorded (m\<lparr>mg_store := st\<rparr>)) vm) (public_process (view (m\<lparr>mg_store := st\<rparr>)) vm)"
        using 2 r assms(2,3) assms(4) [OF r] path_step [of "E vm" "r0 vm" "Some (vi_status r)" None]
        by (auto simp: good_at_def)
    qed (use 2 in \<open>simp_all add: flags_def\<close>)
    then show ?thesis using st 2 by (simp add: wpre_on_store)
  qed
qed

lemma wpre_calm_mono:
  assumes "\<And>v g. keeps (same v g) op" "G E r0 f m"
    "\<And>x m'. G E r0 f m' \<Longrightarrow> view m' = view m \<Longrightarrow> Q x m'" "\<And>e m'. G E r0 f m' \<Longrightarrow> view m' = view m \<Longrightarrow> R e m'"
  shows "wpre op Q R m"
  using assms by (intro calm_wpre [OF assms(1)]) (auto simp: G_def)

lemma view_maps:
  "view m' = view m \<Longrightarrow> map_of (mg_unrecorded m') vm = map_of (mg_unrecorded m) vm \<and>
     (map_of (mg_public_egress m') vm = None) = (map_of (mg_public_egress m) vm = None)"
  by (metis view_simps(3,4) option.map_disc_iff)

lemma keeps_then:
  assumes "\<And>m. G E r0 f m \<Longrightarrow> P m \<Longrightarrow> wpre op (\<lambda>_ m'. G E r0 f m' \<and> P' m') (\<lambda>_. G E r0 f) m"
    "\<And>x m. G E r0 f m \<Longrightarrow> P' m \<Longrightarrow> wpre (k x) (\<lambda>_. G E r0 f) (\<lambda>_. G E r0 f) m" "G E r0 f m" "P m"
  shows "wpre (bind op k) (\<lambda>_. G E r0 f) (\<lambda>_. G E r0 f) m"
  unfolding wpre_bind by (rule wpre_mono [OF assms(1) [OF assms(3,4)]]) (use assms(2) in auto)

text \<open>Nothing is left of the computer but its row.\<close>

definition leftover :: "string \<Rightarrow> 's manager \<Rightarrow> bool" where
  "leftover vm m \<longleftrightarrow> map_of (mg_unrecorded m) vm = None \<and> map_of (mg_public_egress m) vm = None \<and>
     (\<forall>r. rows (mg_store m) vm = Some r \<longrightarrow> \<not> is_live_status (vi_status r))"

lemma leftover_view: "view m' = view m \<Longrightarrow> leftover vm m' = leftover vm m"
  using view_maps [of m' m vm] view_rows [of m' m] by (simp add: leftover_def)

lemma leftover_calm:
  assumes "\<And>v g. keeps (same v g) op" "G E r0 f m" "leftover vm m"
  shows "wpre op (\<lambda>_ m'. G E r0 f m' \<and> leftover vm m') (\<lambda>_. G E r0 f) m"
  by (rule wpre_calm_mono [OF assms(1,2)]) (simp_all add: leftover_view assms(3))

lemma wpre_delete_leftover:
  assumes "G E r0 f m" "leftover vm m" and may: "may_delete E vm"
  shows "wpre (bind (attempt (\<lambda>t. w_delete_bundle w t info)) (\<lambda>_.
     bind (if bridge_row (Some info) then ret True
           else bind (from_store (\<lambda>st. so_get_tap so st vm)) (\<lambda>tap_alloc. ret (bridge_alloc tap_alloc))) (\<lambda>strict.
     bind (cleanup_resources so w vm False strict) (\<lambda>_. on_store (\<lambda>st. so_delete so st vm))))) (\<lambda>_. G E r0 f) (\<lambda>_. G E r0 f) m"
proof (rule keeps_then [where P = "leftover vm" and P' = "leftover vm", OF _ _ assms(1,2)])
  show "wpre (attempt (\<lambda>t. w_delete_bundle w t info)) (\<lambda>_ m'. G E r0 f m' \<and> leftover vm m') (\<lambda>_. G E r0 f) m"
    if "G E r0 f m" "leftover vm m" for m using that by (intro leftover_calm calm)
  fix m assume m: "G E r0 f m" "leftover vm m"
  show "wpre (bind (if bridge_row (Some info) then ret True
           else bind (from_store (\<lambda>st. so_get_tap so st vm)) (\<lambda>tap_alloc. ret (bridge_alloc tap_alloc))) (\<lambda>strict.
     bind (cleanup_resources so w vm False strict) (\<lambda>_. on_store (\<lambda>st. so_delete so st vm)))) (\<lambda>_. G E r0 f) (\<lambda>_. G E r0 f) m"
  proof (rule keeps_then [where P = "leftover vm" and P' = "leftover vm", OF _ _ m])
    show "wpre (if bridge_row (Some info) then ret True
           else bind (from_store (\<lambda>st. so_get_tap so st vm)) (\<lambda>tap_alloc. ret (bridge_alloc tap_alloc)))
        (\<lambda>_ m'. G E r0 f m' \<and> leftover vm m') (\<lambda>_. G E r0 f) m"
      if "G E r0 f m" "leftover vm m" for m using that by (intro leftover_calm keep calm)
    fix strict m assume m: "G E r0 f m" "leftover vm m"
    show "wpre (bind (cleanup_resources so w vm False strict) (\<lambda>_. on_store (\<lambda>st. so_delete so st vm))) (\<lambda>_. G E r0 f) (\<lambda>_. G E r0 f) m"
    proof (rule keeps_then [where P = "leftover vm" and P' = "leftover vm", OF _ _ m])
      show "wpre (cleanup_resources so w vm False strict) (\<lambda>_ m'. G E r0 f m' \<and> leftover vm m') (\<lambda>_. G E r0 f) m"
        if "G E r0 f m" "leftover vm m" for m using that by (intro leftover_calm calm)
      show "wpre (on_store (\<lambda>st. so_delete so st vm)) (\<lambda>_. G E r0 f) (\<lambda>_. G E r0 f) m" if "G E r0 f m" "leftover vm m" for m
        by (rule wpre_mono [OF wpre_delete_row [OF that(1)]]) (use that may in \<open>auto simp: leftover_def may_delete_def\<close>)
    qed
  qed
qed

lemma wpre_delete_known:
  assumes "G E r0 f m" "rows (mg_store m) vm = Some info" "map_of (mg_unrecorded m) vm = None"
    and may: "may_stop E vm" "may_delete E vm"
  shows "wpre (bind (if is_live_status (vi_status info) then bind (stop_claimed so w vm) (\<lambda>_. ret ()) else ret ()) (\<lambda>_.
     bind (stop_public_egress w vm) (\<lambda>_.
     bind (attempt (\<lambda>t. w_delete_bundle w t info)) (\<lambda>_.
     bind (if bridge_row (Some info) then ret True
           else bind (from_store (\<lambda>st. so_get_tap so st vm)) (\<lambda>tap_alloc. ret (bridge_alloc tap_alloc))) (\<lambda>strict.
     bind (cleanup_resources so w vm False strict) (\<lambda>_. on_store (\<lambda>st. so_delete so st vm))))))) (\<lambda>_. G E r0 f) (\<lambda>_. G E r0 f) m"
proof (rule keeps_then [where P = "\<lambda>m. rows (mg_store m) vm = Some info \<and> map_of (mg_unrecorded m) vm = None"
      and P' = "\<lambda>m. idle vm m \<and> (\<forall>r. rows (mg_store m) vm = Some r \<longrightarrow> \<not> is_live_status (vi_status r))"])
  fix m assume m: "G E r0 f m" "rows (mg_store m) vm = Some info \<and> map_of (mg_unrecorded m) vm = None"
  show "wpre (if is_live_status (vi_status info) then bind (stop_claimed so w vm) (\<lambda>_. ret ()) else ret ())
     (\<lambda>_ m'. G E r0 f m' \<and> idle vm m' \<and> (\<forall>r. rows (mg_store m') vm = Some r \<longrightarrow> \<not> is_live_status (vi_status r))) (\<lambda>_. G E r0 f) m"
  proof (cases "is_live_status (vi_status info)")
    case True
    then show ?thesis using wpre_stop_claimed [OF m(1) may(1), of w] by (simp add: wpre_bind wpre_end)
  next
    case False
    then have "idle vm m" using at_row [OF m(1), of vm] m(2) by (auto simp: good_at_def idle_def)
    then show ?thesis using False m by (simp add: wp)
  qed
next
  fix m assume m: "G E r0 f m" "idle vm m \<and> (\<forall>r. rows (mg_store m) vm = Some r \<longrightarrow> \<not> is_live_status (vi_status r))"
  show "wpre (bind (stop_public_egress w vm) (\<lambda>_.
     bind (attempt (\<lambda>t. w_delete_bundle w t info)) (\<lambda>_.
     bind (if bridge_row (Some info) then ret True
           else bind (from_store (\<lambda>st. so_get_tap so st vm)) (\<lambda>tap_alloc. ret (bridge_alloc tap_alloc))) (\<lambda>strict.
     bind (cleanup_resources so w vm False strict) (\<lambda>_. on_store (\<lambda>st. so_delete so st vm)))))) (\<lambda>_. G E r0 f) (\<lambda>_. G E r0 f) m"
    unfolding wpre_bind [of "stop_public_egress w vm"]
  proof (rule wpre_mono [OF wpre_stop_egress [OF m(1)]])
    fix m1 assume m1: "G E r0 f m1 \<and> beside m m1 \<and> map_of (mg_public_egress m1) vm = None"
    then have "leftover vm m1" using m(2) by (auto simp: leftover_def beside_def idle_def)
    then show "wpre (bind (attempt (\<lambda>t. w_delete_bundle w t info)) (\<lambda>_.
     bind (if bridge_row (Some info) then ret True
           else bind (from_store (\<lambda>st. so_get_tap so st vm)) (\<lambda>tap_alloc. ret (bridge_alloc tap_alloc))) (\<lambda>strict.
     bind (cleanup_resources so w vm False strict) (\<lambda>_. on_store (\<lambda>st. so_delete so st vm))))) (\<lambda>_. G E r0 f) (\<lambda>_. G E r0 f) m1"
      using wpre_delete_leftover may(2) m1 by blast
  qed (use m in \<open>auto simp: idle_def\<close>)
qed (use assms in auto)

lemma wpre_lookup_or_cleanup:
  assumes "G E r0 f m" "map_of (mg_unrecorded m) vm = None"
  shows "wpre (catch (\<lambda>e. case e of VMNotFoundError _ \<Rightarrow> True | _ \<Rightarrow> False)
             (from_store (\<lambda>st. so_get so st vm))
             (\<lambda>e. bind (cleanup_resources so w vm False False) (\<lambda>_. raise e)))
    (\<lambda>info m'. G E r0 f m' \<and> rows (mg_store m') vm = Some info \<and> map_of (mg_unrecorded m') vm = None) (\<lambda>_. G E r0 f) m"
proof (cases "rows (mg_store m) vm")
  case None
  have "wpre (bind (cleanup_resources so w vm False False) (\<lambda>_. raise e)) Q (\<lambda>_. G E r0 f) m" for e Q
    unfolding wpre_bind wpre_end by (rule wpre_calm_mono [OF calm_cleanup(2) assms(1)]) auto
  then show ?thesis
    using None assms get_row [of "mg_store m" vm] by (simp add: wpre_catch wpre_from_store reg_get_def G_def)
next
  case (Some info)
  then show ?thesis
    using assms get_row [of "mg_store m" vm] by (simp add: wpre_catch wpre_from_store reg_get_def G_def)
qed

lemma keeps_delete_claimed:
  assumes may: "may_stop E vm" "may_delete E vm"
  shows "keeps (G E r0 f) (delete_claimed so w vm)"
  unfolding keeps_def
proof (intro allI impI)
  fix m assume G: "G E r0 f m"
  let ?rest = "\<lambda>info. bind (if is_live_status (vi_status info) then bind (stop_claimed so w vm) (\<lambda>_. ret ()) else ret ()) (\<lambda>_.
     bind (stop_public_egress w vm) (\<lambda>_.
     bind (attempt (\<lambda>t. w_delete_bundle w t info)) (\<lambda>_.
     bind (if bridge_row (Some info) then ret True
           else bind (from_store (\<lambda>st. so_get_tap so st vm)) (\<lambda>tap_alloc. ret (bridge_alloc tap_alloc))) (\<lambda>strict.
     bind (cleanup_resources so w vm False strict) (\<lambda>_. on_store (\<lambda>st. so_delete so st vm))))))"
  let ?look = "catch (\<lambda>e. case e of VMNotFoundError _ \<Rightarrow> True | _ \<Rightarrow> False)
             (from_store (\<lambda>st. so_get so st vm))
             (\<lambda>e. bind (cleanup_resources so w vm False False) (\<lambda>_. raise e))"
  have tail: "wpre (bind ?look ?rest) (\<lambda>_. G E r0 f) (\<lambda>_. G E r0 f) m1"
    if "G E r0 f m1" "map_of (mg_unrecorded m1) vm = None" for m1
    unfolding wpre_bind [of ?look]
    by (rule wpre_mono [OF wpre_lookup_or_cleanup [OF that]]) (use wpre_delete_known [OF _ _ _ may] in auto)
  have "wpre (if map_of (mg_unrecorded m) vm \<noteq> None then bind (stop_claimed so w vm) (\<lambda>_. ret ()) else ret ())
      (\<lambda>_ m1. G E r0 f m1 \<and> map_of (mg_unrecorded m1) vm = None) (\<lambda>_. G E r0 f) m"
  proof (cases "map_of (mg_unrecorded m) vm = None")
    case False
    have "wpre (stop_claimed so w vm) (\<lambda>_ m1. G E r0 f m1 \<and> map_of (mg_unrecorded m1) vm = None) (\<lambda>_. G E r0 f) m"
      by (rule wpre_mono [OF wpre_stop_claimed [OF G may(1)]]) (auto simp: idle_def)
    then show ?thesis using False by (simp add: wpre_bind wpre_end)
  qed (use G in \<open>simp add: wp\<close>)
  then have "wpre (bind (if map_of (mg_unrecorded m) vm \<noteq> None then bind (stop_claimed so w vm) (\<lambda>_. ret ()) else ret ())
      (\<lambda>_. bind ?look ?rest)) (\<lambda>_. G E r0 f) (\<lambda>_. G E r0 f) m"
    unfolding wpre_bind [of "if map_of (mg_unrecorded m) vm \<noteq> None then bind (stop_claimed so w vm) (\<lambda>_. ret ()) else ret ()"]
    by (rule wpre_mono) (use tail in auto)
  then show "wpre (delete_claimed so w vm) (\<lambda>_. G E r0 f) (\<lambda>_. G E r0 f) m"
    unfolding delete_claimed_def wpre_bind [of "gets _"] wpre_basic by simp
qed

end

end
