(* ===== verification/Manager_Guarantees.thy ===== *)
theory Manager_Guarantees
  imports Manager_Contract
begin

text \<open>
  The guarantees of the contract theory for creating computers and for the sweep of dead processes, and for every
  sequence of calls to a manager. The in-memory state manager satisfies the contract, so the guarantees hold
  of a manager that runs on it.
\<close>

section \<open>Creating\<close>

context vm_rows
begin

text \<open>A computer whose row was just made.\<close>

definition fresh :: "edges \<Rightarrow> (string \<Rightarrow> vm_state option) \<Rightarrow> string list \<times> bool \<times> bool \<times> bool \<Rightarrow> string \<Rightarrow> 's manager \<Rightarrow> bool" where
  "fresh E r0 f vm m \<longleftrightarrow> G E r0 f m \<and> map_of (mg_unrecorded m) vm = None \<and> map_of (mg_public_egress m) vm = None \<and>
     (\<exists>r. rows (mg_store m) vm = Some r \<and> vi_status r = VM_CREATED)"

lemma fresh_leftover: "fresh E r0 f vm m \<Longrightarrow> leftover vm m"
  by (auto simp: fresh_def leftover_def is_live_status_def)

lemma fresh_G: "fresh E r0 f vm m \<Longrightarrow> G E r0 f m"
  by (simp add: fresh_def)

lemma fresh_calm:
  assumes "\<And>v g. keeps (same v g) op"
  shows "keeps (fresh E r0 f vm) op"
  unfolding keeps_def
proof (intro allI impI)
  fix m assume m: "fresh E r0 f vm m"
  have "fresh E r0 f vm m'" if "G E r0 f m'" "view m' = view m" for m'
    using m that view_maps [OF that(2), of vm] view_rows [OF that(2)] by (simp add: fresh_def)
  then show "wpre op (\<lambda>_. fresh E r0 f vm) (\<lambda>_. fresh E r0 f vm) m"
    by (intro wpre_calm_mono [OF assms fresh_G [OF m]])
qed

lemmas fresh_calms = calm [THEN fresh_calm]

lemma fresh_update:
  assumes "up_status u = None"
  shows "keeps (fresh E r0 f vm) (on_store (\<lambda>st. so_update so st vm u))"
  unfolding keeps_def
proof (intro allI impI)
  fix m assume m: "fresh E r0 f vm m"
  have G: "G E r0 f m" using m by (rule fresh_G)
  show "wpre (on_store (\<lambda>st. so_update so st vm u)) (\<lambda>_. fresh E r0 f vm) (\<lambda>_. fresh E r0 f vm) m"
  proof (rule wpre_update [OF G])
    fix r st assume r: "rows (mg_store m) vm = Some r" "ok st" "rows st = (rows (mg_store m))(vm \<mapsto> apply_vm_update u r)"
    have "vi_status (apply_vm_update u r) = vi_status r" using assms by (simp add: apply_vm_update_def overwrite_def)
    moreover from this have "G E r0 f (m\<lparr>mg_store := st\<rparr>)"
      using m by (intro G_row [OF G r(2,3,1)]) (simp_all add: fresh_def Let_def)
    ultimately show "fresh E r0 f vm (m\<lparr>mg_store := st\<rparr>)" using m r by (simp add: fresh_def)
  qed (use m in \<open>auto simp: fresh_def\<close>)
qed

lemma fresh_vsock: "vc_vm_id c = vm \<Longrightarrow> keeps (fresh E r0 f vm) (maybe_enable_vsock so w c b i)"
  unfolding maybe_enable_vsock_def Let_def by (intro keep fresh_calms; simp add: keep fresh_update no_update_def)

lemma fresh_network:
  assumes "vc_vm_id c = vm"
  shows "keeps (fresh E r0 f vm) (create_network so w c b)"
proof -
  have "keeps (fresh E r0 f vm) (create_bridged so w c b k)" "keeps (fresh E r0 f vm) (create_usernet so w c b p)"
    "keeps (fresh E r0 f vm) (create_tap so w c b p)" for k p
    unfolding create_bridged_def create_usernet_def create_tap_def Let_def
    by (intro keep fresh_calms fresh_vsock; simp add: assms fresh_update no_update_def)+
  then show ?thesis
    unfolding create_network_def by (intro keep fresh_calms)
qed

lemma wpre_add_row:
  assumes "G E r0 f m" "rows (mg_store m) vm = None" "vc_vm_id c = vm" "may_create E vm"
  shows "wpre (on_store (\<lambda>st. so_create so st c)) (\<lambda>_. fresh E r0 f vm) (\<lambda>_. G E r0 f) m"
proof -
  obtain q st where st: "so_create so (mg_store m) c = (q, st)" by fastforce
  then have q: "q = Inr (created_vm_info c)" "ok st" "rows st = (rows (mg_store m))(vm \<mapsto> created_vm_info c)"
    using create_row [OF _ st] assms by (auto simp: G_def reg_create_def)
  have none: "map_of (mg_unrecorded m) vm = None" "map_of (mg_public_egress m) vm = None" "\<not> public_process (view m) vm"
    using at_row [OF assms(1), of vm] assms(2) by (auto simp: good_at_def)
  have "G E r0 f (m\<lparr>mg_store := st\<rparr>)"
  proof (rule G_change [OF assms(1), where vm = vm])
    assume "good_at vm (E vm) (r0 vm) (rows (mg_store m) vm) (map_option es_proxy (map_of (mg_public_egress m) vm))
      (map_of (mg_unrecorded m) vm) (public_process (view m) vm)"
    then show "good_at vm (E vm) (r0 vm) (rows (mg_store (m\<lparr>mg_store := st\<rparr>)) vm)
      (map_option es_proxy (map_of (mg_public_egress (m\<lparr>mg_store := st\<rparr>)) vm))
      (map_of (mg_unrecorded (m\<lparr>mg_store := st\<rparr>)) vm) (public_process (view (m\<lparr>mg_store := st\<rparr>)) vm)"
      using q(3) none assms(2,3) path_step [of "E vm" "r0 vm" None "Some VM_CREATED"]
      assms(4) by (auto simp: good_at_def created_vm_info_def may_create_def)
  qed (use q in \<open>simp_all add: flags_def\<close>)
  then show ?thesis using st q none by (simp add: wpre_on_store fresh_def created_vm_info_def)
qed

lemma calm_undo_unrecorded: "keeps (same v g) (undo_record so w vm plan False)"
  unfolding undo_record_def by (intro keep calm; simp add: keep)

lemma wpre_undo_recorded:
  assumes "fresh E r0 f vm m" and may: "may_create E vm"
  shows "wpre (undo_record so w vm plan True) (\<lambda>_. G E r0 f) (\<lambda>_. G E r0 f) m"
proof -
  let ?rest = "bind (case cp_disk plan of
             Some p \<Rightarrow> if cp_disk_existed plan then ret () else disk_try w (REMOVE_UNPERSISTED_DISK p)
           | None \<Rightarrow> ret ()) (\<lambda>_.
     bind (restore_retained_marker w (cp_disk plan) (cp_disk_saved plan)) (\<lambda>_.
     bind (if cp_firmware_existed plan then ret () else disk_try w (REMOVE_FIRMWARE vm)) (\<lambda>_.
     case cp_bundle plan of
       Some b \<Rightarrow>
         if cp_bundle_existed plan then ret ()
         else bind (ask (\<lambda>t. w_fs w t b = PATH_DIR)) (\<lambda>dir. if dir then disk_try w (REMOVE_BUNDLE b) else ret ())
     | None \<Rightarrow> ret ())))"
  let ?restore = "case cp_disk plan of Some p \<Rightarrow> if cp_backed_up plan then disk_step w (RESTORE_BACKUP p) else ret () | None \<Rightarrow> ret ()"
  have rest: "keeps (G E r0 f) ?rest" by (rule G_calm) (intro keep calm)
  have delete: "wpre (suppress (on_store (\<lambda>st. so_delete so st vm))) (\<lambda>_. G E r0 f) (\<lambda>_. G E r0 f) m1" if "fresh E r0 f vm m1" for m1
    unfolding wpre_suppress
    by (rule wpre_mono [OF wpre_delete_row [OF fresh_G [OF that]]]) (use fresh_leftover [OF that] that may in \<open>auto simp: leftover_def fresh_def may_create_def\<close>)
  have "keeps (fresh E r0 f vm) ?restore" by (rule fresh_calm) (intro keep calm)
  then have "wpre ?restore (\<lambda>_. fresh E r0 f vm) (\<lambda>_. G E r0 f) m"
    using assms(1) fresh_G by (blast intro: wpre_mono dest: keepsD)
  then have "wpre (bind ?restore (\<lambda>_. bind (suppress (on_store (\<lambda>st. so_delete so st vm))) (\<lambda>_. ?rest))) (\<lambda>_. G E r0 f) (\<lambda>_. G E r0 f) m"
    unfolding wpre_bind [of ?restore] by (rule wpre_mono) (use wpre_then [OF delete] rest in auto)
  then show ?thesis by (simp add: undo_record_def)
qed

lemma materialize_id: "returns (\<lambda>c'. vc_vm_id c' = vc_vm_id c) (materialize_rootfs w c)"
  unfolding materialize_rootfs_def Let_def by (intro returning; simp add: returning)

lemma resize_id: "returns (\<lambda>c'. c' = c) (resize_materialized_rootfs w c)"
  unfolding resize_materialized_rootfs_def Let_def by (intro returning; simp add: returning)

lemma wpre_persist_computer:
  assumes "G E r0 f m" "rows (mg_store m) vm = None" "vc_vm_id c = vm" and may: "may_create E vm"
  shows "wpre (persist_computer so w c plan) (\<lambda>c' m'. fresh E r0 f vm m' \<and> vc_vm_id c' = vm) (\<lambda>_. G E r0 f) m"
proof -
  let ?disk = "if vc_guest_os c = MACOS
      then bind (case vc_macos_machine c of Some mm \<Rightarrow> disk_step w (MATERIALIZE_BUNDLE (mm_bundle_path mm)) | None \<Rightarrow> ret ()) (\<lambda>_. ret c)
      else materialize_rootfs w c"
  let ?size = "\<lambda>c. bind (case cp_disk plan of Some p \<Rightarrow> disk_try w (CLEAR_MARKER p) | None \<Rightarrow> ret ()) (\<lambda>_.
         bind (if vc_guest_os c \<noteq> MACOS
               then bind (resize_materialized_rootfs w c) (\<lambda>c'. bind (materialize_firmware w c') (\<lambda>_. ret c'))
               else ret c) (\<lambda>c'.
         bind (case cp_disk plan of
                 Some p \<Rightarrow> if cp_backed_up plan then disk_try w (DISCARD_BACKUP p) else ret ()
               | None \<Rightarrow> ret ()) (\<lambda>_. ret c')))"
  have row: "rows (mg_store m1) vm = None" if "view m1 = view m" for m1
    using assms(2) view_rows [OF that] by simp
  have undo: "wpre (bind (undo_record so w vm plan False) (\<lambda>_. raise e)) Q (\<lambda>_. G E r0 f) m1" if "G E r0 f m1" for m1 e Q
    unfolding wpre_bind wpre_end by (rule wpre_calm_mono [OF calm_undo_unrecorded that]) auto
  have undo': "wpre (bind (undo_record so w vm plan True) (\<lambda>_. raise e)) Q (\<lambda>_. G E r0 f) m1" if "fresh E r0 f vm m1" for m1 e Q
    unfolding wpre_bind wpre_end by (rule wpre_mono [OF wpre_undo_recorded [OF that may]]) auto
  have "returns (\<lambda>c'. vc_vm_id c' = vm) ?disk"
    using materialize_id [of c w] assms(3) by (auto intro!: returning)
  moreover have "wpre ?disk (\<lambda>_ m1. G E r0 f m1 \<and> view m1 = view m) (\<lambda>_. G E r0 f) m"
    by (rule wpre_calm_mono [OF _ assms(1)]) (intro keep calm | simp)+
  ultimately have disk: "wpre ?disk (\<lambda>c' m1. vc_vm_id c' = vm \<and> G E r0 f m1 \<and> view m1 = view m) (\<lambda>_. G E r0 f) m"
    by (rule returns_wpre)
  have first: "wpre (bind ?disk (\<lambda>c. bind (on_store (\<lambda>st. so_create so st c)) (\<lambda>_. ret c)))
      (\<lambda>c' m1. fresh E r0 f vm m1 \<and> vc_vm_id c' = vm) (\<lambda>_. G E r0 f) m"
    unfolding wpre_bind wpre_end
    by (rule wpre_mono [OF disk]) (use row may in \<open>auto intro!: wpre_mono [OF wpre_add_row]\<close>)
  have size_id: "returns (\<lambda>c'. vc_vm_id c' = vm) (?size c')" if "vc_vm_id c' = vm" for c'
    by (rule returns_bind, rule returns_through [where P' = "\<lambda>c''. c'' = c'"])
       (use that in \<open>auto intro!: returning returns_through [OF resize_id]\<close>)
  have size: "wpre (?size c') (\<lambda>c'' m2. fresh E r0 f vm m2 \<and> vc_vm_id c'' = vm) (\<lambda>_. fresh E r0 f vm) m1"
    if "fresh E r0 f vm m1" "vc_vm_id c' = vm" for c' m1
  proof -
    have "keeps (fresh E r0 f vm) (?size c')" by (intro keep fresh_calms)
    then have "wpre (?size c') (\<lambda>_. fresh E r0 f vm) (\<lambda>_. fresh E r0 f vm) m1" using that(1) by (rule keepsD)
    from returns_wpre [OF size_id [OF that(2)] this] show ?thesis by (rule wpre_mono) auto
  qed
  have second: "wpre (catch (\<lambda>_. True) (?size c') (\<lambda>e. bind (undo_record so w vm plan True) (\<lambda>_. raise e)))
      (\<lambda>c'' m2. fresh E r0 f vm m2 \<and> vc_vm_id c'' = vm) (\<lambda>_. G E r0 f) m1" if "fresh E r0 f vm m1 \<and> vc_vm_id c' = vm" for c' m1
    unfolding wpre_catch by (rule wpre_mono [OF size]) (use that undo' in auto)
  have "wpre (catch (\<lambda>_. True) (bind ?disk (\<lambda>c. bind (on_store (\<lambda>st. so_create so st c)) (\<lambda>_. ret c)))
        (\<lambda>e. bind (undo_record so w vm plan False) (\<lambda>_. raise e)))
      (\<lambda>c' m1. fresh E r0 f vm m1 \<and> vc_vm_id c' = vm) (\<lambda>_. G E r0 f) m"
    unfolding wpre_catch by (rule wpre_mono [OF first]) (use undo in auto)
  then show ?thesis
    unfolding persist_computer_def Let_def assms(3)
      wpre_bind [of "catch (\<lambda>_. True) (bind ?disk (\<lambda>c. bind (on_store (\<lambda>st. so_create so st c)) (\<lambda>_. ret c)))
        (\<lambda>e. bind (undo_record so w vm plan False) (\<lambda>_. raise e))"]
    by (rule wpre_mono) (use second in auto)
qed

lemma wpre_undo_create:
  assumes "fresh E r0 f vm m" and may: "may_create E vm"
  shows "wpre (undo_create so w vm plan) (\<lambda>_. G E r0 f) (\<lambda>_. G E r0 f) m"
proof -
  have delete: "wpre (suppress (on_store (\<lambda>st. so_delete so st vm))) (\<lambda>_. G E r0 f) (\<lambda>_. G E r0 f) m1" if "fresh E r0 f vm m1" for m1
    unfolding wpre_suppress
    by (rule wpre_mono [OF wpre_delete_row [OF fresh_G [OF that]]]) (use fresh_leftover [OF that] that may in \<open>auto simp: leftover_def fresh_def may_create_def\<close>)
  have tidy: "keeps (fresh E r0 f vm) (bind (cleanup_resources so w vm (cp_disk_existed plan) False)
      (\<lambda>_. restore_retained_marker w (cp_disk plan) (cp_disk_saved plan)))"
    by (intro keep fresh_calms)
  have "wpre (bind (bind (cleanup_resources so w vm (cp_disk_existed plan) False)
      (\<lambda>_. restore_retained_marker w (cp_disk plan) (cp_disk_saved plan))) (\<lambda>_. suppress (on_store (\<lambda>st. so_delete so st vm))))
      (\<lambda>_. G E r0 f) (\<lambda>_. G E r0 f) m"
    unfolding wpre_bind [of "bind _ _"]
    by (rule wpre_mono [OF keepsD [OF tidy assms(1)]]) (use delete fresh_G in auto)
  then show ?thesis by (simp add: undo_create_def bind_assoc)
qed

lemma wpre_id_available:
  assumes "G E r0 f m"
  shows "wpre (ensure_vm_id_available so vm) (\<lambda>_ m'. G E r0 f m' \<and> rows (mg_store m') vm = None) (\<lambda>_. G E r0 f) m"
  using assms get_row [of "mg_store m" vm]
  by (cases "rows (mg_store m) vm") (simp_all add: ensure_vm_id_available_def wp reg_get_def G_def)

lemma wpre_create_available:
  assumes "G E r0 f m" "rows (mg_store m) vm = None" "vc_vm_id c = vm" and may: "may_create E vm"
  shows "wpre (bind (plan_create w c b) (\<lambda>plan. bind (persist_computer so w c plan) (\<lambda>c'.
        catch (\<lambda>_. True) (create_network so w c' b) (\<lambda>e. bind (undo_create so w vm plan) (\<lambda>_. raise e)))))
    (\<lambda>_. G E r0 f) (\<lambda>_. G E r0 f) m"
  unfolding wpre_bind [of "plan_create w c b"]
proof (rule wpre_calm_mono [OF calm_create(3) assms(1)])
  fix plan m1 assume m1: "G E r0 f m1" "view m1 = view m"
  have undo: "wpre (bind (undo_create so w vm plan) (\<lambda>_. raise e)) Q (\<lambda>_. G E r0 f) m2" if "fresh E r0 f vm m2" for m2 e Q
    unfolding wpre_bind wpre_end by (rule wpre_mono [OF wpre_undo_create [OF that may]]) auto
  have net: "wpre (catch (\<lambda>_. True) (create_network so w c' b) (\<lambda>e. bind (undo_create so w vm plan) (\<lambda>_. raise e)))
      (\<lambda>_. G E r0 f) (\<lambda>_. G E r0 f) m2" if "fresh E r0 f vm m2 \<and> vc_vm_id c' = vm" for c' m2
    unfolding wpre_catch
    by (rule wpre_mono [OF keepsD [OF fresh_network]]) (use that undo in \<open>auto intro: fresh_G\<close>)
  show "wpre (bind (persist_computer so w c plan) (\<lambda>c'.
        catch (\<lambda>_. True) (create_network so w c' b) (\<lambda>e. bind (undo_create so w vm plan) (\<lambda>_. raise e))))
      (\<lambda>_. G E r0 f) (\<lambda>_. G E r0 f) m1"
    unfolding wpre_bind [of "persist_computer so w c plan"]
    by (rule wpre_mono [OF wpre_persist_computer [OF m1(1) _ assms(3) may]]) (use assms(2) view_rows [OF m1(2)] net in auto)
qed auto

lemma effective_create_config_id [simp]: "vc_vm_id (effective_create_config c b) = vc_vm_id c"
  by (simp add: effective_create_config_def Let_def)

text \<open>A name that is taken is refused before anything is done, so the edges matter only for a free one.\<close>

lemma keeps_create_vm:
  assumes may: "r0 (vc_vm_id c) = None \<Longrightarrow> may_create E (vc_vm_id c)" "r0 (vc_vm_id c) \<noteq> None \<Longrightarrow> E (vc_vm_id c) = (\<lambda>_ _. False)"
  shows "keeps (G E r0 f) (create_vm so w c)"
proof -
  have free: "may_create E (vc_vm_id c)" if "G E r0 f m" "rows (mg_store m) (vc_vm_id c) = None" for m
  proof (rule may(1), rule ccontr)
    assume r0: "r0 (vc_vm_id c) \<noteq> None"
    have "(E (vc_vm_id c))\<^sup>*\<^sup>* (r0 (vc_vm_id c)) None" using at_row [OF that(1), of "vc_vm_id c"] that(2) by (simp add: good_at_def)
    then show False using r0 may(2) [OF r0] by (cases rule: rtranclp.cases) auto
  qed
  have "keeps (G E r0 f) (bind (ensure_vm_id_available so (vc_vm_id c)) (\<lambda>_.
      bind (plan_create w (effective_create_config c b) b) (\<lambda>plan. bind (persist_computer so w (effective_create_config c b) plan) (\<lambda>c'.
        catch (\<lambda>_. True) (create_network so w c' b) (\<lambda>e. bind (undo_create so w (vc_vm_id c) plan) (\<lambda>_. raise e))))))" for b
    unfolding keeps_def wpre_bind [of "ensure_vm_id_available so (vc_vm_id c)"]
    by (intro allI impI, rule wpre_mono [OF wpre_id_available]) (use free in \<open>auto intro!: wpre_create_available\<close>)
  then show ?thesis
    unfolding create_vm_def Let_def
    by (intro keeps_bind [OF G_calm [OF calm_backend(1)]] keeps_bind [OF G_calm [OF calm_create(4)]] keeps_bind [OF G_calm [OF calm_outside(2)]])
qed

section \<open>The sweep of dead processes\<close>

lemma wpre_reconcile_rows:
  assumes "G E r0 f m" and may: "\<And>vm. may_fail E vm"
  shows "wpre (bind (on_store (so_reconcile so)) (\<lambda>stale. bind (forget_processes stale) (\<lambda>_. ret stale))) (\<lambda>_. G E r0 f) (\<lambda>_. G E r0 f) m"
proof -
  obtain q st where st: "so_reconcile so (mg_store m) = (q, st)" by fastforce
  have law: "ok st \<and> (case q of Inl _ \<Rightarrow> rows st = rows (mg_store m)
       | Inr vms \<Rightarrow> rows st = (\<lambda>vm. if vm \<in> set vms then map_option stale_info (rows (mg_store m) vm) else rows (mg_store m) vm) \<and>
           (\<forall>vm\<in>set vms. \<exists>r. rows (mg_store m) vm = Some r \<and> is_live_status (vi_status r)))"
    using reconcile_rows [OF _ st] assms(1) by (simp add: G_def)
  show ?thesis
  proof (cases q)
    case (Inl e)
    then show ?thesis using law st G_same_rows [OF assms(1)] by (simp add: wp)
  next
    case (Inr vms)
    let ?m = "m\<lparr>mg_store := st, mg_procs := filter (\<lambda>i. vi_vm_id i \<notin> set vms) (mg_procs m)\<rparr>"
    have "good_at vm (E vm) (r0 vm) (v_rows (view ?m) vm) (v_proxies (view ?m) vm) (v_unrecorded (view ?m) vm) (public_process (view ?m) vm)" for vm
    proof (cases "vm \<in> set vms")
      case True
      then obtain r where r: "rows (mg_store m) vm = Some r" "is_live_status (vi_status r)" using law Inr by auto
      have "\<not> public_process (view ?m) vm" using True by (auto simp: public_process_def)
      then show ?thesis
        using at_row [OF assms(1), of vm] r True law Inr live_unrecorded [OF assms(1) r] may [of vm]
          path_step [of "E vm" "r0 vm" "Some (vi_status r)" "Some VM_ERROR"]
        by (auto simp: good_at_def stale_info_def may_fail_def)
    next
      case False
      then have "public_process (view ?m) vm = public_process (view m) vm" by (auto simp: public_process_def)
      then show ?thesis using at_row [OF assms(1), of vm] False law Inr by simp
    qed
    then have "G E r0 f ?m" using assms(1) law by (simp add: G_def good_def flags_def)
    then show ?thesis using st Inr by (simp add: wp forget_processes_def)
  qed
qed

lemma keeps_reconcile:
  assumes may: "\<And>vm. may_fail E vm"
  shows "keeps (G E r0 f) (reconcile so w)"
proof -
  have "keeps (G E r0 f) (bind (on_store (so_reconcile so)) (\<lambda>stale. bind (forget_processes stale) (\<lambda>_. ret stale)))"
    using wpre_reconcile_rows [OF _ may] by (simp add: keeps_def)
  moreover have "keeps (same v g) (reconcile_forward so w vm)" for v g vm
    unfolding reconcile_forward_def by (intro keep calm)
  then have "keeps (G E r0 f) (bind (for_each (\<lambda>vm. suppress (reconcile_forward so w vm)) stale) (\<lambda>_. ret stale))" for stale
    by (intro keep G_calm)
  ultimately have "keeps (G E r0 f) (bind (bind (on_store (so_reconcile so)) (\<lambda>stale. bind (forget_processes stale) (\<lambda>_. ret stale)))
      (\<lambda>stale. bind (for_each (\<lambda>vm. suppress (reconcile_forward so w vm)) stale) (\<lambda>_. ret stale)))"
    by (rule keeps_bind)
  moreover have "bind (ret x) k = k x" for x :: "string list" and k :: "string list \<Rightarrow> ('s, string list) mop"
    by (simp add: bind_def ret_def)
  ultimately show ?thesis by (simp add: reconcile_def bind_assoc)
qed

section \<open>Sequences of calls\<close>

text \<open>The guarantees hold again from wherever an operation ended.\<close>

lemma good_restart: "good E r0 v \<Longrightarrow> good E' (\<lambda>vm. map_option vi_status (v_rows v vm)) v"
  unfolding good_def good_at_def by blast

lemma keeps_restart:
  assumes "ok (mg_store m)" "good E r0 (view m)" "keeps (GF E' (\<lambda>vm. map_option vi_status (rows (mg_store m) vm))) op"
  shows "ok (mg_store (snd (op m))) \<and> good E' (\<lambda>vm. map_option vi_status (rows (mg_store m) vm)) (view (snd (op m)))"
proof -
  have "good E' (\<lambda>vm. map_option vi_status (rows (mg_store m) vm)) (view m)"
    using good_restart [OF assms(2), of E'] by simp
  then have "GF E' (\<lambda>vm. map_option vi_status (rows (mg_store m) vm)) m" using assms(1) by (simp add: GF_def)
  from keeps_run [OF assms(3) this, of "fst (op m)" "snd (op m)"] show ?thesis by (simp add: GF_def)
qed

lemma status_moved:
  "good E r0 (view m) \<Longrightarrow> (E vm)\<^sup>*\<^sup>* (r0 vm) (map_option vi_status (rows (mg_store m) vm))"
  using goodD [of E r0 "view m" vm] by (simp add: good_at_def)

end

text \<open>The calls that a program makes on a manager.\<close>

datatype mgr_call =
    CreateC vm_config | StartC string | StopC string | PauseC string | ResumeC string | DeleteC string
  | RefreshC string | ReconcileC | CloseC

fun run_call :: "'s vm_store \<Rightarrow> world \<Rightarrow> mgr_call \<Rightarrow> 's manager \<Rightarrow> 's manager" where
  "run_call so w (CreateC c) m = snd (create_vm so w c m)"
| "run_call so w (StartC vm) m = snd (start_vm so w vm m)"
| "run_call so w (StopC vm) m = snd (stop_vm so w vm m)"
| "run_call so w (PauseC vm) m = snd (pause_vm so w vm m)"
| "run_call so w (ResumeC vm) m = snd (resume_vm so w vm m)"
| "run_call so w (DeleteC vm) m = snd (delete_vm so w vm m)"
| "run_call so w (RefreshC vm) m = snd (bind (from_store (\<lambda>st. so_get so st vm)) (refresh_status so w) m)"
| "run_call so w ReconcileC m = snd (reconcile so w m)"
| "run_call so w CloseC m = snd (close_manager so w m)"

definition new_manager :: "'s \<Rightarrow> string \<Rightarrow> 's manager" where
  "new_manager st backend =
     \<lparr>mg_store = st, mg_backend = backend, mg_public_egress = [], mg_unrecorded = [], mg_active = [], mg_close_requested = False,
      mg_closing = False, mg_closed = False, mg_procs = [], mg_net = [], mg_disk = [], mg_clock = 0\<rparr>"

text \<open>A manager on the in-memory state manager; the host and the outside may change from call to call.\<close>

inductive mgr_reachable :: "memory_state manager \<Rightarrow> bool" where
  m_new: "mgr_reachable (new_manager mem_init backend)"
| m_call: "mgr_reachable m \<Longrightarrow> mgr_reachable (run_call (mem_ops env) w c m)"

definition vm_status :: "memory_state manager \<Rightarrow> string \<Rightarrow> vm_state option" where
  "vm_status m vm = map_option vi_status (map_of (ms_vms (mg_store m)) vm)"

text \<open>What a call may do to the status of a computer.\<close>

fun allowed :: "mgr_call \<Rightarrow> string \<Rightarrow> vm_state option \<Rightarrow> vm_state option \<Rightarrow> bool" where
  "allowed (CreateC c) vm s t \<longleftrightarrow> s = t \<or> vm = vc_vm_id c \<and> s = None \<and> t = Some VM_CREATED"
| "allowed (StartC k) vm s t \<longleftrightarrow> s = t \<or> vm = k \<and> s \<in> {Some VM_CREATED, Some VM_STOPPED} \<and> t \<in> {Some VM_RUNNING, Some VM_ERROR}"
| "allowed (StopC k) vm s t \<longleftrightarrow> s = t \<or> vm = k \<and> s \<in> {Some VM_CREATED, Some VM_RUNNING, Some VM_PAUSED} \<and> t = Some VM_STOPPED"
| "allowed (PauseC k) vm s t \<longleftrightarrow> s = t \<or> vm = k \<and> s \<in> {Some VM_RUNNING, Some VM_PAUSED} \<and> t \<in> {Some VM_PAUSED, Some VM_ERROR}"
| "allowed (ResumeC k) vm s t \<longleftrightarrow> s = t \<or> vm = k \<and> s \<in> {Some VM_RUNNING, Some VM_PAUSED} \<and> t \<in> {Some VM_RUNNING, Some VM_ERROR}"
| "allowed (DeleteC k) vm s t \<longleftrightarrow> s = t \<or> vm = k \<and> s \<noteq> None \<and> (t = None \<or> s \<noteq> Some VM_ERROR \<and> t = Some VM_STOPPED)"
| "allowed (RefreshC k) vm s t \<longleftrightarrow> s = t \<or> vm = k \<and> s \<in> {Some VM_RUNNING, Some VM_PAUSED} \<and> t = Some VM_ERROR"
| "allowed ReconcileC vm s t \<longleftrightarrow> s = t \<or> s \<in> {Some VM_RUNNING, Some VM_PAUSED} \<and> t = Some VM_ERROR"
| "allowed CloseC vm s t \<longleftrightarrow> s = t \<or> s \<in> {Some VM_CREATED, Some VM_RUNNING, Some VM_PAUSED} \<and> t = Some VM_STOPPED"

section \<open>The in-memory state manager satisfies the contract\<close>

lemma mem_ops_simps [simp]:
  "so_get (mem_ops env) = mem_get_vm" "so_create (mem_ops env) st c = commit st (mem_create_vm st c)"
  "so_update (mem_ops env) st vm u = commit st (mem_update_vm st vm u)"
  "so_delete (mem_ops env) st vm = commit_unit st (mem_delete_vm st vm)"
  "so_allocate_ip (mem_ops env) st vm tap = commit st (mem_allocate_ip env st vm tap None)"
  "so_update_ip_lease_tap (mem_ops env) st vm tap = (Inr (), mem_update_ip_lease_tap st vm tap)"
  "so_release_ip (mem_ops env) st vm = (Inr (), mem_release_ip st vm)"
  "so_reserve_ssh (mem_ops env) st vm ex = commit st (mem_reserve_ssh_port env st vm None ex)"
  "so_release_ssh (mem_ops env) st vm = (Inr (), mem_release_ssh_port st vm)"
  "so_reserve_vsock (mem_ops env) st vm cid = commit st (mem_reserve_vsock_cid env st vm cid)"
  "so_release_vsock (mem_ops env) st vm = (Inr (), mem_release_vsock_cid st vm)"
  "so_reserve_tap (mem_ops env) st vm mode br req = commit st (mem_reserve_tap_name env st vm mode br req)"
  "so_release_tap (mem_ops env) st vm = (Inr (), mem_release_tap_name st vm)"
  "so_reconcile (mem_ops env) st = (let (ids, st') = mem_reconcile env st in (Inr ids, st'))"
  by (simp_all add: mem_ops_def)

lemma commit_cases:
  assumes "commit st r = (x, st')" "\<And>y st1. r = Inr (y, st1) \<Longrightarrow> P st1" "P st"
  shows "P st'"
  using assms by (cases r) auto

lemma mem_alloc_rows:
  "mem_allocate_ip env st vm tap req = Inr (v, st') \<Longrightarrow> ms_vms st' = ms_vms st"
  "mem_reserve_ssh_port env st vm preq ex = Inr (p, st') \<Longrightarrow> ms_vms st' = ms_vms st"
  "mem_reserve_vsock_cid env st vm preq = Inr (p, st') \<Longrightarrow> ms_vms st' = ms_vms st"
  "mem_reserve_tap_name env st vm mode br req = Inr (v, st') \<Longrightarrow> ms_vms st' = ms_vms st"
  "ms_vms (mem_release_ip st vm) = ms_vms st" "ms_vms (mem_release_ssh_port st vm) = ms_vms st"
  "ms_vms (mem_release_vsock_cid st vm) = ms_vms st" "ms_vms (mem_release_tap_name st vm) = ms_vms st"
  "ms_vms (mem_update_ip_lease_tap st vm tap) = ms_vms st"
  by (auto simp: mem_release_defs release_claim_def mem_update_ip_lease_tap_def split: option.split
      elim: mem_allocate_ip_Inr mem_reserve_ssh_port_Inr mem_reserve_vsock_cid_Inr mem_reserve_tap_name_Inr)

lemma mem_reconcile_rows:
  assumes "keys_distinct (ms_vms st)" "mem_reconcile env st = (stale, st')"
  shows "keys_distinct (ms_vms st') \<and>
    map_of (ms_vms st') = (\<lambda>vm. if vm \<in> set stale then map_option stale_info (map_of (ms_vms st) vm) else map_of (ms_vms st) vm) \<and>
    (\<forall>vm\<in>set stale. \<exists>r. map_of (ms_vms st) vm = Some r \<and> is_live_status (vi_status r))"
proof -
  have "\<exists>r. map_of (ms_vms st) vm = Some r \<and> is_live_status (vi_status r)" if "vm \<in> set stale" for vm
    using assms that by (force simp: mem_reconcile_def Let_def mem_stale_vms_def)
  then show ?thesis using mem_reconcile_state [OF assms(2)] assms(1) by (metis (no_types, lifting) memory_state.select_convs(2) memory_state.update_convs(2) memory_state.surjective)
qed

lemma mem_rows_step:
  assumes "keys_distinct (ms_vms st)"
  shows "commit st (mem_create_vm st c) = (r, st') \<Longrightarrow> keys_distinct (ms_vms st')"
    "commit st (mem_update_vm st vm u) = (r, st') \<Longrightarrow> keys_distinct (ms_vms st')"
    "commit_unit st (mem_delete_vm st vm) = (q, st') \<Longrightarrow> keys_distinct (ms_vms st')"
  using assms
  by (auto simp: mem_create_vm_def mem_update_vm_def mem_get_vm_def mem_delete_vm_def release_claim_def Let_def
      split: if_splits option.splits)

lemmas mem_row_laws =
  mem_reg.create_refines [OF TrueI TrueI, THEN conjunct2]
  mem_reg.update_refines [OF TrueI TrueI TrueI, THEN conjunct2]
  mem_reg.delete_refines [OF TrueI TrueI, THEN conjunct2]

interpretation mem_rows: vm_rows "mem_ops env" "\<lambda>st. keys_distinct (ms_vms st)" "\<lambda>st. map_of (ms_vms st)" for env
proof unfold_locales
  fix st vm show "so_get (mem_ops env) st vm = reg_get (map_of (ms_vms st)) vm"
    by (simp add: mem_get_vm_def reg_get_def split: option.split)
next
  fix st :: memory_state and ids st'
  assume "keys_distinct (ms_vms st)" "so_reconcile (mem_ops env) st = (ids, st')"
  then show "keys_distinct (ms_vms st') \<and> (case ids of Inl _ \<Rightarrow> map_of (ms_vms st') = map_of (ms_vms st)
       | Inr vms \<Rightarrow> map_of (ms_vms st') = (\<lambda>vm. if vm \<in> set vms then map_option stale_info (map_of (ms_vms st) vm) else map_of (ms_vms st) vm) \<and>
           (\<forall>vm\<in>set vms. \<exists>r. map_of (ms_vms st) vm = Some r \<and> is_live_status (vi_status r)))"
    using mem_reconcile_rows [of st env] by (cases "mem_reconcile env st") auto
qed (auto dest: mem_rows_step mem_row_laws elim: commit_cases simp: mem_alloc_rows)

section \<open>The guarantees of a manager\<close>

text \<open>The edges that the guarantees are proved with.\<close>

fun call_edges :: "mgr_call \<Rightarrow> (string \<Rightarrow> vm_state option) \<Rightarrow> edges" where
  "call_edges (CreateC c) r0 vm s t \<longleftrightarrow> vm = vc_vm_id c \<and> r0 vm = None \<and> {s, t} = {None, Some VM_CREATED}"
| "call_edges c r0 vm s t \<longleftrightarrow> allowed c vm s t \<and> s \<noteq> t"

lemma call_edges_allowed:
  assumes "(call_edges c r0 vm)\<^sup>*\<^sup>* (r0 vm) t"
  shows "allowed c vm (r0 vm) t"
  using assms
proof (induction rule: rtranclp_induct)
  case base
  then show ?case by (cases c) simp_all
next
  case (step s t)
  then show ?case
    by (cases c) (auto simp: doubleton_eq_iff split: if_splits)
qed

lemma live_statuses: "is_live_status s \<longleftrightarrow> s = VM_RUNNING \<or> s = VM_PAUSED"
  by (cases s) (simp_all add: is_live_status_def)

lemma call_edges_may:
  "r0 (vc_vm_id c) = None \<Longrightarrow> may_create (call_edges (CreateC c) r0) (vc_vm_id c)"
  "r0 (vc_vm_id c) \<noteq> None \<Longrightarrow> call_edges (CreateC c) r0 (vc_vm_id c) = (\<lambda>_ _. False)"
  "may_start (call_edges (StartC vm) r0) vm" "may_stop (call_edges (StopC vm) r0) vm"
  "may_fail (call_edges (PauseC vm) r0) vm" "may_toggle (call_edges (PauseC vm) r0) vm VM_PAUSED"
  "may_fail (call_edges (ResumeC vm) r0) vm" "may_toggle (call_edges (ResumeC vm) r0) vm VM_RUNNING"
  "may_stop (call_edges (DeleteC vm) r0) vm" "may_delete (call_edges (DeleteC vm) r0) vm"
  "may_fail (call_edges (RefreshC vm) r0) vm" "may_fail (call_edges ReconcileC r0) k" "may_stop (call_edges CloseC r0) k"
proof -
  have "s \<noteq> VM_ERROR \<Longrightarrow> s \<noteq> VM_STOPPED \<Longrightarrow> s = VM_CREATED \<or> s = VM_RUNNING \<or> s = VM_PAUSED" for s by (cases s) simp_all
  then show "may_stop (call_edges (StopC vm) r0) vm" "may_stop (call_edges (DeleteC vm) r0) vm" "may_stop (call_edges CloseC r0) k"
    by (auto simp: may_stop_def)
qed (auto simp: may_create_def may_start_def may_toggle_def may_fail_def may_delete_def live_statuses fun_eq_iff)

lemma keeps_call:
  "keeps (mem_rows.GF (call_edges (CreateC cfg) r0) r0) (create_vm (mem_ops env) w cfg)"
  "keeps (mem_rows.GF (call_edges (StartC vm) r0) r0) (start_vm (mem_ops env) w vm)"
  "keeps (mem_rows.GF (call_edges (StopC vm) r0) r0) (stop_vm (mem_ops env) w vm)"
  "keeps (mem_rows.GF (call_edges (PauseC vm) r0) r0) (pause_vm (mem_ops env) w vm)"
  "keeps (mem_rows.GF (call_edges (ResumeC vm) r0) r0) (resume_vm (mem_ops env) w vm)"
  "keeps (mem_rows.GF (call_edges (DeleteC vm) r0) r0) (delete_vm (mem_ops env) w vm)"
  unfolding start_vm_def stop_vm_def delete_vm_def validate_cleanup_id_def
  by (intro mem_rows.keeps_GF mem_rows.keeps_create_vm keeps_bind [OF keeps_basic(5)] mem_rows.keeps_guard
      mem_rows.keeps_start_claimed mem_rows.keeps_stop_claimed mem_rows.keeps_pause_vm mem_rows.keeps_resume_vm
      mem_rows.keeps_delete_claimed mem_rows.keeps_get mem_rows.wpre_refresh_status mem_rows.keeps_reconcile
      mem_rows.keeps_close_manager call_edges_may; assumption)+

lemma keeps_sweep:
  "keeps (mem_rows.GF (call_edges (RefreshC vm) r0) r0) (bind (from_store (\<lambda>st. so_get (mem_ops env) st vm)) (refresh_status (mem_ops env) w))"
  "keeps (mem_rows.GF (call_edges ReconcileC r0) r0) (reconcile (mem_ops env) w)"
  "keeps (mem_rows.GF (call_edges CloseC r0) r0) (close_manager (mem_ops env) w)"
proof -
  show "keeps (mem_rows.GF (call_edges (RefreshC vm) r0) r0) (bind (from_store (\<lambda>st. so_get (mem_ops env) st vm)) (refresh_status (mem_ops env) w))"
    by (rule mem_rows.keeps_GF, rule mem_rows.keeps_get, rule mem_rows.wpre_refresh_status [OF _ _ call_edges_may(11)])
  show "keeps (mem_rows.GF (call_edges ReconcileC r0) r0) (reconcile (mem_ops env) w)"
    by (rule mem_rows.keeps_GF, rule mem_rows.keeps_reconcile, rule call_edges_may)
  show "keeps (mem_rows.GF (call_edges CloseC r0) r0) (close_manager (mem_ops env) w)"
    by (rule mem_rows.keeps_close_manager, rule call_edges_may)
qed

end
