(* ===== verification/Manager_Props.thy ===== *)
theory Manager_Props
  imports Manager_Guarantees
begin

text \<open>
  The properties of the manager of computers, for a manager that runs on the in-memory state manager.
\<close>

section \<open>A host to run on\<close>

text \<open>A Linux machine on which every command succeeds and every port is free.\<close>

definition calm_world :: world where
  "calm_world =
     \<lparr>w_host = linux_laptop, w_start = (\<lambda>_ _. Inr (4711, Some ''qmp-a.sock'', None)), w_stop = (\<lambda>_ _. Inr ()),
      w_pause = (\<lambda>_ _. Inr ()), w_resume = (\<lambda>_ _. Inr ()), w_alive = (\<lambda>_ _. True), w_port_free = (\<lambda>_ _ _. True),
      w_egress = (\<lambda>_. demo_egress_env\<lparr>ee_endpoint := Some (''127.0.0.1'', 40000)\<rparr>), w_net = (\<lambda>_ _. Inr ()), w_tap_index = (\<lambda>_ _. True),
      w_bridge_ok = (\<lambda>_ _. True), w_live_cids = (\<lambda>_. []), w_fs = (\<lambda>_ _. PATH_MISSING),
      w_resolve_domains = (\<lambda>_ _. Inr []), w_delete_bundle = (\<lambda>_ _. Inr ()), w_cleanup_artifacts = (\<lambda>_ _ _ _. Inr ()),
      w_unlink_socket = (\<lambda>_ _. Inr ()), w_create_lock = (\<lambda>_ _. Inr ()), w_disk_size = (\<lambda>_ _. Inr 0), w_disk = (\<lambda>_ _. Inr ()),
      w_urandom = (\<lambda>_. [1, 2, 3, 4, 5]), w_host_ip = ''172.16.0.1'', w_socket_dir = ''/tmp'', w_data_dir = ''/var/celesto''\<rparr>"

definition public_config :: "string \<Rightarrow> vm_config" where
  "public_config vm = (demo_config vm)\<lparr>vc_comm_channel := Some COMM_SSH, vc_internet_settings :=
     Some \<lparr>is_mode = Some NET_PUBLIC, is_allowed_cidrs = [], is_allowed_domains = [''*''], is_allowed_http_methods = [''*'']\<rparr>\<rparr>"

definition public_running :: "memory_state manager" where
  "public_running = run_call (mem_ops plain_host) calm_world (StartC ''a'')
     (run_call (mem_ops plain_host) calm_world (CreateC (public_config ''a'')) (new_manager mem_init ''qemu''))"

section \<open>Running the model\<close>

lemmas run_ops [run] =
  fun_cong [OF suppress_def] fun_cong [OF ask_def] fun_cong [OF attempt_def] fun_cong [OF on_store_def] fun_cong [OF from_store_def]
  fun_cong [OF network_def] fun_cong [OF adapter_start_def] fun_cong [OF forget_processes_def] fun_cong [OF adapter_stop_def]
  fun_cong [OF on_session_def] fun_cong [OF backend_for_config_def] fun_cong [OF backend_for_vm_def]
  fun_cong [OF runtime_adapter_for_backend_def] fun_cong [OF runtime_adapter_for_vm_def]
  fun_cong [OF resolve_control_channel_for_config_def] fun_cong [OF validate_network_policy_def] fun_cong [OF stop_public_egress_def]
  fun_cong [OF prepare_public_egress_def] fun_cong [OF ensure_network_connectivity_def] fun_cong [OF check_workspace_mounts_def]
  fun_cong [OF check_qemu_slirp_host_forward_ports_def] fun_cong [OF start_checks_def] fun_cong [OF launch_computer_def]
  fun_cong [OF start_claimed_def] fun_cong [OF stop_claimed_def] fun_cong [OF vm_operation_guard_def] fun_cong [OF claim_operation_def] fun_cong [OF release_operation_def] fun_cong [OF start_vm_def]
  fun_cong [OF stop_vm_def] fun_cong [OF pause_vm_def] fun_cong [OF refresh_status_def] fun_cong [OF reserve_available_ssh_port_def]
  fun_cong [OF ssh_port_loop.simps(2)] fun_cong [OF maybe_enable_vsock_def] fun_cong [OF create_checks_def]
  fun_cong [OF ensure_vm_id_available_def] fun_cong [OF disk_step_def] fun_cong [OF disk_try_def] fun_cong [OF path_exists_def]
  fun_cong [OF optional_exists_def] fun_cong [OF materialize_rootfs_def] fun_cong [OF resize_materialized_rootfs_def] fun_cong [OF materialize_firmware_def]
  fun_cong [OF plan_create_def] fun_cong [OF persist_computer_def] fun_cong [OF create_usernet_def] fun_cong [OF create_network_def]
  fun_cong [OF create_vm_def]

section \<open>Reachable managers\<close>

lemma call_step:
  assumes m: "keys_distinct (ms_vms (mg_store m))" "good E r0 (mem_rows.view m)"
  shows "keys_distinct (ms_vms (mg_store (run_call (mem_ops env) w c m))) \<and>
    good (call_edges c (vm_status m)) (vm_status m) (mem_rows.view (run_call (mem_ops env) w c m))"
proof -
  have s: "(\<lambda>vm. map_option vi_status (map_of (ms_vms (mg_store m)) vm)) = vm_status m"
    by (simp add: vm_status_def fun_eq_iff)
  note step = mem_rows.keeps_restart [OF m, unfolded s]
  show ?thesis
    by (cases c; simp only: run_call.simps)
       (rule step [OF keeps_call(1)] step [OF keeps_call(2)] step [OF keeps_call(3)] step [OF keeps_call(4)]
          step [OF keeps_call(5)] step [OF keeps_call(6)] step [OF keeps_sweep(1)] step [OF keeps_sweep(2)] step [OF keeps_sweep(3)])+
qed

lemma reachable_good:
  assumes "mgr_reachable m"
  shows "keys_distinct (ms_vms (mg_store m)) \<and> (\<exists>E r0. good E r0 (mem_rows.view m))"
  using assms
proof (induction rule: mgr_reachable.induct)
  case (m_new backend)
  have "good (\<lambda>_ _ _. False) (\<lambda>_. None) (mem_rows.view (new_manager mem_init backend))"
    by (simp add: good_def good_at_def mem_rows.view_def new_manager_def mem_init_def public_process_def)
  then show ?case by (auto simp: new_manager_def mem_init_def)
next
  case (m_call m env w c)
  then show ?case using call_step by meson
qed

lemma call_good:
  assumes "mgr_reachable m"
  shows "good (call_edges c (vm_status m)) (vm_status m) (mem_rows.view (run_call (mem_ops env) w c m))"
  using reachable_good [OF assms] call_step by meson



lemma public_running_reachable: "mgr_reachable public_running"
  unfolding public_running_def by (intro m_call m_new)

section \<open>A run\<close>

named_theorems demo \<open>the example host and computer\<close>

lemma calm_world_fields [demo]:
  "w_host calm_world = linux_laptop" "w_start calm_world = (\<lambda>_ _. Inr (4711, Some ''qmp-a.sock'', None))"
  "w_stop calm_world = (\<lambda>_ _. Inr ())" "w_port_free calm_world = (\<lambda>_ _ _. True)" "w_fs calm_world = (\<lambda>_ _. PATH_MISSING)"
  "w_create_lock calm_world = (\<lambda>_ _. Inr ())" "w_disk calm_world = (\<lambda>_ _. Inr ())" "w_data_dir calm_world = ''/var/celesto''"
  "w_egress calm_world = (\<lambda>_. demo_egress_env\<lparr>ee_endpoint := Some (''127.0.0.1'', 40000)\<rparr>)"
  "he_has_fcntl plain_host = False"
  by (simp_all add: calm_world_def plain_host_def)

definition public_settings :: internet_settings where
  "public_settings = \<lparr>is_mode = Some NET_PUBLIC, is_allowed_cidrs = [], is_allowed_domains = [''*''], is_allowed_http_methods = [''*'']\<rparr>"

lemma public_config_fields [demo]:
  "vc_vm_id (public_config vm) = vm" "vc_guest_os (public_config vm) = ALPINE" "vc_backend (public_config vm) = None"
  "vc_macos_machine (public_config vm) = None" "vc_rootfs_path (public_config vm) = Some ''rootfs.ext4''"
  "vc_rootfs_format (public_config vm) = None" "vc_qemu_network (public_config vm) = QN_SLIRP" "vc_disk_mode (public_config vm) = DISK_ISOLATED"
  "vc_disk_size_mib (public_config vm) = None" "vc_grow_filesystem (public_config vm) = False" "vc_port_forwards (public_config vm) = []"
  "vc_vsock (public_config vm) = None" "vc_comm_channel (public_config vm) = Some COMM_SSH" "vc_workspace_mounts (public_config vm) = []"
  "vc_internet_settings (public_config vm) = Some public_settings"
  "na_mode (vc_network_attachment (public_config vm)) = MODE_NAT"
  by (simp_all add: public_config_def demo_config_def public_settings_def)

lemma public_facts [demo]:
  "resolve_backend_for_guest linux_laptop (Some ''qemu'') ALPINE = Inr ''qemu''"
  "resolve_comm_channel linux_laptop None (Some COMM_SSH) (Some ''qemu'') (Some ALPINE) None = Inr COMM_SSH"
  "validate_network_policy_options linux_laptop public_settings ''qemu'' ALPINE (Some COMM_SSH) False False MODE_NAT QN_SLIRP = Inr ()"
  "parse_network_policy public_settings = Inr public_settings" "has_explicit_restrictions public_settings" "is_mode public_settings = Some NET_PUBLIC"
  "infer_rootfs_format_from_path ''rootfs.ext4'' = RAW_EXT4" "qemu_disk_format_for_rootfs_format RAW_EXT4 = QDF_RAW"
  "generate_mac 2201 = Inr ''AA:FC:00:00:08:99''"
  by code_simp+

lemma ssh_pool_size_pos [demo]: "0 < ssh_pool_size"
  by (simp add: ssh_pool_size_def pool_bounds)

lemmas pure_steps =
  effective_create_config_def is_bridge_attachment_def managed_disk_path_for_create_def instance_disk_path_def
  materialized_rootfs_format_def qemu_materialized_rootfs_format_def effective_rootfs_format_def qemu_rootfs_format_def
  should_reserve_ssh_forward_def uses_host_tap_networking_def usernet_addresses_def has_restrictions_def is_public_def
  validate_network_config_def fill_nat_defaults_def check_nat_bridge_consistency_def
  created_vm_info_def apply_vm_update_def no_update_def overwrite_def overwrite_opt_def overwrite_or_clear_def
  new_manager_def mem_init_def mem_create_vm_def mem_get_vm_def mem_update_vm_def mem_reserve_ssh_port_def mem_try_ssh_port_def try_claim_def
  pool_bounds scan_range.simps [of _ 2200] Let_def

definition public_network :: network_config where
  "public_network = \<lparr>nc_guest_ip = Some ''10.0.2.15'', nc_gateway_ip = Some ''10.0.2.2'', nc_netmask = Some ''255.255.255.0'', nc_tap_device = ''usernet'',
     nc_guest_mac = ''AA:FC:00:00:08:99'', nc_ssh_host_port = Some 2200, nc_egress_proxy_host_port = None, nc_mode = MODE_NAT, nc_bridge = None\<rparr>"

definition public_info :: vm_info where
  "public_info = \<lparr>vi_vm_id = ''a'', vi_status = VM_CREATED, vi_config = (public_config ''a'')\<lparr>vc_backend := Some ''qemu'',
       vc_rootfs_path := Some ''/var/celesto/disks/a.qcow2'', vc_rootfs_format := Some QCOW2\<rparr>,
     vi_network = Some public_network, vi_pid = None, vi_control_socket_path = None, vi_vsock_uds_path = None, vi_display = None\<rparr>"

definition public_created :: "memory_state manager" where
  "public_created = (new_manager (mem_init\<lparr>ms_vms := [(''a'', public_info)], ms_ssh_ports := [(''a'', 2200)]\<rparr>) ''qemu'')
     \<lparr>mg_disk := [OVERLAY_DISK ''rootfs.ext4'' ''/var/celesto/disks/a.qcow2'' QDF_RAW, CLEAR_MARKER ''/var/celesto/disks/a.qcow2''],
      mg_clock := 7\<rparr>"

lemma create_run:
  "create_vm (mem_ops plain_host) calm_world (public_config ''a'') (new_manager mem_init ''qemu'') = (Inr public_info, public_created)"
  by (simp add: run demo pure_steps public_info_def public_network_def public_created_def cong: run_cong)

definition public_session :: egress_session where
  "public_session = \<lparr>es_session_id = ''a'', es_guest_network = QEMU_SLIRP_NET, es_base_network = public_network, es_state = ES_STOPPED,
     es_proxy = None, es_active_network = None, es_policy_installed = False, es_open = [], es_made = 0, es_log = []\<rparr>"

definition proxied_session :: egress_session where
  "proxied_session = public_session\<lparr>es_state := ES_READY, es_proxy := Some 0,
     es_active_network := Some (public_network\<lparr>nc_egress_proxy_host_port := Some 40000\<rparr>), es_open := [0], es_made := 1,
     es_log := [(ES_STARTING, None), (ES_READY, None)]\<rparr>"

lemma session_facts [demo]:
  "new_session ''a'' QEMU_SLIRP_NET public_network = Inr public_session"
  "prepare_session (demo_egress_env\<lparr>ee_endpoint := Some (''127.0.0.1'', 40000)\<rparr>) public_session =
     (Inr (public_network\<lparr>nc_egress_proxy_host_port := Some 40000\<rparr>), proxied_session)"
  by code_simp+

definition launched_info :: vm_info where
  "launched_info = public_info\<lparr>vi_network := Some (public_network\<lparr>nc_egress_proxy_host_port := Some 40000\<rparr>)\<rparr>"

lemma public_info_fields [demo]:
  "vi_vm_id public_info = ''a''" "vi_status public_info = VM_CREATED" "vi_network public_info = Some public_network"
  "vi_config public_info = (public_config ''a'')\<lparr>vc_backend := Some ''qemu'',
     vc_rootfs_path := Some ''/var/celesto/disks/a.qcow2'', vc_rootfs_format := Some QCOW2\<rparr>"
  "nc_mode public_network = MODE_NAT" "nc_ssh_host_port public_network = Some 2200"
  "vi_pid public_info = None" "vi_control_socket_path public_info = None" "vi_display public_info = None"
  by (simp_all add: public_info_def public_network_def)

lemma start_run:
  "start_vm (mem_ops plain_host) calm_world ''a'' public_created =
     (Inr (launched_info\<lparr>vi_status := VM_RUNNING, vi_pid := Some 4711, vi_control_socket_path := Some ''qmp-a.sock''\<rparr>),
      public_created\<lparr>mg_store := mem_init\<lparr>ms_vms := [(''a'', launched_info\<lparr>vi_status := VM_RUNNING, vi_pid := Some 4711,
          vi_control_socket_path := Some ''qmp-a.sock''\<rparr>)], ms_ssh_ports := [(''a'', 2200)]\<rparr>,
        mg_public_egress := [(''a'', proxied_session)], mg_procs := [launched_info], mg_clock := 11\<rparr>)"
  by (simp add: run demo pure_steps public_created_def launched_info_def launch_update_def is_live_status_def cong: run_cong)

lemma public_running_eq: "public_running = snd (start_vm (mem_ops plain_host) calm_world ''a'' public_created)"
  by (simp add: public_running_def create_run)



end
