(* ===== verification/Manager_Pools.thy ===== *)
theory Manager_Pools
  imports Manager_Props
begin

text \<open>
  The searches of the manager for a port and for a context identifier that are free in the state manager and on the
  host. What the searches rely on is a locale; they are proved from its laws and the in-memory state manager satisfies them.
\<close>

section \<open>Searching a port\<close>

locale ssh_pool =
  fixes so :: "'s vm_store" and ports :: "'s \<Rightarrow> string \<Rightarrow> int option"
  assumes reserve_grants: "so_reserve_ssh so st vm ex = (Inr p, st') \<Longrightarrow>
      ports st' = (ports st)(vm \<mapsto> p) \<and> (ports st vm = None \<longrightarrow> p \<notin> set ex \<and> p \<notin> ran (ports st))"
    and reserve_keeps: "so_reserve_ssh so st vm ex = (Inr p, st') \<Longrightarrow> ports st vm = Some q \<Longrightarrow> p = q"
    and reserve_fails: "so_reserve_ssh so st vm ex = (Inl e, st') \<Longrightarrow> st' = st \<and> (is_network_error e \<or> is_os_error e)"
    and release_frees: "\<exists>st'. so_release_ssh so st vm = (Inr (), st') \<and> ports st' = (ports st)(vm := None)"
begin

text \<open>
  The state after a search that began with \<open>m\<close> and had \<open>n\<close> ports left to try: nobody else's port changed, and at most \<open>n\<close> ports were probed.
\<close>

definition searched :: "string \<Rightarrow> nat \<Rightarrow> 's manager \<Rightarrow> 's manager \<Rightarrow> bool" where
  "searched vm n m m' \<longleftrightarrow> (\<forall>k. k \<noteq> vm \<longrightarrow> ports (mg_store m') k = ports (mg_store m) k) \<and>
     mg_clock m \<le> mg_clock m' \<and> mg_clock m' \<le> mg_clock m + n"

lemma searched_step:
  "searched vm n m1 m' \<Longrightarrow> mg_clock m1 = Suc (mg_clock m) \<Longrightarrow> (\<And>k. k \<noteq> vm \<Longrightarrow> ports (mg_store m1) k = ports (mg_store m) k) \<Longrightarrow>
   searched vm (Suc n) m m'"
  by (auto simp: searched_def)

lemma wpre_ssh_port_loop:
  assumes "ex = [] \<or> ports (mg_store m) vm = None" "length ex \<le> ssh_pool_size" "ssh_pool_size - length ex < fuel"
  shows "wpre (ssh_port_loop so w vm fuel ex)
    (\<lambda>found m'. searched vm (ssh_pool_size - length ex) m m' \<and>
       (\<exists>p t. found = Some p \<and> ports (mg_store m') vm = Some p \<and> mg_clock m \<le> t \<and> w_port_free w t ''127.0.0.1'' p))
    (\<lambda>e m'. searched vm (ssh_pool_size - length ex) m m' \<and> (is_network_error e \<or> is_os_error e) \<and>
       (mg_store m' = mg_store m \<or> ports (mg_store m') vm = None)) m"
  using assms
proof (induction fuel arbitrary: ex m)
  case 0
  then show ?case by simp
next
  case (Suc fuel)
  show ?case
  proof (cases "length ex < ssh_pool_size")
    case False
    then show ?thesis by (simp add: wp searched_def)
  next
    case True
    obtain q st where st: "so_reserve_ssh so (mg_store m) vm ex = (q, st)" by fastforce
    show ?thesis
    proof (cases q)
      case (Inl e)
      then show ?thesis using True st reserve_fails [of "mg_store m" vm ex e st] by (auto simp: wp searched_def)
    next
      case (Inr p)
      then have grant: "ports st = (ports (mg_store m))(vm \<mapsto> p)" "ports (mg_store m) vm = None \<longrightarrow> p \<notin> set ex"
        using reserve_grants st by blast+
      obtain st2 where st2: "so_release_ssh so st vm = (Inr (), st2)" "ports st2 = (ports st)(vm := None)"
        using release_frees by blast
      let ?m = "m\<lparr>mg_clock := Suc (mg_clock m), mg_store := st2\<rparr>"
      have new: "length (List.insert p ex) = Suc (length ex)"
        using grant(2) Suc.prems(1) by (auto simp: List.insert_def)
      have "wpre (ssh_port_loop so w vm fuel (List.insert p ex))
        (\<lambda>found m'. searched vm (ssh_pool_size - length (List.insert p ex)) ?m m' \<and>
           (\<exists>p t. found = Some p \<and> ports (mg_store m') vm = Some p \<and> mg_clock ?m \<le> t \<and> w_port_free w t ''127.0.0.1'' p))
        (\<lambda>e m'. searched vm (ssh_pool_size - length (List.insert p ex)) ?m m' \<and> (is_network_error e \<or> is_os_error e) \<and>
           (mg_store m' = mg_store ?m \<or> ports (mg_store m') vm = None)) ?m"
        by (rule Suc.IH) (use new True Suc.prems(3) st2 in auto)
      then have rest: "wpre (ssh_port_loop so w vm fuel (List.insert p ex))
        (\<lambda>found m'. searched vm (ssh_pool_size - length ex) m m' \<and>
           (\<exists>p t. found = Some p \<and> ports (mg_store m') vm = Some p \<and> mg_clock m \<le> t \<and> w_port_free w t ''127.0.0.1'' p))
        (\<lambda>e m'. searched vm (ssh_pool_size - length ex) m m' \<and> (is_network_error e \<or> is_os_error e) \<and>
           (mg_store m' = mg_store m \<or> ports (mg_store m') vm = None)) ?m"
      proof (rule wpre_mono)
        have left: "ssh_pool_size - length ex = Suc (ssh_pool_size - length (List.insert p ex))" using new True by simp
        fix found m'
        assume *: "searched vm (ssh_pool_size - length (List.insert p ex)) ?m m' \<and>
           (\<exists>p t. found = Some p \<and> ports (mg_store m') vm = Some p \<and> mg_clock ?m \<le> t \<and> w_port_free w t ''127.0.0.1'' p)"
        have "searched vm (ssh_pool_size - length ex) m m'"
          unfolding left by (rule searched_step [of _ _ ?m]) (use * st2 grant in auto)
        then show "searched vm (ssh_pool_size - length ex) m m' \<and>
           (\<exists>p t. found = Some p \<and> ports (mg_store m') vm = Some p \<and> mg_clock m \<le> t \<and> w_port_free w t ''127.0.0.1'' p)"
          using * by (auto intro: Suc_leD)
      next
        have left: "ssh_pool_size - length ex = Suc (ssh_pool_size - length (List.insert p ex))" using new True by simp
        fix e m'
        assume *: "searched vm (ssh_pool_size - length (List.insert p ex)) ?m m' \<and> (is_network_error e \<or> is_os_error e) \<and>
           (mg_store m' = mg_store ?m \<or> ports (mg_store m') vm = None)"
        have "searched vm (ssh_pool_size - length ex) m m'"
          unfolding left by (rule searched_step [of _ _ ?m]) (use * st2 grant in auto)
        then show "searched vm (ssh_pool_size - length ex) m m' \<and> (is_network_error e \<or> is_os_error e) \<and>
           (mg_store m' = mg_store m \<or> ports (mg_store m') vm = None)"
          using * st2(2) by auto
      qed
      show ?thesis
      proof (cases "w_port_free w (mg_clock m) ''127.0.0.1'' p")
        case free: True
        have "searched vm (ssh_pool_size - length ex) m (m\<lparr>mg_store := st, mg_clock := Suc (mg_clock m)\<rparr>)"
          using True grant(1) by (simp add: searched_def)
        then show ?thesis using True st Inr free grant(1) by (auto simp: wp)
      next
        case busy: False
        then show ?thesis using True st Inr st2(1) rest by (simp add: wp)
      qed
    qed
  qed
qed

lemma wpre_reserve_available:
  "wpre (reserve_available_ssh_port so w vm)
    (\<lambda>p m'. searched vm ssh_pool_size m m' \<and> ports (mg_store m') vm = Some p \<and>
       (\<exists>t. mg_clock m \<le> t \<and> w_port_free w t ''127.0.0.1'' p))
    (\<lambda>e m'. searched vm ssh_pool_size m m' \<and> (is_network_error e \<or> is_os_error e) \<and>
       (mg_store m' = mg_store m \<or> ports (mg_store m') vm = None)) m"
proof -
  have "wpre (ssh_port_loop so w vm (ssh_pool_size + 1) [])
    (\<lambda>found m'. searched vm (ssh_pool_size - length ([] :: int list)) m m' \<and>
       (\<exists>p t. found = Some p \<and> ports (mg_store m') vm = Some p \<and> mg_clock m \<le> t \<and> w_port_free w t ''127.0.0.1'' p))
    (\<lambda>e m'. searched vm (ssh_pool_size - length ([] :: int list)) m m' \<and> (is_network_error e \<or> is_os_error e) \<and>
       (mg_store m' = mg_store m \<or> ports (mg_store m') vm = None)) m"
    by (rule wpre_ssh_port_loop) auto
  then show ?thesis
    unfolding reserve_available_ssh_port_def wpre_bind by (rule wpre_mono) (auto simp: wp)
qed

end

lemma try_claim_fault: "try_claim env st kind vm v = Inl e \<Longrightarrow> is_os_error e"
  by (auto simp: try_claim_def is_os_error_def split: if_splits lock_outcome.splits)

lemma mem_ssh_fault:
  assumes "mem_reserve_ssh_port env st vm None ex = Inl e"
  shows "is_network_error e \<or> is_os_error e"
proof (cases "map_of (ms_ssh_ports st) vm")
  case (Some p)
  then show ?thesis using assms by (simp add: mem_reserve_ssh_port_def)
next
  case None
  then consider c where "mem_try_ssh_port env st vm ex c = Inl e" | "e = NetworkError ''no SSH host ports available''"
    using assms by (auto simp: mem_reserve_ssh_port_def result_iff split: option.splits dest!: scan_range_Inl_D)
  then show ?thesis
    by cases (auto simp: mem_try_ssh_port_def result_iff split: if_splits dest: try_claim_fault)
qed

interpretation mem_ports: ssh_pool "mem_ops env" "\<lambda>st. map_of (ms_ssh_ports st)" for env
proof unfold_locales
  fix st vm ex p st'
  assume r: "so_reserve_ssh (mem_ops env) st vm ex = (Inr p, st')"
  then have r': "mem_reserve_ssh_port env st vm None ex = Inr (p, st')"
    by (cases "mem_reserve_ssh_port env st vm None ex") auto
  show "map_of (ms_ssh_ports st') = (map_of (ms_ssh_ports st))(vm \<mapsto> p) \<and>
      (map_of (ms_ssh_ports st) vm = None \<longrightarrow> p \<notin> set ex \<and> p \<notin> ran (map_of (ms_ssh_ports st)))"
    using r' ran_map_of_values [of "ms_ssh_ports st"] by (cases rule: mem_reserve_ssh_port_Inr) auto
  show "p = q" if "map_of (ms_ssh_ports st) vm = Some q" for q
    using r' that by (cases rule: mem_reserve_ssh_port_Inr) auto
next
  fix st vm ex e st'
  assume "so_reserve_ssh (mem_ops env) st vm ex = (Inl e, st')"
  then show "st' = st \<and> (is_network_error e \<or> is_os_error e)"
    using mem_ssh_fault by (cases "mem_reserve_ssh_port env st vm None ex") auto
qed (simp add: mem_release_ssh_port_def release_claim_def)

text \<open>
  \<^bold>\<open>C19\<close> The search for a port ends. It probes at most as many ports as the pool has and returns one that the manager
  reserved for the computer and that was free on the host when it was probed; when it fails, it fails with an error of the state manager or
  with the message that no port is left, and the computer holds no port that it did not hold before. The fuel of the model is never used up.
\<close>

theorem ssh_port_search_ends:
  assumes "reserve_available_ssh_port (mem_ops env) w vm m = (r, m')"
  shows "mg_clock m' \<le> mg_clock m + ssh_pool_size \<and>
    (\<forall>k. k \<noteq> vm \<longrightarrow> mem_get_ssh_port (mg_store m') k = mem_get_ssh_port (mg_store m) k) \<and>
    (case r of
       Inr p \<Rightarrow> mem_get_ssh_port (mg_store m') vm = Some p \<and> (\<exists>t\<ge>mg_clock m. w_port_free w t ''127.0.0.1'' p)
     | Inl e \<Rightarrow> (is_network_error e \<or> is_os_error e) \<and> (mg_store m' = mg_store m \<or> mem_get_ssh_port (mg_store m') vm = None))"
  using wpre_D [OF mem_ports.wpre_reserve_available assms]
  by (auto simp: mem_ports.searched_def mem_get_ssh_port_def split: sum.splits)

text \<open>Port 2200 is taken on the host: the next one is found.\<close>

theorem ssh_port_search_ends_witness:
  "\<exists>m'. reserve_available_ssh_port (mem_ops plain_host) (calm_world\<lparr>w_port_free := (\<lambda>_ _ p. p \<noteq> 2200)\<rparr>) ''a''
      (new_manager mem_init ''qemu'') = (Inr 2201, m') \<and> mem_get_ssh_port (mg_store m') ''a'' = Some 2201 \<and>
      mem_get_ssh_port (mg_store m') ''b'' = None \<and> mg_clock m' \<le> ssh_pool_size"
proof -
  let ?w = "calm_world\<lparr>w_port_free := (\<lambda>_ _ p. p \<noteq> 2200)\<rparr>"
  have "1 < ssh_pool_size" by (simp add: ssh_pool_size_def pool_bounds)
  then obtain n where size: "ssh_pool_size = Suc (Suc n)" by (metis One_nat_def Suc_pred' less_imp_Suc_add plus_nat.simps)
  obtain m' where run: "reserve_available_ssh_port (mem_ops plain_host) ?w ''a'' (new_manager mem_init ''qemu'') = (Inr 2201, m')"
    by (simp add: size run demo new_manager_def mem_init_def mem_reserve_ssh_port_def mem_try_ssh_port_def try_claim_def pool_bounds
        scan_range.simps [of _ 2200] scan_range.simps [of _ 2201] mem_release_ssh_port_def release_claim_def
        fun_cong [OF ssh_port_loop.simps(2)] cong: run_cong)
  show ?thesis
    using ssh_port_search_ends [OF run] run
    by (intro exI [of _ m']) (auto simp: new_manager_def mem_init_def mem_get_ssh_port_def)
qed

section \<open>Searching a context identifier\<close>

text \<open>What a successful reservation for a computer without an identifier gives.\<close>

definition cid_granted :: "string \<Rightarrow> int \<Rightarrow> memory_state \<Rightarrow> memory_state \<Rightarrow> bool" where
  "cid_granted vm cid st st' \<longleftrightarrow> map_of (ms_vsock_cids st') = (map_of (ms_vsock_cids st))(vm \<mapsto> cid) \<and>
     cid \<notin> ran (map_of (ms_vsock_cids st))"

lemma vsock_reserve_granted:
  assumes "commit st (mem_reserve_vsock_cid env st vm req) = (Inr cid, st')" "map_of (ms_vsock_cids st) vm = None"
  shows "cid_granted vm cid st st' \<and> (req = None \<and> VSOCK_CID_START \<le> cid \<and> cid \<le> VSOCK_CID_END \<or> req = Some cid)"
proof -
  have r: "mem_reserve_vsock_cid env st vm req = Inr (cid, st')"
    using assms(1) by (cases "mem_reserve_vsock_cid env st vm req") auto
  show ?thesis
    using r assms(2) ran_map_of_values [of "ms_vsock_cids st"]
    by (cases rule: mem_reserve_vsock_cid_Inr) (auto simp: cid_granted_def)
qed

lemma free_cid_loop_granted:
  assumes "free_cid_loop (mem_ops env) vm live cids m = (Inr cid, m')" "map_of (ms_vsock_cids (mg_store m)) vm = None"
  shows "cid \<in> set cids \<and> cid \<notin> set live \<and> cid_granted vm cid (mg_store m) (mg_store m')"
  using assms
proof (induction cids)
  case (Cons c cids)
  show ?case
  proof (cases "c \<in> set live")
    case True
    then show ?thesis using Cons by simp
  next
    case False
    obtain q st where st: "commit (mg_store m) (mem_reserve_vsock_cid env (mg_store m) vm (Some c)) = (q, st)" by fastforce
    show ?thesis
    proof (cases q)
      case (Inr x)
      then have "cid = x" "m' = m\<lparr>mg_store := st\<rparr>"
        using Cons.prems(1) False st by (auto simp: run_catch on_store_def)
      then show ?thesis using vsock_reserve_granted [OF st [unfolded Inr] Cons.prems(2)] False by auto
    next
      case (Inl e)
      have "st = mg_store m" using st Inl by (cases "mem_reserve_vsock_cid env (mg_store m) vm (Some c)") auto
      then have "free_cid_loop (mem_ops env) vm live cids m = (Inr cid, m')"
        using Cons.prems(1) False st Inl by (auto simp: run_catch on_store_def split: if_splits)
      then show ?thesis using Cons.IH Cons.prems(2) by auto
    qed
  qed
qed (simp add: raise_def)

text \<open>
  A new context identifier is not in use. The identifier that a QEMU computer gets is one that no computer of the state manager holds and that no
  running QEMU process of the host uses, also one that the state manager does not know; it is the requested one or one of the
  pool, it is recorded for the computer, and no other computer's identifier changes.
\<close>

theorem vsock_cid_not_in_use:
  assumes "reserve_vsock_cid_for_backend (mem_ops env) w vm ''qemu'' req m = (Inr cid, m')"
    "mem_get_vsock_cid (mg_store m) vm = None"
  shows "cid \<notin> set (w_live_cids w (mg_clock m)) \<and> (\<forall>k. mem_get_vsock_cid (mg_store m) k \<noteq> Some cid) \<and>
    mem_get_vsock_cid (mg_store m') vm = Some cid \<and>
    (\<forall>k. k \<noteq> vm \<longrightarrow> mem_get_vsock_cid (mg_store m') k = mem_get_vsock_cid (mg_store m) k) \<and>
    (case req of Some c \<Rightarrow> cid = c | None \<Rightarrow> VSOCK_CID_START \<le> cid \<and> cid \<le> VSOCK_CID_END)"
proof -
  let ?m = "m\<lparr>mg_clock := Suc (mg_clock m)\<rparr>"
  have none: "map_of (ms_vsock_cids (mg_store ?m)) vm = None" using assms(2) by (simp add: mem_get_vsock_cid_def)
  have "cid \<notin> set (w_live_cids w (mg_clock m)) \<and> cid_granted vm cid (mg_store m) (mg_store m') \<and>
    (case req of Some c \<Rightarrow> cid = c | None \<Rightarrow> VSOCK_CID_START \<le> cid \<and> cid \<le> VSOCK_CID_END)"
  proof (cases "w_live_cids w (mg_clock m) = [] \<or> req \<noteq> None")
    case True
    obtain q st where st: "commit (mg_store m) (mem_reserve_vsock_cid env (mg_store m) vm req) = (q, st)" by fastforce
    have "q = Inr cid \<and> mg_store m' = st \<and> cid \<notin> set (w_live_cids w (mg_clock m))"
      using assms(1) st True
      by (auto simp: reserve_vsock_cid_for_backend_def run_bind ask_def on_store_def raise_def ret_def
          split: if_splits sum.splits option.splits prod.splits)
    then show ?thesis using vsock_reserve_granted [of "mg_store m" env vm req cid st] st none by (auto split: option.split)
  next
    case False
    then have "free_cid_loop (mem_ops env) vm (w_live_cids w (mg_clock m)) [VSOCK_CID_START..VSOCK_CID_END] ?m = (Inr cid, m')"
      using assms by (auto simp: reserve_vsock_cid_for_backend_def run_bind ask_def from_store_def mem_ops_def)
    from free_cid_loop_granted [OF this none] show ?thesis using False by auto
  qed
  then show ?thesis by (auto simp: cid_granted_def mem_get_vsock_cid_def ran_def)
qed

text \<open>A running process uses 3: the computer gets 4.\<close>

theorem vsock_cid_not_in_use_witness:
  "\<exists>m'. reserve_vsock_cid_for_backend (mem_ops plain_host) (calm_world\<lparr>w_live_cids := (\<lambda>_. [3])\<rparr>) ''a'' ''qemu'' None
      (new_manager mem_init ''qemu'') = (Inr 4, m') \<and> mem_get_vsock_cid (mg_store m') ''a'' = Some 4"
proof -
  obtain b where b: "VSOCK_CID_END = b" "4 \<le> b" by (simp add: pool_bounds)
  have cids: "[VSOCK_CID_START..VSOCK_CID_END] = 3 # 4 # [5..b]"
    using b by (simp add: VSOCK_CID_START_def upto_rec1 [of 3] upto_rec1 [of 4])
  have get: "so_get_vsock (mem_ops plain_host) = (\<lambda>st vm. Inr (mem_get_vsock_cid st vm))" by (simp add: mem_ops_def)
  obtain m' where r: "reserve_vsock_cid_for_backend (mem_ops plain_host) (calm_world\<lparr>w_live_cids := (\<lambda>_. [3])\<rparr>) ''a'' ''qemu'' None
      (new_manager mem_init ''qemu'') = (Inr 4, m')"
    by (simp add: reserve_vsock_cid_for_backend_def cids get run demo new_manager_def mem_init_def mem_get_vsock_cid_def
        mem_reserve_vsock_cid_def mem_try_vsock_cid_def try_claim_def cong: run_cong)
  show ?thesis
    using vsock_cid_not_in_use [OF r] r by (intro exI [of _ m']) (auto simp: new_manager_def mem_init_def mem_get_vsock_cid_def)
qed

end
