(* ===== verification/Manager_Guard.thy ===== *)
theory Manager_Guard
  imports Manager_Props "HOL-Library.Multiset"
begin

text \<open>
  Concurrent calls of one manager. The operation lock makes three sections atomic: claiming a computer, releasing it, and the
  two ends of \<open>close\<close>. Between them the threads run in any order. A configuration is the manager and
  the multiset of threads inside an operation; what a thread does outside the locked sections is a step that may change
  anything but the flags that the lock protects.
\<close>

section \<open>The locked sections\<close>

definition drop_claim :: "string \<Rightarrow> ('s, bool) mop" where
  "drop_claim vm_id =
     bind (modify (\<lambda>m. m\<lparr>mg_active := removeAll vm_id (mg_active m)\<rparr>)) (\<lambda>_.
       gets (\<lambda>m. mg_close_requested m \<and> mg_active m = []))"

text \<open>\<open>True\<close> when the caller has to close the manager itself.\<close>

definition begin_close :: "('s, bool) mop" where
  "begin_close =
     bind (gets (\<lambda>m. mg_closed m \<or> mg_closing m)) (\<lambda>finished.
     if finished then ret False
     else
       bind (modify (\<lambda>m. m\<lparr>mg_close_requested := True\<rparr>)) (\<lambda>_.
       bind (gets (\<lambda>m. mg_active m \<noteq> [])) (\<lambda>busy.
       if busy then ret False else bind (modify (\<lambda>m. m\<lparr>mg_closing := True\<rparr>)) (\<lambda>_. ret True))))"

definition finish_close :: "('s, unit) mop" where
  "finish_close = modify (\<lambda>m. m\<lparr>mg_closing := False, mg_close_requested := mg_closed m\<rparr>)"

text \<open>The operations are made of these sections.\<close>

lemma release_operation_parts:
  "release_operation so w vm = bind (drop_claim vm) (\<lambda>finish. unless (\<not> finish) (close_manager so w))"
  by (simp add: release_operation_def drop_claim_def bind_assoc)

lemma close_manager_parts:
  "close_manager so w = bind begin_close (\<lambda>go. if go then ensuring (close_resources so w) finish_close else ret ())"
  by (rule ext) (simp add: close_manager_def begin_close_def finish_close_def bind_def gets_def modify_def ret_def)

section \<open>Steps\<close>

datatype guard_thread = Running string | Releasing | Closing

type_synonym 's guard_conf = "'s manager \<times> guard_thread multiset"

abbreviation one_if :: "bool \<Rightarrow> guard_thread \<Rightarrow> guard_thread multiset" where
  "one_if b t \<equiv> (if b then {#t#} else {#})"

inductive guard_step :: "'s guard_conf \<Rightarrow> 's guard_conf \<Rightarrow> bool" where
  g_claim: "claim_operation vm m = (Inr u, m') \<Longrightarrow> guard_step (m, T) (m', add_mset (Running vm) T)"
| g_refused: "claim_operation vm m = (Inl e, m') \<Longrightarrow> guard_step (m, T) (m', T)"
| g_work: "T \<noteq> {#} \<Longrightarrow> flags m' = flags m \<Longrightarrow> guard_step (m, T) (m', T)"
| g_drop: "drop_claim vm m = (Inr fin, m') \<Longrightarrow> guard_step (m, add_mset (Running vm) T) (m', one_if fin Releasing + T)"
| g_close: "begin_close m = (Inr go, m') \<Longrightarrow> guard_step (m, T) (m', one_if go Closing + T)"
| g_close_after: "begin_close m = (Inr go, m') \<Longrightarrow> guard_step (m, add_mset Releasing T) (m', one_if go Closing + T)"
| g_closed: "finish_close (m\<lparr>mg_closed := True\<rparr>) = (Inr u, m') \<Longrightarrow> guard_step (m, add_mset Closing T) (m', T)"
| g_failed: "finish_close m = (Inr u, m') \<Longrightarrow> guard_step (m, add_mset Closing T) (m', T)"

inductive guard_reachable :: "'s guard_conf \<Rightarrow> bool" where
  g_new: "guard_reachable (new_manager st backend, {#})"
| g_step: "guard_reachable c \<Longrightarrow> guard_step c c' \<Longrightarrow> guard_reachable c'"

section \<open>The invariant\<close>

definition guard_inv :: "'s manager \<Rightarrow> guard_thread multiset \<Rightarrow> bool" where
  "guard_inv m T \<longleftrightarrow>
     (\<forall>vm. count T (Running vm) = of_bool (vm \<in> set (mg_active m))) \<and>
     count T Closing = of_bool (mg_closing m) \<and>
     (mg_closing m \<or> mg_closed m \<longrightarrow> mg_active m = []) \<and>
     (mg_closing m \<longrightarrow> mg_close_requested m \<and> \<not> mg_closed m) \<and>
     (mg_closed m \<longrightarrow> mg_close_requested m) \<and>
     (mg_close_requested m \<and> \<not> mg_closed m \<longrightarrow> mg_active m \<noteq> [] \<or> Releasing \<in># T \<or> mg_closing m)"

lemma claim_operation_run:
  "claim_operation vm m =
     (if mg_closed m then (Inl (CelestoError ''This session is closed''), m)
      else if mg_close_requested m then (Inl (CelestoError ''This session is closing''), m)
      else if vm \<in> set (mg_active m) then (Inl (CelestoError ''Computer is busy''), m)
      else (Inr (), m\<lparr>mg_active := vm # mg_active m\<rparr>))"
  by (simp add: claim_operation_def bind_def gets_def raise_when_def raise_def ret_def modify_def)

lemma begin_close_run:
  "begin_close m =
     (if mg_closed m \<or> mg_closing m then (Inr False, m)
      else if mg_active m \<noteq> [] then (Inr False, m\<lparr>mg_close_requested := True\<rparr>)
      else (Inr True, m\<lparr>mg_close_requested := True, mg_closing := True\<rparr>))"
  by (simp add: begin_close_def bind_def gets_def ret_def modify_def)

lemma drop_claim_run:
  "drop_claim vm m =
     (let active = removeAll vm (mg_active m) in
      (Inr (mg_close_requested m \<and> active = []), m\<lparr>mg_active := active\<rparr>))"
  by (simp add: drop_claim_def bind_def gets_def modify_def Let_def)

lemmas guard_runs = claim_operation_run begin_close_run drop_claim_run

lemma Suc_of_bool [simp]: "Suc n = of_bool b \<longleftrightarrow> b \<and> n = 0"
  by (cases b) auto

lemma guard_step_inv:
  assumes "guard_step (m, T) (m', T')" "guard_inv m T"
  shows "guard_inv m' T'"
  using assms(1)
proof (cases rule: guard_step.cases)
  case (g_claim vm u)
  then show ?thesis using assms(2) by (auto simp: claim_operation_run guard_inv_def split: if_splits)
next
  case (g_refused vm e)
  then show ?thesis using assms(2) by (auto simp: claim_operation_run split: if_splits)
next
  case g_work
  then show ?thesis using assms(2) by (simp add: guard_inv_def flags_def)
next
  case (g_drop vm fin T0)
  have "Suc (count T0 (Running vm)) = of_bool (vm \<in> set (mg_active m))"
    using assms(2) g_drop(1) unfolding guard_inv_def by (metis count_add_mset)
  then have "vm \<in> set (mg_active m)" "count T0 (Running vm) = 0" by simp_all
  moreover have "count T0 (Running v) = of_bool (v \<in> set (mg_active m))" if "v \<noteq> vm" for v
    using assms(2) that unfolding guard_inv_def g_drop(1) by (metis count_add_mset guard_thread.inject)
  ultimately have running: "count T0 (Running v) = of_bool (v \<in> set (removeAll vm (mg_active m)))" for v
    by (cases "v = vm") simp_all
  have fin: "fin = (mg_close_requested m \<and> removeAll vm (mg_active m) = [])" "m' = m\<lparr>mg_active := removeAll vm (mg_active m)\<rparr>"
    using g_drop(3) by (simp_all add: drop_claim_run Let_def)
  have old: "count T0 Closing = of_bool (mg_closing m)" "mg_closing m \<or> mg_closed m \<longrightarrow> mg_active m = []"
    "mg_closing m \<longrightarrow> mg_close_requested m \<and> \<not> mg_closed m" "mg_closed m \<longrightarrow> mg_close_requested m"
    using assms(2) unfolding guard_inv_def g_drop(1) by simp_all
  show ?thesis
    unfolding guard_inv_def g_drop(2) fin(2) using running old fin(1) by (intro conjI allI impI) (simp_all, force)
next
  case (g_close go)
  then show ?thesis using assms(2) by (auto simp: begin_close_run guard_inv_def split: if_splits)
next
  case (g_close_after go T0)
  then show ?thesis using assms(2) by (auto simp: begin_close_run guard_inv_def split: if_splits)
next
  case (g_closed u)
  then show ?thesis using assms(2) by (auto simp: finish_close_def modify_def guard_inv_def split: if_splits)
next
  case (g_failed u)
  then show ?thesis using assms(2) by (auto simp: finish_close_def modify_def guard_inv_def split: if_splits)
qed

lemma guard_reachable_inv: "guard_reachable c \<Longrightarrow> guard_inv (fst c) (snd c)"
proof (induction rule: guard_reachable.induct)
  case (g_new st backend)
  then show ?case by (simp add: guard_inv_def new_manager_def)
next
  case (g_step c c')
  then show ?case using guard_step_inv [of "fst c" "snd c" "fst c'" "snd c'"] by simp
qed

section \<open>A requested close is carried out\<close>

fun thread_weight :: "guard_thread \<Rightarrow> nat" where
  "thread_weight (Running _) = 3"
| "thread_weight Releasing = 2"
| "thread_weight Closing = 1"

text \<open>Some thread can take a step that brings it closer to its end and keeps the request.\<close>

lemma guard_advance:
  assumes "guard_inv m T" "mg_close_requested m" "T \<noteq> {#}"
  shows "\<exists>m' T'. guard_step (m, T) (m', T') \<and> mg_close_requested m' \<and>
    sum_mset (image_mset thread_weight T') < sum_mset (image_mset thread_weight T)"
proof -
  obtain t T0 where T: "T = add_mset t T0" using assms(3) by (cases T) auto
  show ?thesis
  proof (cases t)
    case (Running vm)
    then show ?thesis
      using assms(2) T
      by (intro exI) (rule conjI, unfold T Running, rule g_drop, rule drop_claim_run [unfolded Let_def], simp)
  next
    case Releasing
    then have "guard_step (m, T) (snd (begin_close m), one_if (\<not> mg_closed m \<and> \<not> mg_closing m \<and> mg_active m = []) Closing + T0)"
      unfolding T Releasing by (intro g_close_after) (simp add: begin_close_run)
    then show ?thesis
      by (intro exI conjI, assumption) (use assms(1,2) Releasing T in \<open>auto simp: begin_close_run\<close>)
  next
    case Closing
    have "guard_step (m, T) (m\<lparr>mg_closed := True, mg_closing := False, mg_close_requested := True\<rparr>, T0)"
      unfolding T Closing by (rule g_closed [of _ "()"]) (simp add: finish_close_def modify_def)
    then show ?thesis by (intro exI conjI, assumption) (simp_all add: T Closing)
  qed
qed

lemma guard_completes:
  assumes "guard_inv m T" "mg_close_requested m"
  shows "\<exists>m'. guard_step\<^sup>*\<^sup>* (m, T) (m', {#}) \<and> mg_closed m'"
  using assms
proof (induction "sum_mset (image_mset thread_weight T)" arbitrary: m T rule: less_induct)
  case less
  show ?case
  proof (cases "T = {#}")
    case True
    then have "mg_closed m" using less.prems by (auto simp: guard_inv_def)
    then show ?thesis using True by blast
  next
    case False
    obtain m' T' where step: "guard_step (m, T) (m', T')" "mg_close_requested m'"
      "sum_mset (image_mset thread_weight T') < sum_mset (image_mset thread_weight T)"
      using guard_advance [OF less.prems False] by blast
    then show ?thesis
      using less.hyps [OF step(3) guard_step_inv [OF step(1) less.prems(1)] step(2)]
      by (meson converse_rtranclp_into_rtranclp)
  qed
qed

text \<open>
  \<^bold>\<open>C7\<close> Concurrent calls respect the operation guard. Whatever the order of the steps, no two operations work on one computer at
  the same time, at most one thread closes the manager, no operation runs while the manager is closing or closed, and a closed
  manager accepts none. A requested close is never lost: until it is done some thread is still at work, the request is withdrawn only
  by a close that failed, when every thread has finished the manager is closed, and from every state the threads can finish.
\<close>

theorem close_not_lost:
  assumes "guard_reachable (m, T)"
  shows "count T (Running vm) \<le> 1 \<and> count T Closing \<le> 1 \<and>
    (mg_closing m \<or> mg_closed m \<longrightarrow> Running vm \<notin># T) \<and>
    (mg_closed m \<longrightarrow> (\<exists>e. claim_operation vm m = (Inl e, m))) \<and>
    (mg_close_requested m \<longrightarrow>
       (T = {#} \<longrightarrow> mg_closed m) \<and>
       (\<exists>m'. guard_step\<^sup>*\<^sup>* (m, T) (m', {#}) \<and> mg_closed m') \<and>
       (\<forall>m' T'. guard_step (m, T) (m', T') \<longrightarrow> mg_close_requested m' \<or>
          Closing \<in># T \<and> finish_close m = (Inr (), m') \<and> \<not> mg_closed m'))"
proof -
  have inv: "guard_inv m T" using guard_reachable_inv [OF assms] by simp
  have keep: "mg_close_requested m' \<or> Closing \<in># T \<and> finish_close m = (Inr (), m') \<and> \<not> mg_closed m'"
    if "mg_close_requested m" "guard_step (m, T) (m', T')" for m' T'
    using that(2)
  proof (cases rule: guard_step.cases)
    case (g_failed u)
    then show ?thesis using that(1) by (auto simp: finish_close_def modify_def)
  qed (use that(1) in \<open>auto simp: guard_runs finish_close_def modify_def flags_def Let_def split: if_splits\<close>)
  have counts: "count T (Running vm) = of_bool (vm \<in> set (mg_active m))" "count T Closing = of_bool (mg_closing m)"
    "mg_closing m \<or> mg_closed m \<Longrightarrow> mg_active m = []"
    using inv by (auto simp: guard_inv_def)
  have "count T (Running vm) \<le> 1" "count T Closing \<le> 1" unfolding counts by simp_all
  moreover have "Running vm \<notin># T" if "mg_closing m \<or> mg_closed m"
    using counts that by (simp add: not_in_iff)
  moreover have "mg_closed m" if "mg_close_requested m" "T = {#}" using inv that by (auto simp: guard_inv_def)
  ultimately show ?thesis
    using keep guard_completes [OF inv] by (auto simp: claim_operation_run)
qed

text \<open>The manager is asked to close while a computer is being started.\<close>

definition busy_closing :: "memory_state manager" where
  "busy_closing = (new_manager mem_init ''qemu'')\<lparr>mg_active := [''a''], mg_close_requested := True\<rparr>"

theorem close_not_lost_witness:
  "guard_reachable (busy_closing, {#Running ''a''#}) \<and> mg_close_requested busy_closing \<and>
   (\<exists>m'. guard_step\<^sup>*\<^sup>* (busy_closing, {#Running ''a''#}) (m', {#}) \<and> mg_closed m')"
proof -
  let ?m = "(new_manager mem_init ''qemu'')\<lparr>mg_active := [''a'']\<rparr>"
  have "guard_step (new_manager mem_init ''qemu'', {#}) (?m, {#Running ''a''#})"
    by (rule g_claim [of _ _ "()"]) (simp add: claim_operation_run new_manager_def)
  moreover have "guard_step (?m, {#Running ''a''#}) (busy_closing, one_if False Closing + {#Running ''a''#})"
    by (rule g_close) (simp add: begin_close_run new_manager_def busy_closing_def)
  ultimately have r: "guard_reachable (busy_closing, {#Running ''a''#})"
    using g_step [OF g_step [OF g_new]] by (metis (no_types, lifting) add_0)
  have "mg_close_requested busy_closing" by (simp add: busy_closing_def)
  then show ?thesis using close_not_lost [OF r] r by blast
qed

end
