(* ===== verification/Egress_Proxy.thy ===== *)
theory Egress_Proxy
  imports Public_Egress Internet_Policy Effects
begin

text \<open>
  The proxy of a computer with public access (\<open>host/_public_egress_proxy.py\<close>): it reads one request from the guest, asks
  the policy of \<^theory_text>\<open>Public_Egress\<close> for a decision, connects to the address the decision pins, and forwards. Bytes are
  characters. A socket is the list of what it will deliver: pieces of data and failures; its end is the end of
  the stream. How far a send gets, whether a connection succeeds and what \<open>select\<close> reports are up to the environment.
\<close>

section \<open>Sockets\<close>

datatype sock_event = DATA string | FAULT

datatype side = CLIENT | UPSTREAM

record proxy_io =
  io_client :: "sock_event list"
  io_upstream :: "sock_event list"
  io_to_client :: string
  io_to_upstream :: string
  io_dials :: "(ip_address \<times> int) list"
  io_clock :: nat

text \<open>\<open>pe_send\<close> is \<open>None\<close> for a complete send and the number of bytes sent for one that fails.\<close>

record proxy_env =
  pe_resolve :: "string \<Rightarrow> int \<Rightarrow> string list option"
  pe_connect :: "nat \<Rightarrow> ip_address \<Rightarrow> int \<Rightarrow> bool"
  pe_send :: "nat \<Rightarrow> nat option"
  pe_select :: "nat \<Rightarrow> bool \<times> bool"

fun recv_from :: "nat \<Rightarrow> sock_event list \<Rightarrow> string result \<times> sock_event list" where
  "recv_from n [] = (Inr [], [])"
| "recv_from n (FAULT # es) = (Inl (OSError ''recv''), es)"
| "recv_from n (DATA d # es) = (if length d \<le> n then (Inr d, es) else (Inr (take n d), DATA (drop n d) # es))"

fun sock_recv :: "side \<Rightarrow> nat \<Rightarrow> (proxy_io, string) op" where
  "sock_recv CLIENT n s = (case recv_from n (io_client s) of (r, es) \<Rightarrow> (r, s\<lparr>io_client := es\<rparr>))"
| "sock_recv UPSTREAM n s = (case recv_from n (io_upstream s) of (r, es) \<Rightarrow> (r, s\<lparr>io_upstream := es\<rparr>))"

fun put_bytes :: "side \<Rightarrow> string \<Rightarrow> proxy_io \<Rightarrow> proxy_io" where
  "put_bytes CLIENT d s = s\<lparr>io_to_client := io_to_client s @ d\<rparr>"
| "put_bytes UPSTREAM d s = s\<lparr>io_to_upstream := io_to_upstream s @ d\<rparr>"

definition sendall :: "proxy_env \<Rightarrow> side \<Rightarrow> string \<Rightarrow> (proxy_io, unit) op" where
  "sendall env to d s =
     (let s' = s\<lparr>io_clock := Suc (io_clock s)\<rparr> in
      case pe_send env (io_clock s) of
        None \<Rightarrow> (Inr (), put_bytes to d s')
      | Some k \<Rightarrow> (Inl (OSError ''send''), put_bytes to (take k d) s'))"

fun sock_pending :: "sock_event list \<Rightarrow> nat" where
  "sock_pending [] = 0"
| "sock_pending (FAULT # es) = Suc (sock_pending es)"
| "sock_pending (DATA d # es) = Suc (length d + sock_pending es)"

definition io_pending :: "proxy_io \<Rightarrow> nat" where
  "io_pending s = sock_pending (io_client s) + sock_pending (io_upstream s)"

section \<open>Parsing a request\<close>

record parsed_request =
  pr_method :: string
  pr_target :: string
  pr_version :: string
  pr_header_lines :: "string list"
  pr_body_prefix :: string

definition MAX_HEADER_BYTES :: nat where "MAX_HEADER_BYTES = 64 * 1024"

definition READ_CHUNK_BYTES :: nat where "READ_CHUNK_BYTES = 64 * 1024"

definition CRLF :: string where "CRLF = [CHR 0x0D, CHR 0x0A]"

definition BAD_REQUEST :: nat where "BAD_REQUEST = 400"

definition is_header_name_char :: "char \<Rightarrow> bool" where
  "is_header_name_char c \<longleftrightarrow> c \<in> set ''!#$%&*+-.^_`|~'' \<or> c = CHR 0x27 \<or> is_alpha_us c \<or> is_digit c"

definition header_name_match :: "string \<Rightarrow> bool" where
  "header_name_match name \<longleftrightarrow> name \<noteq> [] \<and> list_all is_header_name_char name"

text \<open>\<open>bytes.strip\<close> removes ASCII white space only.\<close>

definition is_byte_space :: "char \<Rightarrow> bool" where
  "is_byte_space c \<longleftrightarrow> (of_char c :: nat) \<in> {9, 10, 11, 12, 13, 32}"

definition bytes_strip :: "string \<Rightarrow> string" where
  "bytes_strip s = rstrip_chars is_byte_space (dropWhile is_byte_space s)"

definition is_ascii :: "string \<Rightarrow> bool" where
  "is_ascii s \<longleftrightarrow> list_all (\<lambda>c. (of_char c :: nat) < 128) s"

definition request_headers :: "parsed_request \<Rightarrow> string \<Rightarrow> string list" where
  "request_headers r name =
     map (\<lambda>line. bytes_strip (after (CHR '':'') line))
       (filter (\<lambda>line. starts_with (lower name @ '':'') (lower line)) (pr_header_lines r))"

definition request_header :: "parsed_request \<Rightarrow> string \<Rightarrow> string option" where
  "request_header r name = (case request_headers r name of [] \<Rightarrow> None | v # _ \<Rightarrow> Some v)"

text \<open>\<open>buffer.split(sep, 1)\<close> and \<open>raw_headers.split(CRLF)\<close>\<close>

fun cut_at :: "string \<Rightarrow> string \<Rightarrow> (string \<times> string) option" where
  "cut_at p [] = (if p = [] then Some ([], []) else None)"
| "cut_at p (c # s) =
     (if starts_with p (c # s) then Some ([], drop (length p) (c # s))
      else map_option (\<lambda>(a, b). (c # a, b)) (cut_at p s))"

fun split_crlf :: "string \<Rightarrow> string list" where
  "split_crlf [] = [[]]"
| "split_crlf [c] = [[c]]"
| "split_crlf (c # d # s) =
     (if c = CHR 0x0D \<and> d = CHR 0x0A then [] # split_crlf s
      else case split_crlf (d # s) of [] \<Rightarrow> [[c]] | l # ls \<Rightarrow> (c # l) # ls)"

definition header_line_ok :: "string \<Rightarrow> bool" where
  "header_line_ok line \<longleftrightarrow>
     take 1 line \<noteq> '' '' \<and> take 1 line \<noteq> [CHR 0x09] \<and> CHR '':'' \<in> set line \<and> header_name_match (before (CHR '':'') line)"

definition parse_request :: "string \<Rightarrow> parsed_request result" where
  "parse_request buffer =
     (case cut_at (CRLF @ CRLF) buffer of
        None \<Rightarrow> Inl (ProxyRequestError BAD_REQUEST ''Proxy request is incomplete.'')
      | Some (raw_headers, body_prefix) \<Rightarrow>
          let lines = split_crlf raw_headers; invalid = ProxyRequestError BAD_REQUEST ''Proxy request is invalid.'' in
          if list_ex (\<lambda>line. CHR 0x0D \<in> set line \<or> CHR 0x0A \<in> set line) lines then Inl invalid
          else case partition_at (CHR '' '') (hd lines) of
              None \<Rightarrow> Inl invalid
            | Some (method_raw, rest) \<Rightarrow>
                (case partition_at (CHR '' '') rest of
                   None \<Rightarrow> Inl invalid
                 | Some (target, version) \<Rightarrow>
                     if \<not> is_ascii method_raw \<or> \<not> is_ascii target \<or> \<not> is_ascii version then Inl invalid
                     else if method_raw = [] \<or> \<not> starts_with ''HTTP/1.'' version then Inl invalid
                     else if \<not> list_all header_line_ok (tl lines)
                     then Inl (ProxyRequestError BAD_REQUEST ''Proxy headers are invalid.'')
                     else Inr \<lparr>pr_method = upper method_raw, pr_target = target, pr_version = version,
                                pr_header_lines = tl lines, pr_body_prefix = body_prefix\<rparr>))"

lemma recv_from_pending:
  "recv_from n es = (Inr d, es') \<Longrightarrow> sock_pending es' + length d \<le> sock_pending es"
  by (induction n es rule: recv_from.induct) (auto split: if_splits)

lemma sock_recv_pending:
  assumes "sock_recv from n s = (Inr d, s')"
  shows "io_pending s' + length d \<le> io_pending s"
  using assms recv_from_pending by (cases "from") (fastforce simp: io_pending_def split: prod.splits)+

lemma sock_recv_less:
  "sock_recv from n s = (Inr d, s') \<Longrightarrow> d \<noteq> [] \<Longrightarrow> io_pending s' < io_pending s"
  using sock_recv_pending by (cases d) fastforce+

function read_head :: "string \<Rightarrow> (proxy_io, string) op" where
  "read_head buffer s =
     (if contains (CRLF @ CRLF) buffer then (Inr buffer, s)
      else case sock_recv CLIENT READ_CHUNK_BYTES s of
          (Inl e, s') \<Rightarrow> (Inl e, s')
        | (Inr chunk, s') \<Rightarrow>
            if chunk = [] then (Inl (ProxyRequestError BAD_REQUEST ''Proxy request is incomplete.''), s')
            else if length (buffer @ chunk) > MAX_HEADER_BYTES
            then (Inl (ProxyRequestError 431 ''Headers are too large.''), s')
            else read_head (buffer @ chunk) s')"
  by pat_completeness auto
termination
  by (relation "measure (\<lambda>(_, s). io_pending s)") (auto simp del: sock_recv.simps intro: sock_recv_less [OF sym])

declare read_head.simps [simp del]

definition read_request :: "(proxy_io, parsed_request) op" where
  "read_request = bind (read_head []) (\<lambda>buffer. lift (parse_request buffer))"

section \<open>Targets\<close>

definition url_hostinfo :: "parsed_url \<Rightarrow> string \<times> string" where
  "url_hostinfo u =
     (let hostinfo = (case rpartition_at (CHR ''@'') (pu_netloc u) of None \<Rightarrow> pu_netloc u | Some (_, h) \<Rightarrow> h);
          bracketed = after (CHR ''['') hostinfo
      in if CHR ''['' \<in> set hostinfo
         then (before (CHR '']'') bracketed, after (CHR '':'') (after (CHR '']'') bracketed))
         else (before (CHR '':'') hostinfo, after (CHR '':'') hostinfo))"

definition url_has_userinfo :: "parsed_url \<Rightarrow> bool" where
  "url_has_userinfo u \<longleftrightarrow> CHR ''@'' \<in> set (pu_netloc u)"

definition url_host :: "parsed_url \<Rightarrow> string option" where
  "url_host u =
     (let h = fst (url_hostinfo u) in
      if h = [] then None
      else Some (lower (before (CHR ''%'') h) @ (if CHR ''%'' \<in> set h then ''%'' @ after (CHR ''%'') h else [])))"

text \<open>\<open>SplitResult.port\<close>; \<open>int\<close> refuses more than 4300 digits.\<close>

definition url_port :: "parsed_url \<Rightarrow> int option result" where
  "url_port u =
     (let port = snd (url_hostinfo u) in
      if port = [] then Inr None
      else if \<not> list_all is_digit port \<or> length port > 4300 \<or> nat_of_string port > 65535
      then Inl (ValueError ''Port'')
      else Inr (Some (int (nat_of_string port))))"

definition parse_authority :: "string \<Rightarrow> (string \<times> int) result" where
  "parse_authority authority =
     (let invalid = ProxyRequestError BAD_REQUEST ''CONNECT target is invalid.'' in
      case urlsplit (''//'' @ authority) of
        None \<Rightarrow> Inl invalid
      | Some u \<Rightarrow>
          (case url_port u of
             Inl _ \<Rightarrow> Inl invalid
           | Inr port \<Rightarrow>
               (case (url_host u, port) of
                  (Some hostname, Some p) \<Rightarrow>
                    if url_has_userinfo u then Inl (ProxyRequestError BAD_REQUEST ''CONNECT target must include host and port.'')
                    else Inr (hostname, p)
                | _ \<Rightarrow> Inl (ProxyRequestError BAD_REQUEST ''CONNECT target must include host and port.''))))"

text \<open>The target with its host and port.\<close>

definition parse_absolute_http_target :: "string \<Rightarrow> (parsed_url \<times> string \<times> int option) result" where
  "parse_absolute_http_target target =
     (let invalid = ProxyRequestError BAD_REQUEST ''Proxy target is invalid.'';
          no_url = ProxyRequestError BAD_REQUEST ''Proxy target must be an HTTP URL.'' in
      case urlsplit target of
        None \<Rightarrow> Inl invalid
      | Some u \<Rightarrow>
          (case url_port u of
             Inl _ \<Rightarrow> Inl invalid
           | Inr port \<Rightarrow>
               (case url_host u of
                  None \<Rightarrow> Inl no_url
                | Some hostname \<Rightarrow>
                    if lower (pu_scheme u) \<noteq> ''http'' \<or> url_has_userinfo u \<or> pu_fragment u \<noteq> [] \<or>
                       (case port of None \<Rightarrow> False | Some p \<Rightarrow> \<not> (1 \<le> p \<and> p \<le> 65535))
                    then Inl no_url else Inr (u, hostname, port))))"

section \<open>Forwarding\<close>

definition is_websocket :: "parsed_request \<Rightarrow> bool" where
  "is_websocket r \<longleftrightarrow> lower (case request_header r ''upgrade'' of None \<Rightarrow> [] | Some v \<Rightarrow> v) = ''websocket''"

definition HOP_HEADERS :: "string list" where
  "HOP_HEADERS = [''proxy-authorization'', ''proxy-connection'', ''connection'']"

definition is_hop_line :: "string \<Rightarrow> bool" where
  "is_hop_line line \<longleftrightarrow> lower (bytes_strip (before (CHR '':'') line)) \<in> set HOP_HEADERS"

definition origin_path :: "parsed_url \<Rightarrow> string" where
  "origin_path u =
     (let path = (if pu_path u = [] then ''/'' else pu_path u)
      in if pu_query u \<noteq> [] then path @ ''?'' @ pu_query u else path)"

definition origin_lines :: "parsed_request \<Rightarrow> string list" where
  "origin_lines r =
     filter (\<lambda>line. \<not> is_hop_line line) (pr_header_lines r) @
       [if is_websocket r then ''Connection: Upgrade'' else ''Connection: close'']"

definition origin_form_request :: "parsed_request \<Rightarrow> parsed_url \<Rightarrow> string" where
  "origin_form_request r u =
     join_on CRLF ((pr_method r @ '' '' @ origin_path u @ '' '' @ pr_version r) # origin_lines r)
       @ CRLF @ CRLF @ pr_body_prefix r"

text \<open>\<open>int(value)\<close> of bytes: an optional sign and digits that single underscores may separate.\<close>

definition bytes_to_int :: "string \<Rightarrow> int option" where
  "bytes_to_int value =
     (let v = bytes_strip value;
          signed = (v \<noteq> [] \<and> hd v \<in> set ''+-'');
          parts = split_on (CHR ''_'') (if signed then tl v else v);
          n = int (nat_of_string (concat parts))
      in if list_all (\<lambda>p. p \<noteq> [] \<and> list_all is_digit p) parts \<and> length (concat parts) \<le> 4300
         then Some (if signed \<and> hd v = CHR ''-'' then - n else n) else None)"

definition request_body_remaining :: "parsed_request \<Rightarrow> nat result" where
  "request_body_remaining r =
     (let content_lengths = request_headers r ''content-length'' in
      if request_headers r ''transfer-encoding'' \<noteq> []
      then Inl (ProxyRequestError 501 ''Chunked proxy requests are unsupported.'')
      else if length content_lengths > 1 then Inl (ProxyRequestError BAD_REQUEST ''Content-Length is ambiguous.'')
      else case content_lengths of
          [] \<Rightarrow> Inr 0
        | v # _ \<Rightarrow>
            (case bytes_to_int v of
               None \<Rightarrow> Inl (ProxyRequestError BAD_REQUEST ''Content-Length is invalid.'')
             | Some expected \<Rightarrow>
                 if expected < 0 then Inl (ProxyRequestError BAD_REQUEST ''Content-Length is invalid.'')
                 else if expected < int (length (pr_body_prefix r))
                 then Inl (ProxyRequestError BAD_REQUEST ''Request body is larger than declared.'')
                 else Inr (nat expected - length (pr_body_prefix r))))"

text \<open>A received piece is never longer than what was asked for.\<close>

lemma recv_from_length: "recv_from n es = (Inr d, es') \<Longrightarrow> length d \<le> n"
  by (induction n es rule: recv_from.induct) (auto split: if_splits)

lemma sock_recv_length: "sock_recv from n s = (Inr d, s') \<Longrightarrow> length d \<le> n"
  using recv_from_length by (cases "from") (fastforce split: prod.splits)+

lemma sendall_pending: "sendall env to d s = (r, s') \<Longrightarrow> io_pending s' = io_pending s"
  by (cases to) (auto simp: sendall_def io_pending_def Let_def split: option.splits)

function forward_request_body :: "proxy_env \<Rightarrow> nat \<Rightarrow> (proxy_io, unit) op" where
  "forward_request_body env remaining s =
     (if remaining = 0 then (Inr (), s)
      else case sock_recv CLIENT (min READ_CHUNK_BYTES remaining) s of
          (Inl e, s') \<Rightarrow> (Inl e, s')
        | (Inr chunk, s') \<Rightarrow>
            if chunk = [] then (Inl (ProxyRequestError BAD_REQUEST ''Proxy request body is incomplete.''), s')
            else case sendall env UPSTREAM chunk s' of
                (Inl e, s'') \<Rightarrow> (Inl e, s'')
              | (Inr _, s'') \<Rightarrow> forward_request_body env (remaining - length chunk) s'')"
  by pat_completeness auto
termination
  by (relation "measure (\<lambda>(_, _, s). io_pending s)")
     (auto simp del: sock_recv.simps dest!: sock_recv_less [OF sym] sendall_pending [OF sym])

function relay_response :: "proxy_env \<Rightarrow> (proxy_io, unit) op" where
  "relay_response env s =
     (case sock_recv UPSTREAM READ_CHUNK_BYTES s of
        (Inl e, s') \<Rightarrow> (Inl e, s')
      | (Inr chunk, s') \<Rightarrow>
          if chunk = [] then (Inr (), s')
          else case sendall env CLIENT chunk s' of
              (Inl e, s'') \<Rightarrow> (Inl e, s'')
            | (Inr _, s'') \<Rightarrow> relay_response env s'')"
  by pat_completeness auto
termination
  by (relation "measure (\<lambda>(_, s). io_pending s)")
     (auto simp del: sock_recv.simps dest!: sock_recv_less [OF sym] sendall_pending [OF sym])

declare forward_request_body.simps [simp del] relay_response.simps [simp del]

text \<open>One direction of the tunnel: \<open>False\<close> when the stream has ended.\<close>

fun other_side :: "side \<Rightarrow> side" where
  "other_side CLIENT = UPSTREAM"
| "other_side UPSTREAM = CLIENT"

definition relay_one :: "proxy_env \<Rightarrow> side \<Rightarrow> (proxy_io, bool) op" where
  "relay_one env source =
     bind (sock_recv source READ_CHUNK_BYTES) (\<lambda>data.
     if data = [] then ret False else bind (sendall env (other_side source) data) (\<lambda>_. ret True))"

lemma relay_one_pending:
  assumes "relay_one env source s = (Inr b, s')"
  shows "b \<Longrightarrow> io_pending s' < io_pending s"
  using assms
  by (auto simp: relay_one_def bind_def ret_def split: prod.splits sum.splits if_splits
      dest!: sock_recv_less sendall_pending)

lemma io_pending_clock [simp]: "io_pending (s\<lparr>io_clock := t\<rparr>) = io_pending s"
  by (simp add: io_pending_def)

function relay_bidirectional :: "proxy_env \<Rightarrow> (proxy_io, unit) op" where
  "relay_bidirectional env s =
     (case pe_select env (io_clock s) of (from_client, from_upstream) \<Rightarrow>
        let s0 = s\<lparr>io_clock := Suc (io_clock s)\<rparr> in
        if \<not> from_client \<and> \<not> from_upstream then (Inr (), s0)
        else case (if from_client then relay_one env CLIENT s0 else (Inr True, s0)) of
            (Inl e, s1) \<Rightarrow> (Inl e, s1)
          | (Inr open1, s1) \<Rightarrow>
              if \<not> open1 then (Inr (), s1)
              else case (if from_upstream then relay_one env UPSTREAM s1 else (Inr True, s1)) of
                  (Inl e, s2) \<Rightarrow> (Inl e, s2)
                | (Inr open2, s2) \<Rightarrow> if \<not> open2 then (Inr (), s2) else relay_bidirectional env s2)"
  by pat_completeness auto
termination
  by (relation "measure (\<lambda>(_, s). io_pending s)")
     (auto split: if_splits dest!: relay_one_pending [OF sym] simp: io_pending_clock)

declare relay_bidirectional.simps [simp del]

section \<open>Handling a client\<close>

fun block_reason_value :: "egress_block_reason \<Rightarrow> string" where
  "block_reason_value INVALID_TARGET = ''invalid_target''"
| "block_reason_value UNSUPPORTED_TRANSPORT = ''unsupported_transport''"
| "block_reason_value DNS_RESOLUTION_FAILED = ''dns_resolution_failed''"
| "block_reason_value NO_ADDRESSES = ''no_addresses''"
| "block_reason_value MIXED_ADDRESS_SCOPE = ''mixed_address_scope''"
| "block_reason_value IPV4_MAPPED = ''ipv4_mapped''"
| "block_reason_value NETWORK_METADATA = ''network_metadata''"
| "block_reason_value UNSPECIFIED = ''unspecified''"
| "block_reason_value LOOPBACK = ''loopback''"
| "block_reason_value LINK_LOCAL = ''link_local''"
| "block_reason_value PRIVATE = ''private''"
| "block_reason_value SHARED = ''shared''"
| "block_reason_value MULTICAST = ''multicast''"
| "block_reason_value RESERVED = ''reserved''"
| "block_reason_value NON_GLOBAL = ''non_global''"

definition blocked_error :: "egress_block_reason \<Rightarrow> celesto_error" where
  "blocked_error reason = ProxyRequestError 403 (''Connection blocked: '' @ block_reason_value reason @ ''.'')"

definition open_upstream :: "proxy_env \<Rightarrow> egress_decision \<Rightarrow> (proxy_io, unit) op" where
  "open_upstream env decision s =
     (case ed_endpoint decision of
        Some endpoint \<Rightarrow>
          if \<not> ed_allowed decision
          then (Inl (blocked_error (case ed_block_reason decision of Some r \<Rightarrow> r | None \<Rightarrow> NON_GLOBAL)), s)
          else
            let a = ep_pinned_address endpoint; p = ep_port endpoint;
                s' = s\<lparr>io_dials := io_dials s @ [(a, p)], io_clock := Suc (io_clock s)\<rparr>
            in if pe_connect env (io_clock s) a p then (Inr (), s')
               else (Inl (ProxyRequestError 502 ''Upstream connection failed.''), s')
      | None \<Rightarrow> (Inl (blocked_error (case ed_block_reason decision of Some r \<Rightarrow> r | None \<Rightarrow> NON_GLOBAL)), s))"

definition HTTPS_CONNECT_PORTS :: "int list" where "HTTPS_CONNECT_PORTS = [443]"

definition handle_connect :: "proxy_env \<Rightarrow> parsed_request \<Rightarrow> (proxy_io, unit) op" where
  "handle_connect env request =
     bind (lift (parse_authority (pr_target request))) (\<lambda>(hostname, port).
     bind (raise_when (port \<notin> set HTTPS_CONNECT_PORTS) (blocked_error UNSUPPORTED_TRANSPORT)) (\<lambda>_.
     bind (open_upstream env (decide_public_egress (pe_resolve env)
             \<lparr>er_hostname = hostname, er_port = port, er_transport = HTTPS, er_kind = SUBRESOURCE\<rparr>)) (\<lambda>_.
     bind (sendall env CLIENT (''HTTP/1.1 200 Connection Established'' @ CRLF @ CRLF)) (\<lambda>_.
     bind (if pr_body_prefix request \<noteq> [] then sendall env UPSTREAM (pr_body_prefix request) else ret ()) (\<lambda>_.
       relay_bidirectional env)))))"

definition http_egress_request :: "parsed_request \<Rightarrow> string \<Rightarrow> int option \<Rightarrow> egress_request" where
  "http_egress_request request hostname port =
     \<lparr>er_hostname = hostname, er_port = (case port of None \<Rightarrow> 80 | Some p \<Rightarrow> if p = 0 then 80 else p),
      er_transport = (if is_websocket request then WEBSOCKET else HTTP),
      er_kind = (if is_websocket request then KIND_WEBSOCKET else SUBRESOURCE)\<rparr>"

definition handle_http :: "proxy_env \<Rightarrow> parsed_request \<Rightarrow> (proxy_io, unit) op" where
  "handle_http env request =
     bind (lift (parse_absolute_http_target (pr_target request))) (\<lambda>(parsed, hostname, port).
     bind (lift (request_body_remaining request)) (\<lambda>remaining_body.
     bind (open_upstream env (decide_public_egress (pe_resolve env) (http_egress_request request hostname port))) (\<lambda>_.
     bind (sendall env UPSTREAM (origin_form_request request parsed)) (\<lambda>_.
     bind (forward_request_body env remaining_body) (\<lambda>_.
       if is_websocket request then relay_bidirectional env else relay_response env)))))"

fun status_phrase :: "nat \<Rightarrow> string" where
  "status_phrase status =
     (if status = 400 then ''Bad Request'' else if status = 403 then ''Forbidden''
      else if status = 431 then ''Request Header Fields Too Large''
      else if status = 501 then ''Not Implemented'' else ''Bad Gateway'')"

definition error_response :: "nat \<Rightarrow> string \<Rightarrow> string" where
  "error_response status reason =
     ''HTTP/1.1 '' @ string_of_nat status @ '' '' @ status_phrase status @ CRLF @
     ''Content-Type: text/plain; charset=utf-8'' @ CRLF @
     ''Content-Length: '' @ string_of_nat (length reason) @ CRLF @
     ''Connection: close'' @ CRLF @ CRLF @ reason"

fun is_oserror :: "celesto_error \<Rightarrow> bool" where
  "is_oserror (OSError _) = True"
| "is_oserror _ = False"

definition send_error :: "proxy_env \<Rightarrow> nat \<Rightarrow> string \<Rightarrow> (proxy_io, unit) op" where
  "send_error env status reason = catch is_oserror (sendall env CLIENT (error_response status reason)) (\<lambda>_. ret ())"

fun is_proxy_error :: "celesto_error \<Rightarrow> bool" where
  "is_proxy_error (ProxyRequestError _ _) = True"
| "is_proxy_error (OSError _) = True"
| "is_proxy_error _ = False"

fun answer_error :: "proxy_env \<Rightarrow> celesto_error \<Rightarrow> (proxy_io, unit) op" where
  "answer_error env (ProxyRequestError status reason) = send_error env status reason"
| "answer_error env _ = send_error env 502 ''Upstream connection failed.''"

definition handle_client :: "proxy_env \<Rightarrow> (proxy_io, unit) op" where
  "handle_client env =
     catch is_proxy_error
       (bind read_request (\<lambda>request.
          if pr_method request = ''CONNECT'' then handle_connect env request else handle_http env request))
       (answer_error env)"

end
