(* ===== verification/Egress_Proxy_Props.thy ===== *)
theory Egress_Proxy_Props
  imports Egress_Proxy
begin

text \<open>
  What the proxy guarantees: it connects to checked public addresses only, and what it forwards is one well-formed request
  with the declared body.
\<close>

section \<open>Invariants of the loops\<close>

text \<open>
  Every exception that a run raises is one that \<open>_handle_client\<close> answers, with a status of at least 400.
\<close>

fun answerable :: "celesto_error \<Rightarrow> bool" where
  "answerable (ProxyRequestError status _) = (400 \<le> status)"
| "answerable (OSError _) = True"
| "answerable _ = False"

lemma answerable_proxy_error: "answerable e \<Longrightarrow> is_proxy_error e"
  by (cases e) simp_all

text \<open>An operation sustains an invariant when it keeps it and raises answerable exceptions only.\<close>

definition sustains :: "(proxy_io \<Rightarrow> bool) \<Rightarrow> (proxy_io, 'a) op \<Rightarrow> bool" where
  "sustains I m \<longleftrightarrow> (\<forall>s. I s \<longrightarrow> wpre m (\<lambda>_. I) (\<lambda>e t. answerable e \<and> I t) s)"

named_theorems sustain \<open>operations that sustain an invariant\<close>

lemma sustainsD: "sustains I m \<Longrightarrow> I s \<Longrightarrow> wpre m (\<lambda>_. I) (\<lambda>e t. answerable e \<and> I t) s"
  by (simp add: sustains_def)

lemma sustains_basic [sustain]: "sustains I (ret x)"
  by (simp add: sustains_def wp)

lemma sustains_bind [sustain]: "sustains I m \<Longrightarrow> (\<And>x. sustains I (f x)) \<Longrightarrow> sustains I (bind m f)"
  unfolding sustains_def wpre_bind by (blast intro: wpre_mono)

lemma sustains_if [sustain]: "(b \<Longrightarrow> sustains I m) \<Longrightarrow> (\<not> b \<Longrightarrow> sustains I m') \<Longrightarrow> sustains I (if b then m else m')"
  by simp

text \<open>An invariant that receiving keeps is kept by the loop that only receives.\<close>

locale proxy_reads =
  fixes I :: "proxy_io \<Rightarrow> bool"
  assumes recv_keeps: "keeps I (sock_recv from n)"
begin

lemma wpre_recv:
  assumes "I s"
  shows "wpre (sock_recv from n) (\<lambda>_. I) (\<lambda>e t. answerable e \<and> I t) s"
proof (rule wpre_I)
  fix r s' assume run: "sock_recv from n s = (r, s')"
  have I: "I s'" using keeps_run [OF recv_keeps assms run] .
  have "r = Inl e \<Longrightarrow> answerable e" for e
    using run by (cases "from"; cases "(n, if from = CLIENT then io_client s else io_upstream s)" rule: recv_from.cases)
      (auto split: if_splits prod.splits)
  then show "case r of Inl e \<Rightarrow> answerable e \<and> I s' | Inr _ \<Rightarrow> I s'" using I by (cases r) auto
qed

lemma wpre_read_head:
  assumes "I s"
  shows "wpre (read_head buffer) (\<lambda>_. I) (\<lambda>e t. answerable e \<and> I t) s"
  using assms
proof (induction buffer s rule: read_head.induct)
  case (1 buffer s)
  obtain r s' where run: "sock_recv CLIENT READ_CHUNK_BYTES s = (r, s')" by fastforce
  have r: "case r of Inl e \<Rightarrow> answerable e \<and> I s' | Inr _ \<Rightarrow> I s'"
    using wpre_D [OF wpre_recv [OF 1(2)] run] .
  show ?case
    using 1(1) [OF _ run [symmetric]] r 1(2) run
    by (cases r) (auto simp: wpre_def read_head.simps [of buffer s] BAD_REQUEST_def simp del: sock_recv.simps)
qed

lemma wpre_read_request:
  assumes "I s"
  shows "wpre read_request (\<lambda>_. I) (\<lambda>e t. answerable e \<and> I t) s"
  unfolding read_request_def wpre_bind
  by (rule wpre_mono [OF wpre_read_head [OF assms]])
     (auto simp: wp parse_request_def BAD_REQUEST_def Let_def split: sum.splits option.splits prod.splits if_splits)

end

text \<open>An invariant that sending and waiting keep as well is kept by the loops that forward.\<close>

locale proxy_forwards = proxy_reads +
  assumes send_keeps: "keeps I (sendall env to d)"
    and clock_keeps: "I s \<Longrightarrow> I (s\<lparr>io_clock := t\<rparr>)"
begin

lemma wpre_send:
  assumes "I s"
  shows "wpre (sendall env to d) (\<lambda>_. I) (\<lambda>e t. answerable e \<and> I t) s"
proof (rule wpre_I)
  fix r s' assume run: "sendall env to d s = (r, s')"
  have "I s'" using keeps_run [OF send_keeps assms run] .
  then show "case r of Inl e \<Rightarrow> answerable e \<and> I s' | Inr _ \<Rightarrow> I s'"
    using run by (auto simp: sendall_def Let_def split: option.splits)
qed

lemma sustains_calls [sustain]: "sustains I (sock_recv from n)" "sustains I (sendall env to d)"
  by (simp_all add: sustains_def wpre_recv wpre_send)

lemma wpre_relay_one:
  "I s \<Longrightarrow> wpre (relay_one env from) (\<lambda>_. I) (\<lambda>e t. answerable e \<and> I t) s"
  unfolding relay_one_def by (rule sustainsD) (intro sustain)

lemma wpre_forward_request_body:
  assumes "I s"
  shows "wpre (forward_request_body env n) (\<lambda>_. I) (\<lambda>e t. answerable e \<and> I t) s"
  using assms
proof (induction env n s rule: forward_request_body.induct)
  case (1 env n s)
  obtain r s' where run: "sock_recv CLIENT (min READ_CHUNK_BYTES n) s = (r, s')" by fastforce
  obtain q s'' where sent: "sendall env UPSTREAM (projr r) s' = (q, s'')" by fastforce
  have r: "case r of Inl e \<Rightarrow> answerable e \<and> I s' | Inr _ \<Rightarrow> I s'"
    using wpre_D [OF wpre_recv [OF 1(2)] run] .
  have q: "I s' \<Longrightarrow> case q of Inl e \<Rightarrow> answerable e \<and> I s'' | Inr _ \<Rightarrow> I s''"
    using wpre_D [OF wpre_send sent] .
  have IH: "wpre (forward_request_body env (n - length d)) (\<lambda>_. I) (\<lambda>e t. answerable e \<and> I t) s''"
    if "n \<noteq> 0" "r = Inr d" "d \<noteq> []" "q = Inr ()" "I s''" for d
    using 1(1) [OF that(1) run [symmetric] that(2,3), of q s'' "()"] sent that by simp
  show ?case
    using IH r q 1(2) run sent
    by (cases r; cases q) (auto simp: wpre_def forward_request_body.simps [of env n s] BAD_REQUEST_def simp del: sock_recv.simps)
qed

lemma wpre_relay_response:
  assumes "I s"
  shows "wpre (relay_response env) (\<lambda>_. I) (\<lambda>e t. answerable e \<and> I t) s"
  using assms
proof (induction env s rule: relay_response.induct)
  case (1 env s)
  obtain r s' where run: "sock_recv UPSTREAM READ_CHUNK_BYTES s = (r, s')" by fastforce
  obtain q s'' where sent: "sendall env CLIENT (projr r) s' = (q, s'')" by fastforce
  have r: "case r of Inl e \<Rightarrow> answerable e \<and> I s' | Inr _ \<Rightarrow> I s'"
    using wpre_D [OF wpre_recv [OF 1(2)] run] .
  have q: "I s' \<Longrightarrow> case q of Inl e \<Rightarrow> answerable e \<and> I s'' | Inr _ \<Rightarrow> I s''"
    using wpre_D [OF wpre_send sent] .
  have IH: "wpre (relay_response env) (\<lambda>_. I) (\<lambda>e t. answerable e \<and> I t) s''"
    if "r = Inr d" "d \<noteq> []" "q = Inr ()" "I s''" for d
    using 1(1) [OF run [symmetric] that(1,2), of q s'' "()"] sent that by simp
  show ?case
    using IH r q 1(2) run sent
    by (cases r; cases q) (auto simp: wpre_def relay_response.simps [of env s] simp del: sock_recv.simps)
qed

lemma wpre_relay_bidirectional:
  assumes "I s"
  shows "wpre (relay_bidirectional env) (\<lambda>_. I) (\<lambda>e t. answerable e \<and> I t) s"
  using assms
proof (induction env s rule: relay_bidirectional.induct)
  case (1 env s)
  obtain l r where sel: "pe_select env (io_clock s) = (l, r)" by fastforce
  define s0 where "s0 = s\<lparr>io_clock := Suc (io_clock s)\<rparr>"
  obtain qa s1 where a: "(if l then relay_one env CLIENT s0 else (Inr True, s0)) = (qa, s1)" by fastforce
  obtain qb s2 where b: "(if r then relay_one env UPSTREAM s1 else (Inr True, s1)) = (qb, s2)" by fastforce
  have s0: "I s0" unfolding s0_def by (rule clock_keeps [OF 1(2)])
  have qa: "case qa of Inl e \<Rightarrow> answerable e \<and> I s1 | Inr _ \<Rightarrow> I s1"
    using a wpre_D [OF wpre_relay_one [OF s0], of env CLIENT] s0 by (auto split: if_splits)
  then have qb: "I s1 \<Longrightarrow> case qb of Inl e \<Rightarrow> answerable e \<and> I s2 | Inr _ \<Rightarrow> I s2"
    using b wpre_D [OF wpre_relay_one, of s1 env UPSTREAM] by (auto split: if_splits)
  have IH: "wpre (relay_bidirectional env) (\<lambda>_. I) (\<lambda>e t. answerable e \<and> I t) s2"
    if "l \<or> r" "qa = Inr True" "qb = Inr True" "I s2"
    using 1(1) [OF sel [symmetric] s0_def] a b that by auto
  show ?case
    using IH qa qb s0 a b
    by (cases qa; cases qb)
       (auto simp: wpre_def relay_bidirectional.simps [of env s] sel Let_def simp flip: s0_def)
qed

lemma sustains_loops [sustain]:
  "sustains I (forward_request_body env n)" "sustains I (relay_response env)" "sustains I (relay_bidirectional env)"
  by (simp_all add: sustains_def wpre_forward_request_body wpre_relay_response wpre_relay_bidirectional)

end

section \<open>Where the proxy connects\<close>

definition public_endpoint :: "ip_address \<Rightarrow> int \<Rightarrow> bool" where
  "public_endpoint a p \<longleftrightarrow> ip_in_range a \<and> ac_allowed (classify_public_address a) \<and> 1 \<le> p \<and> p \<le> 65535"

text \<open>Between \<open>s\<close> and \<open>t\<close> the proxy opened one connection, to port \<open>p\<close> of a public address, or wrote nothing at all.\<close>

definition connected :: "int option \<Rightarrow> proxy_io \<Rightarrow> proxy_io \<Rightarrow> bool" where
  "connected p s t \<longleftrightarrow> (\<exists>a q. io_dials t = io_dials s @ [(a, q)] \<and> public_endpoint a q \<and> (p = None \<or> p = Some q))"

definition silent :: "proxy_io \<Rightarrow> proxy_io \<Rightarrow> bool" where
  "silent s t \<longleftrightarrow> io_dials t = io_dials s \<and> io_to_upstream t = io_to_upstream s \<and> io_to_client t = io_to_client s"

lemma connected_any: "connected p s t \<Longrightarrow> connected None s t"
  by (auto simp: connected_def)

lemma keeps_outputs:
  "keeps (\<lambda>s. P (io_dials s) (io_to_upstream s) (io_to_client s)) (sock_recv from n)"
  by (rule keepsI, cases "from") (auto split: prod.splits)

interpretation reading: proxy_reads "silent s" for s
  unfolding silent_def by unfold_locales (rule keeps_outputs)

interpretation tunnel: proxy_forwards "connected p s" for p s
proof
  show "keeps (connected p s) (sock_recv from n)" for "from" n
    unfolding connected_def by (rule keeps_outputs)
  show "keeps (connected p s) (sendall env to d)" for env to d
    by (rule keepsI, cases to) (auto simp: connected_def sendall_def Let_def split: option.splits)
qed (simp add: connected_def)

lemma wpre_open_upstream:
  "wpre (open_upstream env (decide_public_egress resolve req)) (\<lambda>_. connected (Some (er_port req)) s)
     (\<lambda>e t. answerable e \<and> (connected (Some (er_port req)) s t \<or> t = s)) s"
proof (cases "ed_endpoint (decide_public_egress resolve req)")
  case None
  then show ?thesis by (simp add: wpre_def open_upstream_def blocked_error_def)
next
  case (Some ep)
  then have "ed_allowed (decide_public_egress resolve req)" "ep_port ep = er_port req"
    "public_endpoint (ep_pinned_address ep) (er_port req)"
    using decide_outcome [of resolve req] by (auto simp: public_endpoint_def list_all_iff)
  then show ?thesis by (simp add: wpre_def open_upstream_def Some Let_def connected_def)
qed

text \<open>A handler that fails before it connects has written nothing.\<close>

lemma wpre_then_tunnel:
  assumes "\<And>x. sustains (connected (Some p) s) (f x)" "er_port req = p"
  shows "wpre (bind (open_upstream env (decide_public_egress resolve req)) f) (\<lambda>_. connected (Some p) s)
     (\<lambda>e t. answerable e \<and> (connected (Some p) s t \<or> silent s t)) s"
  unfolding wpre_bind
  by (rule wpre_mono [OF wpre_open_upstream])
     (auto simp: assms(2) silent_def intro: wpre_mono [OF sustainsD [OF assms(1)]])

lemma wpre_bind_steps:
  "wpre (bind (lift (Inr x)) f) Q R s \<longleftrightarrow> wpre (f x) Q R s"
  "\<not> b \<Longrightarrow> wpre (bind (raise_when b e) g) Q R s \<longleftrightarrow> wpre (g ()) Q R s"
  by (simp_all add: wp)

lemma wpre_handle_connect:
  "wpre (handle_connect env r) (\<lambda>_. connected (Some 443) s)
     (\<lambda>e t. answerable e \<and> (connected (Some 443) s t \<or> silent s t)) s"
proof (cases "parse_authority (pr_target r)")
  case (Inl e)
  then have "answerable e"
    by (auto simp: parse_authority_def BAD_REQUEST_def Let_def split: option.splits sum.splits if_splits)
  then show ?thesis using Inl by (simp add: handle_connect_def wp silent_def)
next
  case (Inr hp)
  obtain h p where hp: "hp = (h, p)" by fastforce
  show ?thesis
  proof (cases "p = 443")
    case True
    show ?thesis
      unfolding handle_connect_def Inr hp True wpre_bind_steps(1) case_prod_conv
      by (subst wpre_bind_steps(2), simp add: HTTPS_CONNECT_PORTS_def, rule wpre_then_tunnel)
         (intro sustain tunnel.sustains_calls tunnel.sustains_loops, simp)
  next
    case False
    then show ?thesis by (simp add: handle_connect_def Inr hp HTTPS_CONNECT_PORTS_def wp silent_def blocked_error_def)
  qed
qed

lemma wpre_handle_http:
  "wpre (handle_http env r) (\<lambda>_. connected None s) (\<lambda>e t. answerable e \<and> (connected None s t \<or> silent s t)) s"
proof (cases "parse_absolute_http_target (pr_target r)")
  case (Inl e)
  then have "answerable e"
    by (auto simp: parse_absolute_http_target_def BAD_REQUEST_def Let_def split: option.splits sum.splits if_splits)
  then show ?thesis using Inl by (simp add: handle_http_def wp silent_def)
next
  case (Inr x)
  obtain u h p where x: "x = (u, h, p)" by (cases x) auto
  note target = Inr [unfolded x]
  show ?thesis
  proof (cases "request_body_remaining r")
    case (Inl e)
    then have "answerable e"
      by (auto simp: request_body_remaining_def BAD_REQUEST_def Let_def split: option.splits if_splits list.splits)
    then show ?thesis using Inl target by (simp add: handle_http_def wp silent_def)
  next
    case (Inr n)
    show ?thesis
      unfolding handle_http_def target Inr wpre_bind_steps(1) case_prod_conv
      by (rule wpre_mono [OF wpre_then_tunnel [OF _ refl]])
         (intro sustain tunnel.sustains_calls tunnel.sustains_loops | auto dest: connected_any)+
  qed
qed

text \<open>The answer to an exception is one response, cut short only when the guest's connection fails.\<close>

definition refused :: "proxy_env \<Rightarrow> proxy_io \<Rightarrow> proxy_io \<Rightarrow> bool" where
  "refused env s t \<longleftrightarrow> io_dials t = io_dials s \<and> io_to_upstream t = io_to_upstream s \<and>
     (\<exists>status reason k. 400 \<le> status \<and> io_to_client t = io_to_client s @ take k (error_response status reason) \<and>
        (k < length (error_response status reason) \<longrightarrow> (\<exists>t. pe_send env t \<noteq> None)))"

lemma refusedI:
  assumes "io_dials t = io_dials s" "io_to_upstream t = io_to_upstream s" "400 \<le> st"
    "io_to_client t = io_to_client s @ take k (error_response st re)"
    "k < length (error_response st re) \<Longrightarrow> pe_send env x \<noteq> None"
  shows "refused env s t"
  using assms unfolding refused_def by blast

lemma send_error_run:
  "send_error env st re s1 =
     (Inr (), put_bytes CLIENT (case pe_send env (io_clock s1) of None \<Rightarrow> error_response st re | Some k \<Rightarrow> take k (error_response st re))
        (s1\<lparr>io_clock := Suc (io_clock s1)\<rparr>))"
  by (simp add: send_error_def catch_def sendall_def Let_def ret_def split: option.split)

lemma wpre_send_error:
  assumes "400 \<le> st" "silent s s1"
  shows "wpre (send_error env st re) (\<lambda>_. refused env s) (\<lambda>_ _. False) s1"
proof (cases "pe_send env (io_clock s1)")
  case None
  have "refused env s (snd (send_error env st re s1))"
    by (rule refusedI [where st = st and re = re and k = "length (error_response st re)"])
       (use assms None in \<open>simp_all add: send_error_run silent_def\<close>)
  then show ?thesis by (simp add: wpre_def send_error_run)
next
  case (Some k)
  have "refused env s (snd (send_error env st re s1))"
    by (rule refusedI [where st = st and re = re and k = k and x = "io_clock s1"])
       (use assms Some in \<open>simp_all add: send_error_run silent_def\<close>)
  then show ?thesis by (simp add: wpre_def send_error_run)
qed

lemma wpre_answer_error:
  assumes "answerable e" "silent s s1"
  shows "wpre (answer_error env e) (\<lambda>_. refused env s) (\<lambda>_ _. False) s1"
  using assms wpre_send_error by (cases e) simp_all

lemma wpre_answer_connected:
  assumes "answerable e" "connected p s s1"
  shows "wpre (answer_error env e) (\<lambda>_. connected p s) (\<lambda>_ _. False) s1"
  using assms by (cases e) (simp_all add: wpre_def send_error_run connected_def)

text \<open>
  \<^bold>\<open>C20\<close> The proxy connects to public addresses only. Handling a guest's connection never raises. Either exactly one connection
  is opened, to an address that the policy classifies as public, on a valid port, and on 443 when the guest asked for a tunnel; or
  no connection is opened, nothing is sent upstream, and the guest gets one error response with a status of at least
  400, of which a part is missing only if sending failed.
\<close>

theorem proxy_connects_public:
  assumes "handle_client env s = (r, s')"
  shows "r = Inr () \<and>
    ((\<exists>a p. io_dials s' = io_dials s @ [(a, p)] \<and> ip_in_range a \<and> ac_allowed (classify_public_address a) \<and>
        1 \<le> p \<and> p \<le> 65535 \<and>
        (case read_request s of (Inr request, _) \<Rightarrow> pr_method request = ''CONNECT'' \<longrightarrow> p = 443 | _ \<Rightarrow> False)) \<or>
     io_dials s' = io_dials s \<and> io_to_upstream s' = io_to_upstream s \<and>
     (\<exists>status reason k. 400 \<le> status \<and> io_to_client s' = io_to_client s @ take k (error_response status reason) \<and>
        (k < length (error_response status reason) \<longrightarrow> (\<exists>t. pe_send env t \<noteq> None))))"
proof -
  let ?port = "\<lambda>request. if pr_method request = ''CONNECT'' then Some 443 else None"
  let ?handle = "\<lambda>request. if pr_method request = ''CONNECT'' then handle_connect env request else handle_http env request"
  obtain q s1 where read: "read_request s = (q, s1)" by fastforce
  have q: "case q of Inl e \<Rightarrow> answerable e \<and> silent s s1 | Inr _ \<Rightarrow> silent s s1"
    using wpre_D [OF reading.wpre_read_request read, of s] by (simp add: silent_def)
  have goal: "wpre (handle_client env) (\<lambda>_ t. (case q of Inr request \<Rightarrow> connected (?port request) s t | Inl _ \<Rightarrow> False) \<or> refused env s t)
     (\<lambda>_ _. False) s"
  proof (cases q)
    case (Inl e)
    then have "wpre (answer_error env e) (\<lambda>_. refused env s) (\<lambda>_ _. False) s1" using q wpre_answer_error by auto
    then show ?thesis using Inl q read answerable_proxy_error
      by (auto simp: handle_client_def wpre_def catch_def bind_def split: prod.splits sum.splits)
  next
    case (Inr request)
    have h: "wpre (?handle request) (\<lambda>_. connected (?port request) s1)
        (\<lambda>e t. answerable e \<and> (connected (?port request) s1 t \<or> silent s1 t)) s1"
      using wpre_handle_connect wpre_handle_http by simp
    have moved: "connected p s1 t = connected p s t" "silent s1 t = silent s t" for p t
      using q Inr by (simp_all add: connected_def silent_def)
    have "wpre (catch is_proxy_error (?handle request) (answer_error env))
        (\<lambda>_ t. connected (?port request) s t \<or> refused env s t) (\<lambda>_ _. False) s1"
      unfolding wpre_catch
      by (rule wpre_mono [OF h])
         (auto simp: moved answerable_proxy_error intro: wpre_mono [OF wpre_answer_connected] wpre_mono [OF wpre_answer_error])
    then show ?thesis using Inr read
      by (simp add: handle_client_def wpre_def catch_def bind_def split: prod.splits sum.splits)
  qed
  show ?thesis
    using wpre_D [OF goal assms] read
    by (auto simp: refused_def connected_def public_endpoint_def split: sum.splits if_splits)
qed

section \<open>What the proxy forwards\<close>

subsection \<open>Lines\<close>

definition is_line :: "string \<Rightarrow> bool" where
  "is_line l \<longleftrightarrow> l \<noteq> [] \<and> CHR 0x0D \<notin> set l \<and> CHR 0x0A \<notin> set l"

lemma cut_at_skip:
  "CHR 0x0D \<notin> set a \<Longrightarrow>
   cut_at (CRLF @ CRLF) (a @ s) = map_option (\<lambda>(x, y). (a @ x, y)) (cut_at (CRLF @ CRLF) s)"
proof (induction a)
  case Nil
  then show ?case by (simp add: option.map_ident_strong split: prod.split)
next
  case (Cons c a)
  then have "\<not> starts_with (CRLF @ CRLF) (c # a @ s)" by (auto simp: starts_with_def CRLF_def)
  then show ?case using Cons by (simp add: option.map_comp comp_def case_prod_beta)
qed

lemma cut_at_lines:
  "ls \<noteq> [] \<Longrightarrow> list_all is_line ls \<Longrightarrow>
   cut_at (CRLF @ CRLF) (join_on CRLF ls @ CRLF @ CRLF @ b) = Some (join_on CRLF ls, b)"
proof (induction ls rule: induct_list012)
  case (2 x)
  have "cut_at (CRLF @ CRLF) (CRLF @ CRLF @ b) = Some ([], b)" by (simp add: CRLF_def starts_with_def)
  then show ?case using 2 by (simp add: is_line_def cut_at_skip del: append_assoc)
next
  case (3 x y ys)
  obtain c y' where y: "y = c # y'" "c \<noteq> CHR 0x0D" using 3(4) by (cases y) (auto simp: is_line_def)
  let ?r = "join_on CRLF (y # ys) @ CRLF @ CRLF @ b"
  obtain r where r: "?r = c # r" using y by (cases ys) simp_all
  have "cut_at (CRLF @ CRLF) (CRLF @ ?r) = map_option (\<lambda>(a, b). (CRLF @ a, b)) (cut_at (CRLF @ CRLF) ?r)"
    unfolding r using y(2) by (simp add: CRLF_def starts_with_def option.map_comp comp_def case_prod_beta)
  then show ?case using 3 by (simp add: is_line_def cut_at_skip)
qed simp

lemma split_crlf_neq_Nil [simp]: "split_crlf s \<noteq> []"
  by (induction s rule: split_crlf.induct) (auto split: list.split)

lemma split_crlf_line: "CHR 0x0D \<notin> set x \<Longrightarrow> split_crlf x = [x]"
  by (induction x rule: split_crlf.induct) auto

lemma split_crlf_append: "CHR 0x0D \<notin> set x \<Longrightarrow> split_crlf (x @ CRLF @ s) = x # split_crlf s"
proof (induction x)
  case (Cons c x)
  then show ?case by (cases x) (auto simp: CRLF_def)
qed (simp add: CRLF_def)

lemma split_crlf_join: "ls \<noteq> [] \<Longrightarrow> list_all is_line ls \<Longrightarrow> split_crlf (join_on CRLF ls) = ls"
  by (induction ls rule: induct_list012) (simp_all add: is_line_def split_crlf_line split_crlf_append)

subsection \<open>Requests\<close>

text \<open>What the parser guarantees for the parts of a request.\<close>

definition is_word :: "string \<Rightarrow> bool" where
  "is_word t \<longleftrightarrow> is_ascii t \<and> CHR '' '' \<notin> set t \<and> CHR 0x0D \<notin> set t \<and> CHR 0x0A \<notin> set t"

definition request_ok :: "parsed_request \<Rightarrow> bool" where
  "request_ok r \<longleftrightarrow> pr_method r \<noteq> [] \<and> is_word (pr_method r) \<and> upper (pr_method r) = pr_method r \<and> is_word (pr_target r) \<and>
     is_ascii (pr_version r) \<and> CHR 0x0D \<notin> set (pr_version r) \<and> CHR 0x0A \<notin> set (pr_version r) \<and>
     starts_with ''HTTP/1.'' (pr_version r) \<and>
     list_all (\<lambda>l. is_line l \<and> header_line_ok l) (pr_header_lines r)"

lemma of_char_upper:
  "(of_char (upper_char c) :: nat) = (if 97 \<le> (of_char c :: nat) \<and> (of_char c :: nat) \<le> 122 then of_char c - 32 else of_char c)"
  by (auto simp: upper_char_def)

lemma upper_char_eq:
  assumes "(of_char d :: nat) < 65"
  shows "d = upper_char c \<longleftrightarrow> d = c"
proof -
  have "d = upper_char c \<longleftrightarrow> (of_char d :: nat) = of_char (upper_char c)" by (simp only: of_char_eq_iff)
  also have "\<dots> \<longleftrightarrow> (of_char d :: nat) = of_char c" using assms by (auto simp: of_char_upper)
  finally show ?thesis by (simp only: of_char_eq_iff)
qed

lemma upper_char_idem: "upper_char (upper_char c) = upper_char c"
proof -
  have "(of_char (upper_char (upper_char c)) :: nat) = of_char (upper_char c)" by (auto simp: of_char_upper)
  then show ?thesis by (simp only: of_char_eq_iff)
qed

lemma set_upper: "(of_char d :: nat) < 65 \<Longrightarrow> d \<in> set (upper m) \<longleftrightarrow> d \<in> set m"
  by (simp add: upper_def image_iff upper_char_eq)

lemma upper_word: "is_word m \<Longrightarrow> is_word (upper m)" "upper (upper m') = upper m'" "upper m'' = [] \<longleftrightarrow> m'' = []"
  by (simp add: is_word_def set_upper) (auto simp: upper_def is_ascii_def list_all_iff of_char_upper upper_char_idem)

lemma parse_request_ok:
  assumes "parse_request buffer = Inr r"
  shows "request_ok r"
proof -
  obtain raw b m rest t v where p: "cut_at (CRLF @ CRLF) buffer = Some (raw, b)"
    "\<not> list_ex (\<lambda>line. CHR 0x0D \<in> set line \<or> CHR 0x0A \<in> set line) (split_crlf raw)"
    "partition_at (CHR '' '') (hd (split_crlf raw)) = Some (m, rest)" "partition_at (CHR '' '') rest = Some (t, v)"
    "is_ascii m" "is_ascii t" "is_ascii v" "m \<noteq> []" "starts_with ''HTTP/1.'' v" "list_all header_line_ok (tl (split_crlf raw))"
    "r = \<lparr>pr_method = upper m, pr_target = t, pr_version = v, pr_header_lines = tl (split_crlf raw), pr_body_prefix = b\<rparr>"
    using assms by (auto simp: parse_request_def Let_def split: option.splits if_splits)
  have first: "hd (split_crlf raw) = m @ CHR '' '' # t @ CHR '' '' # v" "CHR '' '' \<notin> set m" "CHR '' '' \<notin> set t"
    using p(3,4) by (auto simp: partition_at_Some)
  have lines: "split_crlf raw \<noteq> []" by simp
  have clean: "CHR 0x0D \<notin> set l \<and> CHR 0x0A \<notin> set l" if "l \<in> set (split_crlf raw)" for l
    using p(2) that by (auto simp: list_ex_iff)
  have h: "CHR 0x0D \<notin> set (hd (split_crlf raw)) \<and> CHR 0x0A \<notin> set (hd (split_crlf raw))"
    by (rule clean) (use lines in simp)
  have tail: "list_all (\<lambda>l. is_line l \<and> header_line_ok l) (tl (split_crlf raw))"
    unfolding list_all_iff
  proof (intro ballI conjI)
    fix l assume l: "l \<in> set (tl (split_crlf raw))"
    show ok: "header_line_ok l" using p(10) l by (simp add: list_all_iff)
    show "is_line l" using clean [OF list.set_sel(2) [OF lines l]] ok by (auto simp: is_line_def header_line_ok_def)
  qed
  have "is_word m" "is_word t" "CHR 0x0D \<notin> set v" "CHR 0x0A \<notin> set v" using h first p by (auto simp: is_word_def)
  then show ?thesis using p tail upper_word by (simp add: request_ok_def)
qed

lemma parse_request_print:
  assumes "m \<noteq> []" "is_word m" "upper m = m" "is_word t" "is_ascii v" "CHR 0x0D \<notin> set v" "CHR 0x0A \<notin> set v"
    "starts_with ''HTTP/1.'' v" "list_all (\<lambda>l. is_line l \<and> header_line_ok l) ls"
  shows "parse_request (join_on CRLF ((m @ '' '' @ t @ '' '' @ v) # ls) @ CRLF @ CRLF @ b) =
     Inr \<lparr>pr_method = m, pr_target = t, pr_version = v, pr_header_lines = ls, pr_body_prefix = b\<rparr>"
proof -
  let ?first = "m @ '' '' @ t @ '' '' @ v"
  have lines: "list_all is_line (?first # ls)" using assms by (auto simp: is_line_def is_word_def list_all_iff)
  have "partition_at (CHR '' '') ?first = Some (m, t @ '' '' @ v)" "partition_at (CHR '' '') (t @ '' '' @ v) = Some (t, v)"
    using assms by (simp_all add: partition_at_Some is_word_def)
  moreover have "list_all header_line_ok ls" using assms(9) by (simp add: list_all_iff)
  moreover have "\<not> list_ex (\<lambda>line. CHR 0x0D \<in> set line \<or> CHR 0x0A \<in> set line) (?first # ls)"
    using lines by (auto simp: list_ex_iff list_all_iff is_line_def)
  ultimately show ?thesis
    using assms cut_at_lines [OF _ lines, of b] split_crlf_join [OF _ lines]
    by (simp add: parse_request_def Let_def is_word_def del: join_on.simps)
qed

lemma list_set_tl: "set (tl xs) \<subseteq> set xs"
  by (cases xs) auto

lemma set_before_after: "set (before c s) \<subseteq> set s" "set (after c s) \<subseteq> set s"
proof -
  show "set (before c s) \<subseteq> set s" by (auto simp: before_def dest: set_takeWhileD)
  have "set (after c s) \<subseteq> set (dropWhile (\<lambda>x. x \<noteq> c) s)" unfolding after_def by (rule list_set_tl)
  then show "set (after c s) \<subseteq> set s" by (meson set_dropWhileD subset_iff)
qed

lemma past_two_checks: "(if b then None else if c then None else Some x) = Some u \<Longrightarrow> u = x"
  by (auto split: if_splits)

lemma urlsplit_chars:
  assumes "urlsplit raw = Some u"
  shows "set (pu_path u) \<subseteq> set raw" "set (pu_query u) \<subseteq> set raw"
proof -
  define url where "url = filter (\<lambda>c. c \<notin> {CHR 0x09, CHR 0x0D, CHR 0x0A}) (dropWhile (\<lambda>c. (of_char c :: nat) \<le> 32) raw)"
  define hs where "hs \<longleftrightarrow> CHR '':'' \<in> set url \<and> before (CHR '':'') url \<noteq> [] \<and> is_alpha_us (hd (before (CHR '':'') url)) \<and>
    hd (before (CHR '':'') url) \<noteq> CHR ''_'' \<and> list_all is_scheme_char (before (CHR '':'') url)"
  define rest where "rest = (if hs then after (CHR '':'') url else url)"
  define tail where "tail = (if starts_with ''//'' rest then dropWhile (\<lambda>c. c \<notin> set ''/?#'') (drop 2 rest) else rest)"
  note u = past_two_checks [OF assms [unfolded urlsplit_def Let_def, folded url_def, folded hs_def, folded rest_def, folded tail_def]]
  have "set url \<subseteq> set raw" by (auto simp: url_def dest: set_dropWhileD)
  then have "set rest \<subseteq> set raw" using set_before_after(2) by (auto simp: rest_def)
  then have "set tail \<subseteq> set raw" unfolding tail_def by (auto dest!: set_dropWhileD in_set_dropD)
  then have t: "set (before c (before d tail)) \<subseteq> set raw" "set (after c (before d tail)) \<subseteq> set raw" for c d
    using set_before_after by (meson subset_trans)+
  show "set (pu_path u) \<subseteq> set raw" "set (pu_query u) \<subseteq> set raw"
    unfolding u parsed_url.simps using t by blast+
qed

lemma origin_path_word:
  assumes "urlsplit t = Some u" "is_word t"
  shows "is_word (origin_path u)"
  using urlsplit_chars [OF assms(1)] assms(2)
  by (auto simp: origin_path_def is_word_def is_ascii_def list_all_iff Let_def subset_iff)

lemma request_forwarded_again:
  assumes "request_ok r" "parse_absolute_http_target (pr_target r) = Inr (u, h, p)"
  shows "parse_request (origin_form_request r u) =
     Inr \<lparr>pr_method = pr_method r, pr_target = origin_path u, pr_version = pr_version r,
          pr_header_lines = origin_lines r, pr_body_prefix = pr_body_prefix r\<rparr>"
proof -
  have "urlsplit (pr_target r) = Some u"
    using assms(2) by (auto simp: parse_absolute_http_target_def Let_def split: option.splits sum.splits if_splits)
  then have path: "is_word (origin_path u)" using origin_path_word assms(1) by (auto simp: request_ok_def)
  have conn: "is_line ''Connection: close''" "header_line_ok ''Connection: close''" "is_line ''Connection: Upgrade''"
    "header_line_ok ''Connection: Upgrade''"
    by code_simp+
  have "list_all (\<lambda>l. is_line l \<and> header_line_ok l) (origin_lines r)"
    using assms(1) conn unfolding origin_lines_def request_ok_def by (simp add: list_all_iff)
  with path assms(1) show ?thesis
    unfolding origin_form_request_def by (intro parse_request_print) (simp_all add: request_ok_def)
qed

subsection \<open>Bodies\<close>

fun sock_bytes :: "sock_event list \<Rightarrow> string" where
  "sock_bytes [] = []"
| "sock_bytes (FAULT # es) = sock_bytes es"
| "sock_bytes (DATA d # es) = d @ sock_bytes es"

lemma recv_from_bytes: "recv_from n es = (Inr d, es') \<Longrightarrow> sock_bytes es = d @ sock_bytes es'"
  by (induction n es rule: recv_from.induct) (auto split: if_splits)

lemma forwarded_body:
  assumes "forward_request_body env n s = (Inr (), s')"
  shows "\<exists>body. length body = n \<and> io_to_upstream s' = io_to_upstream s @ body \<and>
    sock_bytes (io_client s) = body @ sock_bytes (io_client s')"
  using assms
proof (induction env n s rule: forward_request_body.induct)
  case (1 env n s)
  show ?case
  proof (cases "n = 0")
    case True
    then show ?thesis using 1(2) by (simp add: forward_request_body.simps [of env 0 s])
  next
    case False
    obtain d es where recv: "recv_from (min READ_CHUNK_BYTES n) (io_client s) = (Inr d, es)" "d \<noteq> []"
      using 1(2) False
      by (auto simp: forward_request_body.simps [of env n s] split: prod.splits sum.splits if_splits)
    let ?s = "s\<lparr>io_client := es\<rparr>"
    have run: "sock_recv CLIENT (min READ_CHUNK_BYTES n) s = (Inr d, ?s)" using recv by simp
    obtain s2 where sent: "sendall env UPSTREAM d ?s = (Inr (), s2)" "forward_request_body env (n - length d) s2 = (Inr (), s')"
      using 1(2) False run recv(2)
      by (auto simp: forward_request_body.simps [of env n s] simp del: sock_recv.simps split: prod.splits sum.splits if_splits)
    have s2: "io_to_upstream s2 = io_to_upstream s @ d" "io_client s2 = es"
      using sent(1) by (auto simp: sendall_def Let_def split: option.splits)
    have len: "length d \<le> n" using sock_recv_length [OF run] by simp
    obtain body where "length body = n - length d" "io_to_upstream s' = io_to_upstream s2 @ body"
      "sock_bytes (io_client s2) = body @ sock_bytes (io_client s')"
      using 1(1) [OF False run [symmetric] refl recv(2) sent(1) [symmetric] refl sent(2)] by blast
    then show ?thesis using s2 len recv_from_bytes [OF recv(1)] by (intro exI [of _ "d @ body"]) simp
  qed
qed

lemma relay_response_upstream:
  assumes "relay_response env s = (r, s')"
  shows "io_to_upstream s' = io_to_upstream s \<and> io_client s' = io_client s"
  using assms
proof (induction env s rule: relay_response.induct)
  case (1 env s)
  obtain q s1 where run: "sock_recv UPSTREAM READ_CHUNK_BYTES s = (q, s1)" by fastforce
  have s1: "io_to_upstream s1 = io_to_upstream s" "io_client s1 = io_client s" using run by (auto split: prod.splits)
  obtain q2 s2 where sent: "sendall env CLIENT (projr q) s1 = (q2, s2)" by fastforce
  have s2: "io_to_upstream s2 = io_to_upstream s1" "io_client s2 = io_client s1"
    using sent by (auto simp: sendall_def Let_def split: option.splits)
  have IH: "io_to_upstream s' = io_to_upstream s2 \<and> io_client s' = io_client s2"
    if "q = Inr d" "d \<noteq> []" "q2 = Inr ()" "relay_response env s2 = (r, s')" for d
    using 1(1) [OF run [symmetric] that(1,2), of q2 s2 "()"] sent that by simp
  show ?case
    using 1(2) run sent s1 s2 IH
    by (cases q; cases q2) (auto simp: relay_response.simps [of env s] simp del: sock_recv.simps split: if_splits)
qed


section \<open>A run\<close>

text \<open>A guest posts four bytes to a literal address; the second half of the body arrives later.\<close>

definition demo_proxy_env :: proxy_env where
  "demo_proxy_env = \<lparr>pe_resolve = (\<lambda>_ _. None), pe_connect = (\<lambda>_ _ _. True), pe_send = (\<lambda>_. None), pe_select = (\<lambda>_. (False, False))\<rparr>"

definition demo_post :: string where
  "demo_post = ''POST http://8.8.8.8/x HTTP/1.1'' @ CRLF @ ''Proxy-Connection: a'' @ CRLF @ ''Content-Length: 4'' @ CRLF @ CRLF @ ''ab''"

definition demo_io :: "string \<Rightarrow> proxy_io" where
  "demo_io first = \<lparr>io_client = [DATA first, DATA ''cd''], io_upstream = [DATA ''HTTP/1.1 200 OK''], io_to_client = [], io_to_upstream = [],
     io_dials = [], io_clock = 0\<rparr>"

definition demo_request :: parsed_request where
  "demo_request = \<lparr>pr_method = ''POST'', pr_target = ''http://8.8.8.8/x'', pr_version = ''HTTP/1.1'',
     pr_header_lines = [''Proxy-Connection: a'', ''Content-Length: 4''], pr_body_prefix = ''ab''\<rparr>"

definition demo_url :: parsed_url where
  "demo_url = \<lparr>pu_scheme = ''http'', pu_netloc = ''8.8.8.8'', pu_path = ''/x'', pu_params = [], pu_query = [], pu_fragment = []\<rparr>"

definition demo_decision :: egress_decision where
  "demo_decision = \<lparr>ed_allowed = True,
     ed_endpoint = Some \<lparr>ep_hostname = ''8.8.8.8'', ep_port = 80, ep_resolved_addresses = [IPv4Address 134744072],
       ep_pinned_address = IPv4Address 134744072\<rparr>, ed_block_reason = None,
     ed_classifications = [\<lparr>ac_address = IPv4Address 134744072, ac_allowed = True, ac_block_reason = None\<rparr>]\<rparr>"

lemma demo_proxy_facts:
  "contains (CRLF @ CRLF) demo_post" "\<not> contains (CRLF @ CRLF) []" "parse_request demo_post = Inr demo_request"
  "parse_absolute_http_target (pr_target demo_request) = Inr (demo_url, ''8.8.8.8'', None)"
  "request_body_remaining demo_request = Inr 2" "\<not> is_websocket demo_request" "pr_method demo_request \<noteq> ''CONNECT''"
  "decide_public_egress (\<lambda>_ _. None) (http_egress_request demo_request ''8.8.8.8'' None) = demo_decision"
  "request_headers demo_request ''content-length'' = [''4'']" "demo_post \<noteq> []" "CRLF \<noteq> []"
  by code_simp+

lemma demo_read: "read_request (demo_io demo_post) = (Inr demo_request, (demo_io demo_post)\<lparr>io_client := [DATA ''cd'']\<rparr>)"
proof -
  have "length demo_post = 76" by (simp add: demo_post_def CRLF_def)
  then have "read_head [] (demo_io demo_post) = (Inr demo_post, (demo_io demo_post)\<lparr>io_client := [DATA ''cd'']\<rparr>)"
    by (simp add: read_head.simps [of "[]"] read_head.simps [of demo_post] demo_proxy_facts demo_io_def READ_CHUNK_BYTES_def
        MAX_HEADER_BYTES_def)
  then show ?thesis by (simp add: read_request_def bind_def lift_def demo_proxy_facts)
qed

definition demo_served :: proxy_io where
  "demo_served = \<lparr>io_client = [], io_upstream = [], io_to_client = ''HTTP/1.1 200 OK'',
     io_to_upstream = origin_form_request demo_request demo_url @ ''cd'', io_dials = [(IPv4Address 134744072, 80)], io_clock = Suc (Suc (Suc (Suc 0)))\<rparr>"

lemma demo_handled:
  "handle_http demo_proxy_env demo_request ((demo_io demo_post)\<lparr>io_client := [DATA ''cd'']\<rparr>) = (Inr (), demo_served)"
proof -
  let ?s = "\<lambda>c. \<lparr>io_client = c, io_upstream = [DATA ''HTTP/1.1 200 OK''], io_to_client = [],
     io_to_upstream = origin_form_request demo_request demo_url, io_dials = [(IPv4Address 134744072, 80)], io_clock = Suc (Suc 0)\<rparr>"
  have body: "forward_request_body demo_proxy_env 2 (?s [DATA ''cd'']) =
      (Inr (), (?s [])\<lparr>io_to_upstream := origin_form_request demo_request demo_url @ ''cd'', io_clock := Suc (Suc (Suc 0))\<rparr>)"
    by (simp add: forward_request_body.simps [of _ 2] forward_request_body.simps [of _ 0] READ_CHUNK_BYTES_def sendall_def demo_proxy_env_def)
  have answer: "relay_response demo_proxy_env ((?s [])\<lparr>io_to_upstream := origin_form_request demo_request demo_url @ ''cd'', io_clock := Suc (Suc (Suc 0))\<rparr>) =
      (Inr (), demo_served)"
    by (subst relay_response.simps, simp add: READ_CHUNK_BYTES_def sendall_def demo_proxy_env_def,
        subst relay_response.simps, simp add: READ_CHUNK_BYTES_def demo_served_def)
  show ?thesis
    using body answer
    by (simp add: handle_http_def demo_proxy_facts bind_def lift_def open_upstream_def demo_decision_def sendall_def Let_def
        demo_io_def demo_proxy_env_def)
qed


theorem proxy_connects_public_witness:
  "handle_client demo_proxy_env (demo_io demo_post) = (Inr (), demo_served) \<and> io_dials demo_served = [(IPv4Address 134744072, 80)] \<and>
   ac_allowed (classify_public_address (IPv4Address 134744072))"
proof -
  have run: "handle_client demo_proxy_env (demo_io demo_post) = (Inr (), demo_served)"
    by (simp add: handle_client_def catch_def bind_def demo_read demo_handled demo_proxy_facts)
  show ?thesis using proxy_connects_public [OF run] run by (auto simp: demo_served_def demo_io_def)
qed

end
