(* ===== verification/Egress_Relay.thy ===== *)
theory Egress_Relay
  imports Egress_Proxy_Props
begin

text \<open>
  The relay program that QEMU starts for each connection of a guest to its proxy (\<open>host/_public_egress_relay.py\<close>). It moves
  bytes between its standard input and output and the proxy's socket through two bounded buffers. One round of its loop is
  \<open>relay_round\<close>; what \<open>select\<close> reports and how many bytes a write takes (at least one, when the descriptor is
  writable) are up to the environment.
\<close>

section \<open>The program\<close>

definition BUFFER_LIMIT :: nat where "BUFFER_LIMIT = 64 * 1024"

record relay_state =
  rs_stdin :: "sock_event list"
  rs_upstream :: "sock_event list"
  rs_to_proxy :: string
  rs_to_guest :: string
  rs_input_open :: bool
  rs_upstream_open :: bool
  rs_write_open :: bool
  rs_sent_proxy :: string
  rs_sent_guest :: string
  rs_clock :: nat

text \<open>\<open>re_write\<close> is \<open>None\<close> for a write or a shutdown that raises, otherwise one less than the number of bytes it would take.\<close>

record relay_env =
  re_ready :: "nat \<Rightarrow> (bool \<times> bool) \<times> (bool \<times> bool)"
  re_write :: "nat \<Rightarrow> nat option"

definition relay_start :: "sock_event list \<Rightarrow> sock_event list \<Rightarrow> relay_state" where
  "relay_start stdin upstream =
     \<lparr>rs_stdin = stdin, rs_upstream = upstream, rs_to_proxy = [], rs_to_guest = [], rs_input_open = True, rs_upstream_open = True,
      rs_write_open = True, rs_sent_proxy = [], rs_sent_guest = [], rs_clock = 0\<rparr>"

definition read_guest :: "(relay_state, unit) op" where
  "read_guest s =
     (case recv_from (BUFFER_LIMIT - length (rs_to_proxy s)) (rs_stdin s) of
        (Inl e, es) \<Rightarrow> (Inl e, s\<lparr>rs_stdin := es\<rparr>)
      | (Inr chunk, es) \<Rightarrow>
          (Inr (), s\<lparr>rs_stdin := es, rs_input_open := chunk \<noteq> [], rs_to_proxy := rs_to_proxy s @ chunk\<rparr>))"

definition read_proxy :: "(relay_state, unit) op" where
  "read_proxy s =
     (case recv_from (BUFFER_LIMIT - length (rs_to_guest s)) (rs_upstream s) of
        (Inl e, es) \<Rightarrow> (Inl e, s\<lparr>rs_upstream := es\<rparr>)
      | (Inr chunk, es) \<Rightarrow>
          (Inr (), s\<lparr>rs_upstream := es, rs_upstream_open := chunk \<noteq> [], rs_to_guest := rs_to_guest s @ chunk\<rparr>))"

definition write_proxy :: "relay_env \<Rightarrow> (relay_state, unit) op" where
  "write_proxy env s =
     (case re_write env (rs_clock s) of
        None \<Rightarrow> (Inl (OSError ''send''), s\<lparr>rs_clock := Suc (rs_clock s)\<rparr>)
      | Some k \<Rightarrow>
          (Inr (), s\<lparr>rs_to_proxy := drop (Suc k) (rs_to_proxy s),
             rs_sent_proxy := rs_sent_proxy s @ take (Suc k) (rs_to_proxy s), rs_clock := Suc (rs_clock s)\<rparr>))"

definition write_guest :: "relay_env \<Rightarrow> (relay_state, unit) op" where
  "write_guest env s =
     (case re_write env (rs_clock s) of
        None \<Rightarrow> (Inl (OSError ''write''), s\<lparr>rs_clock := Suc (rs_clock s)\<rparr>)
      | Some k \<Rightarrow>
          (Inr (), s\<lparr>rs_to_guest := drop (Suc k) (rs_to_guest s),
             rs_sent_guest := rs_sent_guest s @ take (Suc k) (rs_to_guest s), rs_clock := Suc (rs_clock s)\<rparr>))"

definition shut_writing :: "relay_env \<Rightarrow> (relay_state, unit) op" where
  "shut_writing env s =
     (if \<not> rs_input_open s \<and> rs_to_proxy s = [] \<and> rs_write_open s
      then (case re_write env (rs_clock s) of
              None \<Rightarrow> (Inl (OSError ''shutdown''), s\<lparr>rs_clock := Suc (rs_clock s)\<rparr>)
            | Some _ \<Rightarrow> (Inr (), s\<lparr>rs_write_open := False, rs_clock := Suc (rs_clock s)\<rparr>))
      else (Inr (), s))"

definition relay_going :: "relay_state \<Rightarrow> bool" where
  "relay_going s \<longleftrightarrow> rs_upstream_open s \<or> rs_to_guest s \<noteq> []"

definition may_read_guest :: "relay_state \<Rightarrow> bool" where
  "may_read_guest s \<longleftrightarrow> rs_input_open s \<and> length (rs_to_proxy s) < BUFFER_LIMIT"

definition may_read_proxy :: "relay_state \<Rightarrow> bool" where
  "may_read_proxy s \<longleftrightarrow> rs_upstream_open s \<and> length (rs_to_guest s) < BUFFER_LIMIT"

text \<open>The descriptors of a round: standard input, the socket for reading, the socket for writing, standard output.\<close>

definition relay_select :: "relay_env \<Rightarrow> relay_state \<Rightarrow> (bool \<times> bool) \<times> (bool \<times> bool)" where
  "relay_select env s =
     (case re_ready env (rs_clock s) of ((i, u), (w, g)) \<Rightarrow>
        ((i \<and> may_read_guest s, u \<and> may_read_proxy s), (w \<and> rs_to_proxy s \<noteq> [], g \<and> rs_to_guest s \<noteq> [])))"

text \<open>One round: \<open>False\<close> when nothing became ready in time.\<close>

definition relay_round :: "relay_env \<Rightarrow> (relay_state, bool) op" where
  "relay_round env =
     bind (gets (relay_select env)) (\<lambda>((i, u), (w, g)).
     bind (modify (\<lambda>s. s\<lparr>rs_clock := Suc (rs_clock s)\<rparr>)) (\<lambda>_.
     if \<not> i \<and> \<not> u \<and> \<not> w \<and> \<not> g then ret False
     else
       bind (if i then read_guest else ret ()) (\<lambda>_.
       bind (if u then read_proxy else ret ()) (\<lambda>_.
       bind (if w then write_proxy env else ret ()) (\<lambda>_.
       bind (if g then write_guest env else ret ()) (\<lambda>_.
       bind (shut_writing env) (\<lambda>_. ret True)))))))"

section \<open>Progress\<close>

definition relay_left :: "relay_state \<Rightarrow> nat" where
  "relay_left s = 2 * (sock_pending (rs_stdin s) + sock_pending (rs_upstream s)) + length (rs_to_proxy s) + length (rs_to_guest s)
     + of_bool (rs_input_open s) + of_bool (rs_upstream_open s)"

lemma recv_from_left:
  "recv_from n es = (Inr d, es') \<Longrightarrow> 2 * sock_pending es' + length d + of_bool (d \<noteq> []) < 2 * sock_pending es + 1"
  using recv_from_pending [of n es d es'] by (cases d) auto

lemma read_guest_left:
  "read_guest s = (Inr x, s') \<Longrightarrow> rs_input_open s \<Longrightarrow> relay_left s' < relay_left s"
  by (auto simp: read_guest_def relay_left_def split: prod.splits sum.splits dest!: recv_from_left)

lemma read_proxy_left:
  "read_proxy s = (Inr x, s') \<Longrightarrow> rs_upstream_open s \<Longrightarrow> relay_left s' < relay_left s"
  by (auto simp: read_proxy_def relay_left_def split: prod.splits sum.splits dest!: recv_from_left)

lemma write_left:
  "write_proxy env s = (Inr x, s') \<Longrightarrow> rs_to_proxy s \<noteq> [] \<Longrightarrow> relay_left s' < relay_left s"
  "write_guest env s = (Inr x, s') \<Longrightarrow> rs_to_guest s \<noteq> [] \<Longrightarrow> relay_left s' < relay_left s"
  by (auto simp: write_proxy_def write_guest_def relay_left_def split: option.splits)

lemma bind_gets: "bind (gets f) k s = k (f s) s"
  by (simp add: bind_def gets_def)

lemma bind_modify: "bind (modify f) k s = k () (f s)"
  by (simp add: bind_def modify_def)

text \<open>The states of a completed round.\<close>

lemma relay_round_True:
  assumes "relay_round env s = (Inr True, s')"
  obtains i u w g s0 s1 s2 s3 s4 where
    "relay_select env s = ((i, u), (w, g))" "i \<or> u \<or> w \<or> g" "s0 = s\<lparr>rs_clock := Suc (rs_clock s)\<rparr>"
    "(if i then read_guest s0 else (Inr (), s0)) = (Inr (), s1)" "(if u then read_proxy s1 else (Inr (), s1)) = (Inr (), s2)"
    "(if w then write_proxy env s2 else (Inr (), s2)) = (Inr (), s3)" "(if g then write_guest env s3 else (Inr (), s3)) = (Inr (), s4)"
    "shut_writing env s4 = (Inr (), s')"
proof -
  obtain i u w g where sel: "relay_select env s = ((i, u), (w, g))" by (metis surj_pair)
  define s0 where "s0 = s\<lparr>rs_clock := Suc (rs_clock s)\<rparr>"
  have go: "i \<or> u \<or> w \<or> g"
    using assms sel by (cases "i \<or> u \<or> w \<or> g") (simp_all add: relay_round_def bind_def gets_def modify_def ret_def)
  have nf: "(\<not> i \<and> \<not> u \<and> \<not> w \<and> \<not> g) = False" using go by blast
  obtain q1 s1 where 1: "(if i then read_guest s0 else (Inr (), s0)) = (q1, s1)" by fastforce
  obtain q2 s2 where 2: "(if u then read_proxy s1 else (Inr (), s1)) = (q2, s2)" by fastforce
  obtain q3 s3 where 3: "(if w then write_proxy env s2 else (Inr (), s2)) = (q3, s3)" by fastforce
  obtain q4 s4 where 4: "(if g then write_guest env s3 else (Inr (), s3)) = (q4, s4)" by fastforce
  have unfolded: "bind (if i then read_guest else ret ()) (\<lambda>_. bind (if u then read_proxy else ret ()) (\<lambda>_.
      bind (if w then write_proxy env else ret ()) (\<lambda>_. bind (if g then write_guest env else ret ()) (\<lambda>_.
      bind (shut_writing env) (\<lambda>_. ret True))))) s0 = (Inr True, s')"
    using assms by (simp only: relay_round_def bind_gets bind_modify sel prod.case nf if_False s0_def)
  have "q1 = Inr ()" using unfolded 1 by (cases q1) (auto simp: bind_def ret_def split: if_splits)
  moreover from this have "q2 = Inr ()" using unfolded 1 2 by (cases q2) (auto simp: bind_def ret_def split: if_splits)
  moreover from calculation have "q3 = Inr ()" using unfolded 1 2 3 by (cases q3) (auto simp: bind_def ret_def split: if_splits)
  moreover from calculation have "q4 = Inr ()" using unfolded 1 2 3 4 by (cases q4) (auto simp: bind_def ret_def split: if_splits)
  moreover from calculation have "shut_writing env s4 = (Inr (), s')"
    using unfolded 1 2 3 4 by (auto simp: bind_def ret_def shut_writing_def split: if_splits option.splits)
  ultimately show thesis using that [OF sel go s0_def] 1 2 3 4 by blast
qed

lemma relay_round_left:
  assumes "relay_round env s = (Inr True, s')"
  shows "relay_left s' < relay_left s"
  using assms
proof (cases rule: relay_round_True)
  case (1 i u w g s0 s1 s2 s3 s4)
  have flags: "i \<Longrightarrow> rs_input_open s" "u \<Longrightarrow> rs_upstream_open s" "w \<Longrightarrow> rs_to_proxy s \<noteq> []" "g \<Longrightarrow> rs_to_guest s \<noteq> []"
    using 1(1) by (auto simp: relay_select_def may_read_guest_def may_read_proxy_def split: prod.splits)
  have s0: "relay_left s0 = relay_left s" "rs_input_open s0 = rs_input_open s" "rs_upstream_open s0 = rs_upstream_open s"
    "rs_to_proxy s0 = rs_to_proxy s" "rs_to_guest s0 = rs_to_guest s"
    using 1(3) by (simp_all add: relay_left_def)
  have s1: "if i then relay_left s1 < relay_left s0 else s1 = s0" "rs_upstream_open s1 = rs_upstream_open s0"
    "rs_to_proxy s0 \<noteq> [] \<Longrightarrow> rs_to_proxy s1 \<noteq> []" "rs_to_guest s1 = rs_to_guest s0"
    using 1(4) flags(1) s0(2) read_guest_left [of s0 "()" s1] by (auto simp: read_guest_def split: if_splits prod.splits sum.splits)
  have s2: "if u then relay_left s2 < relay_left s1 else s2 = s1" "rs_to_proxy s2 = rs_to_proxy s1"
    "rs_to_guest s1 \<noteq> [] \<Longrightarrow> rs_to_guest s2 \<noteq> []"
    using 1(5) flags(2) s0(3) s1(2) read_proxy_left [of s1 "()" s2] by (auto simp: read_proxy_def split: if_splits prod.splits sum.splits)
  have s3: "if w then relay_left s3 < relay_left s2 else s3 = s2" "rs_to_guest s3 = rs_to_guest s2"
    using 1(6) flags(3) s0(4) s1(3) s2(2) write_left(1) [of env s2 "()" s3] by (auto simp: write_proxy_def split: if_splits option.splits)
  have s4: "if g then relay_left s4 < relay_left s3 else s4 = s3"
    using 1(7) flags(4) s0(5) s1(4) s2(3) s3(2) write_left(2) [of env s3 "()" s4] by (auto split: if_splits)
  have "relay_left s' = relay_left s4" using 1(8) by (auto simp: shut_writing_def relay_left_def split: if_splits option.splits)
  then show ?thesis using 1(2) s0(1) s1(1) s2(1) s3(1) s4 by (auto split: if_splits)
qed

function relay :: "relay_env \<Rightarrow> (relay_state, unit) op" where
  "relay env s =
     (if relay_going s
      then case relay_round env s of
          (Inl e, s') \<Rightarrow> (Inl e, s')
        | (Inr more_rounds, s') \<Rightarrow> if more_rounds then relay env s' else (Inr (), s')
      else (Inr (), s))"
  by pat_completeness auto
termination
  by (relation "measure (\<lambda>(_, s). relay_left s)") (auto dest: relay_round_left [OF sym])

declare relay.simps [simp del]

text \<open>The main program: the exit status.\<close>

definition relay_main :: "relay_env \<Rightarrow> bool \<Rightarrow> int \<Rightarrow> relay_state \<Rightarrow> nat \<times> relay_state" where
  "relay_main env connected_ok port s =
     (if \<not> (1 \<le> port \<and> port \<le> 65535) \<or> \<not> connected_ok then (1, s)
      else case relay env s of (Inl _, s') \<Rightarrow> (1, s') | (Inr _, s') \<Rightarrow> (0, s'))"

section \<open>The streams stay intact\<close>

text \<open>Every state that a run passes through, also within a round.\<close>

inductive relay_reaches :: "relay_env \<Rightarrow> relay_state \<Rightarrow> relay_state \<Rightarrow> bool" for env s0 where
  reach_start: "relay_reaches env s0 s0"
| reach_wait: "relay_reaches env s0 s \<Longrightarrow> relay_reaches env s0 (s\<lparr>rs_clock := Suc (rs_clock s)\<rparr>)"
| reach_read_guest: "relay_reaches env s0 s \<Longrightarrow> may_read_guest s \<Longrightarrow> read_guest s = (r, s') \<Longrightarrow> relay_reaches env s0 s'"
| reach_read_proxy: "relay_reaches env s0 s \<Longrightarrow> may_read_proxy s \<Longrightarrow> read_proxy s = (r, s') \<Longrightarrow> relay_reaches env s0 s'"
| reach_write_proxy: "relay_reaches env s0 s \<Longrightarrow> write_proxy env s = (r, s') \<Longrightarrow> relay_reaches env s0 s'"
| reach_write_guest: "relay_reaches env s0 s \<Longrightarrow> write_guest env s = (r, s') \<Longrightarrow> relay_reaches env s0 s'"
| reach_shut: "relay_reaches env s0 s \<Longrightarrow> shut_writing env s = (r, s') \<Longrightarrow> relay_reaches env s0 s'"

definition relay_intact :: "relay_state \<Rightarrow> relay_state \<Rightarrow> bool" where
  "relay_intact s0 s \<longleftrightarrow>
     length (rs_to_proxy s) \<le> BUFFER_LIMIT \<and> length (rs_to_guest s) \<le> BUFFER_LIMIT \<and>
     sock_bytes (rs_stdin s0) = rs_sent_proxy s @ rs_to_proxy s @ sock_bytes (rs_stdin s) \<and>
     sock_bytes (rs_upstream s0) = rs_sent_guest s @ rs_to_guest s @ sock_bytes (rs_upstream s) \<and>
     (\<not> rs_write_open s \<longrightarrow> \<not> rs_input_open s \<and> rs_to_proxy s = []) \<and>
     (DATA [] \<notin> set (rs_upstream s0) \<longrightarrow> DATA [] \<notin> set (rs_upstream s) \<and> (\<not> rs_upstream_open s \<longrightarrow> rs_upstream s = []))"

lemma recv_from_fault: "recv_from n es = (Inl e, es') \<Longrightarrow> sock_bytes es' = sock_bytes es"
  by (induction n es rule: recv_from.induct) (auto split: if_splits)

lemma recv_from_nonempty:
  assumes "recv_from n es = (r, es')" "DATA [] \<notin> set es" "0 < n"
  shows "DATA [] \<notin> set es' \<and> (r = Inr [] \<longrightarrow> es' = [])"
  using assms by (cases "(n, es)" rule: recv_from.cases) (auto split: if_splits)

lemma intact_read_guest:
  assumes "relay_intact s0 s" "may_read_guest s" "read_guest s = (r, s')"
  shows "relay_intact s0 s'"
proof (cases "recv_from (BUFFER_LIMIT - length (rs_to_proxy s)) (rs_stdin s)")
  case (Pair q es)
  show ?thesis
  proof (cases q)
    case (Inl e)
    then show ?thesis using assms Pair recv_from_fault by (auto simp: read_guest_def relay_intact_def may_read_guest_def)
  next
    case (Inr d)
    then have "sock_bytes (rs_stdin s) = d @ sock_bytes es" "length d \<le> BUFFER_LIMIT - length (rs_to_proxy s)"
      using Pair recv_from_bytes recv_from_length by auto
    then show ?thesis using assms Pair Inr by (auto simp: read_guest_def relay_intact_def may_read_guest_def)
  qed
qed

lemma intact_read_proxy:
  assumes "relay_intact s0 s" "may_read_proxy s" "read_proxy s = (r, s')"
  shows "relay_intact s0 s'"
proof (cases "recv_from (BUFFER_LIMIT - length (rs_to_guest s)) (rs_upstream s)")
  case (Pair q es)
  have ends: "DATA [] \<notin> set (rs_upstream s) \<Longrightarrow> DATA [] \<notin> set es \<and> (q = Inr [] \<longrightarrow> es = [])"
    using recv_from_nonempty [OF Pair] assms(2) by (simp add: may_read_proxy_def)
  show ?thesis
  proof (cases q)
    case (Inl e)
    then show ?thesis using assms Pair recv_from_fault ends by (auto simp: read_proxy_def relay_intact_def may_read_proxy_def)
  next
    case (Inr d)
    then have "sock_bytes (rs_upstream s) = d @ sock_bytes es" "length d \<le> BUFFER_LIMIT - length (rs_to_guest s)"
      using Pair recv_from_bytes recv_from_length by auto
    moreover have "s' = s\<lparr>rs_upstream := es, rs_upstream_open := d \<noteq> [], rs_to_guest := rs_to_guest s @ d\<rparr>"
      using assms(3) Pair Inr by (simp add: read_proxy_def)
    moreover have "length (rs_to_guest s) + length d \<le> BUFFER_LIMIT"
      using calculation(2) assms(1) by (auto simp: relay_intact_def)
    ultimately show ?thesis using assms(1,2) ends Inr by (simp add: relay_intact_def may_read_proxy_def)
  qed
qed

lemma take_drop_append [simp]: "take n x @ drop n x @ r = x @ r"
  by (metis append.assoc append_take_drop_id)

lemma intact_write_proxy:
  assumes "relay_intact s0 s" "write_proxy env s = (r, s')"
  shows "relay_intact s0 s'"
proof -
  have "rs_write_open s \<or> rs_to_proxy s = []" "length (rs_to_proxy s) \<le> BUFFER_LIMIT" using assms(1) by (auto simp: relay_intact_def)
  moreover have "s' = s\<lparr>rs_clock := Suc (rs_clock s)\<rparr> \<or> (\<exists>k. s' = s\<lparr>rs_to_proxy := drop (Suc k) (rs_to_proxy s),
      rs_sent_proxy := rs_sent_proxy s @ take (Suc k) (rs_to_proxy s), rs_clock := Suc (rs_clock s)\<rparr>)"
    using assms(2) by (auto simp: write_proxy_def split: option.splits)
  ultimately show ?thesis using assms(1) by (elim disjE exE) (simp_all add: relay_intact_def)
qed

lemma intact_write_guest:
  assumes "relay_intact s0 s" "write_guest env s = (r, s')"
  shows "relay_intact s0 s'"
proof -
  have "length (rs_to_guest s) \<le> BUFFER_LIMIT" using assms(1) by (simp add: relay_intact_def)
  moreover have "s' = s\<lparr>rs_clock := Suc (rs_clock s)\<rparr> \<or> (\<exists>k. s' = s\<lparr>rs_to_guest := drop (Suc k) (rs_to_guest s),
      rs_sent_guest := rs_sent_guest s @ take (Suc k) (rs_to_guest s), rs_clock := Suc (rs_clock s)\<rparr>)"
    using assms(2) by (auto simp: write_guest_def split: option.splits)
  ultimately show ?thesis using assms(1) by (elim disjE exE) (simp_all add: relay_intact_def)
qed

lemma intact_shut:
  assumes "relay_intact s0 s" "shut_writing env s = (r, s')"
  shows "relay_intact s0 s'"
proof -
  have "s' = s \<or> s' = s\<lparr>rs_clock := Suc (rs_clock s)\<rparr> \<or>
      \<not> rs_input_open s \<and> rs_to_proxy s = [] \<and> s' = s\<lparr>rs_write_open := False, rs_clock := Suc (rs_clock s)\<rparr>"
    using assms(2) by (auto simp: shut_writing_def split: if_splits option.splits)
  then show ?thesis using assms(1) by (elim disjE conjE) (simp_all add: relay_intact_def)
qed

lemma relay_reaches_intact:
  assumes "relay_reaches env s0 s" "relay_intact s0 s0"
  shows "relay_intact s0 s"
  using assms
proof (induction rule: relay_reaches.induct)
  case (reach_wait s)
  then show ?case by (simp add: relay_intact_def)
next
  case (reach_read_guest s r s')
  from intact_read_guest [OF reach_read_guest(4) [OF reach_read_guest(5)] reach_read_guest(2,3)] show ?case .
next
  case (reach_read_proxy s r s')
  from intact_read_proxy [OF reach_read_proxy(4) [OF reach_read_proxy(5)] reach_read_proxy(2,3)] show ?case .
next
  case (reach_write_proxy s r s')
  from intact_write_proxy [OF reach_write_proxy(3) [OF reach_write_proxy(4)] reach_write_proxy(2)] show ?case .
next
  case (reach_write_guest s r s')
  from intact_write_guest [OF reach_write_guest(3) [OF reach_write_guest(4)] reach_write_guest(2)] show ?case .
next
  case (reach_shut s r s')
  from intact_shut [OF reach_shut(3) [OF reach_shut(4)] reach_shut(2)] show ?case .
qed simp

lemma keeps_reaches [keep]:
  "keeps (relay_reaches env s0) (write_proxy env)" "keeps (relay_reaches env s0) (write_guest env)"
  "keeps (relay_reaches env s0) (shut_writing env)"
  by (rule keepsI, erule (1) reach_write_proxy reach_write_guest reach_shut)+

lemma wpre_read_guest:
  assumes "relay_reaches env s0 s" "may_read_guest s" "u \<longrightarrow> may_read_proxy s"
  shows "wpre read_guest (\<lambda>_ t. relay_reaches env s0 t \<and> (u \<longrightarrow> may_read_proxy t)) (\<lambda>_. relay_reaches env s0) s"
proof (rule wpre_I)
  fix r t assume run: "read_guest s = (r, t)"
  have "may_read_proxy t = may_read_proxy s"
    using run by (auto simp: read_guest_def may_read_proxy_def split: prod.splits sum.splits)
  then show "case r of Inl e \<Rightarrow> relay_reaches env s0 t | Inr x \<Rightarrow> relay_reaches env s0 t \<and> (u \<longrightarrow> may_read_proxy t)"
    using reach_read_guest [OF assms(1,2) run] assms(3) by (simp split: sum.split)
qed

lemma wpre_read_proxy:
  assumes "relay_reaches env s0 s" "may_read_proxy s"
  shows "wpre read_proxy (\<lambda>_. relay_reaches env s0) (\<lambda>_. relay_reaches env s0) s"
  by (rule wpre_I) (use reach_read_proxy [OF assms] in \<open>simp split: sum.split\<close>)

lemma relay_round_reaches:
  assumes "relay_reaches env s0 s"
  shows "wpre (relay_round env) (\<lambda>_. relay_reaches env s0) (\<lambda>_. relay_reaches env s0) s"
proof -
  obtain i u w g where sel: "relay_select env s = ((i, u), (w, g))" by (metis surj_pair)
  let ?s = "s\<lparr>rs_clock := Suc (rs_clock s)\<rparr>"
  have s: "relay_reaches env s0 ?s" "i \<longrightarrow> may_read_guest ?s" "u \<longrightarrow> may_read_proxy ?s"
    using sel assms by (auto simp: relay_select_def may_read_guest_def may_read_proxy_def split: prod.splits intro: reach_wait)
  have rest: "keeps (relay_reaches env s0) (bind (if w then write_proxy env else ret ()) (\<lambda>_.
      bind (if g then write_guest env else ret ()) (\<lambda>_. bind (shut_writing env) (\<lambda>_. ret True))))"
    by (intro keep)
  have "wpre (bind (if i then read_guest else ret ()) (\<lambda>_. bind (if u then read_proxy else ret ()) (\<lambda>_.
      bind (if w then write_proxy env else ret ()) (\<lambda>_. bind (if g then write_guest env else ret ()) (\<lambda>_.
      bind (shut_writing env) (\<lambda>_. ret True)))))) (\<lambda>_. relay_reaches env s0) (\<lambda>_. relay_reaches env s0) ?s"
    unfolding wpre_bind [of "if i then _ else _"]
  proof (rule wpre_mono)
    show "wpre (if i then read_guest else ret ()) (\<lambda>_ t. relay_reaches env s0 t \<and> (u \<longrightarrow> may_read_proxy t)) (\<lambda>_. relay_reaches env s0) ?s"
      using wpre_read_guest [of env s0 ?s u] s by (simp add: wpre_basic)
    fix x t assume t: "relay_reaches env s0 t \<and> (u \<longrightarrow> may_read_proxy t)"
    show "wpre (bind (if u then read_proxy else ret ()) (\<lambda>_.
      bind (if w then write_proxy env else ret ()) (\<lambda>_. bind (if g then write_guest env else ret ()) (\<lambda>_.
      bind (shut_writing env) (\<lambda>_. ret True))))) (\<lambda>_. relay_reaches env s0) (\<lambda>_. relay_reaches env s0) t"
      unfolding wpre_bind [of "if u then _ else _"]
      by (rule wpre_mono [where Q = "\<lambda>_. relay_reaches env s0" and R = "\<lambda>_. relay_reaches env s0"])
         (use t wpre_read_proxy keepsD [OF rest] in \<open>auto simp: wpre_basic\<close>)
  qed
  then show ?thesis
    using s(1) by (simp add: relay_round_def wpre_bind [of "gets _"] wpre_bind [of "modify _"] wpre_basic sel)
qed

lemma relay_round_False:
  assumes "relay_round env s = (Inr False, s')"
  shows "relay_select env s = ((False, False), (False, False)) \<and> s' = s\<lparr>rs_clock := Suc (rs_clock s)\<rparr>"
proof -
  obtain i u w g where sel: "relay_select env s = ((i, u), (w, g))" by (metis surj_pair)
  have r: "returns (\<lambda>b. b) (bind (if i then read_guest else ret ()) (\<lambda>_. bind (if u then read_proxy else ret ()) (\<lambda>_.
      bind (if w then write_proxy env else ret ()) (\<lambda>_. bind (if g then write_guest env else ret ()) (\<lambda>_.
      bind (shut_writing env) (\<lambda>_. ret True))))))"
    by (intro returns_bind returns_basic(1)) simp
  show ?thesis
  proof (cases "\<not> i \<and> \<not> u \<and> \<not> w \<and> \<not> g")
    case True
    then show ?thesis using assms sel by (auto simp: relay_round_def bind_gets bind_modify ret_def)
  next
    case False
    then have nf: "(\<not> i \<and> \<not> u \<and> \<not> w \<and> \<not> g) = False" by blast
    have "False"
      by (rule returns_D [OF r, of "s\<lparr>rs_clock := Suc (rs_clock s)\<rparr>" False s'])
         (use assms in \<open>simp only: relay_round_def bind_gets bind_modify sel prod.case nf if_False\<close>)
    then show ?thesis ..
  qed
qed

lemma relay_final:
  assumes "relay env s = (r, s')" "relay_reaches env s0 s"
  shows "relay_reaches env s0 s' \<and>
    (r = Inr () \<longrightarrow> \<not> relay_going s' \<or> (\<exists>t. relay_select env (s'\<lparr>rs_clock := t\<rparr>) = ((False, False), (False, False))))"
  using assms
proof (induction env s rule: relay.induct)
  case (1 env s)
  obtain q t where round: "relay_round env s = (q, t)" by fastforce
  have t: "relay_reaches env s0 t"
    using wpre_D [OF relay_round_reaches [OF 1(3)] round] by (simp split: sum.splits)
  show ?case
  proof (cases "relay_going s")
    case going: True
    show ?thesis
    proof (cases q)
      case (Inl e)
      then show ?thesis using 1(2) going round t by (auto simp: relay.simps [of env s])
    next
      case (Inr go)
      show ?thesis
      proof (cases go)
        case True
        then have "relay env t = (r, s')" using 1(2) going round Inr by (simp add: relay.simps [of env s])
        then show ?thesis using 1(1) [OF going round [symmetric] Inr True _ t] by blast
      next
        case False
        then have "r = Inr ()" "s' = t" using 1(2) going round Inr by (simp_all add: relay.simps [of env s])
        have "relay_select env (t\<lparr>rs_clock := rs_clock s\<rparr>) = ((False, False), (False, False))"
          using relay_round_False [of env s t] round Inr False by simp
        then show ?thesis using t \<open>s' = t\<close> by blast
      qed
    qed
  next
    case False
    then show ?thesis using 1(2,3) by (simp add: relay.simps [of env s])
  qed
qed

text \<open>
  \<^bold>\<open>C22\<close> The relay neither loses, repeats nor reorders bytes. It always ends. In every state of a run its two buffers hold at most 64 KiB each, what
  the proxy was sent, followed by what is buffered and by what is still to be read, is exactly what the guest wrote, and the same
  holds in the other direction; writing to the proxy is shut down only after the guest's stream has ended and has been delivered in
  full. A run that ends without an error and not because nothing was ready in time has delivered the proxy's whole answer.
\<close>

theorem relay_streams_intact:
  assumes "relay env (relay_start stdin upstream) = (r, s')" "DATA [] \<notin> set upstream"
  shows "relay_reaches env (relay_start stdin upstream) s' \<and>
    (\<forall>s. relay_reaches env (relay_start stdin upstream) s \<longrightarrow>
       length (rs_to_proxy s) \<le> 65536 \<and> length (rs_to_guest s) \<le> 65536 \<and>
       sock_bytes stdin = rs_sent_proxy s @ rs_to_proxy s @ sock_bytes (rs_stdin s) \<and>
       sock_bytes upstream = rs_sent_guest s @ rs_to_guest s @ sock_bytes (rs_upstream s) \<and>
       (\<not> rs_write_open s \<longrightarrow> \<not> rs_input_open s \<and> rs_to_proxy s = [])) \<and>
    (r = Inr () \<longrightarrow> rs_sent_guest s' = sock_bytes upstream \<or>
       (\<exists>t. relay_select env (s'\<lparr>rs_clock := t\<rparr>) = ((False, False), (False, False))))"
proof -
  let ?s0 = "relay_start stdin upstream"
  have start: "relay_intact ?s0 ?s0" using assms(2) by (simp add: relay_intact_def relay_start_def)
  note final = relay_final [OF assms(1) reach_start]
  have intact: "relay_intact ?s0 s'" by (rule relay_reaches_intact [OF conjunct1 [OF final] start])
  have "rs_sent_guest s' = sock_bytes upstream" if "\<not> relay_going s'"
    using intact that assms(2) by (simp add: relay_intact_def relay_going_def relay_start_def)
  moreover have "relay_intact ?s0 s" if "relay_reaches env ?s0 s" for s
    by (rule relay_reaches_intact [OF that start])
  ultimately show ?thesis
    using final by (auto simp: relay_intact_def BUFFER_LIMIT_def relay_start_def)
qed

definition demo_relay_env :: relay_env where
  "demo_relay_env = \<lparr>re_ready = (\<lambda>_. ((True, True), (True, True))), re_write = (\<lambda>t. Some t)\<rparr>"

lemmas relay_parts = read_guest_def read_proxy_def write_proxy_def write_guest_def shut_writing_def relay_select_def
  may_read_guest_def may_read_proxy_def demo_relay_env_def BUFFER_LIMIT_def relay_start_def

lemma demo_rounds:
  "relay_round demo_relay_env (relay_start [DATA ''GET''] [DATA ''OK'']) =
     (Inr True, (relay_start [] [])\<lparr>rs_to_proxy := ''GET'', rs_to_guest := ''OK'', rs_clock := Suc 0\<rparr>)"
  "relay_round demo_relay_env ((relay_start [] [])\<lparr>rs_to_proxy := ''GET'', rs_to_guest := ''OK'', rs_clock := Suc 0\<rparr>) =
     (Inr True, (relay_start [] [])\<lparr>rs_input_open := False, rs_upstream_open := False, rs_write_open := False,
        rs_sent_proxy := ''GET'', rs_sent_guest := ''OK'', rs_clock := 5\<rparr>)"
  by (simp_all add: relay_round_def run relay_parts cong: run_cong)

theorem relay_streams_intact_witness:
  "\<exists>s'. relay demo_relay_env (relay_start [DATA ''GET''] [DATA ''OK'']) = (Inr (), s') \<and> rs_sent_guest s' = ''OK'' \<and>
     length (rs_to_proxy s') \<le> 65536 \<and> ''GET'' = rs_sent_proxy s' @ rs_to_proxy s' @ sock_bytes (rs_stdin s')"
proof -
  let ?s0 = "relay_start [DATA ''GET''] [DATA ''OK'']"
  let ?s1 = "(relay_start [] [])\<lparr>rs_to_proxy := ''GET'', rs_to_guest := ''OK'', rs_clock := Suc 0\<rparr>"
  let ?s2 = "(relay_start [] [])\<lparr>rs_input_open := False, rs_upstream_open := False, rs_write_open := False,
        rs_sent_proxy := ''GET'', rs_sent_guest := ''OK'', rs_clock := 5\<rparr>"
  have going: "relay_going ?s0" "relay_going ?s1" "\<not> relay_going ?s2" by (simp_all add: relay_going_def relay_start_def)
  have run: "relay demo_relay_env ?s0 = (Inr (), ?s2)"
    using going demo_rounds by (simp add: relay.simps [of demo_relay_env ?s0] relay.simps [of demo_relay_env ?s1] relay.simps [of demo_relay_env ?s2])
  have final: "rs_sent_guest ?s2 = ''OK''" by (simp add: relay_start_def)
  show ?thesis
    using relay_streams_intact [OF run] run final by (intro exI [of _ ?s2]) auto
qed

end
