(* ===== verification/Disk_Artifacts.thy ===== *)
theory Disk_Artifacts
  imports Manager_Resources "HOL-Library.Char_ord" "HOL-Library.List_Lexorder" "HOL-Library.Product_Lexorder"
begin

text \<open>
  The files that a computer leaves in the data directory (\<open>vm.py\<close>): its disk with the companions of the disk, its firmware
  folder and its runtime log. \<open>cleanup_vm_artifacts\<close> removes them with the computer, unless the disk is to be kept;
  \<open>prune_leftover_artifacts\<close> sweeps the directory for files whose computer is gone. The state is the list of directory
  entries. What a path resolves to, the backing file that \<open>qemu-img\<close> reports, the process list and whether an unlink is permitted
  are answers of the record \<open>disk_env\<close>. The data directory is given by its canonical name.
\<close>

section \<open>Entries\<close>

text \<open>A path is the name of its folder and its own name.\<close>

type_synonym location = "string \<times> string"

definition path_of :: "location \<Rightarrow> string" where
  "path_of l = fst l @ ''/'' @ snd l"

definition location_of :: "string \<Rightarrow> location" where
  "location_of s = (case rpartition_at (CHR ''/'') s of None \<Rightarrow> ([], s) | Some (folder, name) \<Rightarrow> (folder, name))"

text \<open>A link knows what it leads to.\<close>

datatype entry = FILE | FOLDER | LINK path_kind

type_synonym entries = "(location \<times> entry) list"

record disk_env =
  de_data_dir :: string
  de_resolve :: "location \<Rightarrow> location result"
  de_backing :: "location \<Rightarrow> location option"
  de_listable :: "string \<Rightarrow> bool"
  de_unlink :: "location \<Rightarrow> bool"
  de_touch :: "location \<Rightarrow> bool"
  de_rmtree :: "location \<Rightarrow> bool"
  de_ps :: "string option"
  de_size :: "location \<Rightarrow> int"

definition path_kind_at :: "entries \<Rightarrow> location \<Rightarrow> path_kind" where
  "path_kind_at fs l =
     (case map_of fs l of None \<Rightarrow> PATH_MISSING | Some FILE \<Rightarrow> PATH_FILE | Some FOLDER \<Rightarrow> PATH_DIR | Some (LINK k) \<Rightarrow> k)"

definition entry_exists :: "entries \<Rightarrow> location \<Rightarrow> bool" where
  "entry_exists fs l \<longleftrightarrow> path_kind_at fs l \<noteq> PATH_MISSING"

definition entry_is_file :: "entries \<Rightarrow> location \<Rightarrow> bool" where
  "entry_is_file fs l \<longleftrightarrow> path_kind_at fs l = PATH_FILE"

definition is_symlink :: "entries \<Rightarrow> location \<Rightarrow> bool" where
  "is_symlink fs l \<longleftrightarrow> (case map_of fs l of Some (LINK _) \<Rightarrow> True | _ \<Rightarrow> False)"

definition folder_names :: "disk_env \<Rightarrow> entries \<Rightarrow> string \<Rightarrow> string list" where
  "folder_names env fs folder =
     (if de_listable env folder then sort (map (snd \<circ> fst) (filter (\<lambda>e. fst (fst e) = folder) fs)) else [])"

definition unlink :: "disk_env \<Rightarrow> location \<Rightarrow> (entries, unit) op" where
  "unlink env l = (\<lambda>fs.
     case map_of fs l of
       None \<Rightarrow> (Inl (OSError ''No such file or directory''), fs)
     | Some FOLDER \<Rightarrow> (Inl (OSError ''Is a directory''), fs)
     | Some _ \<Rightarrow> if de_unlink env l then (Inr (), AList.delete l fs) else (Inl (OSError ''Permission denied''), fs))"

definition touch :: "disk_env \<Rightarrow> location \<Rightarrow> (entries, unit) op" where
  "touch env l = (\<lambda>fs.
     if entry_exists fs l then (Inr (), fs)
     else if de_touch env l then (Inr (), AList.update l FILE fs) else (Inl (OSError ''Permission denied''), fs))"

definition is_relative_to :: "location \<Rightarrow> location \<Rightarrow> bool" where
  "is_relative_to l root \<longleftrightarrow> path_of l = path_of root \<or> starts_with (path_of root @ ''/'') (path_of l)"

section \<open>Patterns of file names\<close>

text \<open>
  \<open>Path.glob\<close> matches the names of a folder against a pattern with \<open>*\<close>, \<open>?\<close> and character classes. In a class the first
  character may negate it, a closing bracket in front is a member, and a class that is not closed is a plain bracket.
\<close>

fun class_ranges :: "string \<Rightarrow> (char \<times> char) list" where
  "class_ranges (a # d # b # s) = (if d = CHR ''-'' then (a, b) # class_ranges s else (a, a) # class_ranges (d # b # s))"
| "class_ranges (a # s) = (a, a) # class_ranges s"
| "class_ranges [] = []"

definition pattern_class :: "string \<Rightarrow> (bool \<times> string \<times> string) option" where
  "pattern_class s =
     (let negated = starts_with ''!'' s;
          t = (if negated then tl s else s);
          front = (if starts_with '']'' t then '']'' else [])
      in map_option (\<lambda>(body, rest). (negated, front @ body, rest)) (partition_at (CHR '']'') (drop (length front) t)))"

lemma pattern_class_shorter: "pattern_class s = Some (negated, body, rest) \<Longrightarrow> length rest < length s"
  by (auto simp: pattern_class_def Let_def partition_at_Some starts_with_def dest!: arg_cong [of _ _ length] split: if_splits)

function glob_match :: "string \<Rightarrow> string \<Rightarrow> bool" where
  "glob_match [] s = (s = [])"
| "glob_match (p # ps) s =
     (if p = CHR ''*'' then glob_match ps s \<or> (case s of [] \<Rightarrow> False | _ # cs \<Rightarrow> glob_match (p # ps) cs)
      else case s of
          [] \<Rightarrow> False
        | c # cs \<Rightarrow>
            if p = CHR ''?'' then glob_match ps cs
            else case (if p = CHR ''['' then pattern_class ps else None) of
                None \<Rightarrow> c = p \<and> glob_match ps cs
              | Some (negated, body, rest) \<Rightarrow>
                  negated \<noteq> list_ex (\<lambda>(lo, hi). lo \<le> c \<and> c \<le> hi) (class_ranges body) \<and> glob_match rest cs)"
  by pat_completeness auto
termination
  by (relation "measure (\<lambda>(p, s). length p + length s)") (auto split: if_splits dest: pattern_class_shorter)

section \<open>Disks and their companions\<close>

definition disk_dir :: "disk_env \<Rightarrow> string" where
  "disk_dir env = de_data_dir env @ ''/disks''"

definition instance_disk :: "disk_env \<Rightarrow> string \<Rightarrow> string \<Rightarrow> rootfs_format option \<Rightarrow> location" where
  "instance_disk env vm_id backend fmt =
     (disk_dir env, vm_id @ (if backend = ''qemu'' \<and> fmt \<noteq> Some RAW_EXT4 then ''.qcow2'' else ''.ext4''))"

definition managed_disk_for_vm :: "disk_env \<Rightarrow> string result \<Rightarrow> vm_info option \<Rightarrow> location option result" where
  "managed_disk_for_vm env backend info =
     (case info of
        None \<Rightarrow> Inr None
      | Some i \<Rightarrow>
          (let config = vi_config i
           in case vc_rootfs_path config of
                None \<Rightarrow> Inr None
              | Some rootfs \<Rightarrow>
                  if vc_guest_os config = MACOS \<or> vc_disk_mode config \<noteq> DISK_ISOLATED then Inr None
                  else
                    rbind backend (\<lambda>b.
                    rbind (effective_rootfs_format config) (\<lambda>fmt.
                    rbind (de_resolve env (instance_disk env (vi_vm_id i) b (Some fmt))) (\<lambda>expected.
                    rbind (de_resolve env (location_of rootfs)) (\<lambda>actual.
                      Inr (if actual \<noteq> expected then None else Some expected)))))))"

definition is_managed_disk_sidecar :: "location \<Rightarrow> location \<Rightarrow> bool" where
  "is_managed_disk_sidecar disk candidate \<longleftrightarrow>
     starts_with (snd disk @ ''.backing-'') (snd candidate) \<or>
     (starts_with (snd disk @ ''.restore-'') (snd candidate) \<and> contains ''.backing-'' (snd candidate))"

text \<open>\<open>qemu-img\<close> reports nothing for a file that does not exist.\<close>

definition backing_file :: "disk_env \<Rightarrow> entries \<Rightarrow> location \<Rightarrow> location option" where
  "backing_file env fs l = (if entry_exists fs l then de_backing env l else None)"

lemma backing_file_entry: "backing_file env fs l = Some b \<Longrightarrow> map_of fs l \<noteq> None"
  by (auto simp: backing_file_def entry_exists_def path_kind_at_def split: if_splits option.splits)

definition sidecar_measure :: "entries \<Rightarrow> location \<Rightarrow> location list \<Rightarrow> nat" where
  "sidecar_measure fs current seen = 2 * card (fst ` set fs - set seen) + (if map_of fs current \<noteq> None then 1 else 0)"

lemma sidecar_measure_step:
  assumes "map_of fs current \<noteq> None" "r \<notin> set seen"
  shows "sidecar_measure fs r (r # seen) < sidecar_measure fs current seen"
proof (cases "map_of fs r = None")
  case True
  then have "r \<notin> fst ` set fs" by (simp add: map_of_eq_None_iff)
  then have "fst ` set fs - set (r # seen) = fst ` set fs - set seen" by auto
  then show ?thesis using assms True by (simp add: sidecar_measure_def)
next
  case False
  then have "r \<in> fst ` set fs - set seen" using assms by (simp add: map_of_eq_None_iff)
  moreover have "fst ` set fs - set (r # seen) = (fst ` set fs - set seen) - {r}" by auto
  ultimately have "card (fst ` set fs - set (r # seen)) < card (fst ` set fs - set seen)"
    by (metis List.finite_set card_Diff1_less finite_Diff finite_imageI)
  then show ?thesis using assms False by (simp add: sidecar_measure_def)
qed

function sidecars_loop ::
  "disk_env \<Rightarrow> entries \<Rightarrow> location \<Rightarrow> location \<Rightarrow> location \<Rightarrow> location list \<Rightarrow> location list \<Rightarrow> location list result" where
  "sidecars_loop env fs root disk current seen sidecars =
     (case backing_file env fs current of
        None \<Rightarrow> Inr sidecars
      | Some backing \<Rightarrow>
          (case de_resolve env backing of
             Inl e \<Rightarrow> Inl e
           | Inr resolved \<Rightarrow>
               if resolved \<in> set seen then Inr sidecars
               else if \<not> is_relative_to resolved root then Inr sidecars
               else if \<not> is_managed_disk_sidecar disk resolved then Inr sidecars
               else sidecars_loop env fs root disk resolved (resolved # seen) (sidecars @ [resolved])))"
  by pat_completeness auto
termination
  by (relation "measure (\<lambda>(env, fs, root, disk, current, seen, sidecars). sidecar_measure fs current seen)")
    (auto simp del: map_of_eq_None_iff intro!: sidecar_measure_step dest: backing_file_entry)

definition managed_disk_backing_sidecars :: "disk_env \<Rightarrow> entries \<Rightarrow> location \<Rightarrow> location list result" where
  "managed_disk_backing_sidecars env fs disk =
     rbind (de_resolve env (de_data_dir env, ''disks'')) (\<lambda>root. sidecars_loop env fs root disk disk [] [])"

text \<open>\<open>dict.fromkeys\<close>: each element once, where it first occurs.\<close>

definition dict_fromkeys :: "'a list \<Rightarrow> 'a list" where
  "dict_fromkeys xs = rev (remdups (rev xs))"

text \<open>A loop that appends the results of its calls and stops at the first exception.\<close>

fun concat_results :: "'a list result list \<Rightarrow> 'a list result" where
  "concat_results [] = Inr []"
| "concat_results (r # rs) = rbind r (\<lambda>xs. rbind (concat_results rs) (\<lambda>ys. Inr (xs @ ys)))"

definition managed_disk_companions :: "disk_env \<Rightarrow> entries \<Rightarrow> location \<Rightarrow> location list result" where
  "managed_disk_companions env fs disk =
     rbind (managed_disk_backing_sidecars env fs disk) (\<lambda>sidecars.
       Inr (dict_fromkeys (sidecars @
         filter (entry_is_file fs)
           (map (Pair (fst disk)) (filter (glob_match (snd disk @ ''.*'')) (folder_names env fs (fst disk)))))))"

definition retained_marker_path :: "location \<Rightarrow> location" where
  "retained_marker_path disk = (fst disk, snd disk @ ''.retained'')"

definition mark_disk_retained :: "disk_env \<Rightarrow> location \<Rightarrow> (entries, unit) op" where
  "mark_disk_retained env disk = catch is_os_error (touch env (retained_marker_path disk)) (\<lambda>_. ret ())"

definition clear_retained_marker :: "disk_env \<Rightarrow> location \<Rightarrow> (entries, unit) op" where
  "clear_retained_marker env disk =
     catch is_os_error
       (bind (gets (\<lambda>fs. map_of fs (retained_marker_path disk))) (\<lambda>e.
          unless (e = None) (unlink env (retained_marker_path disk))))
       (\<lambda>_. ret ())"

definition restore_marker :: "disk_env \<Rightarrow> location option \<Rightarrow> bool \<Rightarrow> (entries, unit) op" where
  "restore_marker env disk was_saved =
     (case disk of
        None \<Rightarrow> ret ()
      | Some d \<Rightarrow> bind (gets (\<lambda>fs. entry_exists fs d)) (\<lambda>there. unless (\<not> was_saved \<or> \<not> there) (mark_disk_retained env d)))"

definition all_managed_disks :: "disk_env \<Rightarrow> entries \<Rightarrow> location list" where
  "all_managed_disks env fs =
     filter (\<lambda>l. entry_is_file fs l \<and>
         (case partition_at (CHR ''.'') (snd l) of
            None \<Rightarrow> False
          | Some (stem, suffix) \<Rightarrow> stem \<noteq> [] \<and> suffix \<in> {''qcow2'', ''ext4''}))
       (map (Pair (disk_dir env)) (folder_names env fs (disk_dir env)))"

definition instance_disk_paths_for_id :: "disk_env \<Rightarrow> entries \<Rightarrow> string \<Rightarrow> location list" where
  "instance_disk_paths_for_id env fs vm_id =
     filter (entry_is_file fs) [(disk_dir env, vm_id @ ''.qcow2''), (disk_dir env, vm_id @ ''.ext4'')]"

definition runtime_log :: "disk_env \<Rightarrow> string \<Rightarrow> location" where
  "runtime_log env vm_id = (de_data_dir env, vm_id @ ''.log'')"

definition leftover_paths_for_vm :: "disk_env \<Rightarrow> entries \<Rightarrow> string \<Rightarrow> location list result" where
  "leftover_paths_for_vm env fs vm_id =
     (let disks = instance_disk_paths_for_id env fs vm_id;
          log_path = runtime_log env vm_id
      in rbind (concat_results (map (managed_disk_companions env fs) disks)) (\<lambda>companions.
           Inr (disks @ companions @ (if entry_is_file fs log_path then [log_path] else []))))"

declare sidecars_loop.simps [simp del]

section \<open>Sweeping leftovers\<close>

text \<open>A path is in use when the command line of a running process names it.\<close>

definition path_in_use :: "disk_env \<Rightarrow> location \<Rightarrow> string \<Rightarrow> bool result" where
  "path_in_use env l args =
     (case de_resolve env l of
        Inr r \<Rightarrow> Inr (contains (path_of l) args \<or> contains (path_of r) args)
      | Inl e \<Rightarrow> if is_os_error e then Inr (contains (path_of l) args) else Inl e)"

datatype leftover_kind = KIND_DISK | KIND_LOG

record leftover_artifact =
  la_vm_id :: string
  la_path :: location
  la_size_bytes :: int
  la_kind :: leftover_kind
  la_retained :: bool

definition leftover :: "disk_env \<Rightarrow> string \<Rightarrow> leftover_kind \<Rightarrow> bool \<Rightarrow> location \<Rightarrow> leftover_artifact" where
  "leftover env vm_id kind retained l =
     \<lparr>la_vm_id = vm_id, la_path = l, la_size_bytes = de_size env l, la_kind = kind, la_retained = retained\<rparr>"

definition session_ids :: "browser_session_info list result \<Rightarrow> string list result" where
  "session_ids sessions =
     (case sessions of
        Inr ss \<Rightarrow> Inr (concat (map (\<lambda>s. bi_session_id s # (if bi_vm_id s \<noteq> [] then [bi_vm_id s] else [])) ss))
      | Inl e \<Rightarrow> if is_exception e then Inr [] else Inl e)"

text \<open>The name of a disk up to its last dot.\<close>

definition disk_owner :: "location \<Rightarrow> string" where
  "disk_owner disk = (case rpartition_at (CHR ''.'') (snd disk) of None \<Rightarrow> snd disk | Some (stem, _) \<Rightarrow> stem)"

definition disk_leftovers :: "disk_env \<Rightarrow> entries \<Rightarrow> string list \<Rightarrow> string \<Rightarrow> location \<Rightarrow> leftover_artifact list result" where
  "disk_leftovers env fs live_ids args disk =
     (let vm_id = disk_owner disk
      in if vm_id \<in> set live_ids then Inr []
         else
           rbind (path_in_use env disk args) (\<lambda>in_use.
           if in_use then Inr []
           else
             rbind (managed_disk_companions env fs disk) (\<lambda>companions.
               let retained = entry_exists fs (retained_marker_path disk);
                   log_path = runtime_log env vm_id
               in Inr (map (leftover env vm_id KIND_DISK retained) (disk # companions) @
                       (if entry_is_file fs log_path then [leftover env vm_id KIND_LOG retained log_path] else [])))))"

definition log_leftovers :: "disk_env \<Rightarrow> entries \<Rightarrow> string list \<Rightarrow> location list \<Rightarrow> leftover_artifact list" where
  "log_leftovers env fs live_ids seen =
     map (\<lambda>l. leftover env (take (length (snd l) - 4) (snd l)) KIND_LOG False l)
       (filter (\<lambda>l. entry_is_file fs l \<and> l \<notin> set seen \<and> take (length (snd l) - 4) (snd l) \<notin> set live_ids)
         (map (Pair (de_data_dir env)) (filter (glob_match ''*.log'') (folder_names env fs (de_data_dir env)))))"

definition find_leftover_artifacts ::
  "disk_env \<Rightarrow> entries \<Rightarrow> vm_info list result \<Rightarrow> browser_session_info list result \<Rightarrow> leftover_artifact list result" where
  "find_leftover_artifacts env fs vms sessions =
     rbind vms (\<lambda>vms.
     rbind (session_ids sessions) (\<lambda>ids.
     let live_ids = map vi_vm_id vms @ ids
     in case de_ps env of
          None \<Rightarrow> Inl (CelestoError ''Cannot check which computers are running right now'')
        | Some args \<Rightarrow>
            rbind (concat_results (map (disk_leftovers env fs live_ids args) (all_managed_disks env fs))) (\<lambda>leftovers.
              Inr (sort_key (\<lambda>a. (la_vm_id a, path_of (la_path a)))
                (leftovers @ log_leftovers env fs live_ids (map la_path leftovers))))))"

fun remove_leftovers :: "disk_env \<Rightarrow> leftover_artifact list \<Rightarrow> (entries, leftover_artifact list) op" where
  "remove_leftovers env [] = ret []"
| "remove_leftovers env (a # as) =
     bind (catch is_os_error (bind (unlink env (la_path a)) (\<lambda>_. ret [a])) (\<lambda>_. ret [])) (\<lambda>removed.
     bind (remove_leftovers env as) (\<lambda>others. ret (removed @ others)))"

definition prune_leftover_artifacts ::
  "disk_env \<Rightarrow> vm_info list result \<Rightarrow> browser_session_info list result \<Rightarrow> bool \<Rightarrow> bool \<Rightarrow> (entries, leftover_artifact list) op" where
  "prune_leftover_artifacts env vms sessions include_retained dry_run =
     bind (gets (\<lambda>fs. find_leftover_artifacts env fs vms sessions)) (\<lambda>found.
     bind (lift found) (\<lambda>leftovers.
       let removable = filter (\<lambda>a. include_retained \<or> \<not> la_retained a) leftovers
       in if dry_run then ret removable else remove_leftovers env removable))"

section \<open>Removing the artifacts of a computer\<close>

definition remove_managed_disk :: "disk_env \<Rightarrow> location \<Rightarrow> (entries, unit) op" where
  "remove_managed_disk env disk =
     bind (gets (\<lambda>fs. managed_disk_companions env fs disk)) (\<lambda>found.
     bind (lift found) (\<lambda>companions.
     bind (suppress (unlink env disk)) (\<lambda>_. for_each (\<lambda>l. suppress (unlink env l)) companions)))"

definition managed_disks_for_cleanup ::
  "disk_env \<Rightarrow> entries \<Rightarrow> string \<Rightarrow> string result \<Rightarrow> vm_info option \<Rightarrow> location list result" where
  "managed_disks_for_cleanup env fs vm_id backend info =
     (case info of
        None \<Rightarrow> Inr (instance_disk_paths_for_id env fs vm_id)
      | Some _ \<Rightarrow> rbind (managed_disk_for_vm env backend info) (\<lambda>disk. Inr (case disk of None \<Rightarrow> [] | Some d \<Rightarrow> [d])))"

definition retain_requested :: "vm_info option \<Rightarrow> bool" where
  "retain_requested info \<longleftrightarrow> (case info of None \<Rightarrow> False | Some i \<Rightarrow> vc_retain_disk_on_delete (vi_config i))"

definition cleanup_disk :: "disk_env \<Rightarrow> bool \<Rightarrow> bool \<Rightarrow> location \<Rightarrow> (entries, unit) op" where
  "cleanup_disk env retain preserve disk =
     bind (gets (\<lambda>fs. (entry_exists fs disk, entry_exists fs (retained_marker_path disk)))) (\<lambda>(there, marked).
     if \<not> there then ret ()
     else if retain then mark_disk_retained env disk
     else if preserve \<or> marked then ret ()
     else remove_managed_disk env disk)"

definition rmtree :: "disk_env \<Rightarrow> location \<Rightarrow> (entries, unit) op" where
  "rmtree env l = (\<lambda>fs. if de_rmtree env l then (Inr (), AList.delete l fs) else (Inl (OSError ''Permission denied''), fs))"

definition cleanup_firmware :: "disk_env \<Rightarrow> string \<Rightarrow> bool \<Rightarrow> (entries, unit) op" where
  "cleanup_firmware env vm_id retain =
     (let state = (de_data_dir env @ ''/firmware'', vm_id)
      in bind (lift (de_resolve env (de_data_dir env, ''firmware''))) (\<lambda>root.
         bind (lift (de_resolve env state)) (\<lambda>target.
         bind (gets (\<lambda>fs. (is_symlink fs state, entry_exists fs state))) (\<lambda>(link, there).
         bind (raise_when (link \<or> \<not> is_relative_to target root \<or> target = root)
                (CelestoError ''Saved firmware points outside its folder'')) (\<lambda>_.
           unless (\<not> there \<or> retain) (suppress (rmtree env state)))))))"

definition cleanup_log :: "disk_env \<Rightarrow> string \<Rightarrow> (entries, unit) op" where
  "cleanup_log env vm_id =
     suppress (bind (gets (\<lambda>fs. entry_is_file fs (runtime_log env vm_id))) (\<lambda>there.
       unless (\<not> there) (unlink env (runtime_log env vm_id))))"

definition cleanup_vm_artifacts ::
  "disk_env \<Rightarrow> string \<Rightarrow> string result \<Rightarrow> vm_info option \<Rightarrow> bool \<Rightarrow> (entries, unit) op" where
  "cleanup_vm_artifacts env vm_id backend info preserve =
     bind (raise_when (\<not> IDENTIFIER_PATTERN vm_id) (ValueError ''Invalid sandbox name'')) (\<lambda>_.
     bind (gets (\<lambda>fs. managed_disks_for_cleanup env fs vm_id backend info)) (\<lambda>found.
     bind (lift found) (\<lambda>disks.
     bind (for_each (cleanup_disk env (retain_requested info) preserve) disks) (\<lambda>_.
     bind (cleanup_firmware env vm_id (retain_requested info)) (\<lambda>_.
       cleanup_log env vm_id)))))"

section \<open>Names\<close>

definition plain_name :: "string \<Rightarrow> bool" where
  "plain_name s \<longleftrightarrow> (\<forall>c\<in>set s. c \<notin> set ''*?['')"

text \<open>The names that belong to a disk: its own and those that continue it after a dot.\<close>

definition serves :: "string \<Rightarrow> string \<Rightarrow> bool" where
  "serves disk name \<longleftrightarrow> name = disk \<or> starts_with (disk @ ''.'') name"

lemma starts_with_iff: "starts_with p s \<longleftrightarrow> (\<exists>t. s = p @ t)"
  by (auto simp: starts_with_def) (metis append_take_drop_id)

declare glob_match.simps(2) [simp del]

lemma glob_nil [simp]: "glob_match [] s \<longleftrightarrow> s = []"
  by (rule glob_match.simps(1))

lemma glob_star: "glob_match (CHR ''*'' # ps) s \<longleftrightarrow> (\<exists>t u. s = t @ u \<and> glob_match ps u)"
proof (induction s)
  case (Cons c s)
  have "(\<exists>t u. c # s = t @ u \<and> glob_match ps u) \<longleftrightarrow> glob_match ps (c # s) \<or> (\<exists>t u. s = t @ u \<and> glob_match ps u)"
    by (auto simp: Cons_eq_append_conv)
  then show ?case using Cons by (simp add: glob_match.simps(2) [of _ _ "c # s"])
qed (simp add: glob_match.simps(2) [of _ _ "[]"])

lemma glob_plain:
  "plain_name p \<Longrightarrow> glob_match (p @ q) s \<longleftrightarrow> (\<exists>u. s = p @ u \<and> glob_match q u)"
proof (induction p arbitrary: s)
  case (Cons c p)
  then have "c \<noteq> CHR ''*''" "c \<noteq> CHR ''?''" "c \<noteq> CHR ''[''" "plain_name p" by (auto simp: plain_name_def)
  then show ?case using Cons.IH by (cases s) (auto simp: glob_match.simps(2))
qed simp

lemma glob_companion: "plain_name d \<Longrightarrow> glob_match (d @ ''.*'') s \<longleftrightarrow> starts_with (d @ ''.'') s"
  using glob_plain [of "d @ ''.''" "''*''" s] by (auto simp: plain_name_def starts_with_iff glob_star)

lemma glob_log: "glob_match ''*.log'' s \<longleftrightarrow> (\<exists>t. s = t @ ''.log'')"
  using glob_plain [of "''.log''" "[]"] by (auto simp: plain_name_def glob_star)

definition is_disk_name :: "string \<Rightarrow> bool" where
  "is_disk_name d \<longleftrightarrow> (\<exists>stem suffix. d = stem @ ''.'' @ suffix \<and> CHR ''.'' \<notin> set stem \<and> stem \<noteq> [] \<and> suffix \<in> {''qcow2'', ''ext4''})"

lemma is_disk_name_partition:
  "is_disk_name d \<longleftrightarrow>
   (\<exists>stem suffix. partition_at (CHR ''.'') d = Some (stem, suffix) \<and> stem \<noteq> [] \<and> suffix \<in> {''qcow2'', ''ext4''})"
  unfolding is_disk_name_def partition_at_Some by auto

lemma disk_name_owner:
  assumes "d = stem @ ''.'' @ suffix" "suffix \<in> {''qcow2'', ''ext4''}"
  shows "disk_owner (folder, d) = stem"
proof -
  have "CHR ''.'' \<notin> set (rev suffix)" using assms(2) by auto
  then have "partition_at (CHR ''.'') (rev d) = Some (rev suffix, rev stem)" by (simp add: assms(1) partition_at_Some)
  then show ?thesis by (simp add: disk_owner_def rpartition_at_def)
qed

lemma first_dot:
  "a @ CHR ''.'' # s = b @ CHR ''.'' # t \<Longrightarrow> CHR ''.'' \<notin> set a \<Longrightarrow> CHR ''.'' \<notin> set b \<Longrightarrow> a = b \<and> s = t"
  by (metis option.inject partition_at_Some prod.inject)

lemma serves_tail: "serves d n \<Longrightarrow> \<exists>u. n = d @ u \<and> (u = [] \<or> hd u = CHR ''.'')"
  by (auto simp: serves_def starts_with_iff)

text \<open>A file belongs to one disk only.\<close>

lemma serves_unique:
  assumes "is_disk_name d" "is_disk_name d'" "serves d n" "serves d' n"
  shows "d = d'"
proof -
  obtain a s b t where d: "d = a @ ''.'' @ s" "CHR ''.'' \<notin> set a" "s \<in> {''qcow2'', ''ext4''}"
    and d': "d' = b @ ''.'' @ t" "CHR ''.'' \<notin> set b" "t \<in> {''qcow2'', ''ext4''}"
    using assms(1,2) by (auto simp: is_disk_name_def)
  obtain u v where n: "n = a @ CHR ''.'' # s @ u" "n = b @ CHR ''.'' # t @ v" "u = [] \<or> hd u = CHR ''.''" "v = [] \<or> hd v = CHR ''.''"
    using serves_tail [OF assms(3)] serves_tail [OF assms(4)] d(1) d'(1) by (metis append.assoc append_Cons append_Nil)
  then have "a = b" "s @ u = t @ v" using first_dot d(2) d'(2) by metis+
  moreover have "s = t" using \<open>s @ u = t @ v\<close> d(3) d'(3) by auto
  ultimately show ?thesis using d(1) d'(1) by simp
qed

lemma entry_is_file_in: "entry_is_file fs l \<Longrightarrow> l \<in> fst ` set fs"
  by (metis entry_is_file_def map_of_eq_None_iff option.simps(4) path_kind.distinct(1) path_kind_at_def)

lemma all_managed_disks_iff:
  "l \<in> set (all_managed_disks env fs) \<longleftrightarrow>
   fst l = disk_dir env \<and> de_listable env (disk_dir env) \<and> entry_is_file fs l \<and> is_disk_name (snd l)"
proof -
  have "(case partition_at (CHR ''.'') (snd l) of None \<Rightarrow> False
      | Some (stem, suffix) \<Rightarrow> stem \<noteq> [] \<and> suffix \<in> {''qcow2'', ''ext4''}) \<longleftrightarrow> is_disk_name (snd l)"
    unfolding is_disk_name_partition by (auto split: option.splits)
  moreover have "fst l = disk_dir env \<and> snd l \<in> set (folder_names env fs (disk_dir env)) \<longleftrightarrow>
      fst l = disk_dir env \<and> de_listable env (disk_dir env)" if "entry_is_file fs l"
    using entry_is_file_in [OF that] by (auto simp: folder_names_def image_iff)
  ultimately show ?thesis
    by (cases l) (auto simp: all_managed_disks_def simp del: insert_iff)
qed

section \<open>Companions\<close>

lemma sidecars_loop_serve:
  "sidecars_loop env fs root disk current seen sidecars = Inr xs \<Longrightarrow>
   x \<in> set xs \<Longrightarrow> x \<in> set sidecars \<or> is_managed_disk_sidecar disk x"
proof (induction env fs root disk current seen sidecars rule: sidecars_loop.induct)
  case (1 env fs root disk current seen sidecars)
  from 1(2) show ?case
    unfolding sidecars_loop.simps [of env fs root disk current seen sidecars]
    by (auto split: option.splits sum.splits if_splits dest!: 1(1) simp: 1(3))
qed

lemma sidecar_serves: "is_managed_disk_sidecar disk x \<Longrightarrow> starts_with (snd disk @ ''.'') (snd x)"
  by (auto simp: is_managed_disk_sidecar_def starts_with_iff)

lemma companions_iff:
  assumes "managed_disk_companions env fs disk = Inr cs" "plain_name (snd disk)"
  shows "x \<in> set cs \<Longrightarrow> starts_with (snd disk @ ''.'') (snd x)"
    and "de_listable env (fst disk) \<Longrightarrow> entry_is_file fs (fst disk, n) \<Longrightarrow> starts_with (snd disk @ ''.'') n \<Longrightarrow> (fst disk, n) \<in> set cs"
proof -
  obtain s where s: "managed_disk_backing_sidecars env fs disk = Inr s"
    and cs: "cs = dict_fromkeys (s @ filter (entry_is_file fs)
      (map (Pair (fst disk)) (filter (glob_match (snd disk @ ''.*'')) (folder_names env fs (fst disk)))))"
    using assms(1) by (auto simp: managed_disk_companions_def result_iff)
  have side: "starts_with (snd disk @ ''.'') (snd y)" if "y \<in> set s" for y
    using s that by (auto simp: managed_disk_backing_sidecars_def result_iff dest!: sidecars_loop_serve intro: sidecar_serves)
  show "starts_with (snd disk @ ''.'') (snd x)" if "x \<in> set cs"
    using that side [of x] by (auto simp: cs dict_fromkeys_def glob_companion [OF assms(2)])
  show "(fst disk, n) \<in> set cs" if "de_listable env (fst disk)" "entry_is_file fs (fst disk, n)" "starts_with (snd disk @ ''.'') n"
  proof -
    have "n \<in> set (folder_names env fs (fst disk))" using that(1) entry_is_file_in [OF that(2)] by (force simp: folder_names_def)
    then show ?thesis using that by (simp add: cs dict_fromkeys_def glob_companion [OF assms(2)])
  qed
qed

section \<open>What a sweep finds and removes\<close>

lemma concat_results_in:
  "concat_results (map f ds) = Inr xs \<Longrightarrow> a \<in> set xs \<Longrightarrow> \<exists>d\<in>set ds. \<exists>ys. f d = Inr ys \<and> a \<in> set ys"
  by (induction ds arbitrary: xs) (auto simp: result_iff)

lemma concat_results_all:
  "concat_results (map f ds) = Inr xs \<Longrightarrow> d \<in> set ds \<Longrightarrow> \<exists>ys. f d = Inr ys \<and> set ys \<subseteq> set xs"
  by (induction ds arbitrary: xs) (auto simp: result_iff, blast)

text \<open>The disks that a sweep may touch: their computer is gone and no process names them.\<close>

definition abandoned :: "disk_env \<Rightarrow> string list \<Rightarrow> string \<Rightarrow> location \<Rightarrow> bool" where
  "abandoned env live_ids args disk \<longleftrightarrow> disk_owner disk \<notin> set live_ids \<and> path_in_use env disk args = Inr False"

lemma disk_leftovers_in:
  assumes "disk_leftovers env fs live_ids args disk = Inr xs" "a \<in> set xs"
  shows "abandoned env live_ids args disk \<and> la_vm_id a = disk_owner disk \<and>
    la_retained a = entry_exists fs (retained_marker_path disk) \<and>
    (la_path a = runtime_log env (disk_owner disk) \<or> la_path a = disk \<or>
     (\<exists>cs. managed_disk_companions env fs disk = Inr cs \<and> la_path a \<in> set cs))"
  using assms by (auto simp: disk_leftovers_def abandoned_def Let_def result_iff leftover_def split: if_splits)

lemma disk_leftovers_all:
  assumes "disk_leftovers env fs live_ids args disk = Inr xs" "abandoned env live_ids args disk"
  shows "\<exists>cs. managed_disk_companions env fs disk = Inr cs \<and>
    (\<forall>l\<in>insert disk (set cs). \<exists>a\<in>set xs. la_path a = l \<and> la_retained a = entry_exists fs (retained_marker_path disk))"
  using assms by (auto simp: disk_leftovers_def abandoned_def Let_def result_iff leftover_def split: if_splits)

lemma log_leftovers_in:
  assumes "a \<in> set (log_leftovers env fs live_ids seen)"
  shows "\<not> la_retained a \<and> la_vm_id a \<notin> set live_ids \<and> la_path a = runtime_log env (la_vm_id a)"
  using assms by (auto simp: log_leftovers_def leftover_def runtime_log_def glob_log)

lemma find_leftover_Inr:
  "find_leftover_artifacts env fs vms sessions = Inr ls \<longleftrightarrow>
   (\<exists>vs ids args xs. vms = Inr vs \<and> session_ids sessions = Inr ids \<and> de_ps env = Some args \<and>
      concat_results (map (disk_leftovers env fs (map vi_vm_id vs @ ids) args) (all_managed_disks env fs)) = Inr xs \<and>
      ls = sort_key (\<lambda>a. (la_vm_id a, path_of (la_path a)))
        (xs @ log_leftovers env fs (map vi_vm_id vs @ ids) (map la_path xs)))"
  by (auto simp: find_leftover_artifacts_def result_iff Let_def split: option.splits)

text \<open>Every leftover is the log of a computer that is gone or belongs to an abandoned disk.\<close>

lemma find_leftover_in:
  assumes "find_leftover_artifacts env fs (Inr vms) sessions = Inr ls" "session_ids sessions = Inr ids"
    "a \<in> set ls"
  shows "la_vm_id a \<notin> set (map vi_vm_id vms @ ids) \<and>
    (la_path a = runtime_log env (la_vm_id a) \<or>
     (\<exists>d args. d \<in> set (all_managed_disks env fs) \<and> de_ps env = Some args \<and> abandoned env (map vi_vm_id vms @ ids) args d \<and>
        la_retained a = entry_exists fs (retained_marker_path d) \<and>
        (la_path a = d \<or> (\<exists>cs. managed_disk_companions env fs d = Inr cs \<and> la_path a \<in> set cs))))"
proof -
  obtain args xs where f: "de_ps env = Some args"
    "concat_results (map (disk_leftovers env fs (map vi_vm_id vms @ ids) args) (all_managed_disks env fs)) = Inr xs"
    "a \<in> set xs \<or> a \<in> set (log_leftovers env fs (map vi_vm_id vms @ ids) (map la_path xs))"
    using assms by (auto simp: find_leftover_Inr)
  show ?thesis
  proof (cases "a \<in> set xs")
    case True
    then obtain d ys where d: "d \<in> set (all_managed_disks env fs)" "disk_leftovers env fs (map vi_vm_id vms @ ids) args d = Inr ys" "a \<in> set ys"
      using concat_results_in [OF f(2)] by blast
    note a = disk_leftovers_in [OF d(2,3)]
    then have "la_vm_id a \<notin> set (map vi_vm_id vms @ ids)" by (simp add: abandoned_def)
    then show ?thesis using a d(1) f(1) by metis
  next
    case False
    then show ?thesis using f(3) log_leftovers_in by blast
  qed
qed

lemma find_leftover_all:
  assumes "find_leftover_artifacts env fs (Inr vms) sessions = Inr ls" "session_ids sessions = Inr ids" "de_ps env = Some args"
    "d \<in> set (all_managed_disks env fs)" "abandoned env (map vi_vm_id vms @ ids) args d"
  shows "\<exists>cs. managed_disk_companions env fs d = Inr cs \<and>
    (\<forall>l\<in>insert d (set cs). \<exists>a\<in>set ls. la_path a = l \<and> la_retained a = entry_exists fs (retained_marker_path d))"
proof -
  obtain xs where f: "concat_results (map (disk_leftovers env fs (map vi_vm_id vms @ ids) args) (all_managed_disks env fs)) = Inr xs"
    "set xs \<subseteq> set ls"
    using assms(1-3) by (auto simp: find_leftover_Inr)
  obtain ys where ys: "disk_leftovers env fs (map vi_vm_id vms @ ids) args d = Inr ys" "set ys \<subseteq> set ls"
    using concat_results_all [OF f(1) assms(4)] f(2) by blast
  show ?thesis using disk_leftovers_all [OF ys(1) assms(5)] ys(2) by (meson subsetD)
qed

text \<open>Removing them one by one takes away exactly the entries that are reported as removed.\<close>

lemma unlink_run:
  "unlink env l fs = (r, fs') \<Longrightarrow>
   (r = Inr () \<and> fs' = AList.delete l fs \<and> map_of fs l \<notin> {None, Some FOLDER} \<and> de_unlink env l) \<or>
   (\<exists>e. r = Inl e \<and> is_os_error e \<and> fs' = fs \<and> (map_of fs l \<in> {None, Some FOLDER} \<or> \<not> de_unlink env l))"
  by (auto simp: unlink_def is_os_error_def split: option.splits entry.splits if_splits)

lemma remove_leftovers_run:
  assumes "remove_leftovers env as fs = (r, fs')"
  shows "\<exists>removed. r = Inr removed \<and> set removed \<subseteq> set as \<and> fs' = filter (\<lambda>e. fst e \<notin> la_path ` set removed) fs \<and>
    (\<forall>a\<in>set removed. map_of fs (la_path a) \<notin> {None, Some FOLDER}) \<and>
    (\<forall>a\<in>set as. entry_is_file fs (la_path a) \<longrightarrow> de_unlink env (la_path a) \<longrightarrow> map_of fs' (la_path a) = None)"
  using assms
proof (induction as arbitrary: fs r fs')
  case Nil
  then show ?case by (simp add: ret_def)
next
  case (Cons a as)
  obtain q fs1 where u: "unlink env (la_path a) fs = (q, fs1)" by fastforce
  obtain s fs2 where v: "remove_leftovers env as fs1 = (s, fs2)" by fastforce
  obtain others where IH: "s = Inr others" "set others \<subseteq> set as" "fs2 = filter (\<lambda>e. fst e \<notin> la_path ` set others) fs1"
    "\<forall>b\<in>set others. map_of fs1 (la_path b) \<notin> {None, Some FOLDER}"
    "\<forall>b\<in>set as. entry_is_file fs1 (la_path b) \<longrightarrow> de_unlink env (la_path b) \<longrightarrow> map_of fs2 (la_path b) = None"
    using Cons.IH [OF v] by auto
  show ?case
  proof (cases q)
    case (Inl e)
    then have "fs1 = fs" "is_os_error e" "\<not> (entry_is_file fs (la_path a) \<and> de_unlink env (la_path a))"
      using unlink_run [OF u] by (auto simp: entry_is_file_def path_kind_at_def)
    moreover from this have "r = Inr others" "fs' = fs2" using Cons.prems u v IH(1) Inl by (auto simp: run)
    ultimately show ?thesis using IH by auto
  next
    case (Inr _)
    then have d: "fs1 = AList.delete (la_path a) fs" "map_of fs (la_path a) \<notin> {None, Some FOLDER}" using unlink_run [OF u] by auto
    have r: "r = Inr (a # others)" "fs' = fs2" using Cons.prems u v IH(1) Inr by (auto simp: run)
    have f: "fs2 = filter (\<lambda>e. fst e \<notin> la_path ` set (a # others)) fs"
      unfolding IH(3) d(1) by (auto simp: AList.delete_eq intro!: filter_cong)
    have gone: "map_of fs2 l = None" if "l = la_path a \<or> map_of fs1 l = None" for l
      using that by (auto simp: f d(1) IH(3) map_of_eq_None_iff delete_conv' split: if_splits)
    show ?thesis
    proof (intro exI conjI ballI impI)
      show "r = Inr (a # others)" by (rule r(1))
      show "set (a # others) \<subseteq> set (a # as)" using IH(2) by auto
      show "fs' = filter (\<lambda>e. fst e \<notin> la_path ` set (a # others)) fs" using r(2) f by simp
      show "map_of fs (la_path b) \<notin> {None, Some FOLDER}" if "b \<in> set (a # others)" for b
        using that IH(4) d by (auto simp: delete_conv' split: if_splits)
      show "map_of fs' (la_path b) = None" if "b \<in> set (a # as)" "entry_is_file fs (la_path b)" "de_unlink env (la_path b)" for b
      proof (cases "la_path b = la_path a")
        case False
        then have "entry_is_file fs1 (la_path b)" using that(2) by (simp add: d(1) entry_is_file_def path_kind_at_def delete_conv')
        then show ?thesis using that False IH(5) r(2) by auto
      qed (use gone r(2) in auto)
    qed
  qed
qed

lemma map_of_filter_keys: "map_of (filter (\<lambda>e. fst e \<notin> A) fs) l = (if l \<in> A then None else map_of fs l)"
  by (induction fs) auto

lemma prune_run:
  assumes "prune_leftover_artifacts env vms sessions include_retained dry_run fs = (r, fs')"
  shows "(\<exists>e. find_leftover_artifacts env fs vms sessions = Inl e \<and> r = Inl e \<and> fs' = fs) \<or>
    (\<exists>ls. find_leftover_artifacts env fs vms sessions = Inr ls \<and>
      (let removable = filter (\<lambda>a. include_retained \<or> \<not> la_retained a) ls
       in if dry_run then r = Inr removable \<and> fs' = fs else remove_leftovers env removable fs = (r, fs')))"
proof (cases "find_leftover_artifacts env fs vms sessions")
  case (Inl e)
  then have "r = Inl e \<and> fs' = fs" using assms by (simp add: prune_leftover_artifacts_def run)
  then show ?thesis using Inl by simp
qed (use assms in \<open>auto simp add: prune_leftover_artifacts_def run Let_def split: if_splits\<close>)

lemma prune_untouched:
  assumes "prune_leftover_artifacts env vms sessions include_retained dry_run fs = (r, fs')"
    "\<And>ls a. find_leftover_artifacts env fs vms sessions = Inr ls \<Longrightarrow> a \<in> set ls \<Longrightarrow> include_retained \<or> \<not> la_retained a \<Longrightarrow> la_path a \<noteq> l"
  shows "map_of fs' l = map_of fs l"
proof (cases "fs' = fs")
  case False
  then obtain ls where ls: "find_leftover_artifacts env fs vms sessions = Inr ls"
    "remove_leftovers env (filter (\<lambda>a. include_retained \<or> \<not> la_retained a) ls) fs = (r, fs')"
    using prune_run [OF assms(1)] by (auto simp: Let_def split: if_splits)
  then obtain removed where "set removed \<subseteq> {a \<in> set ls. include_retained \<or> \<not> la_retained a}"
    "fs' = filter (\<lambda>e. fst e \<notin> la_path ` set removed) fs"
    using remove_leftovers_run [OF ls(2)] by auto
  then show ?thesis using assms(2) [OF ls(1)] by (auto simp: map_of_filter_keys)
qed simp

text \<open>What a sweep with these arguments leaves alone.\<close>

definition spared :: "disk_env \<Rightarrow> entries \<Rightarrow> string list \<Rightarrow> string \<Rightarrow> bool \<Rightarrow> location \<Rightarrow> bool" where
  "spared env fs live_ids args include_retained disk \<longleftrightarrow>
     \<not> abandoned env live_ids args disk \<or> (\<not> include_retained \<and> entry_exists fs (retained_marker_path disk))"

lemma leftover_path_name:
  assumes "d \<in> set (all_managed_disks env fs)" "plain_name (snd d)"
    "la_path a = d \<or> (\<exists>cs. managed_disk_companions env fs d = Inr cs \<and> la_path a \<in> set cs)"
  shows "serves (snd d) (snd (la_path a))"
  using assms(3) companions_iff(1) [OF _ assms(2)] unfolding serves_def by metis

lemma serves_not_log:
  assumes "is_disk_name d" "CHR ''.'' \<notin> set vm"
  shows "\<not> serves d (vm @ ''.log'')"
proof
  assume "serves d (vm @ ''.log'')"
  then obtain u where u: "vm @ ''.log'' = d @ u" using serves_tail by blast
  obtain a s where d: "d = a @ ''.'' @ s" "CHR ''.'' \<notin> set a" "s \<in> {''qcow2'', ''ext4''}"
    using assms(1) by (auto simp: is_disk_name_def)
  have "''log'' = s @ u" using first_dot [of vm "''log''" a "s @ u"] u d assms(2) by simp
  then show False using d(3) by auto
qed

lemma disk_dir_not_data_dir: "disk_dir env \<noteq> de_data_dir env"
  by (simp add: disk_dir_def)

text \<open>A removed file is never that of a spared disk, nor the log of a known computer.\<close>

lemma leftover_not_spared:
  assumes "find_leftover_artifacts env fs (Inr vms) sessions = Inr ls" "session_ids sessions = Inr ids"
    "\<forall>d\<in>set (all_managed_disks env fs). plain_name (snd d)"
    "a \<in> set ls" "include_retained \<or> \<not> la_retained a"
  shows "d \<in> set (all_managed_disks env fs) \<Longrightarrow> de_ps env = Some args \<Longrightarrow>
      spared env fs (map vi_vm_id vms @ ids) args include_retained d \<Longrightarrow> serves (snd d) n \<Longrightarrow> la_path a \<noteq> (disk_dir env, n)"
    and "vm \<in> set (map vi_vm_id vms @ ids) \<Longrightarrow> CHR ''.'' \<notin> set vm \<Longrightarrow> la_path a \<noteq> runtime_log env vm"
proof -
  note a = find_leftover_in [OF assms(1,2,4)]
  have own: "serves (snd d) (snd (la_path a))" "is_disk_name (snd d)" "fst d = disk_dir env"
    if "d \<in> set (all_managed_disks env fs)" "la_path a = d \<or> (\<exists>cs. managed_disk_companions env fs d = Inr cs \<and> la_path a \<in> set cs)" for d
    using that assms(3) by (auto simp: all_managed_disks_iff intro!: leftover_path_name)
  show "la_path a \<noteq> (disk_dir env, n)"
    if d: "d \<in> set (all_managed_disks env fs)" "de_ps env = Some args"
      "spared env fs (map vi_vm_id vms @ ids) args include_retained d" "serves (snd d) n"
  proof
    assume p: "la_path a = (disk_dir env, n)"
    then have "la_path a \<noteq> runtime_log env (la_vm_id a)" using disk_dir_not_data_dir [of env] by (auto simp: runtime_log_def)
    then obtain d' where d': "d' \<in> set (all_managed_disks env fs)" "abandoned env (map vi_vm_id vms @ ids) args d'"
      "la_retained a = entry_exists fs (retained_marker_path d')"
      "la_path a = d' \<or> (\<exists>cs. managed_disk_companions env fs d' = Inr cs \<and> la_path a \<in> set cs)"
      using a d(2) by (metis option.inject)
    have "d' = d"
      using serves_unique [OF own(2) [OF d'(1,4)] _ own(1) [OF d'(1,4)]] d(1,4) p own(3) [OF d'(1,4)]
      by (metis all_managed_disks_iff prod.collapse snd_conv)
    then show False using d'(2,3) assms(5) d(3) by (auto simp: spared_def)
  qed
  show "la_path a \<noteq> runtime_log env vm" if "vm \<in> set (map vi_vm_id vms @ ids)" "CHR ''.'' \<notin> set vm"
  proof
    assume p: "la_path a = runtime_log env vm"
    then have "la_path a \<noteq> runtime_log env (la_vm_id a)" using a that(1) by (auto simp: runtime_log_def)
    then obtain d' where "d' \<in> set (all_managed_disks env fs)"
      "la_path a = d' \<or> (\<exists>cs. managed_disk_companions env fs d' = Inr cs \<and> la_path a \<in> set cs)"
      using a by metis
    then show False using own serves_not_log [OF _ that(2)] p by (metis runtime_log_def snd_conv)
  qed
qed

text \<open>
  \<^bold>\<open>C8\<close> A sweep for leftovers removes exactly the files it reports, and none when the running processes cannot be listed or on a dry
  run. A disk with all the files that belong to it survives when its computer is known, when a running process names it,
  or when it is marked as kept (unless the caller includes kept disks); the log of a known computer survives too. All
  files of every other disk are removed, as far as the file system permits. Names of disks hold no pattern characters.
\<close>

theorem prune_spares:
  assumes call: "prune_leftover_artifacts env (Inr vms) sessions include_retained dry_run fs = (r, fs')"
    and ids: "session_ids sessions = Inr ids"
    and plain: "\<forall>d\<in>set (all_managed_disks env fs). plain_name (snd d)"
  shows "(case r of Inl _ \<Rightarrow> fs' = fs
      | Inr removed \<Rightarrow> fs' = (if dry_run then fs else filter (\<lambda>e. fst e \<notin> la_path ` set removed) fs)) \<and>
    (de_ps env = None \<longrightarrow> (\<exists>e. r = Inl e)) \<and>
    (\<forall>vm\<in>set (map vi_vm_id vms @ ids). CHR ''.'' \<notin> set vm \<longrightarrow> map_of fs' (runtime_log env vm) = map_of fs (runtime_log env vm)) \<and>
    (\<forall>d\<in>set (all_managed_disks env fs). \<forall>args. de_ps env = Some args \<longrightarrow>
       (\<forall>n. serves (snd d) n \<longrightarrow>
         (if spared env fs (map vi_vm_id vms @ ids) args include_retained d
          then map_of fs' (disk_dir env, n) = map_of fs (disk_dir env, n)
          else \<not> dry_run \<longrightarrow> succeeds r \<longrightarrow> entry_is_file fs (disk_dir env, n) \<longrightarrow> de_unlink env (disk_dir env, n) \<longrightarrow>
            map_of fs' (disk_dir env, n) = None)))"
proof (cases "find_leftover_artifacts env fs (Inr vms) sessions")
  case (Inl e)
  then have "r = Inl e" "fs' = fs" using prune_run [OF call] by auto
  then show ?thesis by auto
next
  case (Inr ls)
  have ps: "de_ps env \<noteq> None" using Inr by (auto simp: find_leftover_Inr)
  show ?thesis
  proof (cases dry_run)
    case True
    then have "fs' = fs" "\<exists>xs. r = Inr xs" using prune_run [OF call] Inr by (auto simp: Let_def)
    then show ?thesis using ps True by auto
  next
    case False
    let ?removable = "filter (\<lambda>a. include_retained \<or> \<not> la_retained a) ls"
    have "remove_leftovers env ?removable fs = (r, fs')" using prune_run [OF call] Inr False by (auto simp: Let_def)
    then obtain removed where removed: "r = Inr removed" "set removed \<subseteq> set ?removable"
      "fs' = filter (\<lambda>e. fst e \<notin> la_path ` set removed) fs"
      "\<forall>a\<in>set ?removable. entry_is_file fs (la_path a) \<longrightarrow> de_unlink env (la_path a) \<longrightarrow> map_of fs' (la_path a) = None"
      using remove_leftovers_run by blast
    note safe = leftover_not_spared [where include_retained = include_retained, OF Inr ids plain]
    have kept: "map_of fs' (disk_dir env, n) = map_of fs (disk_dir env, n)"
      if "d \<in> set (all_managed_disks env fs)" "de_ps env = Some args"
        "spared env fs (map vi_vm_id vms @ ids) args include_retained d" "serves (snd d) n" for d args n
      by (rule prune_untouched [OF call]) (use safe(1) [OF _ _ that] Inr in auto)
    have gone: "map_of fs' (disk_dir env, n) = None"
      if d: "d \<in> set (all_managed_disks env fs)" "de_ps env = Some args"
        "\<not> spared env fs (map vi_vm_id vms @ ids) args include_retained d" "serves (snd d) n"
        "entry_is_file fs (disk_dir env, n)" "de_unlink env (disk_dir env, n)" for d args n
    proof -
      have ab: "abandoned env (map vi_vm_id vms @ ids) args d" "include_retained \<or> \<not> entry_exists fs (retained_marker_path d)"
        using d(3) by (auto simp: spared_def)
      obtain cs where cs: "managed_disk_companions env fs d = Inr cs"
        "\<forall>l\<in>insert d (set cs). \<exists>a\<in>set ls. la_path a = l \<and> la_retained a = entry_exists fs (retained_marker_path d)"
        using find_leftover_all [OF Inr ids d(2,1) ab(1)] by blast
      have "fst d = disk_dir env" "de_listable env (fst d)" "plain_name (snd d)" using d(1) plain by (auto simp: all_managed_disks_iff)
      then have "(disk_dir env, n) \<in> insert d (set cs)"
        using companions_iff(2) [OF cs(1)] d(4,5) by (cases d) (auto simp: serves_def)
      then obtain a where "a \<in> set ls" "la_path a = (disk_dir env, n)" "la_retained a = entry_exists fs (retained_marker_path d)"
        using cs(2) by metis
      then have "a \<in> set ?removable" "la_path a = (disk_dir env, n)" using ab(2) by auto
      then show ?thesis using removed(4) d(5,6) by metis
    qed
    have logs: "map_of fs' (runtime_log env vm) = map_of fs (runtime_log env vm)"
      if "vm \<in> set (map vi_vm_id vms @ ids)" "CHR ''.'' \<notin> set vm" for vm
      by (rule prune_untouched [OF call]) (use safe(2) [OF _ _ that] Inr in auto)
    show ?thesis using False removed(1,3) ps kept gone logs by simp
  qed
qed

text \<open>Computer \<open>a\<close> is known, the disk of \<open>b\<close> is kept, \<open>c\<close> left a disk with a backing file.\<close>

definition demo_disk_env :: disk_env where
  "demo_disk_env =
     \<lparr>de_data_dir = ''/d'', de_resolve = Inr,
      de_backing = (\<lambda>l. if l = (''/d/disks'', ''c.qcow2'') then Some (''/d/disks'', ''c.qcow2.backing-1'') else None),
      de_listable = (\<lambda>_. True), de_unlink = (\<lambda>_. True), de_touch = (\<lambda>_. True), de_rmtree = (\<lambda>_. True),
      de_ps = Some ''qemu'', de_size = (\<lambda>_. 1)\<rparr>"

definition demo_entries :: entries where
  "demo_entries =
     [((''/d'', ''disks''), FOLDER), ((''/d'', ''a.log''), FILE), ((''/d'', ''c.log''), FILE),
      ((''/d/disks'', ''a.qcow2''), FILE), ((''/d/disks'', ''b.qcow2''), FILE), ((''/d/disks'', ''b.qcow2.retained''), FILE),
      ((''/d/disks'', ''c.qcow2''), FILE), ((''/d/disks'', ''c.qcow2.backing-1''), FILE)]"

definition demo_entries_pruned :: entries where
  "demo_entries_pruned =
     [((''/d'', ''disks''), FOLDER), ((''/d'', ''a.log''), FILE),
      ((''/d/disks'', ''a.qcow2''), FILE), ((''/d/disks'', ''b.qcow2''), FILE), ((''/d/disks'', ''b.qcow2.retained''), FILE)]"

definition demo_row :: "string \<Rightarrow> vm_info" where
  "demo_row vm = created_vm_info (demo_config vm)"

lemma demo_prune:
  "snd (prune_leftover_artifacts demo_disk_env (Inr [demo_row ''a'']) (Inr []) False False demo_entries) = demo_entries_pruned"
  "succeeds (fst (prune_leftover_artifacts demo_disk_env (Inr [demo_row ''a'']) (Inr []) False False demo_entries))"
  "all_managed_disks demo_disk_env demo_entries =
     [(''/d/disks'', ''a.qcow2''), (''/d/disks'', ''b.qcow2''), (''/d/disks'', ''c.qcow2'')]"
  by code_simp+

theorem prune_spares_witness:
  "map_of demo_entries_pruned (''/d/disks'', ''b.qcow2'') = map_of demo_entries (''/d/disks'', ''b.qcow2'') \<and>
   map_of demo_entries_pruned (''/d/disks'', ''a.qcow2'') = map_of demo_entries (''/d/disks'', ''a.qcow2'') \<and>
   map_of demo_entries_pruned (''/d/disks'', ''c.qcow2.backing-1'') = None"
proof -
  obtain r where run: "prune_leftover_artifacts demo_disk_env (Inr [demo_row ''a'']) (Inr []) False False demo_entries = (r, demo_entries_pruned)"
    and r: "succeeds r"
    using demo_prune(1,2) by (metis prod.collapse)
  have plain: "\<forall>d\<in>set (all_managed_disks demo_disk_env demo_entries). plain_name (snd d)"
    unfolding demo_prune(3) by (simp add: plain_name_def)
  have ids: "session_ids (Inr []) = Inr []" by (simp add: session_ids_def)
  let ?keep = "spared demo_disk_env demo_entries (map vi_vm_id [demo_row ''a''] @ []) ''qemu'' False"
  have spared: "?keep (''/d/disks'', ''a.qcow2'')" "?keep (''/d/disks'', ''b.qcow2'')" "\<not> ?keep (''/d/disks'', ''c.qcow2'')"
    by code_simp+
  have s: "serves ''a.qcow2'' ''a.qcow2''" "serves ''b.qcow2'' ''b.qcow2''" "serves ''c.qcow2'' ''c.qcow2.backing-1''"
    by code_simp+
  have e: "disk_dir demo_disk_env = ''/d/disks''" "de_ps demo_disk_env = Some ''qemu''" "de_unlink demo_disk_env l" for l
    by (simp_all add: disk_dir_def demo_disk_env_def)
  have f: "entry_is_file demo_entries (''/d/disks'', ''c.qcow2.backing-1'')" by code_simp
  note all = prune_spares [OF run ids plain]
  have disks: "\<forall>d\<in>set [(''/d/disks'', ''a.qcow2''), (''/d/disks'', ''b.qcow2''), (''/d/disks'', ''c.qcow2'')].
      \<forall>n. serves (snd d) n \<longrightarrow>
         (if ?keep d then map_of demo_entries_pruned (''/d/disks'', n) = map_of demo_entries (''/d/disks'', n)
          else entry_is_file demo_entries (''/d/disks'', n) \<longrightarrow> map_of demo_entries_pruned (''/d/disks'', n) = None)"
    using all unfolding demo_prune(3) e(1,2) using r by (simp add: e(3) cong: if_cong)
  show ?thesis using disks spared s f by simp
qed

section \<open>What removing a computer leaves on the disk\<close>

definition without :: "(location \<Rightarrow> bool) \<Rightarrow> entries \<Rightarrow> entries" where
  "without P fs = filter (\<lambda>e. \<not> P (fst e)) fs"

lemma map_of_without [simp]: "map_of (without P fs) l = (if P l then None else map_of fs l)"
  by (induction fs) (auto simp: without_def)

lemma without_without: "without P (without Q fs) = without (\<lambda>k. P k \<or> Q k) fs"
  by (auto simp: without_def intro!: filter_cong)

definition goes :: "disk_env \<Rightarrow> entries \<Rightarrow> location \<Rightarrow> bool" where
  "goes env fs l \<longleftrightarrow> map_of fs l \<noteq> Some FOLDER \<and> de_unlink env l"

lemma try_unlink: "suppress (unlink env l) fs = (Inr (), without (\<lambda>k. k = l \<and> goes env fs k) fs)"
proof (cases "map_of fs l \<noteq> None \<and> goes env fs l")
  case True
  then have "suppress (unlink env l) fs = (Inr (), AList.delete l fs)"
    by (auto simp: suppress_def run unlink_def goes_def split: option.splits entry.splits)
  moreover have "AList.delete l fs = without (\<lambda>k. k = l \<and> goes env fs k) fs"
    using True by (auto simp: AList.delete_eq without_def intro!: filter_cong)
  ultimately show ?thesis by simp
next
  case False
  then have "suppress (unlink env l) fs = (Inr (), fs)"
    by (auto simp: suppress_def run unlink_def goes_def is_exception_def split: option.splits entry.splits)
  moreover have "without (\<lambda>k. k = l \<and> goes env fs k) fs = fs"
    using False by (auto simp: without_def filter_id_conv map_of_eq_None_iff)
  ultimately show ?thesis by simp
qed

lemma try_unlinks:
  "for_each (\<lambda>l. suppress (unlink env l)) ls fs = (Inr (), without (\<lambda>k. k \<in> set ls \<and> goes env fs k) fs)"
proof (induction ls arbitrary: fs)
  case (Cons l ls)
  let ?fs = "without (\<lambda>k. k = l \<and> goes env fs k) fs"
  have "for_each (\<lambda>l. suppress (unlink env l)) (l # ls) fs = (Inr (), without (\<lambda>k. k \<in> set ls \<and> goes env ?fs k) ?fs)"
    using Cons.IH [of ?fs] by (simp add: bind_def try_unlink [of env l])
  moreover have "without (\<lambda>k. k \<in> set ls \<and> goes env ?fs k) ?fs = without (\<lambda>k. k \<in> set (l # ls) \<and> goes env fs k) fs"
    unfolding without_without by (rule arg_cong [of _ _ "\<lambda>P. without P fs"]) (auto simp: goes_def)
  ultimately show ?case by simp
qed (simp add: ret_def without_def)

lemma remove_managed_disk_run:
  "remove_managed_disk env disk fs =
     (case managed_disk_companions env fs disk of
        Inl e \<Rightarrow> (Inl e, fs)
      | Inr cs \<Rightarrow> (Inr (), without (\<lambda>k. k \<in> set (disk # cs) \<and> goes env fs k) fs))"
  using try_unlinks [of env "disk # cs" fs for cs]
  by (simp add: remove_managed_disk_def run split: sum.split)

lemma sidecars_loop_below:
  "sidecars_loop env fs root disk current seen sidecars = Inr xs \<Longrightarrow> x \<in> set xs \<Longrightarrow> x \<in> set sidecars \<or> is_relative_to x root"
proof (induction env fs root disk current seen sidecars rule: sidecars_loop.induct)
  case (1 env fs root disk current seen sidecars)
  from 1(2) show ?case
    unfolding sidecars_loop.simps [of env fs root disk current seen sidecars]
    by (auto split: option.splits sum.splits if_splits dest!: 1(1) simp: 1(3))
qed

text \<open>The files that may go with a disk: they are named after it and lie beside it or below the folder of the disks.\<close>

definition may_remove :: "disk_env \<Rightarrow> location \<Rightarrow> location \<Rightarrow> bool" where
  "may_remove env disk l \<longleftrightarrow>
     serves (snd disk) (snd l) \<and>
     (fst l = fst disk \<or> (\<exists>root. de_resolve env (de_data_dir env, ''disks'') = Inr root \<and> is_relative_to l root))"

lemma companions_may_remove:
  assumes "managed_disk_companions env fs disk = Inr cs" "x \<in> set (disk # cs)" "plain_name (snd disk)"
  shows "may_remove env disk x"
proof (cases "x = disk")
  case False
  then have x: "x \<in> set cs" using assms(2) by simp
  obtain s root where s: "de_resolve env (de_data_dir env, ''disks'') = Inr root" "sidecars_loop env fs root disk disk [] [] = Inr s"
    and cs: "x \<in> set s \<or> fst x = fst disk"
    using assms(1) x by (auto simp: managed_disk_companions_def managed_disk_backing_sidecars_def result_iff dict_fromkeys_def)
  have "x \<in> set s \<Longrightarrow> is_relative_to x root" using sidecars_loop_below [OF s(2)] by simp
  then show ?thesis using companions_iff(1) [OF assms(1,3) x] s(1) cs unfolding may_remove_def serves_def by blast
qed (simp add: may_remove_def serves_def)

lemma mark_run:
  "mark_disk_retained env disk fs =
     (Inr (), if \<not> entry_exists fs (retained_marker_path disk) \<and> de_touch env (retained_marker_path disk)
              then AList.update (retained_marker_path disk) FILE fs else fs)"
  by (simp add: mark_disk_retained_def touch_def run is_os_error_def)

text \<open>Cleaning up after one disk.\<close>

lemma cleanup_disk_run:
  assumes "cleanup_disk env retain preserve disk fs = (r, fs')" "plain_name (snd disk)"
  defines "kept \<equiv> retain \<or> preserve \<or> entry_exists fs (retained_marker_path disk)"
  shows cleanup_disk_frame: "\<not> may_remove env disk l \<Longrightarrow> map_of fs' l = map_of fs l"
    and cleanup_disk_keeps: "kept \<Longrightarrow> map_of fs l \<noteq> None \<Longrightarrow> entry_exists fs l \<Longrightarrow> map_of fs' l = map_of fs l"
    and cleanup_disk_marks: "retain \<Longrightarrow> entry_exists fs disk \<Longrightarrow> de_touch env (retained_marker_path disk) \<Longrightarrow>
      entry_exists fs' (retained_marker_path disk)"
    and cleanup_disk_removes: "\<not> kept \<Longrightarrow> r = Inr () \<Longrightarrow> entry_exists fs disk \<Longrightarrow> de_listable env (fst disk) \<Longrightarrow> serves (snd disk) n \<Longrightarrow>
      entry_is_file fs (fst disk, n) \<Longrightarrow> de_unlink env (fst disk, n) \<Longrightarrow> map_of fs' (fst disk, n) = None"
proof -
  have marker: "may_remove env disk (retained_marker_path disk)"
    by (simp add: may_remove_def serves_def retained_marker_path_def starts_with_iff)
  have run: "(r, fs') = (if \<not> entry_exists fs disk then (Inr (), fs) else if retain then mark_disk_retained env disk fs
      else if preserve \<or> entry_exists fs (retained_marker_path disk) then (Inr (), fs) else remove_managed_disk env disk fs)"
    using assms(1) by (auto simp: cleanup_disk_def run split: if_splits)
  show "map_of fs' l = map_of fs l" if "\<not> may_remove env disk l"
    using run that marker companions_may_remove [OF _ _ assms(2), of env fs _ l]
    by (auto simp: mark_run remove_managed_disk_run update_conv' split: if_splits sum.splits)
  show "map_of fs' l = map_of fs l" if "kept" "map_of fs l \<noteq> None" "entry_exists fs l"
    using run that by (auto simp: kept_def mark_run update_conv' split: if_splits)
  show "entry_exists fs' (retained_marker_path disk)" if "retain" "entry_exists fs disk" "de_touch env (retained_marker_path disk)"
    using run that by (auto simp: mark_run entry_exists_def path_kind_at_def update_conv' split: if_splits)
  show "map_of fs' (fst disk, n) = None"
    if gone: "\<not> kept" "r = Inr ()" "entry_exists fs disk" "de_listable env (fst disk)" "serves (snd disk) n"
      "entry_is_file fs (fst disk, n)" "de_unlink env (fst disk, n)"
  proof -
    obtain cs where cs: "managed_disk_companions env fs disk = Inr cs"
      "fs' = without (\<lambda>k. k \<in> set (disk # cs) \<and> goes env fs k) fs"
      using run gone(1-3) by (auto simp: kept_def remove_managed_disk_run split: sum.splits)
    have "(fst disk, n) \<in> set (disk # cs)"
      using companions_iff(2) [OF cs(1) assms(2) that(4,6)] that(5) by (cases disk) (auto simp: serves_def)
    moreover have "goes env fs (fst disk, n)" using that(6,7) by (auto simp: goes_def entry_is_file_def path_kind_at_def)
    ultimately show ?thesis unfolding cs(2) by simp
  qed
qed

text \<open>
  The outcome for one disk: when it is to be kept, nothing that belongs to it changes, and a request to retain it leaves the
  marker; otherwise all its files are gone after a normal return, as far as the file system permits.
\<close>

definition disk_outcome :: "disk_env \<Rightarrow> bool \<Rightarrow> bool \<Rightarrow> unit result \<Rightarrow> entries \<Rightarrow> entries \<Rightarrow> location \<Rightarrow> bool" where
  "disk_outcome env retain preserve r fs fs' d \<longleftrightarrow>
     (\<forall>n. serves (snd d) n \<longrightarrow>
       (if retain \<or> preserve \<or> entry_exists fs (retained_marker_path d)
        then entry_exists fs (fst d, n) \<longrightarrow> map_of fs' (fst d, n) = map_of fs (fst d, n)
        else succeeds r \<longrightarrow> entry_exists fs d \<longrightarrow> de_listable env (fst d) \<longrightarrow> entry_is_file fs (fst d, n) \<longrightarrow>
          de_unlink env (fst d, n) \<longrightarrow> map_of fs' (fst d, n) = None)) \<and>
     (retain \<longrightarrow> entry_exists fs d \<longrightarrow> de_touch env (retained_marker_path d) \<longrightarrow> entry_exists fs' (retained_marker_path d))"

definition same_files :: "location \<Rightarrow> entries \<Rightarrow> entries \<Rightarrow> bool" where
  "same_files d fs fs' \<longleftrightarrow> (\<forall>n. serves (snd d) n \<longrightarrow> map_of fs' (fst d, n) = map_of fs (fst d, n))"

lemma serves_own: "serves d d" "serves d (d @ ''.retained'')"
  by (simp_all add: serves_def starts_with_iff)

lemma same_files_entry:
  "same_files d fs fs' \<Longrightarrow> serves (snd d) n \<Longrightarrow> entry_exists fs' (fst d, n) = entry_exists fs (fst d, n)"
  "same_files d fs fs' \<Longrightarrow> serves (snd d) n \<Longrightarrow> entry_is_file fs' (fst d, n) = entry_is_file fs (fst d, n)"
  by (simp_all add: same_files_def entry_exists_def entry_is_file_def path_kind_at_def)

lemma disk_outcome_cong:
  assumes "same_files d fs1 fs" "same_files d fs2 fs'" "succeeds r \<longrightarrow> succeeds q"
    "disk_outcome env retain preserve q fs1 fs2 d"
  shows "disk_outcome env retain preserve r fs fs' d"
proof -
  have d: "entry_exists fs d = entry_exists fs1 d"
    using same_files_entry(1) [OF assms(1) serves_own(1)] by simp
  have m: "entry_exists fs (retained_marker_path d) = entry_exists fs1 (retained_marker_path d)"
    "entry_exists fs' (retained_marker_path d) = entry_exists fs2 (retained_marker_path d)"
    using same_files_entry(1) [OF assms(1) serves_own(2)] same_files_entry(1) [OF assms(2) serves_own(2)]
    by (simp_all add: retained_marker_path_def)
  show ?thesis
    using assms(3,4) same_files_entry [OF assms(1)] assms(1,2)
    unfolding disk_outcome_def d m same_files_def by (auto split: if_splits)
qed

lemma cleanup_disk_outcome:
  "cleanup_disk env retain preserve d fs = (r, fs') \<Longrightarrow> plain_name (snd d) \<Longrightarrow> disk_outcome env retain preserve r fs fs' d"
  unfolding disk_outcome_def
  using cleanup_disk_keeps [of env retain preserve d fs r fs'] cleanup_disk_marks [of env retain preserve d fs r fs']
    cleanup_disk_removes [of env retain preserve d fs r fs']
  by (auto simp: succeeds_iff entry_exists_def path_kind_at_def split: option.splits)

lemma other_disk_file:
  assumes "is_disk_name (snd d)" "is_disk_name (snd d')" "snd d \<noteq> snd d'" "serves (snd d') (snd l)"
  shows "\<not> may_remove env d l"
  using assms serves_unique by (auto simp: may_remove_def)

text \<open>The disks of one computer, cleaned up one after the other.\<close>

lemma cleanup_disks_frame:
  assumes "for_each (cleanup_disk env retain preserve) ds fs = (r, fs')" "\<forall>d\<in>set ds. plain_name (snd d) \<and> \<not> may_remove env d l"
  shows "map_of fs' l = map_of fs l"
proof -
  have "keeps (\<lambda>fs. map_of fs l = v) (for_each (cleanup_disk env retain preserve) ds)" for v
    using assms(2) cleanup_disk_frame by (intro keep keepsI) metis
  from keeps_run [OF this refl assms(1)] show ?thesis .
qed

lemma cleanup_disks_outcome:
  assumes "for_each (cleanup_disk env retain preserve) ds fs = (r, fs')"
    "\<forall>d\<in>set ds. is_disk_name (snd d) \<and> plain_name (snd d)" "distinct (map snd ds)" "d \<in> set ds"
  shows "disk_outcome env retain preserve r fs fs' d"
  using assms
proof (induction ds arbitrary: fs)
  case (Cons a ds)
  obtain q fs1 where a: "cleanup_disk env retain preserve a fs = (q, fs1)" by fastforce
  have others: "same_files b fs fs1" if "b \<in> set ds" for b
  proof -
    have "\<not> may_remove env a (fst b, n)" if "serves (snd b) n" for n
      using that \<open>b \<in> set ds\<close> Cons.prems(2,3) by (intro other_disk_file [of a b]) auto
    then show ?thesis using cleanup_disk_frame [OF a] Cons.prems(2) by (simp add: same_files_def)
  qed
  show ?case
  proof (cases q)
    case (Inl e)
    then have r: "r = Inl e" "fs' = fs1" using Cons.prems(1) a by (simp_all add: bind_def)
    have "\<not> retain"
      using a Inl by (auto simp: cleanup_disk_def run mark_run split: if_splits)
    then show ?thesis
    proof (cases "d = a")
      case False
      then have "same_files d fs fs1" using others Cons.prems(4) by simp
      then show ?thesis using r \<open>\<not> retain\<close> by (auto simp: disk_outcome_def same_files_def)
    qed (use cleanup_disk_outcome [OF a] Cons.prems(2) r Inl in auto)
  next
    case (Inr u)
    then have rest: "for_each (cleanup_disk env retain preserve) ds fs1 = (r, fs')" using Cons.prems(1) a by (simp add: bind_def)
    show ?thesis
    proof (cases "d = a")
      case True
      have "\<not> may_remove env b (fst a, n)" if "b \<in> set ds" "serves (snd a) n" for b n
        using that Cons.prems(2,3) by (intro other_disk_file [of b a]) (auto simp: image_iff)
      then have "same_files a fs1 fs'"
        using Cons.prems(2) cleanup_disks_frame [OF rest] by (simp add: same_files_def)
      then have "disk_outcome env retain preserve r fs fs' a"
        using disk_outcome_cong [of a fs fs fs1 fs' r q] cleanup_disk_outcome [OF a] Cons.prems(2) Inr by (simp add: same_files_def)
      then show ?thesis using True by simp
    next
      case False
      then have "disk_outcome env retain preserve r fs1 fs' d" using Cons.IH [OF rest] Cons.prems by simp
      then show ?thesis
        using disk_outcome_cong [of d fs1 fs fs' fs' r r] others [of d] False Cons.prems(4) by (simp add: same_files_def)
    qed
  qed
qed simp
lemma identifier_chars:
  assumes "IDENTIFIER_PATTERN vm"
  shows "CHR ''.'' \<notin> set vm" "plain_name vm" "vm \<noteq> []"
proof -
  have "id_inner_char c" if "c \<in> set vm" for c using assms that by (auto simp: IDENTIFIER_PATTERN_def list_all_iff)
  moreover have "\<not> id_inner_char c" if "c \<in> {CHR ''.'', CHR ''*'', CHR ''?'', CHR ''[''}" for c
    using that by (auto simp: id_inner_char_def id_edge_char_def is_digit_def)
  ultimately show "CHR ''.'' \<notin> set vm" "plain_name vm" by (auto simp: plain_name_def)
  show "vm \<noteq> []" using assms by (simp add: IDENTIFIER_PATTERN_def)
qed

definition vm_disk_names :: "string \<Rightarrow> string list" where
  "vm_disk_names vm = [vm @ ''.qcow2'', vm @ ''.ext4'']"

lemma vm_disk_names_ok:
  assumes "IDENTIFIER_PATTERN vm" "d \<in> set (vm_disk_names vm)"
  shows "is_disk_name d" "plain_name d"
proof -
  obtain suffix where s: "d = vm @ ''.'' @ suffix" "suffix \<in> {''qcow2'', ''ext4''}" using assms(2) by (auto simp: vm_disk_names_def)
  then show "is_disk_name d" using identifier_chars [OF assms(1)] unfolding is_disk_name_def by blast
  have "plain_name (''.'' @ suffix)" using s(2) by (auto simp: plain_name_def)
  then show "plain_name d" using identifier_chars(2) [OF assms(1)] s(1) unfolding plain_name_def by (auto simp del: append_Cons)
qed

text \<open>The disks of a computer are named after it when they are no links.\<close>

lemma managed_disks_named:
  assumes "managed_disks_for_cleanup env fs vm backend info = Inr ds"
    "\<forall>i. info = Some i \<longrightarrow> vi_vm_id i = vm" "\<forall>n. de_resolve env (disk_dir env, n) = Inr (disk_dir env, n)"
  shows "\<forall>d\<in>set ds. fst d = disk_dir env \<and> snd d \<in> set (vm_disk_names vm)" "distinct (map snd ds)"
proof -
  have row: "fst d = disk_dir env \<and> snd d \<in> set (vm_disk_names vm)"
    if "managed_disk_for_vm env backend (Some i) = Inr (Some d)" "info = Some i" for d i
    using that assms(2,3)
    by (auto simp: managed_disk_for_vm_def result_iff Let_def instance_disk_def vm_disk_names_def split: option.splits if_splits)
  show "\<forall>d\<in>set ds. fst d = disk_dir env \<and> snd d \<in> set (vm_disk_names vm)"
  proof (cases info)
    case None
    then show ?thesis using assms(1) by (auto simp: managed_disks_for_cleanup_def instance_disk_paths_for_id_def vm_disk_names_def split: if_splits)
  next
    case (Some i)
    then show ?thesis using assms(1) row by (auto simp: managed_disks_for_cleanup_def result_iff split: option.splits)
  qed
  show "distinct (map snd ds)"
    using assms(1) by (cases info) (auto simp: managed_disks_for_cleanup_def instance_disk_paths_for_id_def result_iff split: option.splits)
qed

lemma cleanup_firmware_run:
  "cleanup_firmware env vm retain fs = (r, fs') \<Longrightarrow>
   fs' = fs \<or> (\<not> retain \<and> fs' = AList.delete (de_data_dir env @ ''/firmware'', vm) fs)"
  by (auto simp: cleanup_firmware_def Let_def run suppress_def rmtree_def split: sum.splits if_splits)

lemma cleanup_log_run:
  "cleanup_log env vm fs = (Inr (), if entry_is_file fs (runtime_log env vm) \<and> de_unlink env (runtime_log env vm)
     then AList.delete (runtime_log env vm) fs else fs)"
  by (auto simp: cleanup_log_def suppress_def run unlink_def is_exception_def entry_is_file_def path_kind_at_def
      split: option.splits entry.splits)

text \<open>The three stages of a cleanup.\<close>

lemma cleanup_stages:
  assumes "cleanup_vm_artifacts env vm backend info preserve fs = (r, fs')" "IDENTIFIER_PATTERN vm"
    "managed_disks_for_cleanup env fs vm backend info = Inr ds"
  obtains q fs1 where "for_each (cleanup_disk env (retain_requested info) preserve) ds fs = (q, fs1)" "succeeds r \<longrightarrow> succeeds q"
    "\<And>l. l \<noteq> (de_data_dir env @ ''/firmware'', vm) \<Longrightarrow> l \<noteq> runtime_log env vm \<Longrightarrow> map_of fs' l = map_of fs1 l"
    "succeeds r \<Longrightarrow> entry_is_file fs1 (runtime_log env vm) \<Longrightarrow> de_unlink env (runtime_log env vm) \<Longrightarrow> map_of fs' (runtime_log env vm) = None"
    "retain_requested info \<Longrightarrow> map_of fs' (de_data_dir env @ ''/firmware'', vm) = map_of fs1 (de_data_dir env @ ''/firmware'', vm)"
proof -
  obtain q fs1 where disks: "for_each (cleanup_disk env (retain_requested info) preserve) ds fs = (q, fs1)" by fastforce
  obtain q2 fs2 where fw: "cleanup_firmware env vm (retain_requested info) fs1 = (q2, fs2)" by fastforce
  have log_not_fw: "runtime_log env vm \<noteq> (de_data_dir env @ ''/firmware'', vm)" by (simp add: runtime_log_def)
  have r: "(r, fs') = (case q of Inl e \<Rightarrow> (Inl e, fs1) | Inr _ \<Rightarrow> (case q2 of Inl e \<Rightarrow> (Inl e, fs2) | Inr _ \<Rightarrow> cleanup_log env vm fs2))"
    using assms disks fw by (auto simp: cleanup_vm_artifacts_def run split: sum.splits)
  note fw' = cleanup_firmware_run [OF fw]
  show thesis
  proof (rule that [OF disks])
    show "succeeds r \<longrightarrow> succeeds q" using r by (auto split: sum.splits)
    show "map_of fs' l = map_of fs1 l" if "l \<noteq> (de_data_dir env @ ''/firmware'', vm)" "l \<noteq> runtime_log env vm" for l
      using r that fw' by (auto simp: cleanup_log_run delete_conv' split: sum.splits if_splits)
    show "map_of fs' (runtime_log env vm) = None"
      if "succeeds r" "entry_is_file fs1 (runtime_log env vm)" "de_unlink env (runtime_log env vm)"
      using r that fw' log_not_fw
      by (auto simp: cleanup_log_run delete_conv' entry_is_file_def path_kind_at_def split: sum.splits if_splits)
    show "map_of fs' (de_data_dir env @ ''/firmware'', vm) = map_of fs1 (de_data_dir env @ ''/firmware'', vm)" if "retain_requested info"
      using r that fw' log_not_fw by (auto simp: cleanup_log_run delete_conv' split: sum.splits if_splits)
  qed
qed

lemma cleanup_vm_core:
  assumes call: "cleanup_vm_artifacts env vm backend info preserve fs = (r, fs')" and id: "IDENTIFIER_PATTERN vm"
    and ds: "managed_disks_for_cleanup env fs vm backend info = Inr ds"
    and row: "\<forall>i. info = Some i \<longrightarrow> vi_vm_id i = vm" and canon: "\<forall>n. de_resolve env (disk_dir env, n) = Inr (disk_dir env, n)"
  shows cleanup_vm_frame: "l \<noteq> runtime_log env vm \<Longrightarrow> l \<noteq> (de_data_dir env @ ''/firmware'', vm) \<Longrightarrow>
      \<forall>d\<in>set (vm_disk_names vm). \<not> may_remove env (disk_dir env, d) l \<Longrightarrow> map_of fs' l = map_of fs l"
    and cleanup_vm_outcome: "d \<in> set ds \<Longrightarrow> disk_outcome env (retain_requested info) preserve r fs fs' d"
    and cleanup_vm_log: "succeeds r \<Longrightarrow> entry_is_file fs (runtime_log env vm) \<Longrightarrow> de_unlink env (runtime_log env vm) \<Longrightarrow>
      map_of fs' (runtime_log env vm) = None"
    and cleanup_vm_firmware: "retain_requested info \<Longrightarrow>
      map_of fs' (de_data_dir env @ ''/firmware'', vm) = map_of fs (de_data_dir env @ ''/firmware'', vm)"
proof -
  note named = managed_disks_named [OF ds row canon]
  have ok: "\<forall>d\<in>set ds. is_disk_name (snd d) \<and> plain_name (snd d)" using named(1) vm_disk_names_ok [OF id] by blast
  obtain q fs1 where disks: "for_each (cleanup_disk env (retain_requested info) preserve) ds fs = (q, fs1)" "succeeds r \<longrightarrow> succeeds q"
    and rest: "\<And>l. l \<noteq> (de_data_dir env @ ''/firmware'', vm) \<Longrightarrow> l \<noteq> runtime_log env vm \<Longrightarrow> map_of fs' l = map_of fs1 l"
    and log: "succeeds r \<Longrightarrow> entry_is_file fs1 (runtime_log env vm) \<Longrightarrow> de_unlink env (runtime_log env vm) \<Longrightarrow>
      map_of fs' (runtime_log env vm) = None"
    and fw: "retain_requested info \<Longrightarrow> map_of fs' (de_data_dir env @ ''/firmware'', vm) = map_of fs1 (de_data_dir env @ ''/firmware'', vm)"
    by (rule cleanup_stages [OF call id ds]) (rule that, assumption+)
  have frame: "map_of fs1 l = map_of fs l" if "\<forall>d\<in>set (vm_disk_names vm). \<not> may_remove env (disk_dir env, d) l" for l
    by (rule cleanup_disks_frame [OF disks(1)]) (use that named(1) ok in \<open>metis prod.collapse\<close>)
  show "map_of fs' l = map_of fs l"
    if "l \<noteq> runtime_log env vm" "l \<noteq> (de_data_dir env @ ''/firmware'', vm)"
      "\<forall>d\<in>set (vm_disk_names vm). \<not> may_remove env (disk_dir env, d) l"
    using rest [OF that(2,1)] frame [OF that(3)] by simp
  show "disk_outcome env (retain_requested info) preserve r fs fs' d" if "d \<in> set ds"
  proof -
    have "same_files d fs1 fs'"
      using that named(1) disk_dir_not_data_dir [of env] rest by (auto simp: same_files_def runtime_log_def disk_dir_def)
    then show ?thesis
      using disk_outcome_cong [of d fs fs fs1 fs' r q] cleanup_disks_outcome [OF disks(1) ok named(2) that] disks(2)
      by (simp add: same_files_def)
  qed
  show "map_of fs' (runtime_log env vm) = None"
    if "succeeds r" "entry_is_file fs (runtime_log env vm)" "de_unlink env (runtime_log env vm)"
  proof -
    have "\<forall>d\<in>set (vm_disk_names vm). \<not> may_remove env (disk_dir env, d) (runtime_log env vm)"
      using serves_not_log [OF vm_disk_names_ok(1) [OF id] identifier_chars(1) [OF id]] by (auto simp: may_remove_def runtime_log_def)
    then show ?thesis using log that frame by (simp add: entry_is_file_def path_kind_at_def)
  qed
  have "\<forall>d\<in>set (vm_disk_names vm). \<not> may_remove env (disk_dir env, d) (de_data_dir env @ ''/firmware'', vm)"
    using identifier_chars(1) [OF id] by (auto simp: may_remove_def vm_disk_names_def serves_def starts_with_iff dest!: arg_cong [of _ _ set])
  then show "map_of fs' (de_data_dir env @ ''/firmware'', vm) = map_of fs (de_data_dir env @ ''/firmware'', vm)" if "retain_requested info"
    using fw [OF that] frame by simp
qed

text \<open>
  \<^bold>\<open>C9\<close> Removing the artifacts of a computer touches only its own files: its log, its firmware folder and the files named
  after its disk in the folder of the disks. A disk that is to be retained, that existed before a failed create,
  or that carries the retention marker is left as it is with all its files, and a request to retain it sets the marker and keeps the firmware. Otherwise the
  disk and every file that belongs to it are gone when the cleanup returns, as far as the file system permits. A name that is no
  identifier is refused.
\<close>

theorem cleanup_removes_own:
  assumes call: "cleanup_vm_artifacts env vm backend info preserve fs = (r, fs')"
    and row: "\<forall>i. info = Some i \<longrightarrow> vi_vm_id i = vm"
    and canon: "\<forall>n. de_resolve env (disk_dir env, n) = Inr (disk_dir env, n)"
  shows "(\<not> IDENTIFIER_PATTERN vm \<longrightarrow> (\<exists>e. r = Inl (ValueError e)) \<and> fs' = fs) \<and>
    (\<forall>l. map_of fs' l \<noteq> map_of fs l \<longrightarrow> l = runtime_log env vm \<or> l = (de_data_dir env @ ''/firmware'', vm) \<or>
       (\<exists>d\<in>set (vm_disk_names vm). may_remove env (disk_dir env, d) l)) \<and>
    (\<forall>d n. is_disk_name d \<longrightarrow> d \<notin> set (vm_disk_names vm) \<longrightarrow> serves d n \<longrightarrow>
       map_of fs' (disk_dir env, n) = map_of fs (disk_dir env, n)) \<and>
    (\<forall>ds. managed_disks_for_cleanup env fs vm backend info = Inr ds \<longrightarrow> IDENTIFIER_PATTERN vm \<longrightarrow>
       (\<forall>d\<in>set ds. disk_outcome env (retain_requested info) preserve r fs fs' d) \<and>
       (succeeds r \<longrightarrow> entry_is_file fs (runtime_log env vm) \<longrightarrow> de_unlink env (runtime_log env vm) \<longrightarrow>
          map_of fs' (runtime_log env vm) = None)) \<and>
    (retain_requested info \<longrightarrow>
       map_of fs' (de_data_dir env @ ''/firmware'', vm) = map_of fs (de_data_dir env @ ''/firmware'', vm))"
proof (cases "IDENTIFIER_PATTERN vm \<and> (\<exists>ds. managed_disks_for_cleanup env fs vm backend info = Inr ds)")
  case False
  then have "fs' = fs" "\<not> IDENTIFIER_PATTERN vm \<longrightarrow> (\<exists>e. r = Inl (ValueError e))"
    using call by (auto simp: cleanup_vm_artifacts_def run split: sum.splits if_splits)
  then show ?thesis using False by auto
next
  case True
  then obtain ds where id: "IDENTIFIER_PATTERN vm" and ds: "managed_disks_for_cleanup env fs vm backend info = Inr ds" by blast
  note core = cleanup_vm_core [OF call id ds row canon]
  have frame: "l = runtime_log env vm \<or> l = (de_data_dir env @ ''/firmware'', vm) \<or> (\<exists>d\<in>set (vm_disk_names vm). may_remove env (disk_dir env, d) l)"
    if "map_of fs' l \<noteq> map_of fs l" for l
    using core(1) that by blast
  have others: "map_of fs' (disk_dir env, n) = map_of fs (disk_dir env, n)"
    if "is_disk_name d" "d \<notin> set (vm_disk_names vm)" "serves d n" for d n
  proof (rule core(1))
    show "\<forall>b\<in>set (vm_disk_names vm). \<not> may_remove env (disk_dir env, b) (disk_dir env, n)"
    proof
      fix b assume b: "b \<in> set (vm_disk_names vm)"
      then have "\<not> serves b n" using serves_unique [OF vm_disk_names_ok(1) [OF id b] that(1) _ that(3)] that(2) by blast
      then show "\<not> may_remove env (disk_dir env, b) (disk_dir env, n)" by (simp add: may_remove_def)
    qed
  qed (use disk_dir_not_data_dir [of env] in \<open>auto simp: runtime_log_def disk_dir_def\<close>)
  have same: "ds' = ds" if "managed_disks_for_cleanup env fs vm backend info = Inr ds'" for ds' using that ds by simp
  show ?thesis
    by (intro conjI allI impI ballI) (use id frame others core(2,3,4) same in blast)+
qed

text \<open>Computer \<open>c\<close> is deleted; its disk has a backing file.\<close>

definition demo_disk_row :: "string \<Rightarrow> bool \<Rightarrow> vm_info" where
  "demo_disk_row vm retain =
     (demo_row vm)\<lparr>vi_config := (demo_config vm)\<lparr>vc_rootfs_path := Some (''/d/disks/'' @ vm @ ''.qcow2''), vc_rootfs_format := Some QCOW2,
        vc_retain_disk_on_delete := retain\<rparr>\<rparr>"

lemma demo_cleanup:
  "cleanup_vm_artifacts demo_disk_env ''c'' (Inr ''qemu'') (Some (demo_disk_row ''c'' False)) False demo_entries = (Inr (), demo_entries_pruned)"
  "managed_disks_for_cleanup demo_disk_env demo_entries ''c'' (Inr ''qemu'') (Some (demo_disk_row ''c'' False)) = Inr [(''/d/disks'', ''c.qcow2'')]"
  by code_simp+

theorem cleanup_removes_own_witness:
  "map_of demo_entries_pruned (''/d/disks'', ''c.qcow2.backing-1'') = None \<and>
   map_of demo_entries_pruned (''/d/disks'', ''b.qcow2'') = map_of demo_entries (''/d/disks'', ''b.qcow2'')"
proof -
  have row: "\<forall>i. Some (demo_disk_row ''c'' False) = Some i \<longrightarrow> vi_vm_id i = ''c''" by (simp add: demo_disk_row_def demo_row_def created_vm_info_def)
  have canon: "\<forall>n. de_resolve demo_disk_env (disk_dir demo_disk_env, n) = Inr (disk_dir demo_disk_env, n)"
    "disk_dir demo_disk_env = ''/d/disks''"
    by (simp_all add: demo_disk_env_def disk_dir_def)
  have b: "is_disk_name ''b.qcow2''" unfolding is_disk_name_partition by (rule exI [of _ "''b''"], rule exI [of _ "''qcow2''"]) code_simp
  have c: "serves ''c.qcow2'' ''c.qcow2.backing-1''" "entry_is_file demo_entries (''/d/disks'', ''c.qcow2.backing-1'')"
    "entry_exists demo_entries (''/d/disks'', ''c.qcow2'')" "\<not> entry_exists demo_entries (retained_marker_path (''/d/disks'', ''c.qcow2''))"
    by code_simp+
  have o: "disk_outcome demo_disk_env False False (Inr ()) demo_entries demo_entries_pruned (''/d/disks'', ''c.qcow2'') \<Longrightarrow>
      map_of demo_entries_pruned (''/d/disks'', ''c.qcow2.backing-1'') = None"
    using c by (simp add: disk_outcome_def demo_disk_env_def)
  have "retain_requested (Some (demo_disk_row ''c'' False)) = False" "IDENTIFIER_PATTERN ''c''" "''b.qcow2'' \<notin> set (vm_disk_names ''c'')"
    by code_simp+
  with cleanup_removes_own [OF demo_cleanup(1) row canon(1)] demo_cleanup(2) b o serves_own(1) [of "''b.qcow2''"] canon(2)
  show ?thesis by auto
qed



end
