(* ===== verification/Snapshots.thy ===== *)
theory Snapshots
  imports Manager_Guarantees Disk_Artifacts
begin

text \<open>
  Snapshots of a computer (\<open>vm.py\<close>): taking one, restoring it into its computer, deleting it, and finding it again by the manifest
  beside its artifacts. A manifest stands for the record it encodes. The state is a manager, the snapshot directories with their manifests, and the disk files with their contents. What
  a runtime adapter, a file operation or a lock answers is a field of the record \<open>snap_world\<close>. The capture and the loading of an
  image are the adapter's. A disk content is a number, so that it is seen whether a disk is the one that was there before.
\<close>

section \<open>State and environment\<close>

datatype capture_policy = ALLOW_PAUSE | LIVE_ONLY

datatype bitmap_mode = NEW_BASE | INCREMENTAL

record bitmap_backup =
  bb_mode :: bitmap_mode
  bb_name :: string

text \<open>\<open>live-backup.json\<close>: whether it is a link, whether it can be read, whose it is, whether it names a published artifact.\<close>

record live_backup =
  lb_symlink :: bool
  lb_readable :: bool
  lb_vm_id :: "string option"
  lb_published :: bool

datatype manifest = NO_MANIFEST | UNREADABLE | MANIFEST snapshot_info

record snapshot_dir =
  sd_manifest :: manifest
  sd_live :: "live_backup option"

type_synonym snapshot_dirs = "(string \<times> snapshot_dir) list"

type_synonym disk_files = "(location \<times> nat) list"

record 's snap_state =
  ss_mgr :: "'s manager"
  ss_dirs :: snapshot_dirs
  ss_disks :: disk_files

record snapshot_create_request =
  cr_vm_info :: vm_info
  cr_snapshot_id :: string
  cr_disk :: location
  cr_resume_source :: bool
  cr_original_status :: vm_state
  cr_snapshot_type :: snapshot_type
  cr_capture_policy :: capture_policy
  cr_timeout :: int
  cr_max_bytes_per_second :: "int option"
  cr_bitmap :: "bitmap_backup option"

record snapshot_create_result =
  sr_artifacts :: snapshot_artifacts
  sr_source_status :: vm_state
  sr_captured_at :: string
  sr_operation_manifest :: bool
  sr_artifact_kind :: "artifact_kind option"
  sr_virtual_size_bytes :: "int option"
  sr_changed_bytes :: "int option"
  sr_bitmap_granularity_bytes :: "int option"
  sr_bitmap_name :: "string option"

record restore_launch =
  rs_status :: vm_state
  rs_pid :: int
  rs_control_socket_path :: "string option"
  rs_vsock_uds_path :: "string option"

text \<open>
  \<open>sw_pending\<close> tells which exceptions carry the detail \<open>cleanup_pending\<close>. A capture also says what it leaves
  of \<open>live-backup.json\<close>; the reconciliation of interrupted captures may change the directories.
\<close>

record snap_world =
  sw_world :: world
  sw_disk :: disk_env
  sw_inside :: "string \<Rightarrow> bool"
  sw_pending :: "celesto_error \<Rightarrow> bool"
  sw_now :: "nat \<Rightarrow> string"
  sw_uuid :: "nat \<Rightarrow> string"
  sw_lock :: "nat \<Rightarrow> string \<Rightarrow> unit result"
  sw_reconcile :: "nat \<Rightarrow> vm_info \<Rightarrow> string \<Rightarrow> string list \<Rightarrow> snapshot_dirs \<Rightarrow> unit result \<times> snapshot_dirs"
  sw_mkdir :: "nat \<Rightarrow> string \<Rightarrow> unit result"
  sw_rmtree :: "nat \<Rightarrow> string \<Rightarrow> unit result"
  sw_write :: "nat \<Rightarrow> string \<Rightarrow> unit result"
  sw_space :: "nat \<Rightarrow> unit result"
  sw_capture :: "nat \<Rightarrow> snapshot_create_request \<Rightarrow> snapshot_create_result result \<times> live_backup option"
  sw_save_key :: "nat \<Rightarrow> string \<Rightarrow> unit result"
  sw_unlink_manifest :: "nat \<Rightarrow> bool"
  sw_disk_folder :: "nat \<Rightarrow> unit result"
  sw_restore :: "nat \<Rightarrow> snapshot_info \<Rightarrow> location \<Rightarrow> bool \<Rightarrow> restore_launch result \<times> nat option"
  sw_unlink :: "nat \<Rightarrow> location \<Rightarrow> unit result"
  sw_replace :: "nat \<Rightarrow> location \<Rightarrow> location \<Rightarrow> unit result"
  sw_touch :: "nat \<Rightarrow> location \<Rightarrow> unit result"

text \<open>What snapshots need of a state manager beside the operations of \<open>vm_store\<close>.\<close>

record 's snap_store =
  so_get_snapshot :: "'s \<Rightarrow> string \<Rightarrow> snapshot_info result"
  so_list_snapshots :: "'s \<Rightarrow> string option \<Rightarrow> snapshot_info list result"
  so_create_snapshot :: "'s \<Rightarrow> snapshot_info \<Rightarrow> snapshot_info result \<times> 's"
  so_mark_restored :: "'s \<Rightarrow> string \<Rightarrow> string \<Rightarrow> snapshot_info result \<times> 's"
  so_delete_snapshot :: "'s \<Rightarrow> string \<Rightarrow> unit result \<times> 's"
  so_allocate_requested_ip :: "'s \<Rightarrow> string \<Rightarrow> string \<Rightarrow> string option \<Rightarrow> string result \<times> 's"
  so_reserve_requested_ssh :: "'s \<Rightarrow> string \<Rightarrow> int \<Rightarrow> int result \<times> 's"

definition mem_snap_ops :: "host_env \<Rightarrow> memory_state snap_store" where
  "mem_snap_ops env =
     \<lparr>so_get_snapshot = mem_get_snapshot,
      so_list_snapshots = (\<lambda>st vm. Inr (mem_list_snapshots st vm)),
      so_create_snapshot = (\<lambda>st info. commit st (mem_create_snapshot st info)),
      so_mark_restored = (\<lambda>st i vm. commit st (mem_mark_snapshot_restored st i vm)),
      so_delete_snapshot = (\<lambda>st i. commit_unit st (mem_delete_snapshot st i)),
      so_allocate_requested_ip = (\<lambda>st vm tap req. commit st (mem_allocate_ip env st vm tap req)),
      so_reserve_requested_ssh = (\<lambda>st vm port. commit st (mem_reserve_ssh_port env st vm (Some port) []))\<rparr>"

type_synonym ('s, 'a) sop = "('s snap_state, 'a) op"

text \<open>A step of the manager.\<close>

definition mgr :: "('s, 'a) mop \<Rightarrow> ('s, 'a) sop" where
  "mgr f = (\<lambda>s. case f (ss_mgr s) of (r, m) \<Rightarrow> (r, s\<lparr>ss_mgr := m\<rparr>))"

definition stored :: "('s \<Rightarrow> 'a result) \<Rightarrow> ('s, 'a) sop" where
  "stored f = mgr (from_store f)"

definition store_step :: "('s \<Rightarrow> 'a result \<times> 's) \<Rightarrow> ('s, 'a) sop" where
  "store_step f = mgr (on_store f)"

section \<open>Directories and files\<close>

definition is_not_found :: "celesto_error \<Rightarrow> bool" where
  "is_not_found e \<longleftrightarrow> e = OSError ''No such file or directory''"

text \<open>\<open>mkdir(parents=True, exist_ok=False)\<close> and \<open>shutil.rmtree\<close> of a snapshot directory\<close>

definition make_dir :: "snap_world \<Rightarrow> string \<Rightarrow> ('s, unit) sop" where
  "make_dir w i =
     bind (gets (\<lambda>s. map_of (ss_dirs s) i \<noteq> None)) (\<lambda>there.
     bind (raise_when there (OSError ''File exists'')) (\<lambda>_.
     bind (mgr (attempt (\<lambda>t. sw_mkdir w t i))) (\<lambda>_.
       modify (\<lambda>s. s\<lparr>ss_dirs := AList.update i \<lparr>sd_manifest = NO_MANIFEST, sd_live = None\<rparr> (ss_dirs s)\<rparr>))))"

definition remove_dir :: "snap_world \<Rightarrow> string \<Rightarrow> ('s, unit) sop" where
  "remove_dir w i =
     bind (gets (\<lambda>s. map_of (ss_dirs s) i = None)) (\<lambda>missing.
     bind (raise_when missing (OSError ''No such file or directory'')) (\<lambda>_.
     bind (mgr (attempt (\<lambda>t. sw_rmtree w t i))) (\<lambda>_.
       modify (\<lambda>s. s\<lparr>ss_dirs := AList.delete i (ss_dirs s)\<rparr>))))"

definition content :: "'s snap_state \<Rightarrow> location \<Rightarrow> nat option" where
  "content s l = map_of (ss_disks s) l"

definition disk_entries :: "disk_files \<Rightarrow> entries" where
  "disk_entries ds = map (\<lambda>(l, _). (l, FILE)) ds"

text \<open>\<open>Path.unlink\<close>, \<open>os.replace\<close> and \<open>Path.touch\<close> on disk files; a new file is empty.\<close>

definition unlink_disk :: "snap_world \<Rightarrow> location \<Rightarrow> ('s, unit) sop" where
  "unlink_disk w l =
     bind (gets (\<lambda>s. content s l = None)) (\<lambda>missing.
     bind (raise_when missing (OSError ''No such file or directory'')) (\<lambda>_.
     bind (mgr (attempt (\<lambda>t. sw_unlink w t l))) (\<lambda>_.
       modify (\<lambda>s. s\<lparr>ss_disks := AList.delete l (ss_disks s)\<rparr>))))"

definition replace_disk :: "snap_world \<Rightarrow> location \<Rightarrow> location \<Rightarrow> ('s, unit) sop" where
  "replace_disk w source target =
     bind (gets (\<lambda>s. content s source)) (\<lambda>c.
       case c of
         None \<Rightarrow> raise (OSError ''No such file or directory'')
       | Some x \<Rightarrow>
           bind (mgr (attempt (\<lambda>t. sw_replace w t source target))) (\<lambda>_.
             modify (\<lambda>s. s\<lparr>ss_disks := AList.update target x (AList.delete source (ss_disks s))\<rparr>)))"

definition touch_disk :: "snap_world \<Rightarrow> location \<Rightarrow> ('s, unit) sop" where
  "touch_disk w l =
     bind (mgr (attempt (\<lambda>t. sw_touch w t l))) (\<lambda>_.
       modify (\<lambda>s. if content s l = None then s\<lparr>ss_disks := AList.update l 0 (ss_disks s)\<rparr> else s))"

section \<open>Identifiers, manifests and the inventory\<close>

definition snapshot_root_for_id :: "snap_world \<Rightarrow> string \<Rightarrow> ('s, unit) sop" where
  "snapshot_root_for_id w i =
     bind (raise_when (i = []) (ValueError ''snapshot_id cannot be empty'')) (\<lambda>_.
     bind (raise_when (\<not> IDENTIFIER_PATTERN i) (ValueError ''snapshot_id must contain only lowercase letters'')) (\<lambda>_.
       raise_when (\<not> sw_inside w i) (ValueError ''snapshot_id must resolve within the snapshot directory'')))"

definition write_snapshot_manifest :: "snap_world \<Rightarrow> snapshot_info \<Rightarrow> ('s, unit) sop" where
  "write_snapshot_manifest w info =
     (let i = si_snapshot_id info in
      bind (snapshot_root_for_id w i) (\<lambda>_.
      bind (mgr (attempt (\<lambda>t. sw_write w t i))) (\<lambda>_.
        modify (\<lambda>s.
          let d = (case map_of (ss_dirs s) i of Some d \<Rightarrow> d | None \<Rightarrow> \<lparr>sd_manifest = NO_MANIFEST, sd_live = None\<rparr>)
          in s\<lparr>ss_dirs := AList.update i (d\<lparr>sd_manifest := MANIFEST info\<rparr>) (ss_dirs s)\<rparr>))))"

definition read_snapshot_manifest :: "snap_world \<Rightarrow> string \<Rightarrow> ('s, snapshot_info) sop" where
  "read_snapshot_manifest w i =
     bind (snapshot_root_for_id w i) (\<lambda>_.
     bind (gets (\<lambda>s. map_of (ss_dirs s) i)) (\<lambda>d.
       case d of
         None \<Rightarrow> raise (SnapshotNotFoundError i)
       | Some d \<Rightarrow>
           (case sd_manifest d of
              NO_MANIFEST \<Rightarrow> raise (SnapshotNotFoundError i)
            | UNREADABLE \<Rightarrow> raise (CelestoError ''Snapshot metadata is unreadable'')
            | MANIFEST info \<Rightarrow> ret info)))"

definition is_snapshot_missing :: "celesto_error \<Rightarrow> bool" where
  "is_snapshot_missing e \<longleftrightarrow> (case e of SnapshotNotFoundError _ \<Rightarrow> True | _ \<Rightarrow> False)"

definition is_snapshot_taken :: "celesto_error \<Rightarrow> bool" where
  "is_snapshot_taken e \<longleftrightarrow> (case e of SnapshotAlreadyExistsError _ \<Rightarrow> True | _ \<Rightarrow> False)"

definition is_vm_missing :: "celesto_error \<Rightarrow> bool" where
  "is_vm_missing e \<longleftrightarrow> (case e of VMNotFoundError _ \<Rightarrow> True | _ \<Rightarrow> False)"

definition get_snapshot :: "'s snap_store \<Rightarrow> snap_world \<Rightarrow> string \<Rightarrow> ('s, snapshot_info) sop" where
  "get_snapshot sn w i =
     catch is_snapshot_missing (stored (\<lambda>st. so_get_snapshot sn st i)) (\<lambda>_.
       bind (read_snapshot_manifest w i) (\<lambda>snapshot.
       bind (catch is_snapshot_taken (bind (store_step (\<lambda>st. so_create_snapshot sn st snapshot)) (\<lambda>_. ret ())) (\<lambda>_. ret ())) (\<lambda>_.
         ret snapshot)))"

text \<open>The manifests that the inventory does not know; one that cannot be read is left out.\<close>

definition manifest_snapshots :: "snap_world \<Rightarrow> snapshot_dirs \<Rightarrow> string list \<Rightarrow> string option \<Rightarrow> snapshot_info list" where
  "manifest_snapshots w dirs known vm_id =
     concat (map (\<lambda>(i, d).
       case sd_manifest d of
         MANIFEST info \<Rightarrow>
           if i \<notin> set known \<and> IDENTIFIER_PATTERN i \<and> sw_inside w i \<and> (case vm_id of None \<Rightarrow> True | Some vm \<Rightarrow> si_vm_id info = vm)
           then [info] else []
       | _ \<Rightarrow> []) dirs)"

definition list_snapshots :: "'s snap_store \<Rightarrow> snap_world \<Rightarrow> string option \<Rightarrow> ('s, snapshot_info list) sop" where
  "list_snapshots sn w vm_id =
     bind (stored (\<lambda>st. so_list_snapshots sn st vm_id)) (\<lambda>known.
     bind (gets ss_dirs) (\<lambda>dirs.
       ret (sort_key si_created_at (known @ manifest_snapshots w dirs (map si_snapshot_id known) vm_id))))"

section \<open>Taking a snapshot\<close>

definition ensure_snapshot_supported :: "snap_world \<Rightarrow> vm_info \<Rightarrow> ('s, unit) sop" where
  "ensure_snapshot_supported w info =
     (let config = vi_config info in
      bind (raise_when (is_public config) (CelestoError ''uses a live public browsing connection'')) (\<lambda>_.
      bind (raise_when (vc_guest_os config = WINDOWS) (CelestoError ''not supported for Windows guests'')) (\<lambda>_.
      bind (raise_when (vc_disk_mode config \<noteq> DISK_ISOLATED) (CelestoError ''only isolated-disk computers'')) (\<lambda>_.
      bind (mgr (backend_for_vm (sw_world w) info)) (\<lambda>backend.
      bind (if backend = ''qemu''
            then bind (lift (effective_rootfs_format config)) (\<lambda>f. raise_when (f \<noteq> QCOW2) (CelestoError ''not supported for raw QEMU disks''))
            else ret ()) (\<lambda>_.
      bind (raise_when (vc_extra_drives config \<noteq> []) (CelestoError ''only computers without extra drives'')) (\<lambda>_.
      bind (raise_when (vc_workspace_mounts config \<noteq> []) (CelestoError ''not supported for computers with workspace mounts'')) (\<lambda>_.
        raise_when (vi_network info = None) (CelestoError ''Computer has no network configuration'')))))))))"

definition check_live_capture :: "vm_info \<Rightarrow> string \<Rightarrow> snapshot_type \<Rightarrow> bool \<Rightarrow> ('s, unit) sop" where
  "check_live_capture info backend stype resume_source =
     bind (raise_when (vi_status info \<noteq> VM_RUNNING) (CelestoError ''must be running for a live snapshot'')) (\<lambda>_.
     bind (raise_when (backend \<noteq> ''qemu'') (CelestoError ''cannot stay available during this snapshot'')) (\<lambda>_.
     bind (raise_when (stype \<noteq> SNAP_DISK) (CelestoError ''Live snapshots save disk state only'')) (\<lambda>_.
       raise_when (\<not> resume_source) (CelestoError ''A live snapshot keeps the computer running''))))"

definition check_bitmap_backup ::
  "vm_info \<Rightarrow> string \<Rightarrow> snapshot_type \<Rightarrow> bool \<Rightarrow> capture_policy \<Rightarrow> bitmap_backup \<Rightarrow> ('s, unit) sop" where
  "check_bitmap_backup info backend stype resume_source policy b =
     bind (raise_when (backend \<noteq> ''qemu'') (CelestoError ''does not use QEMU'')) (\<lambda>_.
     bind (raise_when (vi_status info \<noteq> VM_RUNNING \<or> stype \<noteq> SNAP_DISK \<or> policy \<noteq> LIVE_ONLY) (CelestoError ''must stay live'')) (\<lambda>_.
     bind (raise_when (\<not> resume_source) (CelestoError ''must leave the computer running'')) (\<lambda>_.
       raise_when (bb_name b = []) (ValueError ''bitmap_name cannot be empty''))))"

text \<open>Everything that is refused before the adapter is asked; the result is the disk of the computer.\<close>

definition check_capture ::
  "snap_world \<Rightarrow> vm_info \<Rightarrow> string \<Rightarrow> snapshot_type \<Rightarrow> bool \<Rightarrow> capture_policy \<Rightarrow> bitmap_backup option \<Rightarrow> ('s, location) sop" where
  "check_capture w info backend stype resume_source policy bitmap =
     bind (if policy = LIVE_ONLY then check_live_capture info backend stype resume_source else ret ()) (\<lambda>_.
     bind (case bitmap of None \<Rightarrow> ret () | Some b \<Rightarrow> check_bitmap_backup info backend stype resume_source policy b) (\<lambda>_.
     bind (lift (managed_disk_for_vm (sw_disk w) (Inr backend) (Some info))) (\<lambda>disk.
       case disk of
         None \<Rightarrow> raise (CelestoError ''Snapshotting requires a managed isolated disk'')
       | Some d \<Rightarrow>
           bind (raise_when (bitmap \<noteq> None \<and> \<not> ends_with ''.qcow2'' (snd d)) (CelestoError ''does not use a compatible disk file'')) (\<lambda>_.
             ret d))))"

text \<open>A capture that a crash interrupted is finished or removed first; only QEMU has such captures.\<close>

definition reconcile_live_backups :: "'s snap_store \<Rightarrow> snap_world \<Rightarrow> string \<Rightarrow> vm_info \<Rightarrow> string \<Rightarrow> ('s, unit) sop" where
  "reconcile_live_backups sn w vm_id info i =
     bind (stored (\<lambda>st. so_list_snapshots sn st (Some vm_id))) (\<lambda>known.
     bind (if known = [] then list_snapshots sn w (Some vm_id) else ret known) (\<lambda>known.
     bind (mgr (gets mg_clock)) (\<lambda>t. \<lambda>s.
       case sw_reconcile w t info i (map si_snapshot_id known) (ss_dirs s) of
         (r, dirs) \<Rightarrow> (r, s\<lparr>ss_dirs := dirs, ss_mgr := (ss_mgr s)\<lparr>mg_clock := Suc t\<rparr>\<rparr>))))"

definition ensure_snapshot_id_free :: "'s snap_store \<Rightarrow> string \<Rightarrow> ('s, unit) sop" where
  "ensure_snapshot_id_free sn i =
     catch is_snapshot_missing
       (bind (stored (\<lambda>st. so_get_snapshot sn st i)) (\<lambda>_. raise (SnapshotAlreadyExistsError i)))
       (\<lambda>_. ret ())"

definition clear_snapshot_root :: "snap_world \<Rightarrow> string \<Rightarrow> string \<Rightarrow> ('s, unit) sop" where
  "clear_snapshot_root w vm_id i =
     bind (gets (\<lambda>s. map_of (ss_dirs s) i)) (\<lambda>d.
       case d of
         None \<Rightarrow> ret ()
       | Some d \<Rightarrow>
           (case sd_live d of
              None \<Rightarrow> remove_dir w i
            | Some l \<Rightarrow>
                bind (raise_when ((if lb_readable l then lb_vm_id l else None) \<notin> {None, Some vm_id}) (SnapshotAlreadyExistsError i)) (\<lambda>_.
                  raise (CelestoError ''A previous live snapshot is still cleaning up''))))"

definition capture :: "snap_world \<Rightarrow> snapshot_create_request \<Rightarrow> ('s, snapshot_create_result) sop" where
  "capture w req =
     bind (mgr (gets mg_clock)) (\<lambda>t. \<lambda>s.
       case sw_capture w t req of
         (r, live) \<Rightarrow>
           (r, s\<lparr>ss_dirs := map (\<lambda>(i, d). (i, if i = cr_snapshot_id req then d\<lparr>sd_live := live\<rparr> else d)) (ss_dirs s),
                ss_mgr := (ss_mgr s)\<lparr>mg_clock := Suc t\<rparr>\<rparr>))"

definition snapshot_of :: "snapshot_create_request \<Rightarrow> string \<Rightarrow> network_config \<Rightarrow> snapshot_create_result \<Rightarrow> snapshot_info" where
  "snapshot_of req backend net result =
     \<lparr>si_snapshot_id = cr_snapshot_id req, si_vm_id = vi_vm_id (cr_vm_info req), si_backend = backend,
      si_artifacts = sr_artifacts result, si_vm_config = vi_config (cr_vm_info req), si_network_config = net,
      si_created_at = sr_captured_at result, si_snapshot_type = cr_snapshot_type req, si_artifact_kind = sr_artifact_kind result,
      si_virtual_size_bytes = sr_virtual_size_bytes result, si_changed_bytes = sr_changed_bytes result,
      si_bitmap_granularity_bytes = sr_bitmap_granularity_bytes result, si_bitmap_name = sr_bitmap_name result,
      si_restored = False, si_restored_vm_id = None\<rparr>"

definition capture_and_record ::
  "'s snap_store \<Rightarrow> snap_world \<Rightarrow> snapshot_create_request \<Rightarrow> string \<Rightarrow> ('s, snapshot_info \<times> snapshot_create_result) sop" where
  "capture_and_record sn w req backend =
     bind (make_dir w (cr_snapshot_id req)) (\<lambda>_.
     bind (mgr (attempt (sw_space w))) (\<lambda>_.
     bind (capture w req) (\<lambda>result.
     bind (if cr_snapshot_type req \<noteq> SNAP_DISK then mgr (attempt (\<lambda>t. sw_save_key w t (cr_snapshot_id req))) else ret ()) (\<lambda>_.
     case vi_network (cr_vm_info req) of
       None \<Rightarrow> raise (AssertionError ''network'')
     | Some net \<Rightarrow>
         (let info = snapshot_of req backend net result in
          bind (store_step (\<lambda>st. so_create_snapshot sn st info)) (\<lambda>_.
          bind (write_snapshot_manifest w info) (\<lambda>_. ret (info, result))))))))"

definition unlink_live_manifest :: "snap_world \<Rightarrow> string \<Rightarrow> ('s, unit) sop" where
  "unlink_live_manifest w i =
     bind (mgr (ask (sw_unlink_manifest w))) (\<lambda>ok.
       unless (\<not> ok) (modify (\<lambda>s. s\<lparr>ss_dirs := map (\<lambda>(j, d). (j, if j = i then d\<lparr>sd_live := None\<rparr> else d)) (ss_dirs s)\<rparr>)))"

definition adapter_resume :: "snap_world \<Rightarrow> vm_info \<Rightarrow> ('s, unit) sop" where
  "adapter_resume w info = mgr (attempt (\<lambda>t. w_resume (sw_world w) t info))"

definition settle_source ::
  "'s vm_store \<Rightarrow> snap_world \<Rightarrow> string \<Rightarrow> snapshot_create_request \<Rightarrow> snapshot_info \<Rightarrow> snapshot_create_result \<Rightarrow> ('s, snapshot_info) sop" where
  "settle_source so w vm_id req info result =
     bind (if sr_operation_manifest result then unlink_live_manifest w (cr_snapshot_id req) else ret ()) (\<lambda>_.
     bind (if sr_source_status result = VM_PAUSED \<and> cr_original_status req = VM_RUNNING \<and> cr_resume_source req
           then catch is_exception (bind (adapter_resume w (cr_vm_info req)) (\<lambda>_. ret VM_RUNNING)) (\<lambda>_. ret VM_PAUSED)
           else ret (sr_source_status result)) (\<lambda>status.
     bind (store_step (\<lambda>st. so_update so st vm_id (no_update\<lparr>up_status := Some status\<rparr>))) (\<lambda>_. ret info)))"

text \<open>Undoing a capture that failed; an exception of the removal replaces the first one.\<close>

definition rollback_capture ::
  "'s vm_store \<Rightarrow> 's snap_store \<Rightarrow> snap_world \<Rightarrow> string \<Rightarrow> snapshot_create_request \<Rightarrow> bool \<Rightarrow> celesto_error \<Rightarrow> ('s, 'a) sop" where
  "rollback_capture so sn w vm_id req persisted e =
     (let i = cr_snapshot_id req in
      bind (if sw_pending w e then ret (False, None)
            else catch is_exception (bind (remove_dir w i) (\<lambda>_. ret (True, None)))
                   (\<lambda>e'. if is_not_found e' then ret (True, None) else ret (False, Some e'))) (\<lambda>(removed, rollback_error).
      bind (if persisted \<and> removed then suppress (store_step (\<lambda>st. so_delete_snapshot sn st i)) else ret ()) (\<lambda>_.
      bind (if cr_original_status req = VM_RUNNING \<and> cr_capture_policy req = ALLOW_PAUSE
            then suppress (bind (adapter_resume w (cr_vm_info req)) (\<lambda>_.
                   bind (store_step (\<lambda>st. so_update so st vm_id (no_update\<lparr>up_status := Some VM_RUNNING\<rparr>))) (\<lambda>_. ret ())))
            else ret ()) (\<lambda>_.
        raise (case rollback_error of None \<Rightarrow> e | Some e' \<Rightarrow> e')))))"

definition create_snapshot_locked ::
  "'s vm_store \<Rightarrow> 's snap_store \<Rightarrow> snap_world \<Rightarrow> string \<Rightarrow> string \<Rightarrow> snapshot_type \<Rightarrow> bool \<Rightarrow> capture_policy \<Rightarrow> int \<Rightarrow> int option \<Rightarrow>
   bitmap_backup option \<Rightarrow> ('s, snapshot_info) sop" where
  "create_snapshot_locked so sn w vm_id i stype resume_source policy timeout rate bitmap =
     bind (stored (\<lambda>st. so_get so st vm_id)) (\<lambda>info.
     bind (ensure_snapshot_supported w info) (\<lambda>_.
     bind (raise_when (\<not> is_live_status (vi_status info)) (CelestoError ''Cannot snapshot computer in this state'')) (\<lambda>_.
     bind (mgr (backend_for_vm (sw_world w) info)) (\<lambda>backend.
     bind (check_capture w info backend stype resume_source policy bitmap) (\<lambda>disk.
     bind (mgr (runtime_adapter_for_backend backend)) (\<lambda>_.
     bind (if backend = ''qemu'' then reconcile_live_backups sn w vm_id info i else ret ()) (\<lambda>_.
     bind (ensure_snapshot_id_free sn i) (\<lambda>_.
     bind (clear_snapshot_root w vm_id i) (\<lambda>_.
     let req = \<lparr>cr_vm_info = info, cr_snapshot_id = i, cr_disk = disk, cr_resume_source = resume_source, cr_original_status = vi_status info,
                cr_snapshot_type = stype, cr_capture_policy = policy, cr_timeout = timeout, cr_max_bytes_per_second = rate, cr_bitmap = bitmap\<rparr>
     in bind (catch is_exception (capture_and_record sn w req backend) (rollback_capture so sn w vm_id req False)) (\<lambda>(snapshot, result).
          catch is_exception (settle_source so w vm_id req snapshot result) (rollback_capture so sn w vm_id req True)))))))))))"

text \<open>A time-out in milliseconds; \<open>None\<close> stands for one that is not finite.\<close>

definition create_snapshot ::
  "'s vm_store \<Rightarrow> 's snap_store \<Rightarrow> snap_world \<Rightarrow> string \<Rightarrow> string option \<Rightarrow> snapshot_type \<Rightarrow> bool \<Rightarrow> capture_policy \<Rightarrow> int option \<Rightarrow> int option \<Rightarrow>
   bitmap_backup option \<Rightarrow> ('s, snapshot_info) sop" where
  "create_snapshot so sn w vm_id snapshot_id stype resume_source policy timeout rate bitmap =
     bind (raise_when (vm_id = []) (ValueError ''vm_id cannot be empty'')) (\<lambda>_.
     case timeout of
       None \<Rightarrow> raise (ValueError ''timeout_seconds must be a finite number greater than zero'')
     | Some limit \<Rightarrow>
         bind (raise_when (limit \<le> 0) (ValueError ''timeout_seconds must be a finite number greater than zero'')) (\<lambda>_.
         bind (raise_when (case rate of None \<Rightarrow> False | Some b \<Rightarrow> b \<le> 0) (ValueError ''max_bytes_per_second must be greater than zero'')) (\<lambda>_.
         bind (case snapshot_id of
                 Some j \<Rightarrow> if j \<noteq> [] then ret j else bind (mgr (ask (sw_now w))) (\<lambda>now. ret (''snap-'' @ vm_id @ ''-'' @ now))
               | None \<Rightarrow> bind (mgr (ask (sw_now w))) (\<lambda>now. ret (''snap-'' @ vm_id @ ''-'' @ now))) (\<lambda>i.
         bind (snapshot_root_for_id w i) (\<lambda>_.
         bind (mgr (attempt (\<lambda>t. sw_lock w t (vm_id @ ''.snapshot.lock'')))) (\<lambda>_.
         bind (mgr (attempt (\<lambda>t. sw_lock w t (''snapshot-'' @ i @ ''.lock'')))) (\<lambda>_.
           create_snapshot_locked so sn w vm_id i stype resume_source policy limit rate bitmap)))))))"

section \<open>Restoring a snapshot\<close>

definition find_vm :: "'s vm_store \<Rightarrow> string \<Rightarrow> ('s, vm_info option) sop" where
  "find_vm so vm_id = catch is_vm_missing (bind (stored (\<lambda>st. so_get so st vm_id)) (\<lambda>i. ret (Some i))) (\<lambda>_. ret None)"

text \<open>A snapshot whose restored computer still runs.\<close>

definition refuse_active_restore :: "'s vm_store \<Rightarrow> string \<Rightarrow> snapshot_info \<Rightarrow> ('s, unit) sop" where
  "refuse_active_restore so message snapshot =
     (case si_restored_vm_id snapshot of
        Some v \<Rightarrow>
          if si_restored snapshot \<and> v \<noteq> []
          then catch is_vm_missing
                 (bind (stored (\<lambda>st. so_get so st v)) (\<lambda>i.
                    raise_when (is_live_status (vi_status i)) (CelestoError message)))
                 (\<lambda>_. ret ())
          else ret ()
      | None \<Rightarrow> ret ())"

definition require_artifact :: "snap_world \<Rightarrow> bool \<Rightarrow> string option \<Rightarrow> ('s, unit) sop" where
  "require_artifact w optional path =
     (case path of
        None \<Rightarrow> raise_when (\<not> optional) (CelestoError ''Snapshot restore requires an artifact to exist'')
      | Some p \<Rightarrow> bind (mgr (path_exists (sw_world w) p)) (\<lambda>there.
          raise_when (\<not> there) (CelestoError ''Snapshot restore requires an artifact to exist'')))"

definition require_artifacts :: "snap_world \<Rightarrow> snapshot_info \<Rightarrow> ('s, unit) sop" where
  "require_artifacts w snapshot =
     (let a = si_artifacts snapshot; qemu = (si_backend snapshot = ''qemu'') in
      bind (require_artifact w False (Some (sa_disk_path a))) (\<lambda>_.
      if si_snapshot_type snapshot = SNAP_DISK then ret ()
      else bind (require_artifact w qemu (sa_state_path a)) (\<lambda>_. require_artifact w qemu (sa_memory_path a))))"

definition check_restore :: "'s vm_store \<Rightarrow> snap_world \<Rightarrow> snapshot_info \<Rightarrow> bool \<Rightarrow> ('s, vm_info option) sop" where
  "check_restore so w snapshot force =
     bind (raise_when (is_public (si_vm_config snapshot)) (CelestoError ''Public browsing cannot restore an old connection'')) (\<lambda>_.
     bind (raise_when (si_restored snapshot \<and> \<not> force) (CelestoError ''Snapshot already restored'')) (\<lambda>_.
     bind (find_vm so (si_vm_id snapshot)) (\<lambda>existing.
     bind (refuse_active_restore so ''Snapshot is already backing an active restored computer'' snapshot) (\<lambda>_.
     bind (raise_when (case existing of None \<Rightarrow> False | Some i \<Rightarrow> vi_config i \<noteq> si_vm_config snapshot)
            (CelestoError ''Snapshot restore requires the original computer identity and config'')) (\<lambda>_.
     bind (case vc_kernel_path (si_vm_config snapshot) of
             None \<Rightarrow> ret ()
           | Some k \<Rightarrow> bind (mgr (path_exists (sw_world w) k)) (\<lambda>there.
               raise_when (\<not> there) (CelestoError ''Snapshot restore requires the original kernel path to exist''))) (\<lambda>_.
     bind (require_artifacts w snapshot) (\<lambda>_. ret existing)))))))"

definition check_restore_network :: "snap_world \<Rightarrow> snapshot_info \<Rightarrow> ('s, unit) sop" where
  "check_restore_network w snapshot =
     (let config = si_vm_config snapshot; net = si_network_config snapshot; backend = si_backend snapshot in
      bind (mgr (validate_network_policy (sw_world w) config backend)) (\<lambda>_.
      bind (mgr (runtime_adapter_for_backend backend)) (\<lambda>_.
      if nc_mode net = MODE_BRIDGE
      then
        bind (raise_when (na_bridge (vc_network_attachment config) \<noteq> nc_bridge net) (CelestoError ''inconsistent bridge settings'')) (\<lambda>_.
        bind (mgr (resolve_control_channel_for_config (sw_world w) config backend)) (\<lambda>kind.
          mgr (validate_bridge_mode (sw_world w) config backend (Some kind))))
      else ret ())))"

text \<open>The network of a restored guest.\<close>

definition ensure_tap_network_for_restore :: "'s vm_store \<Rightarrow> world \<Rightarrow> string \<Rightarrow> network_config \<Rightarrow> vm_config \<Rightarrow> ('s, unit) mop" where
  "ensure_tap_network_for_restore so w vm_id net config =
     (if nc_mode net = MODE_BRIDGE
      then bind (backend_for_config w config) (\<lambda>backend. ensure_bridge_ready so w vm_id net config backend)
      else case nc_guest_ip net of
          None \<Rightarrow> raise (AssertionError ''guest_ip'')
        | Some guest_ip \<Rightarrow>
            bind (network w (PREPARE_TAP (nc_tap_device net) (case nc_gateway_ip net of Some g \<Rightarrow> g | None \<Rightarrow> w_host_ip w))) (\<lambda>_.
            bind (network w (ADD_ROUTE guest_ip (nc_tap_device net))) (\<lambda>_.
            bind (backend_for_config w config) (\<lambda>backend.
            bind (validate_network_policy w config backend) (\<lambda>_.
            bind (setup_policy_network w config (nc_tap_device net) guest_ip) (\<lambda>_.
            bind (apply_domain_allowlist w config (nc_tap_device net)) (\<lambda>_.
            case nc_ssh_host_port net of
              None \<Rightarrow> ret ()
            | Some port \<Rightarrow> network w (SSH_FORWARD vm_id guest_ip port))))))))"

text \<open>What a restore has done so far, for the handler of its exceptions.\<close>

record restore_progress =
  rp_created :: bool
  rp_backup :: "location option"
  rp_sidecars :: "location list"
  rp_placeholder :: bool
  rp_launch :: "restore_launch option"

definition no_progress :: restore_progress where
  "no_progress = \<lparr>rp_created = False, rp_backup = None, rp_sidecars = [], rp_placeholder = False, rp_launch = None\<rparr>"

record restore_plan =
  pl_snapshot :: snapshot_info
  pl_config :: vm_config
  pl_existing :: "vm_info option"
  pl_disk :: location
  pl_staging :: location
  pl_resume :: bool

text \<open>The computer as it is restored: its description with the disk that is being written.\<close>

definition plan_vm_id :: "restore_plan \<Rightarrow> string" where
  "plan_vm_id plan = si_vm_id (pl_snapshot plan)"

definition effective_config :: "restore_plan \<Rightarrow> vm_config" where
  "effective_config plan =
     (if pl_staging plan \<noteq> pl_disk plan then (pl_config plan)\<lparr>vc_rootfs_path := Some (path_of (pl_staging plan))\<rparr> else pl_config plan)"

definition launched_vm :: "restore_plan \<Rightarrow> restore_launch \<Rightarrow> vm_info" where
  "launched_vm plan l =
     \<lparr>vi_vm_id = plan_vm_id plan, vi_status = rs_status l, vi_config = pl_config plan, vi_network = Some (si_network_config (pl_snapshot plan)),
      vi_pid = Some (rs_pid l), vi_control_socket_path = rs_control_socket_path l, vi_vsock_uds_path = rs_vsock_uds_path l, vi_display = None\<rparr>"

definition remove_staging :: "snap_world \<Rightarrow> restore_plan \<Rightarrow> ('s, unit) sop" where
  "remove_staging w plan =
     (if pl_staging plan = pl_disk plan then ret ()
      else bind (gets (\<lambda>s. content s (pl_staging plan) \<noteq> None)) (\<lambda>there. unless (\<not> there) (unlink_disk w (pl_staging plan))))"

definition set_aside :: "snap_world \<Rightarrow> restore_plan \<Rightarrow> ('s, restore_progress) sop" where
  "set_aside w plan =
     bind (gets (\<lambda>s. (content s (pl_disk plan) \<noteq> None, ss_disks s))) (\<lambda>(there, files).
     if there
     then
       bind (lift (managed_disk_backing_sidecars (sw_disk w) (disk_entries files) (pl_disk plan))) (\<lambda>sidecars.
       bind (mgr (ask (sw_uuid w))) (\<lambda>uuid.
       let backup = (fst (pl_disk plan), snd (pl_disk plan) @ ''.backup-'' @ uuid)
       in bind (replace_disk w (pl_disk plan) backup) (\<lambda>_. ret (no_progress\<lparr>rp_backup := Some backup, rp_sidecars := sidecars\<rparr>))))
     else ret (no_progress\<lparr>rp_placeholder := True\<rparr>))"

definition restore_row :: "'s vm_store \<Rightarrow> restore_plan \<Rightarrow> restore_progress \<Rightarrow> ('s, restore_progress) sop" where
  "restore_row so plan p =
     (case pl_existing plan of
        Some _ \<Rightarrow> ret p
      | None \<Rightarrow> bind (store_step (\<lambda>st. so_create so st (pl_config plan))) (\<lambda>_. ret (p\<lparr>rp_created := True\<rparr>)))"

definition restore_resources :: "'s vm_store \<Rightarrow> 's snap_store \<Rightarrow> snap_world \<Rightarrow> restore_plan \<Rightarrow> ('s, unit) sop" where
  "restore_resources so sn w plan =
     (let vm_id = plan_vm_id plan; net = si_network_config (pl_snapshot plan); backend = si_backend (pl_snapshot plan);
          tap = uses_host_tap_networking (pl_config plan) backend
      in bind (if nc_mode net = MODE_BRIDGE
               then (case nc_bridge net of
                       None \<Rightarrow> raise (AssertionError ''bridge'')
                     | Some b \<Rightarrow> bind (store_step (\<lambda>st. so_reserve_tap so st vm_id ''bridge'' (Some b) (Some (nc_tap_device net)))) (\<lambda>_. ret ()))
               else if tap
               then bind (store_step (\<lambda>st. so_allocate_requested_ip sn st vm_id (nc_tap_device net) (nc_guest_ip net))) (\<lambda>_. ret ())
               else ret ()) (\<lambda>_.
         bind (case nc_ssh_host_port net of
                 None \<Rightarrow> ret ()
               | Some port \<Rightarrow> bind (store_step (\<lambda>st. so_reserve_requested_ssh sn st vm_id port)) (\<lambda>_. ret ())) (\<lambda>_.
         bind (case vc_vsock (pl_config plan) of
                 None \<Rightarrow> ret ()
               | Some v \<Rightarrow>
                   if backend = ''qemu''
                   then catch is_network_error
                          (bind (mgr (reserve_vsock_cid_for_backend so (sw_world w) vm_id backend (Some (vs_guest_cid v)))) (\<lambda>_. ret ()))
                          (\<lambda>_. raise (NetworkError ''Vsock CID is already in use''))
                   else ret ()) (\<lambda>_.
         bind (store_step (\<lambda>st. so_update so st vm_id (no_update\<lparr>up_network := Some net\<rparr>))) (\<lambda>_.
           if tap then mgr (ensure_tap_network_for_restore so (sw_world w) vm_id net (effective_config plan)) else ret ()))))) "

definition launch_restored :: "snap_world \<Rightarrow> restore_plan \<Rightarrow> restore_progress \<Rightarrow> ('s, restore_progress) sop" where
  "launch_restored w plan p =
     bind (mgr (gets mg_clock)) (\<lambda>t. \<lambda>s.
       case sw_restore w t (pl_snapshot plan) (pl_staging plan) (pl_resume plan) of
         (r, written) \<Rightarrow>
           (let s' = s\<lparr>ss_disks := (case written of None \<Rightarrow> ss_disks s | Some c \<Rightarrow> AList.update (pl_staging plan) c (ss_disks s)),
                       ss_mgr := (ss_mgr s)\<lparr>mg_clock := Suc t\<rparr>\<rparr>
            in case r of
                 Inl e \<Rightarrow> (Inl e, s')
               | Inr l \<Rightarrow> (Inr (p\<lparr>rp_launch := Some l\<rparr>), s'\<lparr>ss_mgr := (ss_mgr s')\<lparr>mg_procs := launched_vm plan l # mg_procs (ss_mgr s')\<rparr>\<rparr>)))"

definition finish_restore :: "'s vm_store \<Rightarrow> 's snap_store \<Rightarrow> snap_world \<Rightarrow> restore_plan \<Rightarrow> restore_progress \<Rightarrow> restore_launch \<Rightarrow> ('s, vm_info) sop" where
  "finish_restore so sn w plan p l =
     bind (if pl_staging plan \<noteq> pl_disk plan then replace_disk w (pl_staging plan) (pl_disk plan) else ret ()) (\<lambda>_.
     bind (store_step (\<lambda>st. so_update so st (plan_vm_id plan)
            (no_update\<lparr>up_status := Some (rs_status l), up_pid := Some (rs_pid l), up_control_socket_path := rs_control_socket_path l\<rparr>))) (\<lambda>info.
     bind (store_step (\<lambda>st. so_mark_restored sn st (si_snapshot_id (pl_snapshot plan)) (plan_vm_id plan))) (\<lambda>restored.
     bind (write_snapshot_manifest w restored) (\<lambda>_.
     bind (case rp_backup p of
             None \<Rightarrow> ret ()
           | Some b \<Rightarrow> bind (gets (\<lambda>s. content s b \<noteq> None)) (\<lambda>there. unless (\<not> there) (suppress (unlink_disk w b)))) (\<lambda>_.
     bind (for_each (\<lambda>c. suppress (unlink_disk w c)) (rp_sidecars p)) (\<lambda>_.
       ret (case rs_vsock_uds_path l of None \<Rightarrow> info | Some u \<Rightarrow> info\<lparr>vi_vsock_uds_path := Some u\<rparr>)))))))"

text \<open>The files that the cleanup of a computer removes, as \<open>cleanup_vm_artifacts\<close> does it.\<close>

definition remove_artifacts :: "snap_world \<Rightarrow> string \<Rightarrow> string \<Rightarrow> vm_info option \<Rightarrow> ('s, unit) sop" where
  "remove_artifacts w vm_id backend info =
     modify (\<lambda>s.
       let left = snd (cleanup_vm_artifacts (sw_disk w) vm_id (Inr backend) info False (disk_entries (ss_disks s)))
       in s\<lparr>ss_disks := filter (\<lambda>(l, _). map_of left l \<noteq> None) (ss_disks s)\<rparr>)"

definition cleanup_restored :: "'s vm_store \<Rightarrow> snap_world \<Rightarrow> string \<Rightarrow> string \<Rightarrow> ('s, unit) sop" where
  "cleanup_restored so w vm_id backend =
     bind (mgr (vm_info_for_cleanup so vm_id)) (\<lambda>info.
     bind (remove_artifacts w vm_id backend info) (\<lambda>_. mgr (cleanup_resources so (sw_world w) vm_id False False)))"

definition undo_row :: "'s vm_store \<Rightarrow> snap_world \<Rightarrow> restore_plan \<Rightarrow> restore_progress \<Rightarrow> ('s, unit) sop" where
  "undo_row so w plan p =
     (let vm_id = plan_vm_id plan in
      if rp_created p
      then bind (suppress (cleanup_restored so w vm_id (si_backend (pl_snapshot plan)))) (\<lambda>_.
             suppress (store_step (\<lambda>st. so_delete so st vm_id)))
      else case pl_existing plan of
          None \<Rightarrow> ret ()
        | Some _ \<Rightarrow>
            suppress (bind (store_step (\<lambda>st. so_update so st vm_id
              (no_update\<lparr>up_status := Some VM_ERROR, up_clear_pid := True, up_clear_socket_path := True\<rparr>))) (\<lambda>_. ret ())))"

definition staging_sidecars :: "disk_files \<Rightarrow> location \<Rightarrow> location list" where
  "staging_sidecars files root =
     map (Pair (fst root)) (sort (filter (glob_match (snd root @ ''.backing-*'')) (map (snd \<circ> fst) (filter (\<lambda>f. fst (fst f) = fst root) files))))"

definition undo_disk :: "snap_world \<Rightarrow> restore_plan \<Rightarrow> restore_progress \<Rightarrow> ('s, unit) sop" where
  "undo_disk w plan p =
     bind (suppress (remove_staging w plan)) (\<lambda>_.
     bind (gets (\<lambda>s. staging_sidecars (ss_disks s) (pl_staging plan))) (\<lambda>sidecars.
     bind (for_each (\<lambda>c. suppress (unlink_disk w c)) sidecars) (\<lambda>_.
     bind (gets (\<lambda>s. content s (pl_disk plan) \<noteq> None)) (\<lambda>there.
     bind (unless (\<not> (rp_placeholder p \<and> there)) (suppress (unlink_disk w (pl_disk plan)))) (\<lambda>_.
     case rp_backup p of
       None \<Rightarrow> ret ()
     | Some b \<Rightarrow>
         bind (gets (\<lambda>s. content s b \<noteq> None)) (\<lambda>saved.
           unless (\<not> saved)
             (suppress (bind (gets (\<lambda>s. content s (pl_disk plan) \<noteq> None)) (\<lambda>there.
                bind (unless (\<not> there) (unlink_disk w (pl_disk plan))) (\<lambda>_. replace_disk w b (pl_disk plan))))))))))) "

definition undo_restore :: "'s vm_store \<Rightarrow> snap_world \<Rightarrow> restore_plan \<Rightarrow> restore_progress \<Rightarrow> ('s, unit) sop" where
  "undo_restore so w plan p =
     bind (case rp_launch p of
             None \<Rightarrow> ret ()
           | Some l \<Rightarrow> suppress (mgr (adapter_stop (sw_world w) (launched_vm plan l)))) (\<lambda>_.
     bind (undo_row so w plan p) (\<lambda>_. undo_disk w plan p))"

definition undoing :: "'s vm_store \<Rightarrow> snap_world \<Rightarrow> restore_plan \<Rightarrow> restore_progress \<Rightarrow> ('s, 'a) sop \<Rightarrow> ('s, 'a) sop" where
  "undoing so w plan p body = catch is_exception body (\<lambda>e. bind (undo_restore so w plan p) (\<lambda>_. raise e))"

definition run_restore :: "'s vm_store \<Rightarrow> 's snap_store \<Rightarrow> snap_world \<Rightarrow> restore_plan \<Rightarrow> ('s, vm_info) sop" where
  "run_restore so sn w plan =
     bind (undoing so w plan no_progress
            (bind (mgr (attempt (sw_disk_folder w))) (\<lambda>_. bind (remove_staging w plan) (\<lambda>_. set_aside w plan)))) (\<lambda>p.
     bind (undoing so w plan p (bind (touch_disk w (pl_disk plan)) (\<lambda>_. restore_row so plan p))) (\<lambda>p.
     bind (undoing so w plan p (bind (restore_resources so sn w plan) (\<lambda>_. launch_restored w plan p))) (\<lambda>p.
       case rp_launch p of
         None \<Rightarrow> raise (AssertionError ''launch'')
       | Some l \<Rightarrow> undoing so w plan p (finish_restore so sn w plan p l))))"

definition plan_restore :: "snap_world \<Rightarrow> snapshot_info \<Rightarrow> vm_info option \<Rightarrow> bool \<Rightarrow> ('s, restore_plan) sop" where
  "plan_restore w snapshot existing resume_guest =
     bind (lift (effective_rootfs_format (si_vm_config snapshot))) (\<lambda>fmt.
     let disk = instance_disk (sw_disk w) (si_vm_id snapshot) (si_backend snapshot) (Some fmt);
         config = (si_vm_config snapshot)\<lparr>vc_rootfs_path := Some (path_of disk), vc_rootfs_format := Some fmt, vc_backend := Some (si_backend snapshot)\<rparr>
     in bind (if si_backend snapshot = ''qemu''
              then bind (mgr (ask (sw_uuid w))) (\<lambda>uuid. ret (fst disk, snd disk @ ''.restore-'' @ uuid))
              else ret disk) (\<lambda>staging.
          ret \<lparr>pl_snapshot = snapshot, pl_config = config, pl_existing = existing, pl_disk = disk, pl_staging = staging, pl_resume = resume_guest\<rparr>))"

definition restore_snapshot :: "'s vm_store \<Rightarrow> 's snap_store \<Rightarrow> snap_world \<Rightarrow> string \<Rightarrow> bool \<Rightarrow> bool \<Rightarrow> ('s, vm_info) sop" where
  "restore_snapshot so sn w i resume_guest force =
     bind (raise_when (i = []) (ValueError ''snapshot_id cannot be empty'')) (\<lambda>_.
     bind (get_snapshot sn w i) (\<lambda>snapshot.
     bind (check_restore so w snapshot force) (\<lambda>existing.
     bind (case existing of
             None \<Rightarrow> ret None
           | Some e \<Rightarrow>
               if is_live_status (vi_status e)
               then bind (mgr (stop_vm so (sw_world w) (si_vm_id snapshot))) (\<lambda>_.
                    bind (stored (\<lambda>st. so_get so st (si_vm_id snapshot))) (\<lambda>e'. ret (Some e')))
               else ret (Some e)) (\<lambda>existing.
     bind (plan_restore w snapshot existing resume_guest) (\<lambda>plan.
     bind (check_restore_network w (snapshot\<lparr>si_vm_config := effective_config plan\<rparr>)) (\<lambda>_.
       run_restore so sn w plan))))))"

section \<open>Deleting a snapshot\<close>

definition delete_adopted :: "snap_world \<Rightarrow> string \<Rightarrow> celesto_error \<Rightarrow> ('s, unit) sop" where
  "delete_adopted w i missing =
     bind (gets (\<lambda>s. map_of (ss_dirs s) i)) (\<lambda>d.
       case d of
         None \<Rightarrow> raise missing
       | Some d \<Rightarrow>
           (case sd_live d of
              None \<Rightarrow> raise missing
            | Some l \<Rightarrow> if lb_symlink l \<or> \<not> lb_readable l \<or> \<not> lb_published l then raise missing else remove_dir w i))"

definition delete_snapshot :: "'s vm_store \<Rightarrow> 's snap_store \<Rightarrow> snap_world \<Rightarrow> string \<Rightarrow> ('s, unit) sop" where
  "delete_snapshot so sn w i =
     bind (snapshot_root_for_id w i) (\<lambda>_.
     bind (catch is_snapshot_missing (bind (get_snapshot sn w i) (\<lambda>x. ret (Some x))) (\<lambda>e. bind (delete_adopted w i e) (\<lambda>_. ret None))) (\<lambda>snapshot.
       case snapshot of
         None \<Rightarrow> ret ()
       | Some x \<Rightarrow>
           bind (refuse_active_restore so ''Cannot delete snapshot while restored computer is active'' x) (\<lambda>_.
           bind (catch is_not_found (remove_dir w i) (\<lambda>_. ret ())) (\<lambda>_.
             store_step (\<lambda>st. so_delete_snapshot sn st i)))))"

end
