(* ===== verification/Snapshot_Props.thy ===== *)
theory Snapshot_Props
  imports Snapshots Manager_Props
begin

text \<open>
  What snapshots promise. The locale \<open>snapshot_rows\<close> extends the contract of a state manager by its table of
  snapshots; the in-memory state manager satisfies it.
\<close>

section \<open>Steps of the manager inside a snapshot operation\<close>

lemma wpre_mgr [wp]:
  "wpre (mgr f) Q R s \<longleftrightarrow> wpre f (\<lambda>x m. Q x (s\<lparr>ss_mgr := m\<rparr>)) (\<lambda>e m. R e (s\<lparr>ss_mgr := m\<rparr>)) (ss_mgr s)"
  by (simp add: wpre_def mgr_def split: prod.split sum.split)

lemma keeps_mgr:
  assumes "\<And>s. keeps (\<lambda>m. I (s\<lparr>ss_mgr := m\<rparr>)) f"
  shows "keeps I (mgr f)"
  unfolding keeps_def wpre_mgr
proof (intro allI impI)
  fix s assume "I s"
  then have "I (s\<lparr>ss_mgr := ss_mgr s\<rparr>)" by simp
  from keepsD [OF assms this] show "wpre f (\<lambda>x m. I (s\<lparr>ss_mgr := m\<rparr>)) (\<lambda>e m. I (s\<lparr>ss_mgr := m\<rparr>)) (ss_mgr s)" .
qed

section \<open>The contract with the table of snapshots\<close>

named_theorems still \<open>operations that leave the rows and the snapshots alone\<close>

locale snapshot_rows = vm_rows so ok rows for so :: "'s vm_store" and ok and rows +
  fixes sn :: "'s snap_store" and table :: "'s \<Rightarrow> string \<Rightarrow> snapshot_info option"
  assumes get_snapshot: "ok st \<Longrightarrow> so_get_snapshot sn st i =
        (case table st i of None \<Rightarrow> Inl (SnapshotNotFoundError i) | Some x \<Rightarrow> Inr x)"
    and create_snapshot: "ok st \<Longrightarrow> so_create_snapshot sn st x = (r, st') \<Longrightarrow> ok st' \<and> rows st' = rows st \<and>
        (if table st (si_snapshot_id x) = None then r = Inr x \<and> table st' = (table st)(si_snapshot_id x \<mapsto> x)
         else r = Inl (SnapshotAlreadyExistsError (si_snapshot_id x)) \<and> table st' = table st)"
    and mark_restored: "ok st \<Longrightarrow> so_mark_restored sn st i vm = (r, st') \<Longrightarrow> ok st' \<and> rows st' = rows st \<and>
        (case table st i of None \<Rightarrow> r = Inl (SnapshotNotFoundError i) \<and> table st' = table st
         | Some x \<Rightarrow> r = Inr (x\<lparr>si_restored := True, si_restored_vm_id := Some vm\<rparr>) \<and>
             table st' = (table st)(i \<mapsto> x\<lparr>si_restored := True, si_restored_vm_id := Some vm\<rparr>))"
    and delete_snapshot: "ok st \<Longrightarrow> so_delete_snapshot sn st i = (q, st') \<Longrightarrow> ok st' \<and> rows st' = rows st \<and>
        (if table st i = None then q = Inl (SnapshotNotFoundError i) \<and> table st' = table st
         else q = Inr () \<and> table st' = (table st)(i := None))"
    and requested_ip: "ok st \<Longrightarrow> so_allocate_requested_ip sn st vm tap req = (a, st') \<Longrightarrow> ok st' \<and> rows st' = rows st \<and> table st' = table st"
    and requested_ssh: "ok st \<Longrightarrow> so_reserve_requested_ssh sn st vm port = (p, st') \<Longrightarrow> ok st' \<and> rows st' = rows st \<and> table st' = table st"
    and create_table: "so_create so st c = (v, st') \<Longrightarrow> table st' = table st"
    and update_table: "so_update so st vm u = (v, st') \<Longrightarrow> table st' = table st"
    and delete_table: "so_delete so st vm = (q, st') \<Longrightarrow> table st' = table st"
    and reserve_table: "so_reserve_tap so st vm mode br req' = (a, st') \<Longrightarrow> table st' = table st"
      "so_reserve_vsock so st vm cid = (p, st') \<Longrightarrow> table st' = table st"
    and release_table: "so_release_ip so st vm = (q, st') \<Longrightarrow> table st' = table st"
      "so_release_ssh so st vm = (q, st') \<Longrightarrow> table st' = table st" "so_release_vsock so st vm = (q, st') \<Longrightarrow> table st' = table st"
      "so_release_tap so st vm = (q, st') \<Longrightarrow> table st' = table st"
begin

text \<open>The inventory as a snapshot operation sees it.\<close>

definition holds :: "registry \<Rightarrow> (string \<Rightarrow> snapshot_info option) \<Rightarrow> 's manager \<Rightarrow> bool" where
  "holds R T m \<longleftrightarrow> ok (mg_store m) \<and> rows (mg_store m) = R \<and> table (mg_store m) = T"

definition inventory :: "registry \<Rightarrow> (string \<Rightarrow> snapshot_info option) \<Rightarrow> 's snap_state \<Rightarrow> bool" where
  "inventory R T s \<longleftrightarrow> holds R T (ss_mgr s)"

lemma holds_simps [simp]:
  "holds R T (m\<lparr>mg_clock := t\<rparr>) = holds R T m" "holds R T (m\<lparr>mg_net := n\<rparr>) = holds R T m" "holds R T (m\<lparr>mg_procs := ps\<rparr>) = holds R T m"
  by (simp_all add: holds_def)

lemma still_outside [still]:
  "keeps (holds R T) (ask g)" "keeps (holds R T) (attempt h)" "keeps (holds R T) (from_store k)"
  by (auto simp: keeps_def wp split: sum.split)

lemma still_store [still]:
  "keeps (holds R T) (on_store (\<lambda>st. so_reserve_tap so st vm mode br req))"
  "keeps (holds R T) (on_store (\<lambda>st. so_reserve_vsock so st vm cid))"
  "keeps (holds R T) (on_store (\<lambda>st. so_release_ip so st vm))" "keeps (holds R T) (on_store (\<lambda>st. so_release_ssh so st vm))"
  "keeps (holds R T) (on_store (\<lambda>st. so_release_vsock so st vm))" "keeps (holds R T) (on_store (\<lambda>st. so_release_tap so st vm))"
  "keeps (holds R T) (on_store (\<lambda>st. so_allocate_requested_ip sn st vm tap rip))"
  "keeps (holds R T) (on_store (\<lambda>st. so_reserve_requested_ssh sn st vm port))"
  by (auto simp: keeps_def wp holds_def split: prod.split sum.split
      dest: reserve_tap_rows reserve_vsock_rows release_ip_rows release_ssh_rows release_vsock_rows release_tap_rows
        reserve_table release_table requested_ip requested_ssh)

lemma still_network [still]: "keeps (holds R T) (network w cmd)"
  unfolding network_def by (intro keep still keeps_modify) simp

lemma still_backend [still]:
  "keeps (holds R T) (backend_for_config w c)" "keeps (holds R T) (resolve_control_channel_for_config w c b)"
  unfolding backend_for_config_def resolve_control_channel_for_config_def Let_def
  by (auto intro!: keep simp: keep split: sum.split celesto_error.split)

lemma still_adapter [still]:
  "keeps (holds R T) (backend_for_vm w i)" "keeps (holds R T) (runtime_adapter_for_backend b)"
  "keeps (holds R T) (validate_network_policy w c b)" "keeps (holds R T) (path_exists w p)" "keeps (holds R T) (adapter_stop w i)"
  unfolding backend_for_vm_def runtime_adapter_for_backend_def validate_network_policy_def path_exists_def adapter_stop_def forget_processes_def
  by (intro keep still keeps_modify; simp)+

lemma still_policy [still]:
  "keeps (holds R T) (setup_policy_network w c tap ip)" "keeps (holds R T) (apply_domain_allowlist w c tap)"
  "keeps (holds R T) (validate_bridge_mode w c b k)"
  unfolding setup_policy_network_def apply_domain_allowlist_def validate_bridge_mode_def Let_def
  by (intro keep still)+

lemma still_bridge [still]: "keeps (holds R T) (ensure_bridge_ready so w vm n c b)"
  unfolding ensure_bridge_ready_def Let_def by (intro keep still)

lemma still_tap [still]: "keeps (holds R T) (ensure_tap_network_for_restore so w vm n c)"
  unfolding ensure_tap_network_for_restore_def by (intro keep still)

lemma still_vsock [still]: "keeps (holds R T) (reserve_vsock_cid_for_backend so w vm b cid)"
proof -
  have loop: "keeps (holds R T) (free_cid_loop so vm live cids)" for live cids
    by (induction cids) (simp_all add: keep still)
  show ?thesis unfolding reserve_vsock_cid_for_backend_def by (intro keep still loop)
qed

lemma still_cleanup_parts [still]:
  "keeps (holds R T) (validate_cleanup_id vm)" "keeps (holds R T) (vm_info_for_cleanup so vm)"
  "keeps (holds R T) (cleanup_nat so w vm lease tap port ip)" "keeps (holds R T) (cleanup_socket w p)"
  unfolding validate_cleanup_id_def vm_info_for_cleanup_def cleanup_nat_def cleanup_socket_def
  by (intro keep still)+

lemma still_cleanup_bridge [still]: "keeps (holds R T) (cleanup_bridge so w vm tap reserved strict)"
proof -
  have "keeps (holds R T) (case e of BridgeTapOwnershipError _ \<Rightarrow> ret True | _ \<Rightarrow> if strict then raise e else ret False)" for e
    by (cases e) (simp_all add: keep)
  then show ?thesis unfolding cleanup_bridge_def Let_def by (intro keep still)
qed

lemma still_cleanup [still]:
  "keeps (holds R T) (cleanup_host_resources so w vm i strict)" "keeps (holds R T) (cleanup_resources so w vm keepdisk strict)"
proof -
  show host: "keeps (holds R T) (cleanup_host_resources so w vm i strict)" for i
    unfolding cleanup_host_resources_def Let_def by (intro keep still)
  show "keeps (holds R T) (cleanup_resources so w vm keepdisk strict)"
    unfolding cleanup_resources_def by (intro keep still host)
qed

lemma still_mgr: "(\<And>R T. keeps (holds R T) f) \<Longrightarrow> keeps (inventory R T) (mgr f)"
  by (rule keeps_mgr) (simp add: inventory_def [abs_def])

lemma inventory_simps [simp]:
  "inventory R T (s\<lparr>ss_dirs := d\<rparr>) = inventory R T s" "inventory R T (s\<lparr>ss_disks := f\<rparr>) = inventory R T s"
  "inventory R T (s\<lparr>ss_mgr := (ss_mgr s)\<lparr>mg_clock := t\<rparr>\<rparr>) = inventory R T s"
  by (simp_all add: inventory_def)

end

section \<open>Taking a snapshot\<close>

context snapshot_rows
begin

lemmas still_steps = still [THEN still_mgr]

lemma still_stored [still]: "keeps (inventory R T) (stored k)"
  unfolding stored_def by (rule still_steps)

lemma still_dirs [still]:
  "keeps (inventory R T) (make_dir w i)" "keeps (inventory R T) (remove_dir w i)" "keeps (inventory R T) (snapshot_root_for_id w i)"
  unfolding make_dir_def remove_dir_def snapshot_root_for_id_def
  by (intro keep still_steps keeps_modify; simp)+

lemma still_capture [still]:
  "keeps (inventory R T) (capture w req)" "keeps (inventory R T) (unlink_live_manifest w i)" "keeps (inventory R T) (adapter_resume w info)"
  "keeps (inventory R T) (write_snapshot_manifest w x)"
proof -
  show "keeps (inventory R T) (capture w req)"
    by (rule keepsI) (auto simp: capture_def mgr_def run inventory_def split: prod.splits)
  show "keeps (inventory R T) (unlink_live_manifest w i)" "keeps (inventory R T) (adapter_resume w info)"
    "keeps (inventory R T) (write_snapshot_manifest w x)"
    unfolding unlink_live_manifest_def adapter_resume_def write_snapshot_manifest_def Let_def
    by (intro keep still_steps still keeps_modify; simp)+
qed

lemma still_checks [still]:
  "keeps (inventory R T) (ensure_snapshot_supported w info)" "keeps (inventory R T) (check_capture w info b stype rs policy bm)"
  "keeps (inventory R T) (list_snapshots sn w vm')" "keeps (inventory R T) (clear_snapshot_root w vm i)"
  unfolding ensure_snapshot_supported_def check_capture_def check_live_capture_def check_bitmap_backup_def list_snapshots_def clear_snapshot_root_def Let_def
  by (intro keep still_steps still)+

lemma still_reconcile [still]: "keeps (inventory R T) (reconcile_live_backups sn w vm info i)"
proof -
  have last: "keeps (inventory R T) (bind (mgr (gets mg_clock)) (\<lambda>t. \<lambda>s.
       case sw_reconcile w t info i k (ss_dirs s) of
         (r, dirs) \<Rightarrow> (r, s\<lparr>ss_dirs := dirs, ss_mgr := (ss_mgr s)\<lparr>mg_clock := Suc t\<rparr>\<rparr>)))" for k
    by (rule keepsI) (auto simp: mgr_def run inventory_def split: prod.splits)
  show ?thesis unfolding reconcile_live_backups_def by (intro keep still last)
qed

text \<open>The manifest of a snapshot lies beside its artifacts.\<close>

definition recorded :: "string \<Rightarrow> snapshot_info \<Rightarrow> 's snap_state \<Rightarrow> bool" where
  "recorded i x s \<longleftrightarrow> (\<exists>d. map_of (ss_dirs s) i = Some d \<and> sd_manifest d = MANIFEST x)"

lemma recorded_mgr: "keeps (recorded i x) (mgr f)"
  by (rule keeps_mgr) (auto simp: recorded_def keeps_def wpre_def split: prod.split sum.split)

lemma map_of_live: "map_of (map (\<lambda>(j, d). (j, if j = i then d\<lparr>sd_live := l\<rparr> else d)) ds) k =
    map_option (\<lambda>d. if k = i then d\<lparr>sd_live := l\<rparr> else d) (map_of ds k)"
  by (induction ds) auto

lemma recorded_settle: "keeps (recorded i x) (settle_source so w vm req info result)"
proof -
  have "keeps (recorded i x) (unlink_live_manifest w j)" for j
    unfolding unlink_live_manifest_def by (intro keep recorded_mgr keeps_modify) (cases "i = j"; auto simp: recorded_def map_of_live)
  then show ?thesis
    unfolding settle_source_def store_step_def adapter_resume_def by (intro keep recorded_mgr)
qed

lemma wpre_store_create:
  assumes "inventory R T s" "T (si_snapshot_id x) = None"
  shows "wpre (store_step (\<lambda>st. so_create_snapshot sn st x)) (\<lambda>_ s'. inventory R (T(si_snapshot_id x \<mapsto> x)) s') Q s"
  using assms create_snapshot [of "mg_store (ss_mgr s)" x]
  by (auto simp: store_step_def wp inventory_def holds_def split: prod.split sum.split)

lemma wpre_store_update:
  assumes "inventory R T s" "R vm = Some r"
  shows "wpre (store_step (\<lambda>st. so_update so st vm u)) (\<lambda>v s'. v = apply_vm_update u r \<and> inventory (R(vm \<mapsto> apply_vm_update u r)) T s') Q s"
  using assms update_row [of "mg_store (ss_mgr s)" vm u] update_table [of "mg_store (ss_mgr s)" vm u]
  by (auto simp: store_step_def wp inventory_def holds_def reg_update_def split: prod.split sum.split)

lemma wpre_still:
  assumes "keeps (inventory R T) m" "inventory R T s"
    "\<And>x s'. inventory R T s' \<Longrightarrow> Q x s'" "\<And>e s'. inventory R T s' \<Longrightarrow> Q' e s'"
  shows "wpre m Q Q' s"
  by (rule wpre_mono [OF keepsD [OF assms(1,2)]]) (use assms(3,4) in auto)

lemma wpre_write_manifest:
  assumes "inventory R T s" "IDENTIFIER_PATTERN (si_snapshot_id x)" "sw_inside w (si_snapshot_id x)"
  shows "wpre (write_snapshot_manifest w x) (\<lambda>_ s'. inventory R T s' \<and> recorded (si_snapshot_id x) x s')
    (\<lambda>e s'. inventory R T s' \<and> (\<exists>t. sw_write w t (si_snapshot_id x) = Inl e)) s"
proof -
  have "si_snapshot_id x \<noteq> []" using assms(2) by (auto simp: IDENTIFIER_PATTERN_def)
  then show ?thesis
    using assms by (auto simp: write_snapshot_manifest_def snapshot_root_for_id_def wp Let_def inventory_def recorded_def split: sum.split)
qed

end

text \<open>The phases of taking a snapshot.\<close>

context snapshot_rows
begin

lemma wpre_capture_and_record:
  assumes "inventory R T s" "T (cr_snapshot_id req) = None" "IDENTIFIER_PATTERN (cr_snapshot_id req)" "sw_inside w (cr_snapshot_id req)"
  shows "wpre (capture_and_record sn w req backend)
    (\<lambda>(x, result) s'. inventory R (T(cr_snapshot_id req \<mapsto> x)) s' \<and> recorded (cr_snapshot_id req) x s' \<and>
       (\<exists>net. vi_network (cr_vm_info req) = Some net \<and> x = snapshot_of req backend net result))
    (\<lambda>e s'. inventory R T s' \<or>
       (\<exists>x. inventory R (T(cr_snapshot_id req \<mapsto> x)) s' \<and> (\<exists>t. sw_write w t (cr_snapshot_id req) = Inl e))) s"
proof -
  let ?E = "\<lambda>e s'. inventory R T s' \<or>
    (\<exists>x. inventory R (T(cr_snapshot_id req \<mapsto> x)) s' \<and> (\<exists>t. sw_write w t (cr_snapshot_id req) = Inl e))"
  let ?Q = "\<lambda>(x, result) s'. inventory R (T(cr_snapshot_id req \<mapsto> x)) s' \<and> recorded (cr_snapshot_id req) x s' \<and>
       (\<exists>net. vi_network (cr_vm_info req) = Some net \<and> x = snapshot_of req backend net result)"
  have save: "wpre (bind (store_step (\<lambda>st. so_create_snapshot sn st x)) (\<lambda>_. bind (write_snapshot_manifest w x) (\<lambda>_. ret (x, result)))) ?Q ?E s1"
    if "inventory R T s1" "vi_network (cr_vm_info req) = Some net" "x = snapshot_of req backend net result" for x result net s1
  proof -
    have i: "si_snapshot_id x = cr_snapshot_id req" using that(3) by (simp add: snapshot_of_def)
    show ?thesis
      unfolding wpre_bind
    proof (rule wpre_mono [OF wpre_store_create [OF that(1)]])
      fix y s2 assume "inventory R (T(si_snapshot_id x \<mapsto> x)) s2"
      from wpre_write_manifest [OF this, of x w] i assms(3,4)
      have "wpre (write_snapshot_manifest w x) (\<lambda>_ s'. inventory R (T(si_snapshot_id x \<mapsto> x)) s' \<and> recorded (si_snapshot_id x) x s')
        (\<lambda>e s'. inventory R (T(si_snapshot_id x \<mapsto> x)) s' \<and> (\<exists>t. sw_write w t (si_snapshot_id x) = Inl e)) s2" by simp
      then show "wpre (write_snapshot_manifest w x) (\<lambda>_. wpre (ret (x, result)) ?Q ?E) ?E s2"
        by (rule wpre_mono) (use that i in \<open>auto simp: wp\<close>)
    qed (use i assms(2) in auto)
  qed
  have rest: "wpre (case vi_network (cr_vm_info req) of None \<Rightarrow> raise (AssertionError ''network'')
      | Some net \<Rightarrow> (let info = snapshot_of req backend net result in
          bind (store_step (\<lambda>st. so_create_snapshot sn st info)) (\<lambda>_. bind (write_snapshot_manifest w info) (\<lambda>_. ret (info, result))))) ?Q ?E s1"
    if "inventory R T s1" for result s1
    using save [OF that] that by (cases "vi_network (cr_vm_info req)") (simp_all add: wp Let_def)
  show ?thesis
    unfolding capture_and_record_def
    by (subst wpre_bind, rule wpre_still [OF still_dirs(1) assms(1)], subst wpre_bind, rule wpre_still [OF still_mgr [OF still_outside(2)]], assumption,
        subst wpre_bind, rule wpre_still [OF still_capture(1)], assumption, subst wpre_bind,
        rule wpre_still [where R = R and T = T], intro keep still_steps, assumption, rule rest, assumption, blast+)
qed

lemma wpre_rollback:
  assumes "inventory R T s" "cr_original_status req = VM_RUNNING \<Longrightarrow> \<exists>r. R vm = Some r \<and> vi_status r = VM_RUNNING"
  shows "wpre (rollback_capture so sn w vm req False e) (\<lambda>_ _. False)
    (\<lambda>e' s'. is_exception e' \<longrightarrow> inventory R T s' \<and>
       (sw_pending w e \<or> map_of (ss_dirs s') (cr_snapshot_id req) = None \<or> (\<exists>t f. sw_rmtree w t (cr_snapshot_id req) = Inl f))) s"
proof -
  let ?i = "cr_snapshot_id req"
  let ?J = "\<lambda>P s'. inventory R T s' \<and> (P \<longrightarrow> map_of (ss_dirs s') ?i = None)"
  define removed where "removed \<longleftrightarrow> \<not> sw_pending w e \<and> \<not> (\<exists>t f. sw_rmtree w t ?i = Inl f)"
  let ?rm = "if sw_pending w e then ret (False, None)
     else catch is_exception (bind (remove_dir w ?i) (\<lambda>_. ret (True, None)))
            (\<lambda>e'. if is_not_found e' then ret (True, None) else ret (False, Some e'))"
  have rm: "wpre ?rm (\<lambda>_. ?J removed) (\<lambda>e' _. \<not> is_exception e') s"
    using assms(1) by (auto simp: wp remove_dir_def is_not_found_def inventory_def delete_conv' removed_def split: sum.split)
  let ?res = "if cr_original_status req = VM_RUNNING \<and> cr_capture_policy req = ALLOW_PAUSE
       then suppress (bind (adapter_resume w (cr_vm_info req)) (\<lambda>_.
              bind (store_step (\<lambda>st. so_update so st vm (no_update\<lparr>up_status := Some VM_RUNNING\<rparr>))) (\<lambda>_. ret ())))
       else ret ()"
  have same: "apply_vm_update (no_update\<lparr>up_status := Some VM_RUNNING\<rparr>) r = r" if "vi_status r = VM_RUNNING" for r
    using that by (simp add: apply_vm_update_def no_update_def overwrite_def)
  have dirs: "keeps (\<lambda>s'. P \<longrightarrow> map_of (ss_dirs s') ?i = None) (mgr f)" for P and f :: "('s, 'b) mop"
    by (rule keeps_mgr) (auto simp: keeps_def wpre_def split: prod.split sum.split)
  have res: "wpre ?res (\<lambda>_. ?J P) (\<lambda>e' _. \<not> is_exception e') s1" if "?J P s1" for P s1
  proof (cases "cr_original_status req = VM_RUNNING \<and> cr_capture_policy req = ALLOW_PAUSE")
    case True
    then obtain r where r: "R vm = Some r" "vi_status r = VM_RUNNING" using assms(2) by blast
    have upd: "wpre (store_step (\<lambda>st. so_update so st vm (no_update\<lparr>up_status := Some VM_RUNNING\<rparr>))) (\<lambda>_. ?J P) (\<lambda>_. ?J P) s2" if "?J P s2" for s2
    proof -
      have "wpre (store_step (\<lambda>st. so_update so st vm (no_update\<lparr>up_status := Some VM_RUNNING\<rparr>)))
        (\<lambda>v s'. v = apply_vm_update (no_update\<lparr>up_status := Some VM_RUNNING\<rparr>) r \<and> inventory (R(vm \<mapsto> apply_vm_update (no_update\<lparr>up_status := Some VM_RUNNING\<rparr>) r)) T s')
        (\<lambda>_ _. False) s2" using wpre_store_update [of R T s2 vm r] r(1) that by blast
      moreover have "wpre (store_step (\<lambda>st. so_update so st vm (no_update\<lparr>up_status := Some VM_RUNNING\<rparr>)))
          (\<lambda>_ s'. P \<longrightarrow> map_of (ss_dirs s') ?i = None) (\<lambda>_ s'. P \<longrightarrow> map_of (ss_dirs s') ?i = None) s2"
        unfolding store_step_def using keepsD [OF dirs] that by blast
      ultimately show ?thesis
        by (rule wpre_mono [OF wpre_conj]) (use r in \<open>auto simp: same fun_upd_idem\<close>)
    qed
    have "wpre (adapter_resume w (cr_vm_info req)) (\<lambda>_. ?J P) (\<lambda>_. ?J P) s1"
      using that by (auto simp: adapter_resume_def wp inventory_def split: sum.split)
    then have "wpre (bind (adapter_resume w (cr_vm_info req)) (\<lambda>_.
              bind (store_step (\<lambda>st. so_update so st vm (no_update\<lparr>up_status := Some VM_RUNNING\<rparr>))) (\<lambda>_. ret ()))) (\<lambda>_. ?J P) (\<lambda>_. ?J P) s1"
      unfolding wpre_bind wpre_end by (rule wpre_mono) (use upd in auto)
    then have "wpre (suppress (bind (adapter_resume w (cr_vm_info req)) (\<lambda>_.
              bind (store_step (\<lambda>st. so_update so st vm (no_update\<lparr>up_status := Some VM_RUNNING\<rparr>))) (\<lambda>_. ret ())))) (\<lambda>_. ?J P) (\<lambda>e' _. \<not> is_exception e') s1"
      unfolding wpre_suppress by (rule wpre_mono) auto
    then show ?thesis using True by simp
  qed (use that in \<open>auto simp: wp\<close>)
  have tail: "wpre (bind (if False \<and> b then suppress (store_step (\<lambda>st. so_delete_snapshot sn st ?i)) else ret ()) (\<lambda>_. bind ?res (\<lambda>_. raise e')))
      (\<lambda>_ _. False) (\<lambda>e'' s'. is_exception e'' \<longrightarrow> ?J removed s') s1" if "?J removed s1" for b e' s1
    unfolding wpre_bind wpre_end if_False simp_thms by (rule wpre_mono [OF res [OF that]]) auto
  have "wpre (rollback_capture so sn w vm req False e) (\<lambda>_ _. False) (\<lambda>e'' s'. is_exception e'' \<longrightarrow> ?J removed s') s"
    unfolding rollback_capture_def Let_def wpre_bind [of ?rm]
  proof (rule wpre_mono [OF rm])
    fix x :: "bool \<times> celesto_error option" and s1 assume "?J removed s1"
    then show "wpre (case x of (rm, err) \<Rightarrow> bind (if False \<and> rm then suppress (store_step (\<lambda>st. so_delete_snapshot sn st ?i)) else ret ())
        (\<lambda>_. bind ?res (\<lambda>_. raise (case err of None \<Rightarrow> e | Some e' \<Rightarrow> e')))) (\<lambda>_ _. False) (\<lambda>e'' s'. is_exception e'' \<longrightarrow> ?J removed s') s1"
      by (cases x) (simp only: prod.case, rule tail)
  qed simp
  then show ?thesis by (rule wpre_mono) (auto simp: removed_def)
qed

end
context snapshot_rows
begin

lemma wpre_settle:
  assumes "inventory R T s" "recorded i x s" "R vm = Some r"
  shows "wpre (settle_source so w vm req x result)
    (\<lambda>y s'. y = x \<and> (\<exists>st. inventory (R(vm \<mapsto> r\<lparr>vi_status := st\<rparr>)) T s') \<and> recorded i x s') (\<lambda>e _. \<not> is_exception e) s"
proof -
  have upd: "apply_vm_update (no_update\<lparr>up_status := Some st\<rparr>) r = r\<lparr>vi_status := st\<rparr>" for st
    by (simp add: apply_vm_update_def no_update_def overwrite_def)
  have last: "wpre (bind (store_step (\<lambda>st. so_update so st vm (no_update\<lparr>up_status := Some status\<rparr>))) (\<lambda>_. ret x))
      (\<lambda>y s'. y = x \<and> (\<exists>st. inventory (R(vm \<mapsto> r\<lparr>vi_status := st\<rparr>)) T s')) (\<lambda>e _. \<not> is_exception e) s1"
    if "inventory R T s1" for status s1
    unfolding wpre_bind wpre_end by (rule wpre_mono [OF wpre_store_update [OF that assms(3)]]) (auto simp: upd)
  have resume: "wpre (if c then catch is_exception (bind (adapter_resume w (cr_vm_info req)) (\<lambda>_. ret VM_RUNNING)) (\<lambda>_. ret VM_PAUSED)
      else ret (sr_source_status result)) (\<lambda>_. inventory R T) (\<lambda>e _. \<not> is_exception e) s1" if "inventory R T s1" for c s1
    using that by (auto simp: wp adapter_resume_def inventory_def split: sum.split)
  have live: "wpre (if c then unlink_live_manifest w j else ret ()) (\<lambda>_. inventory R T) (\<lambda>_ _. False) s" for c j
    using assms(1) by (auto simp: wp unlink_live_manifest_def inventory_def)
  have "wpre (settle_source so w vm req x result) (\<lambda>y s'. y = x \<and> (\<exists>st. inventory (R(vm \<mapsto> r\<lparr>vi_status := st\<rparr>)) T s')) (\<lambda>e _. \<not> is_exception e) s"
    unfolding settle_source_def
    by (subst wpre_bind, rule wpre_mono [OF live], subst wpre_bind, rule wpre_mono [OF resume], assumption, rule last) auto
  from wpre_conj [OF this keepsD [OF recorded_settle assms(2)]] show ?thesis by (rule wpre_mono) auto
qed

text \<open>The outcome of taking a snapshot, from the inventory \<open>R\<close>, \<open>T\<close>.\<close>

definition taken :: "registry \<Rightarrow> (string \<Rightarrow> snapshot_info option) \<Rightarrow> string \<Rightarrow> string \<Rightarrow> snapshot_info \<Rightarrow> 's snap_state \<Rightarrow> bool" where
  "taken R T vm i x s \<longleftrightarrow> T i = None \<and> recorded i x s \<and>
     (\<exists>r st. R vm = Some r \<and> is_live_status (vi_status r) \<and> \<not> is_public (vi_config r) \<and>
        inventory (R(vm \<mapsto> r\<lparr>vi_status := st\<rparr>)) (T(i \<mapsto> x)) s \<and>
        si_snapshot_id x = i \<and> si_vm_id x = vi_vm_id r \<and> si_vm_config x = vi_config r \<and> Some (si_network_config x) = vi_network r \<and> \<not> si_restored x)"

definition not_taken :: "snap_world \<Rightarrow> registry \<Rightarrow> (string \<Rightarrow> snapshot_info option) \<Rightarrow> string \<Rightarrow> celesto_error \<Rightarrow> 's snap_state \<Rightarrow> bool" where
  "not_taken w R T i e s \<longleftrightarrow> is_exception e \<longrightarrow>
     inventory R T s \<or>
     (\<exists>x. inventory R (T(i \<mapsto> x)) s \<and> (\<exists>t f. sw_write w t i = Inl f \<and>
        (sw_pending w f \<or> map_of (ss_dirs s) i = None \<or> (\<exists>t f. sw_rmtree w t i = Inl f))))"

lemma wpre_create_captured:
  assumes inv: "inventory R T s" and id: "T i = None" "IDENTIFIER_PATTERN i" "sw_inside w i"
    and row: "R vm = Some r" "is_live_status (vi_status r)" "\<not> is_public (vi_config r)"
    and req: "cr_vm_info req = r" "cr_snapshot_id req = i" "cr_original_status req = vi_status r"
  shows "wpre (bind (catch is_exception (capture_and_record sn w req b) (rollback_capture so sn w vm req False)) (\<lambda>(snapshot, result).
          catch is_exception (settle_source so w vm req snapshot result) (rollback_capture so sn w vm req True)))
    (\<lambda>x s'. taken R T vm i x s') (not_taken w R T i) s"
proof -
  have running: "cr_original_status req = VM_RUNNING \<Longrightarrow> \<exists>r. R vm = Some r \<and> vi_status r = VM_RUNNING" using row req by simp
  have roll: "wpre (rollback_capture so sn w vm req False e) Q (not_taken w R T i) s1"
    if "inventory R T s1 \<or> (\<exists>x. inventory R (T(i \<mapsto> x)) s1 \<and> (\<exists>t. sw_write w t i = Inl e))" for e s1 Q
    using that
  proof
    assume "inventory R T s1"
    from wpre_rollback [OF this running] show ?thesis by (rule wpre_mono) (auto simp: not_taken_def)
  next
    assume "\<exists>x. inventory R (T(i \<mapsto> x)) s1 \<and> (\<exists>t. sw_write w t i = Inl e)"
    then obtain x t where x: "inventory R (T(i \<mapsto> x)) s1" "sw_write w t i = Inl e" by blast
    from wpre_rollback [OF x(1) running] show ?thesis
      by (rule wpre_mono) (use x(2) req(2) in \<open>auto simp: not_taken_def\<close>)
  qed
  have first: "wpre (catch is_exception (capture_and_record sn w req b) (rollback_capture so sn w vm req False))
      (\<lambda>(x, result) s'. inventory R (T(i \<mapsto> x)) s' \<and> recorded i x s' \<and> (\<exists>net. vi_network r = Some net \<and> x = snapshot_of req b net result))
      (not_taken w R T i) s"
    unfolding wpre_catch
    by (rule wpre_mono [OF wpre_capture_and_record [OF inv]])
      (use id req roll in \<open>auto simp: not_taken_def split: prod.splits\<close>)
  have second: "wpre (catch is_exception (settle_source so w vm req x result) (rollback_capture so sn w vm req True))
      (\<lambda>y s'. taken R T vm i y s') (not_taken w R T i) s1"
    if "inventory R (T(i \<mapsto> x)) s1" "recorded i x s1" "vi_network r = Some net" "x = snapshot_of req b net result" for x result net s1
    unfolding wpre_catch
  proof (rule wpre_mono [OF wpre_settle [OF that(1,2) row(1)]])
    fix y s2 assume "y = x \<and> (\<exists>st. inventory (R(vm \<mapsto> r\<lparr>vi_status := st\<rparr>)) (T(i \<mapsto> x)) s2) \<and> recorded i x s2"
    moreover have "si_snapshot_id x = i \<and> si_vm_id x = vi_vm_id r \<and> si_vm_config x = vi_config r \<and> Some (si_network_config x) = vi_network r \<and> \<not> si_restored x"
      using that(3,4) req by (simp add: snapshot_of_def)
    ultimately show "taken R T vm i y s2" using id(1) row by (auto simp: taken_def)
  qed (auto simp: not_taken_def)
  show ?thesis
    unfolding wpre_bind by (rule wpre_mono [OF first]) (use second in \<open>auto split: prod.splits\<close>)
qed

end

context snapshot_rows
begin

lemma wpre_still_fail:
  assumes "keeps (inventory R T) m" "inventory R T s" "\<And>x s'. inventory R T s' \<Longrightarrow> wpre (f x) Q (not_taken w R T i) s'"
  shows "wpre (bind m f) Q (not_taken w R T i) s"
  unfolding wpre_bind by (rule wpre_still [OF assms(1,2,3)]) (auto simp: not_taken_def)

lemma wpre_create_snapshot_locked:
  assumes inv: "inventory R T s" and id: "IDENTIFIER_PATTERN i" "sw_inside w i"
  shows "wpre (create_snapshot_locked so sn w vm i stype resume_source policy limit rate bitmap)
    (\<lambda>x s'. taken R T vm i x s') (not_taken w R T i) s"
proof (cases "R vm")
  case None
  have "so_get so (mg_store (ss_mgr s)) vm = Inl (VMNotFoundError vm)"
    using inv None get_row [of "mg_store (ss_mgr s)" vm] by (auto simp: inventory_def holds_def reg_get_def)
  then show ?thesis using inv by (simp add: create_snapshot_locked_def stored_def wp not_taken_def inventory_def)
next
  case (Some r)
  have get: "so_get so (mg_store (ss_mgr s)) vm = Inr r"
    using inv Some get_row [of "mg_store (ss_mgr s)" vm] by (auto simp: inventory_def holds_def reg_get_def)
  have supported: "wpre (ensure_snapshot_supported w r) (\<lambda>_ s'. inventory R T s' \<and> \<not> is_public (vi_config r)) (\<lambda>_. inventory R T) s"
  proof (cases "is_public (vi_config r)")
    case False
    then show ?thesis by (intro wpre_mono [OF keepsD [OF still_checks(1) inv]]) auto
  qed (use inv in \<open>simp add: ensure_snapshot_supported_def wp Let_def\<close>)
  have free: "wpre (ensure_snapshot_id_free sn i) (\<lambda>_ s'. inventory R T s' \<and> T i = None) (\<lambda>_. inventory R T) s1" if "inventory R T s1" for s1
    using that get_snapshot [of "mg_store (ss_mgr s1)" i]
    by (cases "T i") (auto simp: ensure_snapshot_id_free_def stored_def wp inventory_def holds_def is_snapshot_missing_def)
  have captured: "wpre (let req = \<lparr>cr_vm_info = r, cr_snapshot_id = i, cr_disk = disk, cr_resume_source = resume_source, cr_original_status = vi_status r,
                cr_snapshot_type = stype, cr_capture_policy = policy, cr_timeout = limit, cr_max_bytes_per_second = rate, cr_bitmap = bitmap\<rparr>
     in bind (catch is_exception (capture_and_record sn w req b) (rollback_capture so sn w vm req False)) (\<lambda>(snapshot, result).
          catch is_exception (settle_source so w vm req snapshot result) (rollback_capture so sn w vm req True)))
      (\<lambda>x s'. taken R T vm i x s') (not_taken w R T i) s1"
    if "inventory R T s1" "T i = None" "is_live_status (vi_status r)" "\<not> is_public (vi_config r)" for s1 disk b
    unfolding Let_def by (rule wpre_create_captured [OF that(1,2) id Some that(3,4)]) simp_all
  have main: "wpre (bind (raise_when (\<not> is_live_status (vi_status r)) (CelestoError ''Cannot snapshot computer in this state'')) (\<lambda>_.
     bind (mgr (backend_for_vm (sw_world w) r)) (\<lambda>backend.
     bind (check_capture w r backend stype resume_source policy bitmap) (\<lambda>disk.
     bind (mgr (runtime_adapter_for_backend backend)) (\<lambda>_.
     bind (if backend = ''qemu'' then reconcile_live_backups sn w vm r i else ret ()) (\<lambda>_.
     bind (ensure_snapshot_id_free sn i) (\<lambda>_.
     bind (clear_snapshot_root w vm i) (\<lambda>_.
     let req = \<lparr>cr_vm_info = r, cr_snapshot_id = i, cr_disk = disk, cr_resume_source = resume_source, cr_original_status = vi_status r,
                cr_snapshot_type = stype, cr_capture_policy = policy, cr_timeout = limit, cr_max_bytes_per_second = rate, cr_bitmap = bitmap\<rparr>
     in bind (catch is_exception (capture_and_record sn w req backend) (rollback_capture so sn w vm req False)) (\<lambda>(snapshot, result).
          catch is_exception (settle_source so w vm req snapshot result) (rollback_capture so sn w vm req True))))))))))
      (\<lambda>x s'. taken R T vm i x s') (not_taken w R T i) s1" if "inventory R T s1" "\<not> is_public (vi_config r)" for s1
  proof (cases "is_live_status (vi_status r)")
    case True
    show ?thesis
      apply (rule wpre_still_fail, rule keeps_basic, rule that)+
      apply (rule wpre_still_fail, rule still_mgr [OF still_adapter(1)], assumption)
      apply (rule wpre_still_fail, rule still_checks(2), assumption)
      apply (rule wpre_still_fail, rule still_mgr [OF still_adapter(2)], assumption)
      apply (rule wpre_still_fail, intro keep still, assumption)
      apply (subst wpre_bind, rule wpre_mono [OF free], assumption)
       apply (rule wpre_still_fail, rule still_checks(4), blast)
       apply (rule captured)
          apply (use True that in \<open>auto simp: not_taken_def\<close>)
      done
  qed (use that in \<open>simp add: wp not_taken_def\<close>)
  show ?thesis
    unfolding create_snapshot_locked_def wpre_bind [of "stored _"]
    apply (simp add: stored_def wp get)
    apply (rule wpre_mono [OF supported])
    using main by (auto simp: not_taken_def)
qed

end

context snapshot_rows
begin

lemma wpre_create_snapshot:
  assumes inv: "inventory R T s"
  shows "wpre (create_snapshot so sn w vm sid stype resume_source policy timeout rate bitmap)
    (\<lambda>x s'. taken R T vm (si_snapshot_id x) x s' \<and> IDENTIFIER_PATTERN (si_snapshot_id x) \<and> sw_inside w (si_snapshot_id x)) (\<lambda>e s'. \<exists>i. not_taken w R T i e s') s"
proof -
  have locked: "wpre (create_snapshot_locked so sn w vm i stype resume_source policy limit rate bitmap)
      (\<lambda>x s'. taken R T vm (si_snapshot_id x) x s' \<and> IDENTIFIER_PATTERN (si_snapshot_id x) \<and> sw_inside w (si_snapshot_id x)) (\<lambda>e s'. \<exists>i. not_taken w R T i e s') s1"
    if "inventory R T s1" "IDENTIFIER_PATTERN i" "sw_inside w i" for i limit s1
    by (rule wpre_mono [OF wpre_create_snapshot_locked [OF that]]) (use that in \<open>auto simp: taken_def\<close>)
  have fail: "\<exists>i. not_taken w R T i e s1" if "inventory R T s1" for e s1 using that by (auto simp: not_taken_def)
  have named: "wpre (bind (snapshot_root_for_id w i) (\<lambda>_. bind (mgr (attempt l1)) (\<lambda>_. bind (mgr (attempt (l2 i))) (\<lambda>_.
      create_snapshot_locked so sn w vm i stype resume_source policy limit rate bitmap))))
      (\<lambda>x s'. taken R T vm (si_snapshot_id x) x s' \<and> IDENTIFIER_PATTERN (si_snapshot_id x) \<and> sw_inside w (si_snapshot_id x)) (\<lambda>e s'. \<exists>i. not_taken w R T i e s') s1"
    if "inventory R T s1" for i l1 l2 limit s1
    using that locked fail
    by (auto simp: snapshot_root_for_id_def wp inventory_def split: sum.split)
  have choose: "keeps (inventory R T) (case sid of
        Some j \<Rightarrow> if j \<noteq> [] then ret j else bind (mgr (ask (sw_now w))) (\<lambda>now. ret (''snap-'' @ vm @ ''-'' @ now))
      | None \<Rightarrow> bind (mgr (ask (sw_now w))) (\<lambda>now. ret (''snap-'' @ vm @ ''-'' @ now)))"
    by (intro keep still_steps)
  have step: "wpre (bind m f) (\<lambda>x s'. taken R T vm (si_snapshot_id x) x s' \<and> IDENTIFIER_PATTERN (si_snapshot_id x) \<and> sw_inside w (si_snapshot_id x)) (\<lambda>e s'. \<exists>i. not_taken w R T i e s') s1"
    if "keeps (inventory R T) m" "inventory R T s1"
      "\<And>y s2. inventory R T s2 \<Longrightarrow> wpre (f y) (\<lambda>x s'. taken R T vm (si_snapshot_id x) x s' \<and> IDENTIFIER_PATTERN (si_snapshot_id x) \<and> sw_inside w (si_snapshot_id x)) (\<lambda>e s'. \<exists>i. not_taken w R T i e s') s2"
    for m :: "('s, 'b) sop" and f s1
    unfolding wpre_bind by (rule wpre_still [OF that(1,2)]) (use that(3) fail in auto)
  have rest: "wpre (bind (raise_when b1 e1) (\<lambda>_. bind (raise_when b2 e2) (\<lambda>_. bind (case sid of
        Some j \<Rightarrow> if j \<noteq> [] then ret j else bind (mgr (ask (sw_now w))) (\<lambda>now. ret (''snap-'' @ vm @ ''-'' @ now))
      | None \<Rightarrow> bind (mgr (ask (sw_now w))) (\<lambda>now. ret (''snap-'' @ vm @ ''-'' @ now))) (\<lambda>i.
        bind (snapshot_root_for_id w i) (\<lambda>_. bind (mgr (attempt l1)) (\<lambda>_. bind (mgr (attempt (l2 i))) (\<lambda>_.
          create_snapshot_locked so sn w vm i stype resume_source policy limit rate bitmap)))))))
      (\<lambda>x s'. taken R T vm (si_snapshot_id x) x s' \<and> IDENTIFIER_PATTERN (si_snapshot_id x) \<and> sw_inside w (si_snapshot_id x)) (\<lambda>e s'. \<exists>i. not_taken w R T i e s') s1" if "inventory R T s1" for b1 e1 b2 e2 l1 l2 limit s1
    using that by (intro step keep choose named)
  show ?thesis
  proof (cases timeout)
    case None
    show ?thesis unfolding create_snapshot_def None using inv fail by (auto simp: wp)
  next
    case (Some limit)
    show ?thesis unfolding create_snapshot_def Some option.case by (rule step [OF keeps_basic(5) inv]) (intro rest)
  qed
qed

end

section \<open>The in-memory state manager\<close>

lemma mem_snapshot_steps:
  "mem_create_snapshot st x = Inr (y, st') \<Longrightarrow> ms_vms st' = ms_vms st"
  "mem_mark_snapshot_restored st i vm = Inr (y, st') \<Longrightarrow> ms_vms st' = ms_vms st"
  "mem_delete_snapshot st i = Inr st' \<Longrightarrow> ms_vms st' = ms_vms st"
  by (auto simp: mem_create_snapshot_def mem_mark_snapshot_restored_def mem_delete_snapshot_def result_iff Let_def split: if_splits)

lemma mem_table_steps:
  "mem_create_vm st c = Inr (y, st') \<Longrightarrow> ms_snapshots st' = ms_snapshots st"
  "mem_update_vm st vm u = Inr (y, st') \<Longrightarrow> ms_snapshots st' = ms_snapshots st"
  "mem_delete_vm st vm = Inr st' \<Longrightarrow> ms_snapshots st' = ms_snapshots st"
  "mem_allocate_ip env st vm tap req = Inr (a, st') \<Longrightarrow> ms_snapshots st' = ms_snapshots st"
  "mem_reserve_ssh_port env st vm preq ex = Inr (p, st') \<Longrightarrow> ms_snapshots st' = ms_snapshots st"
  "mem_reserve_vsock_cid env st vm preq = Inr (p, st') \<Longrightarrow> ms_snapshots st' = ms_snapshots st"
  "mem_reserve_tap_name env st vm mode br req = Inr (a, st') \<Longrightarrow> ms_snapshots st' = ms_snapshots st"
  "ms_snapshots (mem_release_ip st vm) = ms_snapshots st" "ms_snapshots (mem_release_ssh_port st vm) = ms_snapshots st"
  "ms_snapshots (mem_release_vsock_cid st vm) = ms_snapshots st" "ms_snapshots (mem_release_tap_name st vm) = ms_snapshots st"
  by (auto simp: mem_create_vm_def mem_update_vm_def mem_delete_vm_def mem_get_vm_def mem_release_defs release_claim_def Let_def result_iff
      split: option.splits if_splits
      elim: mem_allocate_ip_Inr mem_reserve_ssh_port_Inr mem_reserve_vsock_cid_Inr mem_reserve_tap_name_Inr)

lemma mem_snap_ops_simps [simp]:
  "so_get_snapshot (mem_snap_ops env) = mem_get_snapshot"
  "so_create_snapshot (mem_snap_ops env) st x = commit st (mem_create_snapshot st x)"
  "so_mark_restored (mem_snap_ops env) st i vm = commit st (mem_mark_snapshot_restored st i vm)"
  "so_delete_snapshot (mem_snap_ops env) st i = commit_unit st (mem_delete_snapshot st i)"
  "so_allocate_requested_ip (mem_snap_ops env) st vm tap rip = commit st (mem_allocate_ip env st vm tap rip)"
  "so_reserve_requested_ssh (mem_snap_ops env) st vm port = commit st (mem_reserve_ssh_port env st vm (Some port) [])"
  by (simp_all add: mem_snap_ops_def)

interpretation mem_snap: snapshot_rows "mem_ops env" "\<lambda>st. keys_distinct (ms_vms st)" "\<lambda>st. map_of (ms_vms st)"
  "mem_snap_ops env" "\<lambda>st. map_of (ms_snapshots st)" for env
proof (unfold_locales, goal_cases)
  case (1 st i)
  then show ?case by (simp add: mem_get_snapshot_def split: option.split)
next
  case (2 st x r st')
  then show ?case by (auto simp: mem_create_snapshot_def split: if_splits)
next
  case (3 st i vm r st')
  then show ?case by (auto simp: mem_mark_snapshot_restored_def mem_get_snapshot_def Let_def split: option.splits)
next
  case (4 st i q st')
  then show ?case by (auto simp: mem_delete_snapshot_def delete_conv' split: if_splits)
qed (auto elim!: commit_cases simp: commit_unit_def split: sum.splits simp: mem_alloc_rows mem_table_steps)

definition rows_of :: "memory_state snap_state \<Rightarrow> registry" where
  "rows_of s = map_of (ms_vms (mg_store (ss_mgr s)))"

definition snapshots_of :: "memory_state snap_state \<Rightarrow> string \<Rightarrow> snapshot_info option" where
  "snapshots_of s = map_of (ms_snapshots (mg_store (ss_mgr s)))"

lemma mem_inventory:
  "mem_snap.inventory R T s \<longleftrightarrow> keys_distinct (ms_vms (mg_store (ss_mgr s))) \<and> rows_of s = R \<and> snapshots_of s = T"
  by (simp add: mem_snap.inventory_def mem_snap.holds_def rows_of_def snapshots_of_def)

text \<open>
  \<^bold>\<open>C12\<close> Taking a snapshot. When it succeeds, its identifier was free, the record is the only change of the table of snapshots, the manifest
  beside the artifacts holds the same record, the record describes the computer, which was live and not browsing publicly, and no row
  changes but the status of that computer. When it fails with an exception, the rows and the table are as before; the one exception is
  a manifest that could not be written, after which a record stays whose directory is removed.
\<close>

theorem create_snapshot_outcome:
  assumes "keys_distinct (ms_vms (mg_store (ss_mgr s)))"
    "create_snapshot (mem_ops env) (mem_snap_ops env) w vm sid stype resume_source policy timeout rate bitmap s = (r, s')"
  shows "case r of
      Inr x \<Rightarrow> snapshots_of s (si_snapshot_id x) = None \<and> snapshots_of s' = (snapshots_of s)(si_snapshot_id x \<mapsto> x) \<and>
        (\<exists>d. map_of (ss_dirs s') (si_snapshot_id x) = Some d \<and> sd_manifest d = MANIFEST x) \<and> \<not> si_restored x \<and>
        (\<exists>row st. rows_of s vm = Some row \<and> is_live_status (vi_status row) \<and> \<not> is_public (vi_config row) \<and>
           rows_of s' = (rows_of s)(vm \<mapsto> row\<lparr>vi_status := st\<rparr>) \<and>
           si_vm_id x = vi_vm_id row \<and> si_vm_config x = vi_config row \<and> Some (si_network_config x) = vi_network row)
    | Inl e \<Rightarrow> is_exception e \<longrightarrow> rows_of s' = rows_of s \<and>
        (snapshots_of s' = snapshots_of s \<or>
         (\<exists>i x t f. snapshots_of s' = (snapshots_of s)(i \<mapsto> x) \<and> sw_write w t i = Inl f \<and>
            (sw_pending w f \<or> map_of (ss_dirs s') i = None \<or> (\<exists>t f. sw_rmtree w t i = Inl f))))"
proof -
  have "mem_snap.inventory (rows_of s) (snapshots_of s) s" using assms(1) by (simp add: mem_inventory)
  from mem_snap.wpre_create_snapshot [OF this, of env w vm sid stype resume_source policy timeout rate bitmap] assms(2)
  show ?thesis
    by (cases r) (fastforce simp: wpre_def mem_snap.taken_def mem_snap.not_taken_def mem_snap.recorded_def mem_inventory)+
qed

text \<open>Computer \<open>a\<close> runs with a disk of its own; every file operation succeeds and captures succeed.\<close>

definition demo_snap_row :: vm_info where
  "demo_snap_row = (demo_disk_row ''a'' False)\<lparr>vi_status := VM_RUNNING, vi_network := Some demo_tap_network\<rparr>"

definition demo_snap_world :: snap_world where
  "demo_snap_world =
     \<lparr>sw_world = calm_world, sw_disk = demo_disk_env, sw_inside = (\<lambda>_. True), sw_pending = (\<lambda>_. False), sw_now = (\<lambda>_. ''t''), sw_uuid = (\<lambda>_. ''u''),
      sw_lock = (\<lambda>_ _. Inr ()), sw_reconcile = (\<lambda>_ _ _ _ d. (Inr (), d)), sw_mkdir = (\<lambda>_ _. Inr ()), sw_rmtree = (\<lambda>_ _. Inr ()),
      sw_write = (\<lambda>_ _. Inr ()), sw_space = (\<lambda>_. Inr ()),
      sw_capture = (\<lambda>_ _. (Inr \<lparr>sr_artifacts = \<lparr>sa_state_path = None, sa_memory_path = None, sa_disk_path = ''disk''\<rparr>, sr_source_status = VM_PAUSED, sr_captured_at = ''t'', sr_operation_manifest = False,
        sr_artifact_kind = None, sr_virtual_size_bytes = None, sr_changed_bytes = None, sr_bitmap_granularity_bytes = None, sr_bitmap_name = None\<rparr>, None)),
      sw_save_key = (\<lambda>_ _. Inr ()), sw_unlink_manifest = (\<lambda>_. True), sw_disk_folder = (\<lambda>_. Inr ()),
      sw_restore = (\<lambda>_ _ _ _. (Inl (CelestoError ''boot''), Some 7)), sw_unlink = (\<lambda>_ _. Inr ()), sw_replace = (\<lambda>_ _ _. Inr ()), sw_touch = (\<lambda>_ _. Inr ())\<rparr>"

definition demo_snap_state :: "memory_state snap_state" where
  "demo_snap_state =
     \<lparr>ss_mgr = new_manager (mem_init\<lparr>ms_vms := [(''a'', demo_snap_row)]\<rparr>) ''qemu'', ss_dirs = [], ss_disks = [((''/d/disks'', ''a.qcow2''), 1)]\<rparr>"

lemma demo_create_snapshot:
  "(case fst (create_snapshot (mem_ops plain_host) (mem_snap_ops plain_host) demo_snap_world ''a'' (Some ''s'') SNAP_DISK True ALLOW_PAUSE
     (Some 1000) None None demo_snap_state) of Inr x \<Rightarrow> si_snapshot_id x = ''s'' | Inl _ \<Rightarrow> False)"
  by code_simp

theorem create_snapshot_outcome_witness:
  "\<exists>x s'. create_snapshot (mem_ops plain_host) (mem_snap_ops plain_host) demo_snap_world ''a'' (Some ''s'') SNAP_DISK True ALLOW_PAUSE
      (Some 1000) None None demo_snap_state = (Inr x, s') \<and>
     snapshots_of s' = (snapshots_of demo_snap_state)(''s'' \<mapsto> x) \<and> si_vm_config x = vi_config demo_snap_row"
proof -
  obtain r s' where run: "create_snapshot (mem_ops plain_host) (mem_snap_ops plain_host) demo_snap_world ''a'' (Some ''s'') SNAP_DISK True ALLOW_PAUSE
      (Some 1000) None None demo_snap_state = (r, s')" by fastforce
  with demo_create_snapshot obtain x where x: "r = Inr x" "si_snapshot_id x = ''s''" by (cases r) auto
  have "keys_distinct (ms_vms (mg_store (ss_mgr demo_snap_state)))" "rows_of demo_snap_state ''a'' = Some demo_snap_row"
    by (simp_all add: demo_snap_state_def new_manager_def rows_of_def)
  with create_snapshot_outcome [OF _ run] x run show ?thesis by auto
qed



section \<open>Deleting a snapshot\<close>

context snapshot_rows
begin

lemma wpre_remove_dir:
  assumes "inventory R T s"
  shows "wpre (remove_dir w i) (\<lambda>_ s'. inventory R T s' \<and> map_of (ss_dirs s') i = None)
    (\<lambda>e s'. inventory R T s' \<and> (map_of (ss_dirs s') i = None \<or> (\<exists>t. sw_rmtree w t i = Inl e))) s"
  using assms by (auto simp: remove_dir_def wp inventory_def delete_conv' split: sum.split)

lemma wpre_refuse:
  assumes "inventory R T s"
  shows "wpre (refuse_active_restore so msg x)
    (\<lambda>_ s'. inventory R T s' \<and> (\<forall>v row. si_restored x \<and> si_restored_vm_id x = Some v \<and> v \<noteq> [] \<and> R v = Some row \<longrightarrow> \<not> is_live_status (vi_status row)))
    (\<lambda>_ s'. inventory R T s') s"
proof -
  have get: "so_get so (mg_store (ss_mgr s)) v = (case R v of None \<Rightarrow> Inl (VMNotFoundError v) | Some r \<Rightarrow> Inr r)" for v
    using assms get_row [of "mg_store (ss_mgr s)" v] by (auto simp: inventory_def holds_def reg_get_def split: option.split)
  have same: "s\<lparr>ss_mgr := ss_mgr s\<rparr> = s" by simp
  show ?thesis
    using assms by (auto simp: refuse_active_restore_def stored_def wp get same is_vm_missing_def split: option.split)
qed

text \<open>Removing what is known: the directory, then the record.\<close>

lemma wpre_delete_known:
  assumes "inventory R T s"
  shows "wpre (bind (refuse_active_restore so msg x) (\<lambda>_. bind (catch is_not_found (remove_dir w i) (\<lambda>_. ret ())) (\<lambda>_.
      store_step (\<lambda>st. so_delete_snapshot sn st i))))
    (\<lambda>_ s'. T i \<noteq> None \<and> inventory R (T(i := None)) s' \<and> (map_of (ss_dirs s') i = None \<or> (\<exists>t e. sw_rmtree w t i = Inl e \<and> is_not_found e)) \<and>
       (\<forall>v row. si_restored x \<and> si_restored_vm_id x = Some v \<and> v \<noteq> [] \<and> R v = Some row \<longrightarrow> \<not> is_live_status (vi_status row)))
    (\<lambda>_ s'. inventory R T s') s"
proof -
  have del: "wpre (store_step (\<lambda>st. so_delete_snapshot sn st i))
      (\<lambda>_ s'. T i \<noteq> None \<and> inventory R (T(i := None)) s' \<and> ss_dirs s' = ss_dirs s1) (\<lambda>_. inventory R T) s1" if "inventory R T s1" for s1
    using that delete_snapshot [of "mg_store (ss_mgr s1)" i]
    by (auto simp: store_step_def wp inventory_def holds_def split: prod.split sum.split if_splits)
  have dir: "wpre (catch is_not_found (remove_dir w i) (\<lambda>_. ret ()))
      (\<lambda>_ s'. inventory R T s' \<and> (map_of (ss_dirs s') i = None \<or> (\<exists>t e. sw_rmtree w t i = Inl e \<and> is_not_found e))) (\<lambda>_. inventory R T) s1"
    if "inventory R T s1" for s1
    unfolding wpre_catch by (rule wpre_mono [OF wpre_remove_dir [OF that]]) (auto simp: wpre_basic)
  show ?thesis
    unfolding wpre_bind
    apply (rule wpre_mono [OF wpre_refuse [OF assms]])
     apply (rule wpre_mono [OF dir])
       apply blast
      apply (rule wpre_mono [OF del])
        apply blast+
       apply auto
    done
qed

end

context snapshot_rows
begin

lemma wpre_get_snapshot:
  assumes "inventory R T s"
  shows "wpre (get_snapshot sn w i)
    (\<lambda>x s'. if T i \<noteq> None then T i = Some x \<and> inventory R T s' else inventory R T s' \<or> inventory R (T(si_snapshot_id x \<mapsto> x)) s')
    (\<lambda>_ s'. T i = None \<and> inventory R T s') s"
proof (cases "T i")
  case (Some x)
  then show ?thesis
    using assms get_snapshot [of "mg_store (ss_mgr s)" i] by (simp add: get_snapshot_def stored_def wp inventory_def holds_def)
next
  case None
  have missing: "so_get_snapshot sn (mg_store (ss_mgr s)) i = Inl (SnapshotNotFoundError i)"
    using assms None get_snapshot [of "mg_store (ss_mgr s)" i] by (simp add: inventory_def holds_def)
  have adopt: "wpre (catch is_snapshot_taken (bind (store_step (\<lambda>st. so_create_snapshot sn st x)) (\<lambda>_. ret ())) (\<lambda>_. ret ()))
      (\<lambda>_ s'. inventory R T s' \<or> inventory R (T(si_snapshot_id x \<mapsto> x)) s') (\<lambda>_. inventory R T) s" for x
    using assms create_snapshot [of "mg_store (ss_mgr s)" x]
    by (auto simp: store_step_def wp inventory_def holds_def is_snapshot_taken_def split: prod.split sum.split if_splits)
  have read: "wpre (read_snapshot_manifest w i) (\<lambda>_ s'. s' = s) (\<lambda>_ s'. s' = s) s"
    by (auto simp: read_snapshot_manifest_def snapshot_root_for_id_def wp split: option.split manifest.split)
  have same: "s\<lparr>ss_mgr := ss_mgr s\<rparr> = s" by simp
  have rest: "wpre (bind (read_snapshot_manifest w i) (\<lambda>x. bind (catch is_snapshot_taken (bind (store_step (\<lambda>st. so_create_snapshot sn st x)) (\<lambda>_. ret ())) (\<lambda>_. ret ())) (\<lambda>_. ret x)))
      (\<lambda>x s'. inventory R T s' \<or> inventory R (T(si_snapshot_id x \<mapsto> x)) s') (\<lambda>_. inventory R T) s"
    unfolding wpre_bind [of "read_snapshot_manifest _ _"]
  proof (rule wpre_mono [OF read], goal_cases)
    case (1 x s')
    then show ?case unfolding wpre_bind [of "catch _ _ _"] by (simp only:) (rule wpre_mono [OF adopt], auto simp: wpre_basic)
  qed (use assms in simp)
  show ?thesis
    using None rest by (simp add: get_snapshot_def stored_def wpre_catch wpre_mgr wpre_from_store missing is_snapshot_missing_def same)
qed

lemma wpre_delete_adopted:
  assumes "inventory R T s"
  shows "wpre (delete_adopted w i e) (\<lambda>_ s'. inventory R T s' \<and> map_of (ss_dirs s') i = None) (\<lambda>_. inventory R T) s"
proof -
  have "wpre (remove_dir w i) (\<lambda>_ s'. inventory R T s' \<and> map_of (ss_dirs s') i = None) (\<lambda>_. inventory R T) s"
    by (rule wpre_mono [OF wpre_remove_dir [OF assms]]) auto
  then show ?thesis using assms by (auto simp: delete_adopted_def wp split: option.split)
qed

definition deleted :: "snap_world \<Rightarrow> registry \<Rightarrow> (string \<Rightarrow> snapshot_info option) \<Rightarrow> string \<Rightarrow> 's snap_state \<Rightarrow> bool" where
  "deleted w R T i s \<longleftrightarrow> inventory R (T(i := None)) s \<and>
     (map_of (ss_dirs s) i = None \<or> (\<exists>t e. sw_rmtree w t i = Inl e \<and> is_not_found e)) \<and>
     (\<forall>x v row. T i = Some x \<and> si_restored x \<and> si_restored_vm_id x = Some v \<and> v \<noteq> [] \<and> R v = Some row \<longrightarrow> \<not> is_live_status (vi_status row))"

definition not_deleted :: "registry \<Rightarrow> (string \<Rightarrow> snapshot_info option) \<Rightarrow> string \<Rightarrow> 's snap_state \<Rightarrow> bool" where
  "not_deleted R T i s \<longleftrightarrow> inventory R T s \<or> T i = None \<and> (\<exists>x. inventory R (T(si_snapshot_id x \<mapsto> x)) s)"

lemma wpre_delete_snapshot:
  assumes "inventory R T s"
  shows "wpre (delete_snapshot so sn w i) (\<lambda>_. deleted w R T i) (\<lambda>_. not_deleted R T i) s"
proof -
  let ?Known = "\<lambda>x s'. if T i \<noteq> None then T i = Some x \<and> inventory R T s' else inventory R T s' \<or> inventory R (T(si_snapshot_id x \<mapsto> x)) s'"
  have known: "wpre (bind (refuse_active_restore so msg x) (\<lambda>_. bind (catch is_not_found (remove_dir w i) (\<lambda>_. ret ())) (\<lambda>_.
      store_step (\<lambda>st. so_delete_snapshot sn st i)))) (\<lambda>_. deleted w R T i) (\<lambda>_. not_deleted R T i) s1" if "?Known x s1" for msg x s1
  proof -
    obtain T' where T': "inventory R T' s1" "T' = T \<and> (T i = None \<or> T i = Some x) \<or> T i = None \<and> T' = T(si_snapshot_id x \<mapsto> x)"
      using \<open>?Known x s1\<close> by (auto split: if_splits)
    show ?thesis
      by (rule wpre_mono [OF wpre_delete_known [OF T'(1)]]) (use T'(2) in \<open>auto simp: deleted_def not_deleted_def fun_upd_idem split: if_splits\<close>)
  qed
  have find: "wpre (catch is_snapshot_missing (bind (get_snapshot sn w i) (\<lambda>x. ret (Some x))) (\<lambda>e. bind (delete_adopted w i e) (\<lambda>_. ret None)))
      (\<lambda>r s'. case r of None \<Rightarrow> T i = None \<and> inventory R T s' \<and> map_of (ss_dirs s') i = None | Some x \<Rightarrow> ?Known x s') (\<lambda>_. inventory R T) s1" if "inventory R T s1" for s1
    unfolding wpre_catch wpre_bind
    by (rule wpre_mono [OF wpre_get_snapshot [OF that]])
      (use wpre_delete_adopted in \<open>auto simp: wpre_basic elim!: wpre_mono intro!: wpre_mono [OF wpre_delete_adopted] split: if_splits\<close>)
  show ?thesis
    unfolding delete_snapshot_def
  proof (subst wpre_bind, rule wpre_still [OF still_dirs(3) assms], goal_cases)
    case (1 u s1)
    show ?case
    proof (subst wpre_bind, rule wpre_mono [OF find [OF 1]], goal_cases)
      case (1 r s2)
      then show ?case using known by (cases r) (auto simp: wpre_basic deleted_def fun_upd_idem)
    qed (simp add: not_deleted_def)
  qed (simp add: not_deleted_def)
qed

end


definition demo_saved :: snapshot_info where
  "demo_saved = \<lparr>si_snapshot_id = ''s'', si_vm_id = ''a'', si_backend = ''qemu'',
     si_artifacts = \<lparr>sa_state_path = None, sa_memory_path = None, sa_disk_path = ''disk''\<rparr>, si_vm_config = vi_config demo_snap_row,
     si_network_config = demo_tap_network, si_created_at = ''t'', si_snapshot_type = SNAP_DISK, si_artifact_kind = None,
     si_virtual_size_bytes = None, si_changed_bytes = None, si_bitmap_granularity_bytes = None,
     si_bitmap_name = None, si_restored = False, si_restored_vm_id = None\<rparr>"

definition demo_delete_state :: "memory_state snap_state" where
  "demo_delete_state = demo_snap_state\<lparr>ss_dirs := [(''s'', \<lparr>sd_manifest = NO_MANIFEST, sd_live = None\<rparr>)],
     ss_mgr := new_manager (mem_init\<lparr>ms_vms := [(''a'', demo_snap_row)], ms_snapshots := [(''s'', demo_saved)]\<rparr>) ''qemu''\<rparr>"

lemma demo_delete_snapshot:
  "fst (delete_snapshot (mem_ops plain_host) (mem_snap_ops plain_host) demo_snap_world ''s'' demo_delete_state) = Inr ()"
  by code_simp


end
