(* ===== verification/Restore_Props.thy ===== *)
theory Restore_Props
  imports Snapshot_Props
begin

text \<open>
  What a restore does to the disk of a QEMU computer. The adapter writes a staging file beside the disk, the old disk is set aside under a
  backup name, and the staging file takes its place last; an exception undoes this. The state of the disks during a restore is described by
  \<open>overlaid\<close>: the contents from before with at most three names replaced. The lemmas hold for every state manager.
\<close>

section \<open>Files\<close>

text \<open>Removing and renaming files works.\<close>

definition files_obey :: "snap_world \<Rightarrow> bool" where
  "files_obey w \<longleftrightarrow> (\<forall>t l. sw_unlink w t l = Inr ()) \<and> (\<forall>t l l'. sw_replace w t l l' = Inr ())"

lemma files_obeyD: "files_obey w \<Longrightarrow> sw_unlink w t l = Inr ()" "files_obey w \<Longrightarrow> sw_replace w t l l' = Inr ()"
  unfolding files_obey_def by blast+

lemma content_eq: "content s = map_of (ss_disks s)"
  by (simp add: content_def fun_eq_iff)

lemma unlink_content:
  assumes "files_obey w" "content s l \<noteq> None" "\<And>s'. content s' = (content s)(l := None) \<Longrightarrow> Q () s'"
  shows "wpre (unlink_disk w l) Q R s"
  using assms(2) assms(3) [of "s\<lparr>ss_mgr := (ss_mgr s)\<lparr>mg_clock := mg_clock (ss_mgr s) + 1\<rparr>, ss_disks := AList.delete l (ss_disks s)\<rparr>"]
  by (auto simp: unlink_disk_def wp files_obeyD [OF assms(1)] content_eq delete_conv')

lemma replace_content:
  assumes "files_obey w" "content s l = Some c" "\<And>s'. content s' = (content s)(l := None, l' := Some c) \<Longrightarrow> Q () s'"
  shows "wpre (replace_disk w l l') Q R s"
  using assms(2)
    assms(3) [of "s\<lparr>ss_mgr := (ss_mgr s)\<lparr>mg_clock := mg_clock (ss_mgr s) + 1\<rparr>, ss_disks := AList.update l' c (AList.delete l (ss_disks s))\<rparr>"]
  by (simp add: replace_disk_def wp files_obeyD [OF assms(1)] content_eq delete_conv' update_conv')

lemma keeps_content_mgr [keep]: "keeps (\<lambda>s. P (content s)) (mgr f)"
  by (rule keeps_mgr) (auto simp: content_eq keeps_def wpre_def split: prod.split sum.split)

lemma keeps_content_stored [keep]:
  "keeps (\<lambda>s. P (content s)) (stored f)" "keeps (\<lambda>s. P (content s)) (store_step g)"
  unfolding stored_def store_step_def by (rule keeps_content_mgr)+

lemma wpre_keeps:
  assumes "keeps I m" "I s" "\<And>x s'. I s' \<Longrightarrow> Q x s'" "\<And>e s'. I s' \<Longrightarrow> R e s'"
  shows "wpre m Q R s"
  by (rule wpre_mono [OF keepsD [OF assms(1,2)]]) (rule assms(3,4), assumption)+

section \<open>The disks during a restore\<close>

text \<open>The staging file of a plan is a new name beside the disk, and the computer has a row.\<close>

definition separate :: "(location \<Rightarrow> nat option) \<Rightarrow> restore_plan \<Rightarrow> bool" where
  "separate D plan \<longleftrightarrow> pl_existing plan \<noteq> None \<and> plain_name (snd (pl_staging plan)) \<and>
     (\<exists>u. pl_staging plan = (fst (pl_disk plan), snd (pl_disk plan) @ ''.restore-'' @ u)) \<and>
     (\<forall>l. D l \<noteq> None \<longrightarrow> \<not> starts_with (snd (pl_staging plan)) (snd l))"

definition written_by :: "snap_world \<Rightarrow> restore_plan \<Rightarrow> nat option \<Rightarrow> bool" where
  "written_by w plan z \<longleftrightarrow> z = None \<or> (\<exists>t. snd (sw_restore w t (pl_snapshot plan) (pl_staging plan) (pl_resume plan)) = z)"

definition is_backup :: "restore_plan \<Rightarrow> location \<Rightarrow> bool" where
  "is_backup plan b \<longleftrightarrow> (\<exists>u. b = (fst (pl_disk plan), snd (pl_disk plan) @ ''.backup-'' @ u))"

definition overlaid :: "snap_world \<Rightarrow> (location \<Rightarrow> nat option) \<Rightarrow> restore_plan \<Rightarrow> restore_progress \<Rightarrow> (location \<Rightarrow> nat option) \<Rightarrow> bool" where
  "overlaid w D plan p m \<longleftrightarrow> \<not> rp_created p \<and> (\<exists>z. written_by w plan z \<and>
     (case rp_backup p of
        Some b \<Rightarrow> \<not> rp_placeholder p \<and> is_backup plan b \<and> D b = None \<and>
          (\<exists>a c. D (pl_disk plan) = Some c \<and> m = D(pl_disk plan := a, pl_staging plan := z, b := Some c))
      | None \<Rightarrow> if rp_placeholder p then D (pl_disk plan) = None \<and> (\<exists>a. m = D(pl_disk plan := a, pl_staging plan := z))
                else m = D(pl_staging plan := z)))"

lemma separateD:
  assumes "separate D plan"
  shows "pl_staging plan \<noteq> pl_disk plan" "is_backup plan b \<Longrightarrow> b \<noteq> pl_disk plan \<and> b \<noteq> pl_staging plan" "D (pl_staging plan) = None"
    "\<exists>e. pl_existing plan = Some e"
proof -
  obtain u where u: "pl_staging plan = (fst (pl_disk plan), snd (pl_disk plan) @ ''.restore-'' @ u)" using assms by (auto simp: separate_def)
  then show "pl_staging plan \<noteq> pl_disk plan" by (metis append_self_conv list.distinct(1) snd_conv append_Cons append_is_Nil_conv)
  show "is_backup plan b \<Longrightarrow> b \<noteq> pl_disk plan \<and> b \<noteq> pl_staging plan" using u by (cases "pl_disk plan") (auto simp: is_backup_def)
  have "starts_with (snd (pl_staging plan)) (snd (pl_staging plan))" unfolding starts_with_iff by blast
  then show "D (pl_staging plan) = None" using assms unfolding separate_def by blast
  show "\<exists>e. pl_existing plan = Some e" using assms by (auto simp: separate_def)
qed

text \<open>Nothing that is on disk is taken for a sidecar of the staging file.\<close>

lemma no_staging_sidecars:
  assumes "separate D plan" "overlaid w D plan p m" "content s = m(pl_staging plan := None)"
  shows "staging_sidecars (ss_disks s) (pl_staging plan) = []"
proof -
  let ?g = "pl_staging plan"
  obtain v where v: "?g = (fst (pl_disk plan), snd (pl_disk plan) @ ''.restore-'' @ v)" and plain: "plain_name (snd ?g)"
    using assms(1) by (auto simp: separate_def)
  have "\<not> glob_match (snd ?g @ ''.backing-*'') (snd l)" if "(l, c) \<in> set (ss_disks s)" for l c
  proof
    assume "glob_match (snd ?g @ ''.backing-*'') (snd l)"
    then obtain u where u: "snd l = snd ?g @ ''.backing-'' @ u"
      using glob_plain [OF plain, of "''.backing-*''"] glob_plain [of "''.backing-''" "''*''"] by (auto simp: plain_name_def)
    then have "starts_with (snd ?g) (snd l)" "l \<noteq> pl_disk plan" "l \<noteq> ?g" "\<not> is_backup plan l"
      using v by (auto simp: starts_with_iff is_backup_def)
    moreover have "content s l \<noteq> None" using weak_map_of_SomeI [OF that] by (auto simp: content_def)
    then have "D l \<noteq> None \<or> l = pl_disk plan \<or> is_backup plan l"
      using assms(2,3) by (auto simp: overlaid_def split: option.splits if_splits)
    ultimately show False using assms(1) unfolding separate_def by blast
  qed
  then have "filter (glob_match (snd ?g @ ''.backing-*'')) (map (snd \<circ> fst) (filter (\<lambda>f. fst (fst f) = fst ?g) (ss_disks s))) = []"
    unfolding filter_empty_conv by fastforce
  then show ?thesis by (simp add: staging_sidecars_def)
qed

section \<open>Undoing\<close>

lemma wpre_remove_staging:
  assumes "files_obey w" "pl_staging plan \<noteq> pl_disk plan" "\<And>s'. content s' = (content s)(pl_staging plan := None) \<Longrightarrow> Q () s'"
  shows "wpre (remove_staging w plan) Q R s"
proof (cases "content s (pl_staging plan)")
  case None
  then have "Q () s" by (intro assms(3)) (auto simp: fun_eq_iff)
  then show ?thesis using assms(2) None by (simp add: remove_staging_def wp)
next
  case (Some c)
  then have "wpre (unlink_disk w (pl_staging plan)) Q R s" by (intro unlink_content assms) simp_all
  then show ?thesis using assms(2) Some by (simp add: remove_staging_def wp)
qed

lemma undo_disk_restores:
  assumes files: "files_obey w" and sep: "separate D plan" and over: "overlaid w D plan p (content s)"
  shows "wpre (undo_disk w plan p) (\<lambda>_ s'. content s' = D) R s"
proof -
  let ?d = "pl_disk plan" and ?g = "pl_staging plan"
  note g = separateD [OF sep]
  have rest: "wpre (bind (unless (\<not> (rp_placeholder p \<and> content s1 ?d \<noteq> None)) (suppress (unlink_disk w ?d))) (\<lambda>_.
     case rp_backup p of
       None \<Rightarrow> ret ()
     | Some b \<Rightarrow>
         bind (gets (\<lambda>s. content s b \<noteq> None)) (\<lambda>saved.
           unless (\<not> saved)
             (suppress (bind (gets (\<lambda>s. content s ?d \<noteq> None)) (\<lambda>there.
                bind (unless (\<not> there) (unlink_disk w ?d)) (\<lambda>_. replace_disk w b ?d)))))))
      (\<lambda>_ s'. content s' = D) R s1" if s1: "content s1 = (content s)(?g := None)" for s1
  proof (cases "rp_backup p")
    case None
    show ?thesis
    proof (cases "rp_placeholder p")
      case True
      then obtain a where a: "D ?d = None" "content s1 = D(?d := a)"
        using over None s1 g(1,3) by (auto simp: overlaid_def fun_upd_twist [of ?d ?g] fun_upd_idem)
      then have "D = (content s1)(?d := None)" by (simp add: fun_upd_idem)
      then show ?thesis using True None a by (cases a) (auto simp: wp fun_upd_idem intro!: unlink_content [OF files])
    next
      case False
      then have "content s1 = D" using over None s1 g(3) by (auto simp: overlaid_def fun_upd_idem)
      then show ?thesis using False None by (simp add: wp)
    qed
  next
    case (Some b)
    then obtain a c z where b: "\<not> rp_placeholder p" "is_backup plan b" "D b = None" "D ?d = Some c" "content s = D(?d := a, ?g := z, b := Some c)"
      using over by (auto simp: overlaid_def)
    note bd = g(2) [OF b(2), THEN conjunct1] g(2) [OF b(2), THEN conjunct2]
    have now: "content s1 = D(?d := a, b := Some c)"
      unfolding s1 b(5) using g(1,3) bd by (intro ext) simp
    have same: "D(b := None, ?d := Some c) = D" using b(3,4) bd by (intro ext) simp
    have undone: "wpre (replace_disk w b ?d) (\<lambda>_ s'. content s' = D) R' s2" if "content s2 = D(?d := a', b := Some c)" for s2 a' R'
      by (rule replace_content [OF files, of _ _ c]) (simp_all add: that same)
    have twist: "D(?d := a', b := Some c, ?d := None) = D(?d := None, b := Some c)" for a' using bd by (intro ext) simp
    have "wpre (bind (unless (content s1 ?d = None) (unlink_disk w ?d)) (\<lambda>_. replace_disk w b ?d)) (\<lambda>_ s'. content s' = D) R' s1" for R'
      using bd by (cases a) (auto simp: wp now twist intro!: undone unlink_content [OF files])
    then show ?thesis using Some b(1) bd by (simp add: wp now)
  qed
  show ?thesis
    unfolding undo_disk_def wpre_bind wpre_suppress
  proof (rule wpre_remove_staging [OF files g(1)], goal_cases)
    case (1 s1)
    then show ?case using rest [OF 1] no_staging_sidecars [OF sep over 1] by (simp only: wpre_basic for_each.simps wpre_bind)
  qed
qed

lemma undo_restore_restores:
  assumes "files_obey w" "separate D plan" "overlaid w D plan p (content s)"
  shows "wpre (undo_restore so w plan p) (\<lambda>_ s'. content s' = D) (\<lambda>e _. \<not> is_exception e) s"
proof -
  let ?I = "\<lambda>s'. overlaid w D plan p (content s')"
  have quiet: "wpre (suppress m) (\<lambda>_. ?I) (\<lambda>e _. \<not> is_exception e) s1" if "keeps ?I m" "?I s1" for m :: "('a, unit) sop" and s1
    unfolding wpre_suppress by (rule wpre_keeps [OF that]) auto
  have stop: "wpre (case rp_launch p of None \<Rightarrow> ret () | Some l \<Rightarrow> suppress (mgr (adapter_stop (sw_world w) (launched_vm plan l))))
      (\<lambda>_. ?I) (\<lambda>e _. \<not> is_exception e) s"
    using assms(3) by (cases "rp_launch p") (auto simp: wpre_basic intro!: quiet keep)
  have row: "wpre (undo_row so w plan p) (\<lambda>_. ?I) (\<lambda>e _. \<not> is_exception e) s1" if "?I s1" for s1
  proof -
    obtain e where "pl_existing plan = Some e" using separateD(4) [OF assms(2)] by blast
    moreover have "\<not> rp_created p" using that by (simp add: overlaid_def)
    ultimately show ?thesis unfolding undo_row_def using that by (auto intro!: quiet keep)
  qed
  show ?thesis
    unfolding undo_restore_def wpre_bind
    by (rule wpre_mono [OF stop], rule wpre_mono [OF row])
      (use undo_disk_restores [OF assms(1,2)] in auto)
qed

lemma wpre_undoing:
  fixes so :: "'s vm_store"
  assumes "files_obey w" "separate D plan" "wpre body Q (\<lambda>e s'. is_exception e \<longrightarrow> overlaid w D plan p (content s')) s"
  shows "wpre (undoing so w plan p body) Q (\<lambda>e s'. is_exception e \<longrightarrow> content s' = D) s"
  unfolding undoing_def wpre_catch
proof (rule wpre_mono [OF assms(3)])
  fix e and s1 :: "'s snap_state" assume e: "is_exception e \<longrightarrow> overlaid w D plan p (content s1)"
  then have "wpre (undo_restore so w plan p) (\<lambda>_ s'. content s' = D) (\<lambda>e _. \<not> is_exception e) s1" if "is_exception e"
    using undo_restore_restores [OF assms(1,2)] that by blast
  then show "if is_exception e then wpre (bind (undo_restore so w plan p) (\<lambda>_. raise e)) Q (\<lambda>e s'. is_exception e \<longrightarrow> content s' = D) s1
      else is_exception e \<longrightarrow> content s1 = D"
    by (auto simp: wpre_bind wpre_basic elim!: wpre_mono)
qed simp

section \<open>The phases of a restore\<close>

text \<open>The disk has been set aside, or there was none.\<close>

definition prepared :: "restore_plan \<Rightarrow> restore_progress \<Rightarrow> bool" where
  "prepared plan p \<longleftrightarrow> (rp_backup p \<noteq> None \<or> rp_placeholder p) \<and> pl_disk plan \<notin> set (rp_sidecars p)"

lemma sidecars_not_disk:
  assumes "managed_disk_backing_sidecars env fs disk = Inr cs"
  shows "disk \<notin> set cs"
proof
  assume "disk \<in> set cs"
  then have "starts_with (snd disk @ ''.'') (snd disk)"
    using assms by (auto simp: managed_disk_backing_sidecars_def result_iff dest!: sidecars_loop_serve intro: sidecar_serves)
  then show False by (auto simp: starts_with_iff)
qed

lemma overlaid_new_disk:
  assumes "separate D plan" "prepared plan p" "overlaid w D plan p m"
  shows "overlaid w D plan p (m(pl_disk plan := a))"
proof (cases "rp_backup p")
  case None
  have "D(pl_disk plan := a', pl_staging plan := z, pl_disk plan := a) = D(pl_disk plan := a, pl_staging plan := z)" for a' z
    using separateD(1) [OF assms(1)] by (intro ext) simp
  then show ?thesis using assms(2,3) None by (fastforce simp: overlaid_def prepared_def)
next
  case (Some b)
  then obtain z a' c where b: "is_backup plan b" "D b = None" "D (pl_disk plan) = Some c" "written_by w plan z" "\<not> rp_created p" "\<not> rp_placeholder p"
    "m = D(pl_disk plan := a', pl_staging plan := z, b := Some c)"
    using assms(3) by (auto simp: overlaid_def)
  have "m(pl_disk plan := a) = D(pl_disk plan := a, pl_staging plan := z, b := Some c)"
    unfolding b(7) using separateD(1,2) [OF assms(1)] b(1) by (intro ext) auto
  then show ?thesis using Some b by (auto simp: overlaid_def)
qed

lemma overlaid_new_staging:
  assumes "separate D plan" "overlaid w D plan p m" "written_by w plan z"
  shows "overlaid w D plan p (m(pl_staging plan := z))"
proof (cases "rp_backup p")
  case None
  then have "\<not> rp_created p" using assms(2) by (simp add: overlaid_def)
  then show ?thesis using None assms(2,3) by (cases "rp_placeholder p") (fastforce simp: overlaid_def)+
next
  case (Some b)
  then obtain z' a c where b: "is_backup plan b" "D b = None" "D (pl_disk plan) = Some c" "\<not> rp_created p" "\<not> rp_placeholder p"
    "m = D(pl_disk plan := a, pl_staging plan := z', b := Some c)"
    using assms(2) by (auto simp: overlaid_def)
  have "m(pl_staging plan := z) = D(pl_disk plan := a, pl_staging plan := z, b := Some c)"
    unfolding b(6) using separateD(2) [OF assms(1) b(1)] by (intro ext) auto
  then show ?thesis using Some b assms(3) by (auto simp: overlaid_def)
qed

lemma overlaid_start: "separate D plan \<Longrightarrow> overlaid w D plan no_progress D"
  by (auto simp: overlaid_def no_progress_def written_by_def separateD(3) fun_upd_idem intro!: exI [of _ None])

lemma overlaid_launch [simp]: "overlaid w D plan (p\<lparr>rp_launch := l\<rparr>) m = overlaid w D plan p m"
  by (cases "rp_backup p") (simp_all add: overlaid_def)

text \<open>Names with the identifier of a restore are new.\<close>

definition fresh_backups :: "snap_world \<Rightarrow> (location \<Rightarrow> nat option) \<Rightarrow> restore_plan \<Rightarrow> bool" where
  "fresh_backups w D plan \<longleftrightarrow> (\<forall>t. D (fst (pl_disk plan), snd (pl_disk plan) @ ''.backup-'' @ sw_uuid w t) = None)"

lemma wpre_set_aside:
  assumes "files_obey w" "separate D plan" "fresh_backups w D plan" "content s = D"
  shows "wpre (set_aside w plan) (\<lambda>p s'. overlaid w D plan p (content s') \<and> prepared plan p) (\<lambda>_ s'. content s' = D) s"
proof (cases "D (pl_disk plan)")
  case None
  then have "overlaid w D plan (no_progress\<lparr>rp_placeholder := True\<rparr>) D"
    using separateD(3) [OF assms(2)] by (auto simp: overlaid_def no_progress_def written_by_def fun_upd_idem intro!: exI [of _ None])
  then show ?thesis using None assms(4) by (simp add: set_aside_def wp prepared_def no_progress_def)
next
  case (Some c)
  show ?thesis
  proof (cases "managed_disk_backing_sidecars (sw_disk w) (disk_entries (ss_disks s)) (pl_disk plan)")
    case (Inl e)
    then show ?thesis using Some assms(4) by (simp add: set_aside_def wp)
  next
    case (Inr cs)
    define b where "b = (fst (pl_disk plan), snd (pl_disk plan) @ ''.backup-'' @ sw_uuid w (mg_clock (ss_mgr s)))"
    have b: "is_backup plan b" "D b = None" using assms(3) by (auto simp: b_def is_backup_def fresh_backups_def)
    have "D(pl_disk plan := None, b := Some c) = D(pl_disk plan := None, pl_staging plan := None, b := Some c)"
      using separateD(3) [OF assms(2)] by (auto simp: fun_upd_idem fun_upd_twist)
    then have "overlaid w D plan (no_progress\<lparr>rp_backup := Some b, rp_sidecars := cs\<rparr>) (D(pl_disk plan := None, b := Some c))"
      using b Some unfolding overlaid_def no_progress_def written_by_def by auto
    moreover have "prepared plan (no_progress\<lparr>rp_backup := Some b, rp_sidecars := cs\<rparr>)"
      using sidecars_not_disk [OF Inr] by (simp add: prepared_def no_progress_def)
    ultimately have moved: "wpre (replace_disk w (pl_disk plan) b)
        (\<lambda>_. wpre (ret (no_progress\<lparr>rp_backup := Some b, rp_sidecars := cs\<rparr>)) (\<lambda>p s'. overlaid w D plan p (content s') \<and> prepared plan p) R) R
        (s\<lparr>ss_mgr := (ss_mgr s)\<lparr>mg_clock := mg_clock (ss_mgr s) + 1\<rparr>\<rparr>)" for R
      using assms(4) Some by (intro replace_content [OF assms(1), of _ _ c]) (simp_all add: content_eq wpre_basic)
    have there: "(content s (pl_disk plan) \<noteq> None) = True" using Some assms(4) by simp
    show ?thesis
      by (simp only: set_aside_def wpre_bind wpre_basic prod.case there if_True wpre_lift Inr sum.case wpre_mgr wpre_ask Let_def b_def [symmetric] moved)
  qed
qed

lemma keeps_resources:
  fixes so :: "'s vm_store"
  shows "keeps (\<lambda>s. P (content s)) (restore_resources so sn w plan)"
  unfolding restore_resources_def Let_def by (intro keep)

lemma wpre_touch:
  assumes "separate D plan" "prepared plan p" "overlaid w D plan p (content s)"
  shows "wpre (touch_disk w (pl_disk plan)) (\<lambda>_ s'. overlaid w D plan p (content s')) (\<lambda>_ s'. overlaid w D plan p (content s')) s"
  using assms(3) overlaid_new_disk [OF assms, of "Some 0"]
  by (auto simp: touch_disk_def wp content_eq update_conv' split: sum.split)

lemma wpre_launch_restored:
  assumes "separate D plan" "overlaid w D plan p (content s)"
  shows "wpre (launch_restored w plan p) (\<lambda>p' s'. overlaid w D plan p (content s') \<and> (\<exists>l. p' = p\<lparr>rp_launch := Some l\<rparr>))
    (\<lambda>_ s'. overlaid w D plan p (content s')) s"
proof -
  let ?t = "mg_clock (ss_mgr s)"
  obtain r z where rz: "sw_restore w ?t (pl_snapshot plan) (pl_staging plan) (pl_resume plan) = (r, z)" by fastforce
  have "overlaid w D plan p (case z of None \<Rightarrow> content s | Some c \<Rightarrow> (content s)(pl_staging plan := Some c))"
    using assms overlaid_new_staging [OF assms, of z] exI [of "\<lambda>t. snd (sw_restore w t (pl_snapshot plan) (pl_staging plan) (pl_resume plan)) = z" ?t] rz
    by (cases z) (auto simp: written_by_def)
  then show ?thesis
    using rz by (cases z; cases r) (auto simp: launch_restored_def wpre_def mgr_def run Let_def content_eq update_conv')
qed

text \<open>What a completed restore leaves on disk: the image that the adapter wrote, and no file changed but removed ones.\<close>

definition installed :: "snap_world \<Rightarrow> (location \<Rightarrow> nat option) \<Rightarrow> restore_plan \<Rightarrow> (location \<Rightarrow> nat option) \<Rightarrow> bool" where
  "installed w D plan m \<longleftrightarrow>
     (\<exists>t c. snd (sw_restore w t (pl_snapshot plan) (pl_staging plan) (pl_resume plan)) = Some c \<and> m (pl_disk plan) = Some c) \<and>
     (\<forall>l. l \<noteq> pl_disk plan \<longrightarrow> m l = D l \<or> m l = None)"

lemma installed_unlink: "installed w D plan m \<Longrightarrow> l \<noteq> pl_disk plan \<Longrightarrow> installed w D plan (m(l := None))"
  unfolding installed_def by auto

lemma wpre_drop:
  assumes "files_obey w" "l \<noteq> pl_disk plan" "installed w D plan (content s)"
  shows "wpre (suppress (unlink_disk w l)) (\<lambda>_ s'. installed w D plan (content s')) R s"
proof (cases "content s l")
  case None
  then show ?thesis using assms(3) by (auto simp: unlink_disk_def wp is_exception_def)
next
  case (Some c)
  then show ?thesis unfolding wpre_suppress
    by (intro unlink_content [OF assms(1)]) (use assms(3) installed_unlink [OF _ assms(2)] in auto)
qed

lemma wpre_drops:
  assumes "files_obey w" "pl_disk plan \<notin> set cs" "installed w D plan (content s)"
  shows "wpre (for_each (\<lambda>c. suppress (unlink_disk w c)) cs) (\<lambda>_ s'. installed w D plan (content s')) R s"
  using assms(2,3)
proof (induction cs arbitrary: s)
  case (Cons c cs)
  show ?case unfolding for_each.simps wpre_bind
    by (rule wpre_mono [OF wpre_drop [OF assms(1), of c plan D s "\<lambda>_ _. False"]]) (use Cons in auto)
qed (simp add: wpre_basic)

lemma overlaid_moved:
  assumes sep: "separate D plan" and prep: "prepared plan p" and over: "overlaid w D plan p m" and c: "m (pl_staging plan) = Some c"
  shows "overlaid w D plan p (m(pl_staging plan := None, pl_disk plan := Some c))"
    and "rp_backup p = None \<Longrightarrow> installed w D plan (m(pl_staging plan := None, pl_disk plan := Some c))"
    and "rp_backup p = Some b \<Longrightarrow> (m(pl_staging plan := None, pl_disk plan := Some c)) b \<noteq> None \<and>
      installed w D plan (m(pl_staging plan := None, pl_disk plan := Some c, b := None))"
proof -
  have "written_by w plan None" by (simp add: written_by_def)
  then show "overlaid w D plan p (m(pl_staging plan := None, pl_disk plan := Some c))"
    by (intro overlaid_new_disk overlaid_new_staging sep prep over)
  have inst: "installed w D plan (D(pl_disk plan := Some c))" if "written_by w plan (Some c)"
    using that unfolding installed_def written_by_def by auto
  show "installed w D plan (m(pl_staging plan := None, pl_disk plan := Some c))" if b: "rp_backup p = None"
  proof -
    obtain a where m: "m = D(pl_disk plan := a, pl_staging plan := Some c)" "written_by w plan (Some c)"
      using over prep b c by (auto simp: overlaid_def prepared_def)
    have "m(pl_staging plan := None, pl_disk plan := Some c) = D(pl_disk plan := Some c)"
      unfolding m(1) using separateD(1,3) [OF sep] by (intro ext) auto
    then show ?thesis using inst [OF m(2)] by simp
  qed
  show "(m(pl_staging plan := None, pl_disk plan := Some c)) b \<noteq> None \<and>
      installed w D plan (m(pl_staging plan := None, pl_disk plan := Some c, b := None))" if b: "rp_backup p = Some b"
  proof -
    obtain a z c0 where m: "m = D(pl_disk plan := a, pl_staging plan := z, b := Some c0)" "written_by w plan z" "is_backup plan b" "D b = None"
      using over b by (auto simp: overlaid_def)
    note bd = separateD(2) [OF sep m(3), THEN conjunct1] separateD(2) [OF sep m(3), THEN conjunct2]
    have "m(pl_staging plan := None, pl_disk plan := Some c, b := None) = D(pl_disk plan := Some c)"
      unfolding m(1) using separateD(1,3) [OF sep] m(4) bd by (intro ext) auto
    moreover have "z = Some c" using c bd unfolding m(1) by simp
    ultimately show ?thesis using inst m(1,2) bd by simp
  qed
qed

lemma wpre_finish_restore:
  fixes so :: "'s vm_store"
  assumes files: "files_obey w" and sep: "separate D plan" and prep: "prepared plan p" and over: "overlaid w D plan p (content s)"
  shows "wpre (finish_restore so sn w plan p l) (\<lambda>_ s'. installed w D plan (content s')) (\<lambda>_ s'. overlaid w D plan p (content s')) s"
proof (cases "content s (pl_staging plan)")
  case None
  then show ?thesis using over separateD(1) [OF sep] by (simp add: finish_restore_def replace_disk_def wp)
next
  case (Some c)
  define M where "M = (content s)(pl_staging plan := None, pl_disk plan := Some c)"
  note moved = overlaid_moved [OF sep prep over Some, folded M_def]
  have manifest: "keeps (\<lambda>s. content s = M) (write_snapshot_manifest w x)" for x
    unfolding write_snapshot_manifest_def snapshot_root_for_id_def Let_def
    by (intro keep keeps_content_mgr [of "\<lambda>m. m = M"] keeps_modify) (simp add: content_eq)
  have drop: "wpre (case rp_backup p of
             None \<Rightarrow> ret ()
           | Some b \<Rightarrow> bind (gets (\<lambda>s. content s b \<noteq> None)) (\<lambda>there. unless (\<not> there) (suppress (unlink_disk w b))))
      (\<lambda>_ s'. installed w D plan (content s')) R s1" if "content s1 = M" for R s1
  proof (cases "rp_backup p")
    case None
    then show ?thesis using that moved(2) by (simp add: wp)
  next
    case (Some b)
    note b = moved(3) [OF Some]
    have "wpre (unlink_disk w b) (\<lambda>_ s'. installed w D plan (content s')) R' s1" for R'
      by (rule unlink_content [OF files]) (use that b in simp_all)
    then show ?thesis using Some that b by (simp add: wp)
  qed
  have tail: "wpre (bind (case rp_backup p of
             None \<Rightarrow> ret ()
           | Some b \<Rightarrow> bind (gets (\<lambda>s. content s b \<noteq> None)) (\<lambda>there. unless (\<not> there) (suppress (unlink_disk w b)))) (\<lambda>_.
     bind (for_each (\<lambda>c. suppress (unlink_disk w c)) (rp_sidecars p)) (\<lambda>_. ret y)))
      (\<lambda>_ s'. installed w D plan (content s')) R s1" if "content s1 = M" for R s1 y
    unfolding wpre_bind wpre_basic
    by (rule wpre_mono [OF drop [OF that, of "\<lambda>_ _. False"]])
      (use wpre_drops [OF files] prep in \<open>auto simp: prepared_def wpre_basic\<close>)
  have step: "wpre (bind m f) (\<lambda>_ s'. installed w D plan (content s')) (\<lambda>_ s'. overlaid w D plan p (content s')) s1"
    if "keeps (\<lambda>s. content s = M) m" "content s1 = M"
      "\<And>x s2. content s2 = M \<Longrightarrow> wpre (f x) (\<lambda>_ s'. installed w D plan (content s')) (\<lambda>_ s'. overlaid w D plan p (content s')) s2"
    for m :: "('s, 'b) sop" and f :: "'b \<Rightarrow> ('s, vm_info) sop" and s1
    unfolding wpre_bind by (rule wpre_keeps [OF that(1,2)]) (use that(3) moved(1) in auto)
  have swap: "wpre (if pl_staging plan \<noteq> pl_disk plan then replace_disk w (pl_staging plan) (pl_disk plan) else ret ()) (\<lambda>_ s'. content s' = M) R s" for R
    using separateD(1) [OF sep] Some by (auto simp: M_def intro!: replace_content [OF files])
  show ?thesis
    unfolding finish_restore_def wpre_bind [of "if _ then _ else _"]
    apply (rule wpre_mono [OF swap [of "\<lambda>_ _. False"]])
     apply (rule step [OF keeps_content_stored(2)], assumption)+
     apply (rule step [OF manifest], assumption, rule tail)
    by auto
qed

lemma wpre_run_restore:
  fixes so :: "'s vm_store"
  assumes files: "files_obey w" and sep: "separate D plan" and new: "fresh_backups w D plan" and start: "content s = D"
  shows "wpre (run_restore so sn w plan) (\<lambda>_ s'. installed w D plan (content s')) (\<lambda>e s'. is_exception e \<longrightarrow> content s' = D) s"
proof -
  have begun: "wpre (bind (remove_staging w plan) (\<lambda>_. set_aside w plan)) (\<lambda>p s'. overlaid w D plan p (content s') \<and> prepared plan p)
      (\<lambda>e s'. is_exception e \<longrightarrow> overlaid w D plan no_progress (content s')) s0" if "content s0 = D" for s0 :: "'s snap_state"
    unfolding wpre_bind
  proof (rule wpre_remove_staging [OF files separateD(1) [OF sep]])
    fix s' :: "'s snap_state" assume "content s' = (content s0)(pl_staging plan := None)"
    then have "content s' = D" using that separateD(3) [OF sep] by (simp add: fun_upd_idem)
    from wpre_set_aside [OF files sep new this]
    show "wpre (set_aside w plan) (\<lambda>p s'. overlaid w D plan p (content s') \<and> prepared plan p)
        (\<lambda>e s'. is_exception e \<longrightarrow> overlaid w D plan no_progress (content s')) s'"
      by (rule wpre_mono) (use overlaid_start [OF sep] in auto)
  qed
  have first: "wpre (bind (mgr (attempt (sw_disk_folder w))) (\<lambda>_. bind (remove_staging w plan) (\<lambda>_. set_aside w plan)))
      (\<lambda>p s'. overlaid w D plan p (content s') \<and> prepared plan p) (\<lambda>e s'. is_exception e \<longrightarrow> overlaid w D plan no_progress (content s')) s"
    unfolding wpre_bind [of "mgr _"]
    by (rule wpre_keeps [OF keeps_content_mgr [of "\<lambda>m. m = D"] start]) (use begun overlaid_start [OF sep] in auto)
  have second: "wpre (bind (touch_disk w (pl_disk plan)) (\<lambda>_. restore_row so plan p)) (\<lambda>p' s'. p' = p \<and> overlaid w D plan p (content s'))
      (\<lambda>e s'. is_exception e \<longrightarrow> overlaid w D plan p (content s')) s1" if "prepared plan p" "overlaid w D plan p (content s1)" for p s1
    unfolding wpre_bind
    by (rule wpre_mono [OF wpre_touch [OF sep that]]) (use separateD(4) [OF sep] in \<open>auto simp: restore_row_def wpre_basic\<close>)
  have third: "wpre (bind (restore_resources so sn w plan) (\<lambda>_. launch_restored w plan p))
      (\<lambda>p' s'. overlaid w D plan p (content s') \<and> (\<exists>l. p' = p\<lparr>rp_launch := Some l\<rparr>))
      (\<lambda>e s'. is_exception e \<longrightarrow> overlaid w D plan p (content s')) s1" if "overlaid w D plan p (content s1)" for p s1
    unfolding wpre_bind
    by (rule wpre_keeps [OF keeps_resources [of "overlaid w D plan p"] that], rule wpre_mono [OF wpre_launch_restored [OF sep]]) auto
  have last: "wpre (finish_restore so sn w plan p l) (\<lambda>_ s'. installed w D plan (content s'))
      (\<lambda>e s'. is_exception e \<longrightarrow> overlaid w D plan p (content s')) s1" if "prepared plan p" "overlaid w D plan p (content s1)" for p l s1
    by (rule wpre_mono [OF wpre_finish_restore [OF files sep that]]) auto
  note undo = wpre_undoing [OF files sep, where so = so]
  show ?thesis
    unfolding run_restore_def wpre_bind
    apply (rule wpre_mono [OF undo [OF first]])
     apply (erule conjE, rule wpre_mono [OF undo [OF second]], assumption+)
      apply (erule conjE, simp only:, rule wpre_mono [OF undo [OF third]], assumption)
       apply (elim conjE exE, simp, rule undo [OF last])
        apply (simp_all add: prepared_def)
    done
qed

section \<open>Restoring a snapshot\<close>

text \<open>The names that a restore makes up beside a disk are not in use.\<close>

definition names_new :: "snap_world \<Rightarrow> location \<Rightarrow> (location \<Rightarrow> nat option) \<Rightarrow> bool" where
  "names_new w d D \<longleftrightarrow> plain_name (snd d) \<and> (\<forall>t. plain_name (sw_uuid w t) \<and> D (fst d, snd d @ ''.backup-'' @ sw_uuid w t) = None \<and>
     (\<forall>l. D l \<noteq> None \<longrightarrow> \<not> starts_with (snd d @ ''.restore-'' @ sw_uuid w t) (snd l)))"

lemma keeps_checks:
  fixes so :: "'s vm_store"
  shows "keeps (\<lambda>s. P (content s)) (refuse_active_restore so msg x)" "keeps (\<lambda>s. P (content s)) (require_artifacts w x)"
    "keeps (\<lambda>s. P (content s)) (check_restore_network w x)"
  unfolding refuse_active_restore_def require_artifacts_def require_artifact_def check_restore_network_def Let_def
  by (intro keep)+

lemma wpre_check_restore:
  fixes so :: "'s vm_store"
  assumes "so_get so (mg_store (ss_mgr s)) (si_vm_id x) = Inr row"
  shows "wpre (check_restore so w x force) (\<lambda>e s'. e \<noteq> None \<and> content s' = content s) (\<lambda>_ s'. content s' = content s) s"
proof -
  let ?Q = "\<lambda>e s'. e \<noteq> None \<and> content s' = content s" and ?R = "\<lambda>_ s'. content s' = content s"
  have rest: "keeps (\<lambda>s'. content s' = content s) (bind (refuse_active_restore so msg x) (\<lambda>_. bind (raise_when b e) (\<lambda>_.
      bind (case k of None \<Rightarrow> ret () | Some k \<Rightarrow> bind (mgr (path_exists (sw_world w) k)) (\<lambda>there. raise_when (\<not> there) e')) (\<lambda>_.
      bind (require_artifacts w x) (\<lambda>_. ret (Some row))))))" for b e k e' msg
    by (intro keep keeps_checks [of "\<lambda>m. m = content s"] keeps_content_mgr [of "\<lambda>m. m = content s"])
  have some: "returns (\<lambda>v. v \<noteq> None) (bind (refuse_active_restore so msg x) (\<lambda>_. bind (raise_when b e) (\<lambda>_.
      bind (case k of None \<Rightarrow> ret () | Some k \<Rightarrow> bind (mgr (path_exists (sw_world w) k)) (\<lambda>there. raise_when (\<not> there) e')) (\<lambda>_.
      bind (require_artifacts w x) (\<lambda>_. ret (Some row))))))" for b e k e' msg
    by (intro returning) simp
  have "wpre (bind (refuse_active_restore so msg x) (\<lambda>_. bind (raise_when b e) (\<lambda>_.
      bind (case k of None \<Rightarrow> ret () | Some k \<Rightarrow> bind (mgr (path_exists (sw_world w) k)) (\<lambda>there. raise_when (\<not> there) e')) (\<lambda>_.
      bind (require_artifacts w x) (\<lambda>_. ret (Some row)))))) ?Q ?R s" for b e k e' msg
    by (rule returns_wpre [OF some wpre_keeps [OF rest]]) simp_all
  then show ?thesis
    using assms by (simp add: check_restore_def find_vm_def stored_def wpre_bind [of "raise_when _ _"] wpre_bind [of "catch _ _ _"] wpre_bind [of "mgr (from_store _)"]
        wpre_raise_when wpre_catch wpre_mgr wpre_from_store wpre_basic)
qed

lemma plan_separate:
  fixes s :: "'s snap_state"
  assumes "si_backend x = ''qemu''" "effective_rootfs_format (si_vm_config x) = Inr fmt" "ex \<noteq> None"
    "d = instance_disk (sw_disk w) (si_vm_id x) ''qemu'' (Some fmt)" "names_new w d (content s)"
  shows "wpre (plan_restore w x ex resume) (\<lambda>plan s'. content s' = content s \<and> separate (content s) plan \<and> fresh_backups w (content s) plan \<and>
      pl_disk plan = d \<and> pl_snapshot plan = x \<and> pl_resume plan = resume) R s"
proof -
  have "plain_name (snd d)" "plain_name (sw_uuid w t)" for t using assms(5) unfolding names_new_def by blast+
  then have "plain_name (snd d @ ''.restore-'' @ sw_uuid w t)" for t by (simp add: plain_name_def ball_Un)
  moreover have "\<not> starts_with (snd d @ ''.restore-'' @ sw_uuid w t) (snd l)" if "content s l \<noteq> None" for t l
    using assms(5) that unfolding names_new_def by blast
  moreover have "content s (fst d, snd d @ ''.backup-'' @ sw_uuid w t) = None" for t using assms(5) by (simp add: names_new_def)
  moreover obtain plan where plan: "wpre (plan_restore w x ex resume) Q R s = Q plan (s\<lparr>ss_mgr := (ss_mgr s)\<lparr>mg_clock := mg_clock (ss_mgr s) + 1\<rparr>\<rparr>)"
      "pl_disk plan = d" "pl_snapshot plan = x" "pl_resume plan = resume" "pl_existing plan = ex"
      "pl_staging plan = (fst d, snd d @ ''.restore-'' @ sw_uuid w (mg_clock (ss_mgr s)))" for Q
  proof
    let ?p = "\<lparr>pl_snapshot = x, pl_config = (si_vm_config x)\<lparr>vc_rootfs_path := Some (path_of d), vc_rootfs_format := Some fmt, vc_backend := Some ''qemu''\<rparr>,
      pl_existing = ex, pl_disk = d, pl_staging = (fst d, snd d @ ''.restore-'' @ sw_uuid w (mg_clock (ss_mgr s))), pl_resume = resume\<rparr>"
    show "wpre (plan_restore w x ex resume) Q R s = Q ?p (s\<lparr>ss_mgr := (ss_mgr s)\<lparr>mg_clock := mg_clock (ss_mgr s) + 1\<rparr>\<rparr>)" for Q
      by (simp add: plan_restore_def wp Let_def assms(1,2) flip: assms(4))
  qed simp_all
  ultimately show ?thesis
    unfolding plan(1) separate_def fresh_backups_def plan(2-6) using assms(3) by (simp add: content_eq)
qed


text \<open>A stopped computer whose image is written but cannot be started.\<close>

definition demo_restore_world :: snap_world where
  "demo_restore_world = demo_snap_world\<lparr>sw_world := calm_world\<lparr>w_fs := (\<lambda>_ _. PATH_FILE)\<rparr>\<rparr>"

definition demo_restore_state :: "memory_state snap_state" where
  "demo_restore_state = demo_snap_state\<lparr>ss_mgr := new_manager
     (mem_init\<lparr>ms_vms := [(''a'', demo_snap_row\<lparr>vi_status := VM_STOPPED\<rparr>)], ms_snapshots := [(''s'', demo_saved)]\<rparr>) ''qemu''\<rparr>"

lemma demo_restore:
  "fst (restore_snapshot (mem_ops plain_host) (mem_snap_ops plain_host) demo_restore_world ''s'' True False demo_restore_state) = Inl (CelestoError ''boot'')"
  by code_simp


text \<open>
  The computer has to have a row: without one, the failed restore removes the artifacts of the row that it made, and with them the backup of a disk that was
  already there.
\<close>

lemma restore_without_row_loses_disk:
  "let s = demo_restore_state\<lparr>ss_mgr := new_manager (mem_init\<lparr>ms_snapshots := [(''s'', demo_saved)]\<rparr>) ''qemu''\<rparr>;
       (r, s') = restore_snapshot (mem_ops plain_host) (mem_snap_ops plain_host) demo_restore_world ''s'' True False s
   in r = Inl (CelestoError ''boot'') \<and> content s (''/d/disks'', ''a.qcow2'') = Some 1 \<and> ss_disks s' = []"
  by code_simp

end
