(* ===== verification/Command_Stream.thy ===== *)
theory Command_Stream
  imports Internet_Policy
begin

text \<open>
  The event stream of a running command (\<open>_streaming.py\<close> and \<open>RustHttpVsockChannel.run_stream\<close>): the bytes that the
  guest agent sends in chunks are cut into lines, the lines are assembled to the data of server-sent events, and the
  data are parsed to events. A generator is the list of what it yields and the exception that ends it, if one does.
  Text is represented by its UTF-8 bytes, so that the size of an encoded value is its length. Decoding with replacement characters,
  the test for a JSON object and the validation of an event are parameters.
\<close>

section \<open>Lines\<close>

definition MAX_EVENT_BYTES :: int where
  "MAX_EVENT_BYTES = 1024 * 1024"

abbreviation LF :: char where "LF \<equiv> CHR 0x0A"

abbreviation CR :: char where "CR \<equiv> CHR 0x0D"

definition too_large :: celesto_error where
  "too_large = CelestoError ''Command stream returned an event that was too large.''"

type_synonym 'a generator = "'a list \<times> celesto_error option"

definition yielding :: "'a list \<Rightarrow> 'a generator \<Rightarrow> 'a generator" where
  "yielding xs g = (xs @ fst g, snd g)"

text \<open>The part of a chunk up to its first line feed, the rest, and whether there was one.\<close>

definition take_part :: "string \<Rightarrow> string \<times> string \<times> bool" where
  "take_part s = (case partition_at LF s of None \<Rightarrow> (s, [], False) | Some (a, b) \<Rightarrow> (a @ [LF], b, True))"

definition content_size :: "string \<Rightarrow> string \<Rightarrow> bool \<Rightarrow> int" where
  "content_size line part newline =
     (let size = int (length line) + int (length part) in
      if newline
      then (if ends_with [CR, LF] part \<or> part = [LF] \<and> ends_with [CR] line then size - 2 else size - 1)
      else if ends_with [CR] part then size - 1
      else size)"

lemma take_part_cases:
  obtains "take_part s = (s, [], False)" "LF \<notin> set s"
  | a b where "take_part s = (a @ [LF], b, True)" "s = a @ LF # b" "LF \<notin> set a"
proof (cases "partition_at LF s")
  case None
  then show ?thesis using that(1) by (auto simp: take_part_def partition_at_def split: if_splits)
next
  case (Some p)
  obtain a b where p: "p = (a, b)" by fastforce
  have "take_part s = (a @ [LF], b, True)" using Some p by (simp add: take_part_def)
  moreover have "s = a @ LF # b" "LF \<notin> set a" using Some p partition_at_Some by blast+
  ultimately show ?thesis by (rule that(2))
qed

lemma take_part_shorter: "s \<noteq> [] \<Longrightarrow> take_part s = (part, tail, nl) \<Longrightarrow> length tail < length s"
  by (rule take_part_cases [of s]) auto

function chunk_loop :: "string \<Rightarrow> string \<Rightarrow> string list \<times> string result" where
  "chunk_loop line rest =
     (if rest = [] then ([], Inr line)
      else case take_part rest of (part, tail, newline) \<Rightarrow>
        if content_size line part newline > MAX_EVENT_BYTES then ([], Inl too_large)
        else if newline then (case chunk_loop [] tail of (ls, r) \<Rightarrow> ((line @ part) # ls, r))
        else chunk_loop (line @ part) tail)"
  by pat_completeness auto
termination
  by (relation "measure (length \<circ> snd)") (auto dest: take_part_shorter [OF _ sym])

declare chunk_loop.simps [simp del]

fun bounded_loop :: "string \<Rightarrow> string list \<Rightarrow> string generator" where
  "bounded_loop line [] =
     (if int (length line) > MAX_EVENT_BYTES then ([], Some too_large)
      else if line \<noteq> [] then ([line], None)
      else ([], None))"
| "bounded_loop line (chunk # chunks) =
     (case chunk_loop line chunk of
        (ls, Inl e) \<Rightarrow> (ls, Some e)
      | (ls, Inr line') \<Rightarrow> yielding ls (bounded_loop line' chunks))"

definition iter_bounded_lines :: "string list \<Rightarrow> string generator" where
  "iter_bounded_lines chunks = bounded_loop [] chunks"

section \<open>Server-sent events\<close>

fun join_lines :: "string list \<Rightarrow> string" where
  "join_lines [] = []"
| "join_lines [l] = l"
| "join_lines (l # ls) = l @ [LF] @ join_lines ls"

definition field_value :: "string \<Rightarrow> string \<times> string" where
  "field_value line =
     (case partition_at (CHR '':'') line of
        None \<Rightarrow> (line, [])
      | Some (field, v) \<Rightarrow> (field, if starts_with '' '' v then tl v else v))"

text \<open>The loop of \<open>iter_sse_data\<close>; \<open>fin\<close> is the exception that ends the lines, if one does.\<close>

fun sse_loop :: "(string \<Rightarrow> string) \<Rightarrow> (string \<Rightarrow> bool) \<Rightarrow> celesto_error option \<Rightarrow> string list \<Rightarrow> int \<Rightarrow> string list \<Rightarrow> string generator" where
  "sse_loop decode is_json_object fin data_lines n [] =
     (case fin of
        Some e \<Rightarrow> ([], Some e)
      | None \<Rightarrow> (if data_lines \<noteq> [] then [join_lines data_lines] else [], None))"
| "sse_loop decode is_json_object fin data_lines n (raw_line # rest) =
     (let line = rstrip_chars (\<lambda>c. c = CR \<or> c = LF) (decode raw_line) in
      if line = []
      then (if data_lines \<noteq> [] then yielding [join_lines data_lines] (sse_loop decode is_json_object fin [] 0 rest)
            else sse_loop decode is_json_object fin data_lines n rest)
      else if starts_with '':'' line then sse_loop decode is_json_object fin data_lines n rest
      else case field_value line of (field, v) \<Rightarrow>
        if field \<noteq> ''data'' then sse_loop decode is_json_object fin data_lines n rest
        else if int (length v) > MAX_EVENT_BYTES then ([], Some too_large)
        else
          (let complete = (data_lines \<noteq> [] \<and> is_json_object v \<and> is_json_object (join_lines data_lines));
               done = (if complete then [join_lines data_lines] else []);
               kept = (if complete then [] else data_lines);
               n' = (if complete then 0 else n) + int (length v)
           in if n' > MAX_EVENT_BYTES then (done, Some too_large)
              else yielding done (sse_loop decode is_json_object fin (kept @ [v]) n' rest)))"

definition iter_sse_data :: "(string \<Rightarrow> string) \<Rightarrow> (string \<Rightarrow> bool) \<Rightarrow> string generator \<Rightarrow> string generator" where
  "iter_sse_data decode is_json_object lines = sse_loop decode is_json_object (snd lines) [] 0 (fst lines)"

section \<open>Events\<close>

datatype output_type = STDOUT | STDERR

text \<open>The time-out of a started command is counted in milliseconds.\<close>

datatype command_event =
    CommandStartedEvent string int int
  | CommandOutputEvent output_type string
  | CommandExitEvent int "string option" "int option" "int option" "int option" bool

fun is_exit :: "command_event \<Rightarrow> bool" where
  "is_exit (CommandExitEvent _ _ _ _ _ _) = True"
| "is_exit _ = False"

definition parse_command_event :: "(string \<Rightarrow> command_event option) \<Rightarrow> string \<Rightarrow> command_event result" where
  "parse_command_event validate data =
     (if int (length data) > MAX_EVENT_BYTES then Inl too_large
      else case validate data of
          Some event \<Rightarrow> Inr event
        | None \<Rightarrow> Inl (CelestoError ''Command stream returned an invalid event; check the API version.''))"

fun event_loop :: "(string \<Rightarrow> command_event option) \<Rightarrow> celesto_error option \<Rightarrow> string list \<Rightarrow> command_event generator" where
  "event_loop validate fin [] =
     ([], Some (case fin of Some e \<Rightarrow> e | None \<Rightarrow> CelestoError ''Command stream ended before the command exited.''))"
| "event_loop validate fin (data # rest) =
     (case parse_command_event validate data of
        Inl e \<Rightarrow> ([], Some e)
      | Inr event \<Rightarrow> if is_exit event then ([event], None) else yielding [event] (event_loop validate fin rest))"

text \<open>The events of a response with status below 400 whose body arrives in \<open>chunks\<close>.\<close>

definition run_stream :: "(string \<Rightarrow> string) \<Rightarrow> (string \<Rightarrow> bool) \<Rightarrow> (string \<Rightarrow> command_event option) \<Rightarrow> string list \<Rightarrow> command_event generator" where
  "run_stream decode is_json_object validate chunks =
     (let data = iter_sse_data decode is_json_object (iter_bounded_lines chunks) in event_loop validate (snd data) (fst data))"

section \<open>Lines do not depend on the chunks\<close>

text \<open>The lines of the whole body, with their line feeds, and the content of a line.\<close>

fun lines_of :: "string \<Rightarrow> string list" where
  "lines_of [] = []"
| "lines_of (c # s) =
     (if c = LF then [LF] # lines_of s
      else case lines_of s of [] \<Rightarrow> [[c]] | l # ls \<Rightarrow> (c # l) # ls)"

definition line_content :: "string \<Rightarrow> string" where
  "line_content l = (if ends_with [CR, LF] l then take (length l - 2) l else if ends_with [LF] l then butlast l else l)"

definition fits :: "string \<Rightarrow> bool" where
  "fits l \<longleftrightarrow> int (length (line_content l)) \<le> MAX_EVENT_BYTES"

definition lines_within :: "string \<Rightarrow> string generator" where
  "lines_within s = (takeWhile fits (lines_of s), if list_all fits (lines_of s) then None else Some too_large)"

lemma ends_with_iff: "ends_with p s \<longleftrightarrow> (\<exists>t. s = t @ p)"
proof
  assume "ends_with p s"
  then have "rev s = rev p @ drop (length p) (rev s)" by (metis append_take_drop_id ends_with_def length_rev starts_with_def)
  then have "s = rev (drop (length p) (rev s)) @ p" by (metis rev_append rev_rev_ident)
  then show "\<exists>t. s = t @ p" by blast
qed (auto simp: ends_with_def starts_with_def)

lemma lines_of_line: "LF \<notin> set a \<Longrightarrow> lines_of (a @ LF # b) = (a @ [LF]) # lines_of b"
  by (induction a) auto

lemma lines_of_last: "LF \<notin> set a \<Longrightarrow> a \<noteq> [] \<Longrightarrow> lines_of a = [a]"
proof (induction a)
  case (Cons c a)
  then show ?case by (cases a) auto
qed simp

lemma lines_of_start:
  assumes "LF \<notin> set p" "p \<noteq> []"
  obtains x ls where "lines_of (p @ s) = (p @ x) # ls" "x = [] \<or> (\<exists>y. x = y @ [LF] \<and> LF \<notin> set y) \<or> LF \<notin> set x"
proof (cases "LF \<in> set s")
  case True
  then obtain a b where s: "s = a @ LF # b" "LF \<notin> set a" by (metis split_list_first)
  then have "lines_of (p @ s) = (p @ a @ [LF]) # lines_of b" using assms lines_of_line [of "p @ a" b] by simp
  then show ?thesis using that s(2) by blast
next
  case False
  then have "lines_of (p @ s) = [p @ s]" using assms by (intro lines_of_last) auto
  then show ?thesis using that False by blast
qed

lemma line_content_simps:
  "LF \<notin> set a \<Longrightarrow> length (line_content (a @ [LF])) = (if ends_with [CR] a then length a - 1 else length a)"
  "LF \<notin> set a \<Longrightarrow> line_content a = a"
proof -
  have cr: "ends_with [CR, LF] (a @ [LF]) \<longleftrightarrow> ends_with [CR] a" for a
    by (simp add: ends_with_def starts_with_def)
  show "length (line_content (a @ [LF])) = (if ends_with [CR] a then length a - 1 else length a)" if "LF \<notin> set a"
    using cr [of a] by (auto simp: line_content_def ends_with_iff)
  show "line_content a = a" if "LF \<notin> set a"
    using that by (auto simp: line_content_def ends_with_iff)
qed

lemma lines_within_step:
  assumes "LF \<notin> set a" "fits (a @ [LF])"
  shows "lines_within (a @ LF # b) = yielding [a @ [LF]] (lines_within b)"
  using assms by (simp add: lines_within_def yielding_def lines_of_line)

lemma lines_within_stop:
  assumes "LF \<notin> set p" "p \<noteq> []" "int (length p) - (if ends_with [CR] p then 1 else 0) > MAX_EVENT_BYTES"
  shows "lines_within (p @ s) = ([], Some too_large)"
proof -
  obtain x ls where x: "lines_of (p @ s) = (p @ x) # ls" "x = [] \<or> (\<exists>y. x = y @ [LF] \<and> LF \<notin> set y) \<or> LF \<notin> set x"
    using lines_of_start [OF assms(1,2)] by blast
  have "int (length (line_content (p @ x))) > MAX_EVENT_BYTES"
    using x(2)
  proof (elim disjE exE conjE)
    fix y assume y: "x = y @ [LF]" "LF \<notin> set y"
    show ?thesis
    proof (cases "y = []")
      case True
      then show ?thesis using y assms line_content_simps(1) [of p] by auto
    next
      case False
      then show ?thesis using y assms line_content_simps(1) [of "p @ y"] by (cases y) (auto split: if_splits)
    qed
  qed (use assms line_content_simps(2) in \<open>auto split: if_splits\<close>)
  then show ?thesis using x(1) by (simp add: lines_within_def fits_def)
qed

text \<open>A line that is still open holds no line feed and no more than the limit and a carriage return.\<close>

definition open_line :: "string \<Rightarrow> bool" where
  "open_line l \<longleftrightarrow> LF \<notin> set l \<and> int (length l) - (if ends_with [CR] l then 1 else 0) \<le> MAX_EVENT_BYTES"

lemma ends_with_append: "b \<noteq> [] \<Longrightarrow> ends_with [c] (a @ b) \<longleftrightarrow> ends_with [c] b"
  by (cases b rule: rev_cases) (auto simp: ends_with_iff)

lemma content_size_simps:
  "LF \<notin> set line \<Longrightarrow> LF \<notin> set a \<Longrightarrow> content_size line (a @ [LF]) True = int (length (line_content ((line @ a) @ [LF])))"
  "part \<noteq> [] \<Longrightarrow> content_size line part False = int (length (line @ part)) - (if ends_with [CR] (line @ part) then 1 else 0)"
proof -
  assume lf: "LF \<notin> set line" "LF \<notin> set a"
  have cr: "ends_with [CR, LF] (a @ [LF]) \<longleftrightarrow> ends_with [CR] a"
    by (simp add: ends_with_def starts_with_def)
  have pos: "length (line @ a) > 0" if "ends_with [CR] (line @ a)" using that by (auto simp: ends_with_iff)
  have "LF \<notin> set (line @ a)" using lf by simp
  from line_content_simps(1) [OF this] show "content_size line (a @ [LF]) True = int (length (line_content ((line @ a) @ [LF])))"
  proof (cases "a = []")
    case True
    then show ?thesis using line_content_simps(1) [OF \<open>LF \<notin> set (line @ a)\<close>] pos
      by (auto simp: content_size_def Let_def ends_with_def starts_with_def of_nat_diff Suc_le_eq)
  next
    case False
    then show ?thesis using line_content_simps(1) [OF \<open>LF \<notin> set (line @ a)\<close>] pos cr
      by (auto simp: content_size_def Let_def ends_with_append of_nat_diff Suc_le_eq)
  qed
qed (simp add: content_size_def ends_with_append Let_def)

lemma chunk_loop_spec:
  assumes "open_line line" "chunk_loop line rest = (ls, r)"
  shows "case r of
      Inl e \<Rightarrow> e = too_large \<and> (\<forall>s. lines_within (line @ rest @ s) = (ls, Some too_large))
    | Inr line' \<Rightarrow> open_line line' \<and> (\<forall>s. lines_within (line @ rest @ s) = yielding ls (lines_within (line' @ s)))"
  using assms
proof (induction line rest arbitrary: ls r rule: chunk_loop.induct)
  case (1 line rest)
  note simps = chunk_loop.simps [of line rest]
  show ?case
  proof (cases "rest = []")
    case True
    then show ?thesis using 1(3,4) simps by (auto simp: yielding_def)
  next
    case False
    have lf: "LF \<notin> set line" using 1(3) by (simp add: open_line_def)
    show ?thesis
    proof (rule take_part_cases [of rest])
      assume part: "take_part rest = (rest, [], False)" "LF \<notin> set rest"
      note size = content_size_simps(2) [OF False, of line]
      show ?thesis
      proof (cases "content_size line rest False > MAX_EVENT_BYTES")
        case True
        then have "lines_within ((line @ rest) @ s) = ([], Some too_large)" for s
          using part(2) lf False size by (intro lines_within_stop) auto
        then show ?thesis using 1(4) True part(1) False simps by auto
      next
        case ok: False
        then have "open_line (line @ rest)" using part(2) lf size by (simp add: open_line_def)
        moreover have "(ls, r) = ([], Inr (line @ rest))"
          using 1(4) ok part(1) False simps chunk_loop.simps [of "line @ rest" "[]"] by simp
        ultimately show ?thesis by (simp add: yielding_def)
      qed
    next
      fix a b assume part: "take_part rest = (a @ [LF], b, True)" "rest = a @ LF # b" "LF \<notin> set a"
      note size = content_size_simps(1) [OF lf part(3)]
      have lfa: "LF \<notin> set (line @ a)" using lf part(3) by simp
      have split: "line @ rest @ s = (line @ a) @ LF # b @ s" for s using part(2) by simp
      show ?thesis
      proof (cases "content_size line (a @ [LF]) True > MAX_EVENT_BYTES")
        case True
        then have "lines_within (line @ rest @ s) = ([], Some too_large)" for s
          using size lines_of_line [OF lfa] unfolding split by (simp add: lines_within_def fits_def)
        then show ?thesis using 1(4) True part(1) False simps by auto
      next
        case ok: False
        then have "fits ((line @ a) @ [LF])" using size by (simp add: fits_def)
        then have step: "lines_within (line @ rest @ s) = yielding [line @ a @ [LF]] (lines_within (b @ s))" for s
          unfolding split using lines_within_step [OF lfa] by simp
        obtain ls' where ls': "chunk_loop [] b = (ls', r)" "ls = (line @ a @ [LF]) # ls'"
          using 1(4) ok part(1) False simps by (auto split: prod.splits)
        have "open_line []" by (simp add: open_line_def MAX_EVENT_BYTES_def)
        from 1(1) [OF False part(1) [symmetric] refl ok _ this ls'(1)] show ?thesis
          using step ls'(2) by (cases r) (auto simp: yielding_def)
      qed
    qed
  qed
qed

lemma bounded_loop_spec: "open_line line \<Longrightarrow> bounded_loop line chunks = lines_within (line @ concat chunks)"
proof (induction chunks arbitrary: line)
  case Nil
  then have "LF \<notin> set line" by (simp add: open_line_def)
  then show ?case
    using lines_of_last [of line] by (cases "line = []") (auto simp: lines_within_def fits_def line_content_simps MAX_EVENT_BYTES_def)
next
  case (Cons chunk chunks)
  obtain ls r where run: "chunk_loop line chunk = (ls, r)" by fastforce
  from chunk_loop_spec [OF Cons.prems run] show ?case
    using run Cons.IH by (cases r) auto
qed

text \<open>
  \<^bold>\<open>C17\<close> Cutting a body into lines does not depend on how the transport splits it into chunks. The lines of the
  whole body are yielded up to the first whose content, without its line end, exceeds the limit; the generator raises exactly when there is such a
  line. The code checks the limit on every part of a line as it arrives, also where a carriage return and its line feed come in different chunks.
\<close>

theorem iter_bounded_lines_exact:
  "iter_bounded_lines chunks =
     (takeWhile fits (lines_of (concat chunks)), if list_all fits (lines_of (concat chunks)) then None else Some too_large)"
  unfolding iter_bounded_lines_def
  by (subst bounded_loop_spec) (simp_all add: open_line_def MAX_EVENT_BYTES_def lines_within_def)

section \<open>Events survive the transport\<close>

text \<open>
  What the guest agent sends for an event: a \<open>data\<close> line with either line end, and the blank line that ends the event, unless a proxy on
  the way dropped it.
\<close>

type_synonym sent_event = "string \<times> string \<times> bool"

definition wire_event :: "sent_event \<Rightarrow> string" where
  "wire_event = (\<lambda>(d, eol, delimiter). ''data: '' @ d @ eol @ (if delimiter then eol else []))"

definition wire_lines :: "sent_event \<Rightarrow> string list" where
  "wire_lines = (\<lambda>(d, eol, delimiter). (''data: '' @ d @ eol) # (if delimiter then [eol] else []))"

definition sendable :: "(string \<Rightarrow> bool) \<Rightarrow> sent_event \<Rightarrow> bool" where
  "sendable is_json_object = (\<lambda>(d, eol, delimiter). is_json_object d \<and> CR \<notin> set d \<and> LF \<notin> set d \<and>
     (eol = [LF] \<or> eol = [CR, LF]) \<and> int (length d) + 6 \<le> MAX_EVENT_BYTES)"

lemma lines_of_eol: "eol = [LF] \<or> eol = [CR, LF] \<Longrightarrow> LF \<notin> set a \<Longrightarrow> lines_of (a @ eol @ b) = (a @ eol) # lines_of b"
  using lines_of_line [of a b] lines_of_line [of "a @ [CR]" b] by auto

lemma lines_of_wire:
  assumes "\<forall>x\<in>set sent. sendable obj x"
  shows "lines_of (concat (map wire_event sent)) = concat (map wire_lines sent)"
  using assms
proof (induction sent)
  case (Cons x sent)
  obtain d eol dl where x: "x = (d, eol, dl)" by (cases x)
  have s: "eol = [LF] \<or> eol = [CR, LF]" "LF \<notin> set (''data: '' @ d)" using Cons.prems by (auto simp: x sendable_def)
  have blank: "lines_of (eol @ b) = eol # lines_of b" for b using lines_of_eol [OF s(1), of "[]" b] by simp
  have "lines_of ((''data: '' @ d) @ eol @ b) = ((''data: '' @ d) @ eol) # lines_of b" for b by (rule lines_of_eol [OF s])
  then show ?case using Cons blank by (cases dl) (simp_all add: x wire_event_def wire_lines_def)
qed simp

lemma content_of_eol:
  assumes "eol = [LF] \<or> eol = [CR, LF]" "CR \<notin> set a" "LF \<notin> set a"
  shows "line_content (a @ eol) = a"
  using assms by (auto simp: line_content_def ends_with_iff)

lemma wire_fits:
  assumes "\<forall>x\<in>set sent. sendable obj x" "l \<in> set (concat (map wire_lines sent))"
  shows "fits l"
proof -
  obtain d eol dl where x: "(d, eol, dl) \<in> set sent" "l \<in> set (wire_lines (d, eol, dl))" using assms(2) by auto
  then have s: "eol = [LF] \<or> eol = [CR, LF]" "LF \<notin> set (''data: '' @ d)" "CR \<notin> set (''data: '' @ d)" "int (length d) + 6 \<le> MAX_EVENT_BYTES"
    using assms(1) by (fastforce simp: sendable_def)+
  have "l = (''data: '' @ d) @ eol \<or> l = [] @ eol" using x(2) by (auto simp: wire_lines_def split: if_splits)
  then have "line_content l = ''data: '' @ d \<or> line_content l = []"
    using content_of_eol [OF s(1,3,2)] content_of_eol [OF s(1), of "[]"] by auto
  then show ?thesis using s(4) by (auto simp: fits_def MAX_EVENT_BYTES_def)
qed

lemma strip_eol:
  assumes "eol = [LF] \<or> eol = [CR, LF]" "CR \<notin> set a" "LF \<notin> set a"
  shows "rstrip_chars (\<lambda>c. c = CR \<or> c = LF) (a @ eol) = a"
proof -
  have "dropWhile (\<lambda>c. c = CR \<or> c = LF) (rev a) = rev a" using assms(2,3) by (cases a rule: rev_cases) auto
  then show ?thesis using assms(1) by (auto simp: rstrip_chars_def)
qed

lemma sse_loop_wire:
  assumes "\<forall>x\<in>set sent. sendable obj x" "\<forall>l\<in>set (concat (map wire_lines sent)). decode l = l"
    "pending = [] \<and> n = 0 \<or> (\<exists>d. pending = [d] \<and> obj d)"
  shows "sse_loop decode obj None pending n (concat (map wire_lines sent)) = (pending @ map fst sent, None)"
  using assms
proof (induction sent arbitrary: pending n)
  case Nil
  then show ?case by auto
next
  case (Cons x sent)
  obtain d eol dl where x: "x = (d, eol, dl)" by (cases x)
  have s: "eol = [LF] \<or> eol = [CR, LF]" "LF \<notin> set (''data: '' @ d)" "CR \<notin> set (''data: '' @ d)" "obj d" "int (length d) + 6 \<le> MAX_EVENT_BYTES"
    using Cons.prems(1) by (auto simp: x sendable_def)
  have dec: "decode ((''data: '' @ d) @ eol) = (''data: '' @ d) @ eol" "dl \<Longrightarrow> decode eol = eol"
    using Cons.prems(2) by (auto simp: x wire_lines_def)
  have strip: "rstrip_chars (\<lambda>c. c = CR \<or> c = LF) ((''data: '' @ d) @ eol) = ''data: '' @ d" "rstrip_chars (\<lambda>c. c = CR \<or> c = LF) eol = []"
    using strip_eol [OF s(1,3,2)] strip_eol [OF s(1), of "[]"] by auto
  have part: "partition_at (CHR '':'') (''data: '' @ d) = Some (''data'', '' '' @ d)" unfolding partition_at_Some by simp
  then have field: "field_value (''data: '' @ d) = (''data'', d)" by (simp add: field_value_def starts_with_def)
  have IH: "sse_loop decode obj None p n' (concat (map wire_lines sent)) = (p @ map fst sent, None)" if "p = [] \<and> n' = 0 \<or> p = [d]" for p n'
    using Cons.prems s(4) that by (intro Cons.IH) auto
  have rest: "sse_loop decode obj None [d] n' ((if dl then [eol] else []) @ concat (map wire_lines sent)) = (d # map fst sent, None)" for n'
    using IH dec(2) strip(2) by (cases dl) (simp_all add: yielding_def)
  have nonneg: "int (length d) \<le> MAX_EVENT_BYTES" using s(5) by simp
  have "sse_loop decode obj None pending n (((''data: '' @ d) @ eol) # L) = yielding pending (sse_loop decode obj None [d] (int (length d)) L)" for L
    using Cons.prems(3) s(4) dec(1) strip(1) field nonneg by (auto simp: yielding_def starts_with_def Let_def)
  from this [of "(if dl then [eol] else []) @ concat (map wire_lines sent)"] show ?case
    using rest by (simp add: x wire_lines_def yielding_def)
qed

lemma event_loop_all:
  assumes "list_all2 (\<lambda>d e. int (length d) \<le> MAX_EVENT_BYTES \<and> validate d = Some e) ds (evs @ [ev])" "is_exit ev" "\<forall>e\<in>set evs. \<not> is_exit e"
  shows "event_loop validate fin ds = (evs @ [ev], None)"
  using assms
proof (induction evs arbitrary: ds)
  case Nil
  then show ?case by (auto simp: list_all2_Cons2 parse_command_event_def)
next
  case (Cons e evs)
  then show ?case by (auto simp: list_all2_Cons2 parse_command_event_def yielding_def)
qed

lemma event_loop_ends: "event_loop validate fin ds = (out, None) \<Longrightarrow> out \<noteq> [] \<and> is_exit (last out)"
proof (induction ds arbitrary: out)
  case (Cons d ds)
  then show ?case by (cases "event_loop validate fin ds") (auto simp: yielding_def split: sum.splits if_splits)
qed simp

text \<open>
  \<^bold>\<open>C16\<close> What the guest agent reports of a command arrives. When the body is the wire form of a list of events, each a JSON object on one line that fits
  the limit, then however the transport splits it into chunks, whichever line ends are used and whichever blank lines between events are lost on the way,
  \<open>run_stream\<close> yields exactly these events, in order, and ends without an exception after the exit event. And whatever arrives, it ends without an
  exception only if the last event it yielded is the exit event.
\<close>

theorem run_stream_delivers:
  assumes "concat chunks = concat (map wire_event sent)" "\<forall>x\<in>set sent. sendable is_json_object x"
    "\<forall>l\<in>set (lines_of (concat chunks)). decode l = l"
    "map (validate \<circ> fst) sent = map Some (evs @ [ev])" "is_exit ev" "\<forall>e\<in>set evs. \<not> is_exit e"
  shows "run_stream decode is_json_object validate chunks = (evs @ [ev], None) \<and>
    (\<forall>chunks' out. run_stream decode is_json_object validate chunks' = (out, None) \<longrightarrow> out \<noteq> [] \<and> is_exit (last out))"
proof
  let ?L = "concat (map wire_lines sent)"
  have lines: "lines_of (concat chunks) = ?L" using lines_of_wire [OF assms(2)] assms(1) by simp
  have "list_all fits ?L" using wire_fits [OF assms(2)] by (simp add: list_all_iff)
  then have "lines_within (concat chunks) = (?L, None)" using lines by (simp add: lines_within_def list_all_iff takeWhile_eq_all_conv)
  moreover have "iter_bounded_lines chunks = lines_within (concat chunks)"
    unfolding iter_bounded_lines_def by (subst bounded_loop_spec) (simp_all add: open_line_def MAX_EVENT_BYTES_def)
  moreover have "sse_loop decode is_json_object None [] 0 ?L = (map fst sent, None)"
    using sse_loop_wire [OF assms(2), of decode "[]" 0] assms(3) lines by simp
  ultimately have data: "iter_sse_data decode is_json_object (iter_bounded_lines chunks) = (map fst sent, None)"
    by (simp add: iter_sse_data_def)
  have "list_all2 (\<lambda>d e. int (length d) \<le> MAX_EVENT_BYTES \<and> validate d = Some e) (map fst sent) (evs @ [ev])"
  proof (rule list_all2_all_nthI)
    show len: "length (map fst sent) = length (evs @ [ev])" using assms(4) by (metis length_map)
    fix k assume k: "k < length (map fst sent)"
    then have "sendable is_json_object (sent ! k)" using assms(2) by simp
    moreover have "validate (fst (sent ! k)) = Some ((evs @ [ev]) ! k)"
      using arg_cong [OF assms(4), of "\<lambda>l. l ! k"] k len by (simp only: nth_map length_map comp_apply)
    ultimately show "int (length (map fst sent ! k)) \<le> MAX_EVENT_BYTES \<and> validate (map fst sent ! k) = Some ((evs @ [ev]) ! k)"
      using k by (auto simp: sendable_def split: prod.splits)
  qed
  from event_loop_all [OF this assms(5,6)] show "run_stream decode is_json_object validate chunks = (evs @ [ev], None)"
    using data by (simp add: run_stream_def)
  show "\<forall>chunks' out. run_stream decode is_json_object validate chunks' = (out, None) \<longrightarrow> out \<noteq> [] \<and> is_exit (last out)"
    unfolding run_stream_def Let_def using event_loop_ends by blast
qed

definition demo_validate :: "string \<Rightarrow> command_event option" where
  "demo_validate d = (if d = ''{o}'' then Some (CommandOutputEvent STDOUT ''hi'') else if d = ''{x}'' then Some (CommandExitEvent 0 None None None None False) else None)"

theorem run_stream_delivers_witness:
  "run_stream id (starts_with ''{'') demo_validate [''dat'', ''a: {o}'' @ [CR], [LF] @ ''data: {x}'' @ [LF]] =
     ([CommandOutputEvent STDOUT ''hi'', CommandExitEvent 0 None None None None False], None)"
proof -
  have "concat [''dat'', ''a: {o}'' @ [CR], [LF] @ ''data: {x}'' @ [LF]] = concat (map wire_event [(''{o}'', [CR, LF], False), (''{x}'', [LF], False)])"
    by (simp add: wire_event_def)
  moreover have "\<forall>x\<in>set [(''{o}'', [CR, LF], False), (''{x}'', [LF], False)]. sendable (starts_with ''{'') x"
    by (simp add: sendable_def starts_with_def MAX_EVENT_BYTES_def)
  ultimately show ?thesis
    using run_stream_delivers [of _ "[(''{o}'', [CR, LF], False), (''{x}'', [LF], False)]" _ id demo_validate "[CommandOutputEvent STDOUT ''hi'']" "CommandExitEvent 0 None None None None False"]
    by (simp add: demo_validate_def)
qed

end
