(* ===== verification/Guest_Files.thy ===== *)
theory Guest_Files
  imports Effects
begin

unbundle bit_operations_syntax

text \<open>
  Unpacking a directory that a guest sends as a tar archive (\<open>_safe_extract_tar\<close> of \<open>comm/rust_http_vsock_channel.py\<close>). The
  archive comes from an untrusted guest. The state is the tree of files below the destination, by their path from there; a symbolic link in it
  may lead anywhere. A file operation on a path with a link on it acts on whatever the link leads to: the model records it in \<open>xs_outside\<close>. What an operation
  of the host answers is a field of \<open>extract_env\<close>, as are the modes that new files get.
\<close>

section \<open>Files below the destination\<close>

type_synonym rel_path = "string list"

datatype tree_entry = T_FOLDER int | T_FILE string int | T_LINK

record extraction =
  xs_tree :: "rel_path \<Rightarrow> tree_entry option"
  xs_outside :: "rel_path list"

record extract_env =
  xe_folder_mode :: int
  xe_file_mode :: int
  xe_mkdir :: "rel_path \<Rightarrow> unit result"
  xe_open :: "rel_path \<Rightarrow> unit result"
  xe_write :: "rel_path \<Rightarrow> unit result"
  xe_chmod :: "rel_path \<Rightarrow> unit result"

datatype member_kind = M_FOLDER | M_FILE | M_SPARSE | M_OTHER

text \<open>A member of the archive; \<open>tm_data\<close> is what reading it delivers, \<open>None\<close> when it has no data.\<close>

record tar_member =
  tm_name :: string
  tm_kind :: member_kind
  tm_size :: nat
  tm_mode :: int
  tm_data :: "string option"

type_synonym 'a xop = "(extraction, 'a) op"

definition cursors :: "rel_path \<Rightarrow> rel_path list" where
  "cursors p = map (\<lambda>n. take n p) [1..<Suc (length p)]"

definition link_on :: "(rel_path \<Rightarrow> tree_entry option) \<Rightarrow> rel_path \<Rightarrow> bool" where
  "link_on t p = list_ex (\<lambda>c. t c = Some T_LINK) (cursors p)"

fun is_folder :: "(rel_path \<Rightarrow> tree_entry option) \<Rightarrow> rel_path \<Rightarrow> bool" where
  "is_folder t [] = True"
| "is_folder t p = (case t p of Some (T_FOLDER _) \<Rightarrow> True | _ \<Rightarrow> False)"

definition set_entry :: "rel_path \<Rightarrow> tree_entry \<Rightarrow> unit xop" where
  "set_entry p e = modify (\<lambda>s. s\<lparr>xs_tree := (xs_tree s)(p \<mapsto> e)\<rparr>)"

text \<open>A file operation goes through the links on its path.\<close>

definition on_path :: "rel_path \<Rightarrow> unit xop \<Rightarrow> unit xop" where
  "on_path p action =
     bind (gets (\<lambda>s. link_on (xs_tree s) p)) (\<lambda>link.
       if link then modify (\<lambda>s. s\<lparr>xs_outside := p # xs_outside s\<rparr>)
       else bind (gets (\<lambda>s. is_folder (xs_tree s) (butlast p))) (\<lambda>folder.
              bind (raise_when (\<not> folder) (OSError ''Not a directory'')) (\<lambda>_. action)))"

text \<open>\<open>Path.mkdir(exist_ok=True)\<close>, \<open>Path.open("wb")\<close>, writing to the open file, and \<open>os.chmod\<close>\<close>

definition os_mkdir :: "extract_env \<Rightarrow> rel_path \<Rightarrow> unit xop" where
  "os_mkdir env p = on_path p
     (bind (gets (\<lambda>s. xs_tree s p)) (\<lambda>e.
        case e of
          Some (T_FOLDER _) \<Rightarrow> ret ()
        | Some _ \<Rightarrow> raise (OSError ''File exists'')
        | None \<Rightarrow> bind (lift (xe_mkdir env p)) (\<lambda>_. set_entry p (T_FOLDER (xe_folder_mode env)))))"

definition os_open :: "extract_env \<Rightarrow> rel_path \<Rightarrow> unit xop" where
  "os_open env p = on_path p
     (bind (gets (\<lambda>s. xs_tree s p)) (\<lambda>e.
        case e of
          Some (T_FOLDER _) \<Rightarrow> raise (OSError ''Is a directory'')
        | Some (T_FILE _ m) \<Rightarrow> bind (lift (xe_open env p)) (\<lambda>_. set_entry p (T_FILE [] m))
        | _ \<Rightarrow> bind (lift (xe_open env p)) (\<lambda>_. set_entry p (T_FILE [] (xe_file_mode env)))))"

definition os_write :: "extract_env \<Rightarrow> rel_path \<Rightarrow> string \<Rightarrow> unit xop" where
  "os_write env p data = on_path p
     (bind (lift (xe_write env p)) (\<lambda>_.
      bind (gets (\<lambda>s. xs_tree s p)) (\<lambda>e.
        case e of Some (T_FILE c m) \<Rightarrow> set_entry p (T_FILE (c @ data) m) | _ \<Rightarrow> ret ())))"

definition os_chmod :: "extract_env \<Rightarrow> rel_path \<Rightarrow> int \<Rightarrow> unit xop" where
  "os_chmod env p mode = on_path p
     (bind (lift (xe_chmod env p)) (\<lambda>_.
      bind (gets (\<lambda>s. xs_tree s p)) (\<lambda>e.
        case e of
          Some (T_FOLDER _) \<Rightarrow> set_entry p (T_FOLDER mode)
        | Some (T_FILE c _) \<Rightarrow> set_entry p (T_FILE c mode)
        | _ \<Rightarrow> raise (OSError ''No such file or directory''))))"

section \<open>Unpacking\<close>

definition safe_tar_member_mode :: "int \<Rightarrow> int" where
  "safe_tar_member_mode mode = mode AND 511"

fun split_slash :: "string \<Rightarrow> string list" where
  "split_slash [] = [[]]"
| "split_slash (c # s) =
     (if c = CHR ''/'' then [] # split_slash s
      else case split_slash s of [] \<Rightarrow> [[c]] | p # ps \<Rightarrow> (c # p) # ps)"

text \<open>The parts of a relative \<open>PurePosixPath\<close>: empty parts and single dots are gone.\<close>

definition path_parts :: "string \<Rightarrow> string list" where
  "path_parts name = filter (\<lambda>p. p \<noteq> [] \<and> p \<noteq> ''.'') (split_slash name)"

fun parts_loop :: "string \<Rightarrow> string list \<Rightarrow> string list \<Rightarrow> string list result" where
  "parts_loop name parts [] = Inr parts"
| "parts_loop name parts (part # rest) =
     (if part = [] \<or> part = ''.'' then parts_loop name parts rest
      else if part = ''..'' then Inl (CelestoError ''Refusing tar entry outside destination'')
      else parts_loop name (parts @ [part]) rest)"

definition safe_tar_member_path :: "string \<Rightarrow> rel_path option result" where
  "safe_tar_member_path name =
     (if name \<noteq> [] \<and> (hd name = CHR ''/'' \<or> hd name = CHR 0x5C) then Inl (CelestoError ''Refusing absolute tar entry'')
      else rbind (parts_loop name [] (path_parts name)) (\<lambda>parts. Inr (if parts = [] then None else Some parts)))"

definition refuse_link :: "rel_path \<Rightarrow> unit xop" where
  "refuse_link cursor =
     bind (gets (\<lambda>s. xs_tree s cursor = Some T_LINK)) (\<lambda>link.
       raise_when link (CelestoError ''Refusing tar extraction through symlink''))"

definition safe_mkdir :: "extract_env \<Rightarrow> rel_path \<Rightarrow> unit xop" where
  "safe_mkdir env target = for_each (\<lambda>cursor. bind (refuse_link cursor) (\<lambda>_. os_mkdir env cursor)) (cursors target)"

definition reject_symlink_path :: "rel_path \<Rightarrow> unit xop" where
  "reject_symlink_path target = for_each refuse_link (cursors target)"

text \<open>Reading the member in pieces of at most one MiB.\<close>

definition read_piece :: "nat \<Rightarrow> string \<Rightarrow> string" where
  "read_piece remaining data = take (nat (min (int remaining) (1024 * 1024))) data"

function copy_loop :: "extract_env \<Rightarrow> rel_path \<Rightarrow> nat \<Rightarrow> string \<Rightarrow> unit xop" where
  "copy_loop env target remaining data =
     (if remaining = 0 then ret ()
      else if read_piece remaining data = [] then raise (CelestoError ''Directory download is incomplete; retry the download.'')
      else bind (os_write env target (read_piece remaining data)) (\<lambda>_.
             copy_loop env target (remaining - length (read_piece remaining data)) (drop (length (read_piece remaining data)) data)))"
  by pat_completeness auto
termination
  by (relation "measure (\<lambda>(env, target, remaining, data). remaining)") auto

declare copy_loop.simps [simp del]

definition copy_data :: "extract_env \<Rightarrow> rel_path \<Rightarrow> nat \<Rightarrow> string \<Rightarrow> unit xop" where
  "copy_data env target n data = bind (os_open env target) (\<lambda>_. copy_loop env target n data)"

definition set_mode :: "extract_env \<Rightarrow> rel_path \<Rightarrow> int \<Rightarrow> unit xop" where
  "set_mode env target mode = unless (mode = 0) (os_chmod env target (safe_tar_member_mode mode))"

definition extract_member :: "extract_env \<Rightarrow> tar_member \<Rightarrow> unit xop" where
  "extract_member env m =
     bind (lift (safe_tar_member_path (tm_name m))) (\<lambda>relative.
       case relative of
         None \<Rightarrow> ret ()
       | Some target \<Rightarrow>
           if tm_kind m = M_FOLDER
           then bind (safe_mkdir env target) (\<lambda>_. set_mode env target (tm_mode m))
           else
             bind (raise_when (tm_kind m \<noteq> M_FILE) (CelestoError ''Refusing unsupported tar entry'')) (\<lambda>_.
             bind (safe_mkdir env (butlast target)) (\<lambda>_.
             bind (reject_symlink_path target) (\<lambda>_.
               case tm_data m of
                 None \<Rightarrow> raise (CelestoError ''Tar entry has no data'')
               | Some data \<Rightarrow>
                   bind (copy_data env target (tm_size m) data) (\<lambda>_. set_mode env target (tm_mode m))))))"

fun extract_loop :: "extract_env \<Rightarrow> nat \<Rightarrow> nat \<Rightarrow> tar_member list \<Rightarrow> unit xop" where
  "extract_loop env k sofar [] = ret ()"
| "extract_loop env k sofar (m # members) =
     bind (raise_when (tm_kind m = M_SPARSE) (CelestoError ''Refusing sparse download entries; download ordinary files instead.'')) (\<lambda>_.
     bind (raise_when (int k > 10000 \<or> int (tm_size m) > 256 * 1024 * 1024 \<or> int sofar + int (tm_size m) > 1024 * 1024 * 1024)
            (CelestoError ''Directory download exceeds its size limit; download fewer files.'')) (\<lambda>_.
     bind (extract_member env m) (\<lambda>_.
       extract_loop env (k + 1) (sofar + tm_size m) members)))"

definition safe_extract_tar :: "extract_env \<Rightarrow> tar_member list \<Rightarrow> unit xop" where
  "safe_extract_tar env members = extract_loop env 1 0 members"

section \<open>Unpacking stays below the destination\<close>

fun entry_mode :: "tree_entry \<Rightarrow> int option" where
  "entry_mode (T_FOLDER m) = Some m"
| "entry_mode (T_FILE _ m) = Some m"
| "entry_mode T_LINK = None"

fun same_kind :: "tree_entry \<Rightarrow> tree_entry \<Rightarrow> bool" where
  "same_kind (T_FOLDER _) (T_FOLDER _) = True"
| "same_kind (T_FILE _ _) (T_FILE _ _) = True"
| "same_kind T_LINK T_LINK = True"
| "same_kind _ _ = False"

lemma same_kind_simps [simp]: "same_kind e T_LINK \<longleftrightarrow> e = T_LINK" "same_kind T_LINK e \<longleftrightarrow> e = T_LINK" "same_kind e e"
  by (cases e; simp)+

lemma same_kind_trans: "same_kind a b \<Longrightarrow> same_kind b c \<Longrightarrow> same_kind a c"
  by (cases a; cases b; cases c) auto

text \<open>The modes that an entry may have: the one it had, that of a new file or folder, or plain permissions.\<close>

definition mode_allowed :: "extract_env \<Rightarrow> tree_entry option \<Rightarrow> tree_entry \<Rightarrow> bool" where
  "mode_allowed env old e \<longleftrightarrow> (\<forall>m. entry_mode e = Some m \<longrightarrow>
     m = xe_folder_mode env \<or> m = xe_file_mode env \<or> 0 \<le> m \<and> m \<le> 511 \<or> Option.bind old entry_mode = Some m)"

text \<open>What unpacking has done so far, when only the paths \<open>P\<close> are its own.\<close>

definition entry_within :: "extract_env \<Rightarrow> rel_path set \<Rightarrow> rel_path \<Rightarrow> tree_entry option \<Rightarrow> tree_entry option \<Rightarrow> bool" where
  "entry_within env P p old new \<longleftrightarrow>
     (case old of None \<Rightarrow> new \<noteq> Some T_LINK | Some e \<Rightarrow> (\<exists>e'. new = Some e' \<and> same_kind e e')) \<and>
     (\<forall>e. new = Some e \<longrightarrow> mode_allowed env old e) \<and> (new \<noteq> old \<longrightarrow> p \<in> P)"

definition within :: "extract_env \<Rightarrow> rel_path set \<Rightarrow> extraction \<Rightarrow> extraction \<Rightarrow> bool" where
  "within env P s0 s \<longleftrightarrow> xs_outside s = xs_outside s0 \<and> (\<forall>p. entry_within env P p (xs_tree s0 p) (xs_tree s p))"

lemma within_refl: "within env P s s"
  by (auto simp: within_def entry_within_def mode_allowed_def split: option.split)

lemma within_entry: "within env P s0 s \<Longrightarrow> entry_within env P p (xs_tree s0 p) (xs_tree s p)"
  by (simp add: within_def)

lemma within_link: "within env P s0 s \<Longrightarrow> xs_tree s p = Some T_LINK \<longleftrightarrow> xs_tree s0 p = Some T_LINK"
  using within_entry [of env P s0 s p] by (auto simp: entry_within_def split: option.splits)

lemma within_link_on: "within env P s0 s \<Longrightarrow> link_on (xs_tree s) p = link_on (xs_tree s0) p"
  by (simp add: link_on_def within_link)

lemma within_set:
  assumes "within env P s0 s" "p \<in> P" "e \<noteq> T_LINK" "mode_allowed env (xs_tree s0 p) e"
    "case xs_tree s p of None \<Rightarrow> True | Some e' \<Rightarrow> same_kind e' e"
  shows "within env P s0 (s\<lparr>xs_tree := (xs_tree s)(p \<mapsto> e)\<rparr>)"
proof -
  have "entry_within env P p (xs_tree s0 p) (Some e)"
    using within_entry [OF assms(1), of p] assms(2-5) by (auto simp: entry_within_def split: option.splits intro: same_kind_trans)
  then show ?thesis using assms(1) by (simp add: within_def)
qed

lemma mode_kept:
  assumes "within env P s0 s" "xs_tree s p = Some e'" "entry_mode e = entry_mode e'"
  shows "mode_allowed env (xs_tree s0 p) e"
  using within_entry [OF assms(1), of p] assms(2,3) by (auto simp: entry_within_def mode_allowed_def)

lemma mode_plain: "mode_allowed env old (T_FOLDER (m AND 511))" "mode_allowed env old (T_FILE c (m AND 511))"
  using AND_lower [of 511 m] AND_upper2 [of 511 m] by (simp_all add: mode_allowed_def and.commute)

named_theorems safely \<open>operations that stay within the destination\<close>

lemma wpre_on_path:
  assumes "within env P s0 s" "\<not> link_on (xs_tree s0) p" "wpre action (\<lambda>_. within env P s0) (\<lambda>_. within env P s0) s"
  shows "wpre (on_path p action) (\<lambda>_. within env P s0) (\<lambda>_. within env P s0) s"
  using assms within_link_on [OF assms(1), of p] by (simp add: on_path_def wp)

lemma safely_os [safely]:
  assumes "within env P s0 s" "\<not> link_on (xs_tree s0) p" "p \<in> P" "p \<noteq> []"
  shows "wpre (os_mkdir env p) (\<lambda>_. within env P s0) (\<lambda>_. within env P s0) s"
    "wpre (os_open env p) (\<lambda>_. within env P s0) (\<lambda>_. within env P s0) s"
    "wpre (os_write env p d) (\<lambda>_. within env P s0) (\<lambda>_. within env P s0) s"
    "wpre (os_chmod env p (m AND 511)) (\<lambda>_. within env P s0) (\<lambda>_. within env P s0) s"
proof -
  have p: "p \<in> set (cursors p)" using assms(4) by (auto simp: cursors_def intro!: image_eqI [of _ _ "length p"] simp: Suc_le_eq)
  then have "xs_tree s0 p \<noteq> Some T_LINK" using assms(2) by (auto simp: link_on_def list_ex_iff)
  then have nolink: "xs_tree s p \<noteq> Some T_LINK" using within_link [OF assms(1)] by blast
  note set = within_set [OF assms(1,3)] and kept = mode_kept [OF assms(1)]
  consider (none) "xs_tree s p = None" | (folder) f where "xs_tree s p = Some (T_FOLDER f)" | (regular) c f where "xs_tree s p = Some (T_FILE c f)"
    using nolink by (metis not_Some_eq tree_entry.exhaust)
  note cases = this
  have new: "mode_allowed env old (T_FOLDER (xe_folder_mode env))" "mode_allowed env old (T_FILE c (xe_file_mode env))" for old c
    by (simp_all add: mode_allowed_def)
  show "wpre (os_mkdir env p) (\<lambda>_. within env P s0) (\<lambda>_. within env P s0) s"
    unfolding os_mkdir_def
    by (rule wpre_on_path [OF assms(1,2)], cases rule: cases) (use assms(1) in \<open>simp_all add: wp set_entry_def set new split: sum.split\<close>)
  show "wpre (os_open env p) (\<lambda>_. within env P s0) (\<lambda>_. within env P s0) s"
    unfolding os_open_def
    by (rule wpre_on_path [OF assms(1,2)], cases rule: cases) (use assms(1) in \<open>simp_all add: wp set_entry_def set kept new split: sum.split\<close>)
  show "wpre (os_write env p d) (\<lambda>_. within env P s0) (\<lambda>_. within env P s0) s"
    unfolding os_write_def
    by (rule wpre_on_path [OF assms(1,2)], cases rule: cases) (use assms(1) in \<open>simp_all add: wp set_entry_def set kept split: sum.split\<close>)
  show "wpre (os_chmod env p (m AND 511)) (\<lambda>_. within env P s0) (\<lambda>_. within env P s0) s"
    unfolding os_chmod_def
    by (rule wpre_on_path [OF assms(1,2)], cases rule: cases) (use assms(1) in \<open>simp_all add: wp set_entry_def set mode_plain split: sum.split\<close>)
qed

lemma cursors_snoc: "k < length p \<Longrightarrow> map (\<lambda>n. take n p) [1..<Suc (Suc k)] = map (\<lambda>n. take n p) [1..<Suc k] @ [take (Suc k) p]"
  by simp

lemma wpre_for_each_snoc:
  "wpre (for_each f (xs @ [y])) Q R s \<longleftrightarrow> wpre (for_each f xs) (\<lambda>_. wpre (f y) Q R) R s"
proof (induction xs arbitrary: s)
  case Nil
  show ?case by (simp add: wpre_def bind_def ret_def split: prod.split sum.split)
next
  case (Cons x xs)
  have "wpre (for_each f (xs @ [y])) Q R = wpre (for_each f xs) (\<lambda>_. wpre (f y) Q R) R" by (rule ext) (rule Cons.IH)
  then show ?case by (simp add: wpre_bind)
qed

lemma cursor_clear:
  assumes "k \<le> length p" "\<forall>n\<in>{1..k}. t (take n p) \<noteq> Some T_LINK"
  shows "\<not> link_on t (take k p)"
  using assms by (auto simp: link_on_def list_ex_iff cursors_def min_def)

text \<open>A loop over the cursors of a path that refuses links: where it gets to, no link is on the way.\<close>

lemma wpre_along:
  assumes act: "\<And>c s. within env P s0 s \<Longrightarrow> \<not> link_on (xs_tree s0) c \<Longrightarrow> c \<in> set (cursors p) \<Longrightarrow>
      wpre (act c) (\<lambda>_. within env P s0) (\<lambda>_. within env P s0) s"
    and start: "within env P s0 s"
  shows "wpre (for_each (\<lambda>c. bind (refuse_link c) (\<lambda>_. act c)) (cursors p))
      (\<lambda>_ s'. within env P s0 s' \<and> \<not> link_on (xs_tree s0) p) (\<lambda>_. within env P s0) s"
proof -
  have "wpre (for_each (\<lambda>c. bind (refuse_link c) (\<lambda>_. act c)) (map (\<lambda>n. take n p) [1..<Suc k]))
      (\<lambda>_ s'. within env P s0 s' \<and> (\<forall>n\<in>{1..k}. xs_tree s0 (take n p) \<noteq> Some T_LINK)) (\<lambda>_. within env P s0) s" if "k \<le> length p" for k
    using that
  proof (induction k)
    case 0
    then show ?case using start by (simp add: wpre_basic)
  next
    case (Suc k)
    then have k: "k < length p" by simp
    have step: "wpre (bind (refuse_link (take (Suc k) p)) (\<lambda>_. act (take (Suc k) p)))
        (\<lambda>_ s'. within env P s0 s' \<and> (\<forall>n\<in>{1..Suc k}. xs_tree s0 (take n p) \<noteq> Some T_LINK)) (\<lambda>_. within env P s0) s1"
      if s1: "within env P s0 s1" and clear: "\<forall>n\<in>{1..k}. xs_tree s0 (take n p) \<noteq> Some T_LINK" for s1
    proof (cases "xs_tree s1 (take (Suc k) p) = Some T_LINK")
      case False
      then have all: "\<forall>n\<in>{1..Suc k}. xs_tree s0 (take n p) \<noteq> Some T_LINK"
        using clear within_link [OF s1] by (auto simp: le_Suc_eq)
      have "take (Suc k) p \<in> set (cursors p)" using k by (auto simp: cursors_def simp del: upt_Suc)
      from act [OF s1 cursor_clear [OF Suc.prems all] this] show ?thesis
        using False all by (auto simp: refuse_link_def wp elim!: wpre_mono)
    qed (use s1 in \<open>simp add: refuse_link_def wp\<close>)
    show ?case
      unfolding cursors_snoc [OF k] wpre_for_each_snoc
      by (rule wpre_mono [OF Suc.IH]) (use k step in auto)
  qed
  from this [of "length p"] show ?thesis
    unfolding cursors_def by (rule wpre_mono) (use cursor_clear [of "length p" p "xs_tree s0"] in auto)
qed

lemma safely_mkdir:
  assumes "within env P s0 s" "set (cursors p) \<subseteq> P"
  shows "wpre (safe_mkdir env p) (\<lambda>_ s'. within env P s0 s' \<and> \<not> link_on (xs_tree s0) p) (\<lambda>_. within env P s0) s"
  unfolding safe_mkdir_def
proof (rule wpre_along [OF _ assms(1)])
  fix c s1 assume "within env P s0 s1" "\<not> link_on (xs_tree s0) c" "c \<in> set (cursors p)"
  moreover from this(3) have "c \<in> P" "c \<noteq> []" using assms(2) by (auto simp: cursors_def simp del: upt_Suc)
  ultimately show "wpre (os_mkdir env c) (\<lambda>_. within env P s0) (\<lambda>_. within env P s0) s1" by (intro safely_os)
qed

lemma safely_reject:
  assumes "within env P s0 s"
  shows "wpre (reject_symlink_path p) (\<lambda>_ s'. within env P s0 s' \<and> \<not> link_on (xs_tree s0) p) (\<lambda>_. within env P s0) s"
proof -
  have "refuse_link = (\<lambda>c. bind (refuse_link c) (\<lambda>_. ret ()))"
    by (simp add: fun_eq_iff refuse_link_def bind_def ret_def raise_when_def raise_def gets_def)
  then show ?thesis
    unfolding reject_symlink_path_def using wpre_along [of env P s0 p "\<lambda>_. ret ()" s] assms by (simp add: wpre_basic)
qed

lemma safely_copy:
  assumes "\<not> link_on (xs_tree s0) p" "p \<in> P" "p \<noteq> []"
  shows "within env P s0 s \<Longrightarrow> wpre (copy_loop env p n data) (\<lambda>_. within env P s0) (\<lambda>_. within env P s0) s"
proof (induction n arbitrary: data s rule: less_induct)
  case (less n)
  show ?case
  proof (cases "n = 0 \<or> read_piece n data = []")
    case True
    then show ?thesis using less.prems copy_loop.simps [of env p n data] by (auto simp: wpre_basic)
  next
    case False
    then have "n - length (read_piece n data) < n" by simp
    note IH = less.IH [OF this]
    have "copy_loop env p n data = bind (os_write env p (read_piece n data)) (\<lambda>_.
        copy_loop env p (n - length (read_piece n data)) (drop (length (read_piece n data)) data))"
      using False copy_loop.simps [of env p n data] by simp
    then show ?thesis
      using IH by (auto simp: wpre_bind intro: wpre_mono [OF safely_os(3) [OF less.prems assms]])
  qed
qed

lemma safely_data:
  assumes "within env P s0 s" "\<not> link_on (xs_tree s0) p" "p \<in> P" "p \<noteq> []"
  shows "wpre (copy_data env p n data) (\<lambda>_. within env P s0) (\<lambda>_. within env P s0) s"
  unfolding copy_data_def wpre_bind
  by (rule wpre_mono [OF safely_os(2) [OF assms]]) (use safely_copy [OF assms(2-4)] in auto)

lemma safely_mode:
  assumes "within env P s0 s" "\<not> link_on (xs_tree s0) p" "p \<in> P" "p \<noteq> []"
  shows "wpre (set_mode env p m) (\<lambda>_. within env P s0) (\<lambda>_. within env P s0) s"
  unfolding set_mode_def safe_tar_member_mode_def using safely_os(4) [OF assms, of m] assms(1) by (simp add: wpre_unless)

text \<open>The paths of a member: its target and the folders on the way.\<close>

definition member_paths :: "tar_member \<Rightarrow> rel_path set" where
  "member_paths m = (case safe_tar_member_path (tm_name m) of Inr (Some p) \<Rightarrow> set (cursors p) | _ \<Rightarrow> {})"

lemma cursors_butlast: "set (cursors (butlast p)) \<subseteq> set (cursors p)"
  by (auto simp: cursors_def butlast_conv_take simp del: upt_Suc)

lemma cursors_self: "p \<noteq> [] \<Longrightarrow> p \<in> set (cursors p)"
  by (auto simp: cursors_def Suc_le_eq simp del: upt_Suc intro!: image_eqI [of _ _ "length p"])

lemma safely_member:
  assumes "within env P s0 s" "member_paths m \<subseteq> P"
  shows "wpre (extract_member env m) (\<lambda>_. within env P s0) (\<lambda>_. within env P s0) s"
proof (cases "\<exists>p. safe_tar_member_path (tm_name m) = Inr (Some p)")
  case False
  then show ?thesis using assms(1) unfolding extract_member_def
    by (cases "safe_tar_member_path (tm_name m)") (auto simp: wp split: option.split)
next
  case True
  then obtain p where p: "safe_tar_member_path (tm_name m) = Inr (Some p)" by blast
  then have "p \<noteq> []" by (auto simp: safe_tar_member_path_def result_iff split: if_splits)
  have P: "set (cursors p) \<subseteq> P" using assms(2) p by (simp add: member_paths_def)
  then have own: "p \<in> P" "p \<noteq> []" "set (cursors (butlast p)) \<subseteq> P"
    using cursors_self [OF \<open>p \<noteq> []\<close>] cursors_butlast [of p] \<open>p \<noteq> []\<close> by auto
  have mode: "wpre (set_mode env p (tm_mode m)) (\<lambda>_. within env P s0) (\<lambda>_. within env P s0) s1"
    if "within env P s0 s1" "\<not> link_on (xs_tree s0) p" for s1
    using safely_mode [OF that own(1,2)] .
  have folder: "wpre (bind (safe_mkdir env p) (\<lambda>_. set_mode env p (tm_mode m))) (\<lambda>_. within env P s0) (\<lambda>_. within env P s0) s"
    unfolding wpre_bind by (rule wpre_mono [OF safely_mkdir [OF assms(1) P]]) (use mode in auto)
  have data: "wpre (bind (copy_data env p n d) (\<lambda>_. set_mode env p (tm_mode m))) (\<lambda>_. within env P s0) (\<lambda>_. within env P s0) s1"
    if "within env P s0 s1" "\<not> link_on (xs_tree s0) p" for n d s1
    unfolding wpre_bind by (rule wpre_mono [OF safely_data [OF that own(1,2)]]) (use mode that(2) in auto)
  have content: "wpre (case tm_data m of None \<Rightarrow> raise e | Some d \<Rightarrow> bind (copy_data env p n d) (\<lambda>_. set_mode env p (tm_mode m)))
      (\<lambda>_. within env P s0) (\<lambda>_. within env P s0) s1" if "within env P s0 s1" "\<not> link_on (xs_tree s0) p" for e n s1
    using data that by (cases "tm_data m") (simp_all add: wpre_basic)
  have regular: "wpre (bind (safe_mkdir env (butlast p)) (\<lambda>_. bind (reject_symlink_path p) (\<lambda>_.
      case tm_data m of None \<Rightarrow> raise e | Some d \<Rightarrow> bind (copy_data env p n d) (\<lambda>_. set_mode env p (tm_mode m)))))
      (\<lambda>_. within env P s0) (\<lambda>_. within env P s0) s" for e n
    unfolding wpre_bind [of "safe_mkdir _ _"] wpre_bind [of "reject_symlink_path _"]
    by (rule wpre_mono [OF safely_mkdir [OF assms(1) own(3)]], erule conjE, rule wpre_mono [OF safely_reject], assumption)
      (use content in auto)
  show ?thesis
    unfolding extract_member_def p wpre_bind [of "lift _"] wpre_lift
    using folder regular assms(1) by (simp add: wpre_bind [of "raise_when _ _"] wpre_raise_when)
qed

lemma safely_loop:
  assumes "within env P s0 s" "\<forall>m\<in>set ms. member_paths m \<subseteq> P"
  shows "wpre (extract_loop env k n ms)
     (\<lambda>_ s'. within env P s0 s' \<and> (ms \<noteq> [] \<longrightarrow> k + length ms \<le> 10001 \<and> int (n + sum_list (map tm_size ms)) \<le> 1024 * 1024 * 1024))
     (\<lambda>_. within env P s0) s"
  using assms
proof (induction ms arbitrary: k n s)
  case Nil
  then show ?case by (simp add: wpre_basic)
next
  case (Cons m ms)
  show ?case
  proof (cases "tm_kind m = M_SPARSE \<or> int k > 10000 \<or> int (tm_size m) > 256 * 1024 * 1024 \<or> int n + int (tm_size m) > 1024 * 1024 * 1024")
    case True
    then show ?thesis using Cons.prems(1) by (auto simp: wp)
  next
    case False
    have "wpre (extract_loop env (k + 1) (n + tm_size m) ms)
        (\<lambda>_ s'. within env P s0 s' \<and> k + length (m # ms) \<le> 10001 \<and> int (n + sum_list (map tm_size (m # ms))) \<le> 1024 * 1024 * 1024)
        (\<lambda>_. within env P s0) s1" if "within env P s0 s1" for s1
      using Cons.IH [OF that, of "k + 1" "n + tm_size m"] Cons.prems(2) False
      by (cases ms) (auto elim!: wpre_mono)
    moreover have "member_paths m \<subseteq> P" using Cons.prems(2) by simp
    ultimately show ?thesis
      using False by (auto simp: wpre_bind wpre_raise_when intro!: wpre_mono [OF safely_member [OF Cons.prems(1)]])
  qed
qed


text \<open>A part of a path that names an entry of its folder.\<close>

definition plain_part :: "string \<Rightarrow> bool" where
  "plain_part c \<longleftrightarrow> c \<noteq> [] \<and> c \<noteq> ''.'' \<and> c \<noteq> ''..'' \<and> CHR ''/'' \<notin> set c"

lemma split_slash_parts: "c \<in> set (split_slash name) \<Longrightarrow> CHR ''/'' \<notin> set c"
proof (induction name arbitrary: c)
  case (Cons x name)
  then show ?case by (cases "split_slash name") (auto split: if_splits)
qed simp

lemma parts_loop_plain:
  assumes "parts_loop name parts rest = Inr out" "list_all plain_part parts" "\<forall>c\<in>set rest. CHR ''/'' \<notin> set c"
  shows "list_all plain_part out"
  using assms
proof (induction name parts rest rule: parts_loop.induct)
  case (2 name parts part rest)
  show ?case
  proof (cases "part = [] \<or> part = ''.''")
    case True
    then show ?thesis using 2 by simp
  next
    case False
    then have "part \<noteq> ''..''" using "2.prems"(1) by auto
    then show ?thesis using False 2 by (simp add: plain_part_def)
  qed
qed simp

lemma member_paths_plain:
  assumes "p \<in> member_paths m"
  shows "list_all plain_part p"
proof -
  obtain q where q: "safe_tar_member_path (tm_name m) = Inr (Some q)" "p \<in> set (cursors q)"
    using assms by (auto simp: member_paths_def split: sum.splits option.splits)
  have "list_all plain_part q"
    using q(1) parts_loop_plain [of "tm_name m" "[]" "path_parts (tm_name m)"] split_slash_parts
    by (auto simp: safe_tar_member_path_def result_iff path_parts_def split: if_splits)
  then show ?thesis using q(2) by (auto simp: cursors_def list_all_iff simp del: upt_Suc dest: in_set_takeD)
qed


text \<open>A guest sends a program with the set-user bit and then a file through a link that is already there.\<close>

definition demo_extract_env :: extract_env where
  "demo_extract_env = \<lparr>xe_folder_mode = 493, xe_file_mode = 420, xe_mkdir = (\<lambda>_. Inr ()), xe_open = (\<lambda>_. Inr ()), xe_write = (\<lambda>_. Inr ()), xe_chmod = (\<lambda>_. Inr ())\<rparr>"

definition demo_members :: "tar_member list" where
  "demo_members =
     [\<lparr>tm_name = ''bin/./tool'', tm_kind = M_FILE, tm_size = 2, tm_mode = 2541, tm_data = Some ''hi''\<rparr>,
      \<lparr>tm_name = ''out/passwd'', tm_kind = M_FILE, tm_size = 1, tm_mode = 420, tm_data = Some ''x''\<rparr>]"

definition demo_extraction :: extraction where
  "demo_extraction = \<lparr>xs_tree = [[''out''] \<mapsto> T_LINK], xs_outside = []\<rparr>"

lemma demo_extract:
  "fst (safe_extract_tar demo_extract_env demo_members demo_extraction) = Inl (CelestoError ''Refusing tar extraction through symlink'')"
  "xs_tree (snd (safe_extract_tar demo_extract_env demo_members demo_extraction)) [''bin'', ''tool''] = Some (T_FILE ''hi'' 493)"
  by code_simp+


end
