(* ===== verification/Terminal_Frames.thy ===== *)
theory Terminal_Frames
  imports Model_Types "HOL-Library.Word"
begin

text \<open>
  The frames of an interactive shell (\<open>comm/rust_http_vsock_channel.py\<close>): one byte for the type, four bytes for the size, the payload. A
  socket is the bytes that are still to come and, for each call of \<open>recv\<close>, how many of them arrive at most. The terminal's settings, window
  changes and the direction from the keyboard to the guest are left out; the meaning of an exit frame is a parameter.
\<close>

section \<open>Sockets\<close>

record sock =
  sk_data :: string
  sk_cuts :: "nat list"

definition recv :: "nat \<Rightarrow> sock \<Rightarrow> string \<times> sock" where
  "recv n s =
     (let k = (case sk_cuts s of [] \<Rightarrow> n | c # _ \<Rightarrow> max 1 (min n c))
      in (take k (sk_data s), \<lparr>sk_data = drop k (sk_data s), sk_cuts = tl (sk_cuts s)\<rparr>))"

datatype terminal_error = EOFError string | Refused celesto_error

type_synonym 'a received = "(terminal_error + 'a) \<times> sock"

lemma recv_split: "recv n s = (chunk, s') \<Longrightarrow> sk_data s = chunk @ sk_data s'"
  by (auto simp: recv_def Let_def)

function recv_loop :: "nat \<Rightarrow> string \<Rightarrow> sock \<Rightarrow> string received" where
  "recv_loop n chunks s =
     (if length chunks < n
      then (case recv (n - length chunks) s of (chunk, s') \<Rightarrow>
              if chunk = [] then (Inl (EOFError ''terminal stream closed''), s')
              else recv_loop n (chunks @ chunk) s')
      else (Inr chunks, s))"
  by pat_completeness auto
termination
  by (relation "measure (\<lambda>(n, chunks, s). n - length chunks)") (auto intro: diff_less_mono2)

declare recv_loop.simps [simp del]

definition recv_exact :: "nat \<Rightarrow> sock \<Rightarrow> string received" where
  "recv_exact n s = recv_loop n [] s"

section \<open>Frames\<close>

definition DEFAULT_MAX_TERMINAL_FRAME_BYTES :: int where
  "DEFAULT_MAX_TERMINAL_FRAME_BYTES = 1024 * 1024"

definition TERMINAL_FRAME_OUTPUT :: int where "TERMINAL_FRAME_OUTPUT = 101"

definition TERMINAL_FRAME_EXIT :: int where "TERMINAL_FRAME_EXIT = 102"

definition TERMINAL_FRAME_ERROR :: int where "TERMINAL_FRAME_ERROR = 103"

text \<open>\<open>n.to_bytes(4, "big")\<close> and \<open>int.from_bytes(b, "big")\<close>, through a 32-bit word\<close>

definition to_bytes :: "32 word \<Rightarrow> string" where
  "to_bytes n = map (\<lambda>k. char_of (unat (drop_bit k n) mod 256)) [24, 16, 8, 0]"

definition from_bytes :: "string \<Rightarrow> int" where
  "from_bytes b = foldl (\<lambda>n c. 256 * n + int (of_char c)) 0 b"

definition pack_terminal_frame :: "int \<Rightarrow> string \<Rightarrow> string result" where
  "pack_terminal_frame frame_type payload =
     (if \<not> (0 \<le> frame_type \<and> frame_type \<le> 255) then Inl (ValueError ''frame_type must fit in one byte'')
      else if int (length payload) > DEFAULT_MAX_TERMINAL_FRAME_BYTES then Inl (ValueError ''terminal frame payload exceeds 1048576 bytes'')
      else Inr ([char_of (nat frame_type)] @ to_bytes (of_nat (length payload)) @ payload))"

definition read_terminal_frame :: "int \<Rightarrow> sock \<Rightarrow> (int \<times> string) received" where
  "read_terminal_frame max_payload s =
     (case recv_exact 5 s of
        (Inl e, s') \<Rightarrow> (Inl e, s')
      | (Inr header, s') \<Rightarrow>
          (let n = from_bytes (tl header) in
           if n > max_payload then (Inl (Refused (CelestoError ''Terminal response exceeded the limit'')), s')
           else case recv_exact (nat n) s' of
               (Inl e, s'') \<Rightarrow> (Inl e, s'')
             | (Inr payload, s'') \<Rightarrow> (Inr (int (of_char (hd header)), payload), s'')))"

lemma recv_loop_takes:
  "recv_loop n chunks s = (Inr out, s') \<Longrightarrow> n \<le> length out \<and> (\<exists>d. out = chunks @ d \<and> sk_data s = d @ sk_data s')"
proof (induction n chunks s rule: recv_loop.induct)
  case (1 n chunks s)
  obtain chunk t where r: "recv (n - length chunks) s = (chunk, t)" by fastforce
  note split = recv_split [OF r]
  show ?case
  proof (cases "length chunks < n \<and> chunk \<noteq> []")
    case True
    then have "recv_loop n (chunks @ chunk) t = (Inr out, s')" using 1(2) r recv_loop.simps [of n chunks s] by simp
    from 1(1) [OF _ r [symmetric] _ this] True show ?thesis using split by auto
  next
    case False
    then show ?thesis using 1(2) r recv_loop.simps [of n chunks s] by (auto split: if_splits)
  qed
qed

lemma read_frame_shorter:
  assumes "read_terminal_frame m s = (Inr f, s')"
  shows "length (sk_data s') < length (sk_data s)"
proof -
  obtain header t where h: "recv_loop 5 [] s = (Inr header, t)" "recv_loop (nat (from_bytes (tl header))) [] t = (Inr (snd f), s')"
    using assms unfolding read_terminal_frame_def recv_exact_def by (auto simp: Let_def split: prod.splits sum.splits if_splits)
  from recv_loop_takes [OF h(1)] recv_loop_takes [OF h(2)] show ?thesis by auto
qed

text \<open>What the shell writes and how it ends: the side of \<open>_run_terminal_io\<close> that reads from the socket\<close>

function terminal_loop :: "(string \<Rightarrow> int result) \<Rightarrow> int \<Rightarrow> string \<Rightarrow> sock \<Rightarrow> string \<times> int result" where
  "terminal_loop exit_code max_frame_bytes out s =
     (case read_terminal_frame max_frame_bytes s of
        (Inl (EOFError _), _) \<Rightarrow> (out, Inl (CelestoError ''Shell connection closed before the shell exited.''))
      | (Inl (Refused e), _) \<Rightarrow> (out, Inl e)
      | (Inr (frame_type, payload), s') \<Rightarrow>
          if frame_type = TERMINAL_FRAME_OUTPUT then terminal_loop exit_code max_frame_bytes (out @ payload) s'
          else if frame_type = TERMINAL_FRAME_EXIT then (out, exit_code payload)
          else if frame_type = TERMINAL_FRAME_ERROR then (out, Inl (CelestoError payload))
          else (out, Inl (CelestoError ''Unknown terminal response frame'')))"
  by pat_completeness auto
termination
  by (relation "measure (\<lambda>(_, _, _, s). length (sk_data s))") (auto dest: read_frame_shorter [OF sym])

declare terminal_loop.simps [simp del]

section \<open>Frames survive the transport\<close>

text \<open>Reading an exact number of bytes does not depend on how they arrive.\<close>

lemma recv_progress:
  assumes "recv n s = (chunk, t)" "0 < n" "sk_data s \<noteq> []"
  shows "chunk \<noteq> []" "length chunk \<le> n"
  using assms by (auto simp: recv_def Let_def split: list.splits)

lemma recv_loop_exact:
  assumes "length chunks \<le> n" "n - length chunks \<le> length (sk_data s)"
  shows "\<exists>s'. recv_loop n chunks s = (Inr (chunks @ take (n - length chunks) (sk_data s)), s') \<and> sk_data s' = drop (n - length chunks) (sk_data s)"
  using assms
proof (induction n chunks s rule: recv_loop.induct)
  case (1 n chunks s)
  show ?case
  proof (cases "length chunks < n")
    case False
    then show ?thesis using "1.prems" recv_loop.simps [of n chunks s] by auto
  next
    case True
    obtain chunk t where r: "recv (n - length chunks) s = (chunk, t)" by fastforce
    have c: "chunk \<noteq> []" "length chunk \<le> n - length chunks"
      using recv_progress [OF r] True "1.prems" by (cases "sk_data s"; auto)+
    note split = recv_split [OF r]
    have "\<exists>s'. recv_loop n (chunks @ chunk) t = (Inr ((chunks @ chunk) @ take (n - length (chunks @ chunk)) (sk_data t)), s') \<and>
        sk_data s' = drop (n - length (chunks @ chunk)) (sk_data t)"
      using "1.prems" c split by (intro "1.IH" [OF True r [symmetric]]) auto
    moreover have "recv_loop n chunks s = recv_loop n (chunks @ chunk) t" using True c r recv_loop.simps [of n chunks s] by simp
    moreover have "take (n - length chunks) (sk_data s) = chunk @ take (n - length (chunks @ chunk)) (sk_data t)"
      "drop (n - length chunks) (sk_data s) = drop (n - length (chunks @ chunk)) (sk_data t)"
      using c split by auto
    ultimately show ?thesis by simp
  qed
qed

lemma recv_exact_prefix: "sk_data s = a @ b \<Longrightarrow> \<exists>s'. recv_exact (length a) s = (Inr a, s') \<and> sk_data s' = b"
  using recv_loop_exact [of "[]" "length a" s] by (auto simp: recv_exact_def)

lemma recv_loop_eof:
  assumes "length (sk_data s) < n - length chunks"
  shows "\<exists>s'. recv_loop n chunks s = (Inl (EOFError ''terminal stream closed''), s')"
  using assms
proof (induction n chunks s rule: recv_loop.induct)
  case (1 n chunks s)
  then have True: "length chunks < n" by simp
  obtain chunk t where r: "recv (n - length chunks) s = (chunk, t)" by fastforce
  show ?case
  proof (cases "chunk = []")
    case False
    then have "\<exists>s'. recv_loop n (chunks @ chunk) t = (Inl (EOFError ''terminal stream closed''), s')"
      using "1.prems" recv_split [OF r] by (intro "1.IH" [OF True r [symmetric]]) auto
    then show ?thesis using True False r recv_loop.simps [of n chunks s] by simp
  qed (use True r recv_loop.simps [of n chunks s] in simp)
qed

lemma from_to_bytes: "from_bytes (to_bytes n) = uint n"
proof -
  have "take_bit 32 (unat n) = unat n" using unsigned_less [of n, where 'a = nat] by (simp add: take_bit_eq_mod)
  then have d: "unat (drop_bit k n) = unat n div 2 ^ k" for k
    using unsigned_drop_bit_eq [of k n, where 'a = nat] by (simp add: drop_bit_eq_div)
  have "unat n < 2 ^ 32" using unsigned_less [of n, where 'a = nat] by simp
  then have top: "unat n div 2 ^ 24 mod 256 = unat n div 2 ^ 24" by (simp add: less_mult_imp_div_less)
  have step: "256 * (unat n div 2 ^ (k + 8)) + unat n div 2 ^ k mod 256 = unat n div 2 ^ k" for k
    by (simp add: power_add div_mult2_eq)
  have "256 * (256 * (256 * (unat n div 2 ^ 24 mod 256) + unat n div 2 ^ 16 mod 256) + unat n div 2 ^ 8 mod 256) + unat n mod 256 = unat n"
    using step [of 16] step [of 8] step [of 0] unfolding top by simp
  moreover have "from_bytes (to_bytes n) =
      int (256 * (256 * (256 * (unat n div 2 ^ 24 mod 256) + unat n div 2 ^ 16 mod 256) + unat n div 2 ^ 8 mod 256) + unat n mod 256)"
    using d [of 0] by (simp add: from_bytes_def to_bytes_def d)
  ultimately have "from_bytes (to_bytes n) = int (unat n)" by (simp only:)
  then show ?thesis by simp
qed

lemma to_bytes_length: "length (to_bytes n) = 4"
  by (simp add: to_bytes_def)

lemma pack_parts:
  assumes "pack_terminal_frame t p = Inr w"
  obtains header where "w = header @ p" "length header = 5" "int (of_char (hd header)) = t" "from_bytes (tl header) = int (length p)"
proof
  let ?h = "[char_of (nat t)] @ to_bytes (of_nat (length p))"
  have t: "0 \<le> t" "t \<le> 255" "int (length p) \<le> 1024 * 1024" and w: "w = ?h @ p"
    using assms by (auto simp: pack_terminal_frame_def DEFAULT_MAX_TERMINAL_FRAME_BYTES_def split: if_splits)
  show "w = ?h @ p" by (rule w)
  show "length ?h = 5" by (simp add: to_bytes_length)
  show "int (of_char (hd ?h)) = t" using t(1,2) by (simp add: nat_mod_distrib)
  have "uint (of_nat (length p) :: 32 word) = int (length p)" using t(3) by (simp add: unsigned_of_nat take_bit_nat_eq_self)
  then show "from_bytes (tl ?h) = int (length p)" by (simp add: from_to_bytes)
qed

lemma read_packed:
  assumes "pack_terminal_frame t p = Inr w" "int (length p) \<le> m" "sk_data s = w @ rest"
  shows "\<exists>s'. read_terminal_frame m s = (Inr (t, p), s') \<and> sk_data s' = rest"
proof -
  obtain header where h: "w = header @ p" "length header = 5" "int (of_char (hd header)) = t" "from_bytes (tl header) = int (length p)"
    using pack_parts [OF assms(1)] .
  obtain s1 where s1: "recv_exact 5 s = (Inr header, s1)" "sk_data s1 = p @ rest"
    using recv_exact_prefix [of s header "p @ rest"] h(1,2) assms(3) by auto
  obtain s2 where s2: "recv_exact (length p) s1 = (Inr p, s2)" "sk_data s2 = rest"
    using recv_exact_prefix [of s1 p rest] s1(2) by auto
  show ?thesis using s1(1) s2 h(3,4) assms(2) by (simp add: read_terminal_frame_def Let_def)
qed

lemma read_truncated:
  assumes "pack_terminal_frame t p = Inr w" "int (length p) \<le> m" "w = sk_data s @ b" "b \<noteq> []"
  shows "\<exists>s'. read_terminal_frame m s = (Inl (EOFError ''terminal stream closed''), s')"
proof -
  obtain header where h: "w = header @ p" "length header = 5" "from_bytes (tl header) = int (length p)"
    using pack_parts [OF assms(1)] by metis
  show ?thesis
  proof (cases "length (sk_data s) < 5")
    case True
    then show ?thesis using recv_loop_eof [of s 5 "[]"] by (auto simp: read_terminal_frame_def recv_exact_def)
  next
    case False
    then obtain a where a: "sk_data s = header @ a" "p = a @ b"
      using h(1,2) assms(3) by (metis append_eq_append_conv_if append_take_drop_id append_assoc linorder_not_less)
    obtain s1 where s1: "recv_exact 5 s = (Inr header, s1)" "sk_data s1 = a"
      using recv_exact_prefix [of s header a] h(2) a(1) by auto
    have "\<exists>s'. recv_loop (length p) [] s1 = (Inl (EOFError ''terminal stream closed''), s')"
      using s1(2) a(2) assms(4) by (intro recv_loop_eof) simp
    then show ?thesis using s1(1) h(3) assms(2) by (auto simp: read_terminal_frame_def recv_exact_def Let_def)
  qed
qed

lemma terminal_loop_output:
  assumes "list_all2 (\<lambda>p w. pack_terminal_frame TERMINAL_FRAME_OUTPUT p = Inr w \<and> int (length p) \<le> m) ps ws"
    "pack_terminal_frame TERMINAL_FRAME_EXIT e = Inr we" "int (length e) \<le> m" "sk_data s = concat ws @ we @ rest"
  shows "terminal_loop exit_code m out s = (out @ concat ps, exit_code e)"
  using assms(1,4)
proof (induction arbitrary: s out rule: list_all2_induct)
  case Nil
  then obtain s' where "read_terminal_frame m s = (Inr (TERMINAL_FRAME_EXIT, e), s')" using read_packed [OF assms(2,3), of s rest] by auto
  then show ?case using terminal_loop.simps [of exit_code m out s] by (simp add: TERMINAL_FRAME_EXIT_def TERMINAL_FRAME_OUTPUT_def)
next
  case (Cons p ps w ws)
  obtain s' where "read_terminal_frame m s = (Inr (TERMINAL_FRAME_OUTPUT, p), s')" "sk_data s' = concat ws @ we @ rest"
    using read_packed [of TERMINAL_FRAME_OUTPUT p w m s "concat ws @ we @ rest"] Cons by auto
  then show ?case using terminal_loop.simps [of exit_code m out s] Cons.IH by simp
qed

lemma terminal_loop_closed:
  assumes "list_all2 (\<lambda>p w. pack_terminal_frame TERMINAL_FRAME_OUTPUT p = Inr w \<and> int (length p) \<le> m) ps ws"
    "pack_terminal_frame TERMINAL_FRAME_EXIT e = Inr we" "int (length e) \<le> m" "concat ws @ we = sk_data s @ b" "b \<noteq> []"
  shows "\<exists>j. terminal_loop exit_code m out s =
      (out @ concat (take j ps), Inl (CelestoError ''Shell connection closed before the shell exited.''))"
  using assms(1,4)
proof (induction arbitrary: s out rule: list_all2_induct)
  case Nil
  then obtain s' where "read_terminal_frame m s = (Inl (EOFError ''terminal stream closed''), s')"
    using read_truncated [OF assms(2,3), of s b] assms(5) by auto
  then show ?case using terminal_loop.simps [of exit_code m out s] by simp
next
  case (Cons p ps w ws)
  show ?case
  proof (cases "length w \<le> length (sk_data s)")
    case True
    have "w @ (concat ws @ we) = sk_data s @ b" using Cons.prems by simp
    then have "w = take (length w) (sk_data s) \<and> concat ws @ we = drop (length w) (sk_data s) @ b"
      using True unfolding append_eq_append_conv_if by presburger
    then obtain d where d: "sk_data s = w @ d" "concat ws @ we = d @ b" by (metis append_take_drop_id)
    obtain s' where "read_terminal_frame m s = (Inr (TERMINAL_FRAME_OUTPUT, p), s')" "sk_data s' = d"
      using read_packed [of TERMINAL_FRAME_OUTPUT p w m s d] Cons(1) d(1) by auto
    moreover from this(2) obtain j where "terminal_loop exit_code m (out @ p) s' =
        ((out @ p) @ concat (take j ps), Inl (CelestoError ''Shell connection closed before the shell exited.''))"
      using Cons.IH [of s' "out @ p"] d(2) by auto
    ultimately have "terminal_loop exit_code m out s =
        (out @ concat (take (Suc j) (p # ps)), Inl (CelestoError ''Shell connection closed before the shell exited.''))"
      using terminal_loop.simps [of exit_code m out s] by simp
    then show ?thesis by blast
  next
    case False
    have "w @ (concat ws @ we) = sk_data s @ b" using Cons.prems by simp
    then have "take (length (sk_data s)) w = sk_data s" using False unfolding append_eq_append_conv_if by presburger
    then have "w = sk_data s @ drop (length (sk_data s)) w" "drop (length (sk_data s)) w \<noteq> []"
      using False append_take_drop_id [of "length (sk_data s)" w] by simp_all
    then obtain d where "w = sk_data s @ d" "d \<noteq> []" by blast
    then obtain s' where "read_terminal_frame m s = (Inl (EOFError ''terminal stream closed''), s')"
      using read_truncated [of TERMINAL_FRAME_OUTPUT p w m s d] Cons(1) by auto
    then have "terminal_loop exit_code m out s = (out @ concat (take 0 (p # ps)), Inl (CelestoError ''Shell connection closed before the shell exited.''))"
      using terminal_loop.simps [of exit_code m out s] by simp
    then show ?thesis by blast
  qed
qed



end
