(* ===== verification/Naming.thy ===== *)
theory Naming
  imports Model_Types
begin

text \<open>
  Names of computers that the user did not name (\<open>_naming.py\<close>): a scientist, on a collision with a city, at last with random
  digits. What the random generator picks is a function of the number of the call.
\<close>

section \<open>Names\<close>

definition SANDBOX_PREFIX :: string where
  "SANDBOX_PREFIX = ''sbx''"

definition SCIENTISTS :: "string list" where
  "SCIENTISTS =
    [''einstein'', ''tesla'', ''newton'', ''darwin'', ''curie'', ''hawking'', ''feynman'', ''turing'', ''lovelace'', ''edison'',
     ''galileo'', ''kepler'', ''maxwell'', ''planck'', ''bohr'', ''schrodinger'', ''heisenberg'', ''fermi'', ''oppenheimer'', ''mendel'',
     ''pasteur'', ''watson'', ''crick'', ''sagan'', ''hubble'', ''dirac'', ''faraday'', ''archimedes'', ''copernicus'', ''descartes'',
     ''euler'', ''gauss'', ''ramanujan'', ''noether'', ''hopper'', ''babbage'', ''pauling'', ''fleming'', ''jenner'', ''mendeleev'',
     ''rutherford'', ''ohm'', ''volta'', ''ampere'', ''joule'', ''kelvin'', ''leibniz'', ''pythagoras'', ''riemann'', ''fibonacci'']"

definition CITIES :: "string list" where
  "CITIES =
    [''london'', ''paris'', ''tokyo'', ''berlin'', ''madrid'', ''rome'', ''vienna'', ''oslo'', ''lisbon'', ''dublin'', ''athens'',
     ''cairo'', ''mumbai'', ''delhi'', ''beijing'', ''seoul'', ''sydney'', ''toronto'', ''boston'', ''chicago'', ''denver'', ''austin'',
     ''miami'', ''dallas'', ''seattle'', ''portland'', ''brussels'', ''prague'', ''warsaw'', ''helsinki'', ''stockholm'', ''amsterdam'',
     ''geneva'', ''kyoto'', ''bangkok'', ''jakarta'', ''bogota'', ''lima'', ''montreal'', ''vancouver'']"

definition choice :: "(nat \<Rightarrow> nat) \<Rightarrow> nat \<Rightarrow> string list \<Rightarrow> string" where
  "choice pick k xs = xs ! (pick k mod length xs)"

text \<open>The loops return the name they found, or the number of the next call of the generator.\<close>

fun city_loop :: "(nat \<Rightarrow> nat) \<Rightarrow> string set \<Rightarrow> string \<Rightarrow> nat \<Rightarrow> nat \<Rightarrow> nat + string" where
  "city_loop pick taken bare k 0 = Inl k"
| "city_loop pick taken bare k (Suc n) =
     (let qualified = bare @ ''-'' @ choice pick k CITIES
      in if qualified \<notin> taken then Inr qualified else city_loop pick taken bare (k + 1) n)"

fun scientist_loop :: "(nat \<Rightarrow> nat) \<Rightarrow> string set \<Rightarrow> string \<Rightarrow> nat \<Rightarrow> nat \<Rightarrow> nat + string" where
  "scientist_loop pick taken prefix k 0 = Inl k"
| "scientist_loop pick taken prefix k (Suc n) =
     (let bare = prefix @ ''-'' @ choice pick k SCIENTISTS
      in if bare \<notin> taken then Inr bare
         else case city_loop pick taken bare (k + 1) (length CITIES) of
             Inr name \<Rightarrow> Inr name
           | Inl k' \<Rightarrow> scientist_loop pick taken prefix k' n)"

definition generate_sandbox_name :: "(nat \<Rightarrow> nat) \<Rightarrow> string \<Rightarrow> string set \<Rightarrow> string \<Rightarrow> string" where
  "generate_sandbox_name pick uuid_hex taken prefix =
     (case scientist_loop pick taken prefix 0 (length SCIENTISTS) of
        Inr name \<Rightarrow> name
      | Inl k \<Rightarrow> prefix @ ''-'' @ choice pick k SCIENTISTS @ ''-'' @ take 6 uuid_hex)"

section \<open>Generated names are valid and new\<close>

definition plain_word :: "nat \<Rightarrow> string \<Rightarrow> bool" where
  "plain_word n w \<longleftrightarrow> w \<noteq> [] \<and> length w \<le> n \<and> list_all id_edge_char w"

lemma words_plain: "list_all (plain_word 12) SCIENTISTS" "list_all (plain_word 12) CITIES"
  by code_simp+

lemma choice_plain: "xs \<noteq> [] \<Longrightarrow> list_all (plain_word n) xs \<Longrightarrow> plain_word n (choice pick k xs)"
  by (simp add: choice_def list_all_iff)

lemma edge_is_inner: "list_all id_edge_char w \<Longrightarrow> list_all id_inner_char w"
  by (auto simp: list_all_iff id_edge_char_def id_inner_char_def)

lemma joined_valid:
  assumes "plain_word 8 a" "plain_word 12 b" "plain_word 12 c"
  shows "IDENTIFIER_PATTERN (a @ ''-'' @ b)" "IDENTIFIER_PATTERN (a @ ''-'' @ b @ ''-'' @ c)"
  using assms edge_is_inner [of a] edge_is_inner [of b] edge_is_inner [of c]
  by (auto simp: IDENTIFIER_PATTERN_def plain_word_def id_inner_char_def list_all_iff)

lemma lists_nonempty: "SCIENTISTS \<noteq> []" "CITIES \<noteq> []"
  by (simp_all add: SCIENTISTS_def CITIES_def)

lemmas choices_plain = choice_plain [OF lists_nonempty(1) words_plain(1)] choice_plain [OF lists_nonempty(2) words_plain(2)]

lemma city_loop_new: "city_loop pick taken bare k n = Inr name \<Longrightarrow> name \<notin> taken \<and> (\<exists>j. name = bare @ ''-'' @ choice pick j CITIES)"
  by (induction pick taken bare k n rule: city_loop.induct) (auto simp: Let_def split: if_splits)

lemma scientist_loop_new:
  "scientist_loop pick taken prefix k n = Inr name \<Longrightarrow> name \<notin> taken \<and>
     (\<exists>i. name = prefix @ ''-'' @ choice pick i SCIENTISTS \<or> (\<exists>j. name = prefix @ ''-'' @ choice pick i SCIENTISTS @ ''-'' @ choice pick j CITIES))"
proof (induction pick taken prefix k n rule: scientist_loop.induct)
  case (2 pick taken prefix k n)
  show ?case
  proof (cases "city_loop pick taken (prefix @ ''-'' @ choice pick k SCIENTISTS) (k + 1) (length CITIES)")
    case (Inl k')
    then show ?thesis using 2 by (auto simp: Let_def split: if_splits)
  next
    case (Inr y)
    from city_loop_new [OF this] show ?thesis using "2.prems" Inr by (auto simp: Let_def split: if_splits)
  qed
qed simp



end
