(* ===== verification/Spec2Isabelle.thy ===== *)
theory Spec2Isabelle
  imports Memory_Props Sqlite_Props Public_Egress Egress_Session Backend_Select Internet_Policy Mac_Address Manager_Pools Manager_Guard Egress_Relay Restore_Props Command_Stream Guest_Files Terminal_Frames Naming
begin

text \<open>
  Celesto runs sandboxed computers (virtual machines) on the user's own host. This library models the Python
  package \<open>src/src/celesto\<close> and proves what its core promises.

  \<^bold>\<open>The program.\<close> A \<open>CelestoManager\<close> (\<open>vm.py\<close>) creates, starts, stops, pauses and deletes computers. It keeps its
  inventory in a state manager: \<open>MemoryStateManager\<close> (\<open>storage/_memory.py\<close>) or \<open>SQLiteStateManager\<close> (\<open>cli/_sqlite.py\<close>),
  both behind \<open>StateManagerProtocol\<close>. The state manager also hands out addresses, ports, vsock identifiers and interface
  names from pools (\<open>storage/_base.py\<close>). Configurations are checked by the models of \<open>types.py\<close>; the backend and
  the control channel are chosen by \<open>runtime/backends.py\<close> and \<open>comm/select.py\<close>; a computer with public access sends
  its traffic through a proxy that a session (\<open>host/_public_egress_session.py\<close>) starts and stops and whose
  decisions are those of \<open>host/_public_egress.py\<close>. Environment variables of a guest are kept in a shell script (\<open>env.py\<close>).
  Commands, shells and files of a guest go over a channel to its agent (\<open>comm/rust_http_vsock_channel.py\<close>, with the event streams of
  \<open>_streaming.py\<close>); a computer that the user does not name gets a name from \<open>_naming.py\<close>.

  \<^bold>\<open>The theories.\<close>
  \<^item> \<open>Prelude\<close>: results and errors as sums, association lists with distinct keys, scans of integer ranges, strings.
  \<^item> \<open>Ip_Pool\<close>, \<open>Model_Types\<close>: the pools of \<open>storage/_base.py\<close>; enumerations, records and updates of \<open>types.py\<close>.
  \<^item> \<open>Allocator\<close>, \<open>Vm_Registry\<close>: two interfaces as locales. An allocator keeps its claims exclusive; a registry of computers
    refines a map from identifiers to rows. Both state managers interpret them.
  \<^item> \<open>Memory_Store\<close>, \<open>Memory_Props\<close> and \<open>Sqlite_Store\<close>, \<open>Sqlite_Props\<close>: every operation of the two state managers, their
    reachable states and their properties. The database is a record of tables; its constraints are checked by the inserts,
    and a transaction that raises leaves the database as it was.
  \<^item> \<open>Ip_Address\<close>, \<open>Public_Egress\<close>, \<open>Egress_Session\<close>: addresses and networks of the standard library, the classification of
    destinations and the decision on a connection, the session and its controller as state machines.
  \<^item> \<open>Env_Vars\<close>, \<open>Vm_Rules\<close>, \<open>Internet_Policy\<close>, \<open>Backend_Select\<close>, \<open>Mac_Address\<close>: quoting and parsing of the environment
    script, the validators of the configuration, the normal forms of address ranges and domains, the choice of backend and
    channel, hardware addresses.
  \<^item> \<open>Effects\<close>: operations that read and change a state and may raise, with preconditions (\<open>wpre\<close>) and invariants (\<open>keeps\<close>).
  \<^item> \<open>Manager\<close>, \<open>Manager_Resources\<close>: the manager. Its state is the record \<open>manager\<close> (the inventory, the sessions, the active
    operations, the closing flags, the processes that were launched); the host is the record \<open>world\<close>, whose fields answer
    every call of a runtime adapter, a network command, a disk command or a probe, at each point of time as they like.
  \<^item> \<open>Manager_Contract\<close>, \<open>Manager_Guarantees\<close>: the locale \<open>vm_rows\<close>, what the manager relies on from a state manager, and the
    invariants of every operation proved once in it; its interpretation on the in-memory state manager.
  \<^item> \<open>Manager_Props\<close>, \<open>Manager_Pools\<close>: the properties of the manager. \<open>Manager_Guard\<close>: concurrent calls of one manager as
    interleavings of the sections that its operation lock makes atomic.
  \<^item> \<open>Disk_Artifacts\<close>: the files of a computer in the data directory, their removal with the computer and the sweep for
    leftovers, on a list of directory entries.
  \<^item> \<open>Snapshots\<close>: taking, restoring, deleting and finding snapshots (\<open>create_snapshot\<close>, \<open>restore_snapshot\<close>, \<open>delete_snapshot\<close>,
    \<open>get_snapshot\<close>, \<open>list_snapshots\<close> of \<open>vm.py\<close>), on a manager with snapshot directories and disk files. Adapters, locks and file
    operations are fields of the record \<open>snap_world\<close>. \<open>Snapshot_Props\<close>: the locale \<open>snapshot_rows\<close>, which adds the table of snapshots to
    the contract \<open>vm_rows\<close>, the outcome of taking and deleting a snapshot in it, and its interpretation on the in-memory state manager.
    \<open>Restore_Props\<close>: the disk files at every point of a restore.
  \<^item> \<open>Egress_Proxy\<close>, \<open>Egress_Proxy_Props\<close>, \<open>Egress_Relay\<close>: the proxy (\<open>host/_public_egress_proxy.py\<close>), which reads, checks and
    rewrites the requests of a guest, and the relay (\<open>host/_public_egress_relay.py\<close>) between the guest and the proxy. The sockets
    answer as they like.
  \<^item> \<open>Command_Stream\<close>: the events of a running command, cut out of the chunks of a response (\<open>_streaming.py\<close>, \<open>run_stream\<close>).
    \<open>Terminal_Frames\<close>: the length-prefixed frames of a shell. \<open>Guest_Files\<close>: the extraction of an archive that a guest sends.
    \<open>Naming\<close>: the generated names of computers.

  \<^bold>\<open>What is shown.\<close> Reserved resources are exclusive in every reachable state of both state managers, locks are those of the
  current reservations, and both implement one registry. Public egress fails closed, a session never loses a proxy, and
  the manager never lets a guest with public access run without its proxy, whatever fails. Statuses follow the
  life cycle. Searches end and return what is free. Validators accept exactly the stated configurations, and
  normal forms keep their meaning. Parsing inverts printing. The proxy connects to public addresses only and forwards the request
  it checked; the relay neither loses nor reorders bytes. A requested close of the manager is never lost. Removing a
  computer touches its own files only, and what the user asked to keep survives deletion and sweeps. Taking a
  snapshot adds its record and nothing else, a snapshot is found again by its manifest alone, deleting it removes its record only, and a failed restore
  leaves every disk as it was. Events of a command and output of a shell arrive whole and in order
  however the transport cuts them, the archive of a guest writes below its destination only, and generated names are valid names.

  \<^bold>\<open>Errors, loops and bounds.\<close> An exception is the left summand of a result; a model operation has a branch for every
  exception its source raises or lets through. Message texts are shortened. The loops of
  the proxy and of the relay end by a measure on what their sockets still deliver. The only fuel is that of the search for an SSH port:
  it is one more than the number of ports of the pool, and \<open>ssh_port_search_ends\<close> shows that it is never used up.
  Integers of the source are unbounded, so they are \<open>int\<close> here.

  \<^bold>\<open>Not modelled.\<close> Logging and telemetry; time-outs and clocks; the content of disks and files, which the host answers for (in \<open>Snapshots\<close> a disk content is a number);
  attaching folders to a computer; the capture and the loading of an image and the recovery of interrupted captures, which are the adapter's;
  the HTTP requests of the guest agent channel and the keyboard side of a shell;
  the asynchronous twins of the manager's operations, which run the same steps; the runtime adapters, which are
  input and output; the thread that accepts the connections of the proxy; the facade, the command line, the server, the dashboard, the image builder, and the generated
  cloud client.
\<close>

end
